(* ===== verification/Prelude.thy ===== *)
theory Prelude
  imports Complex_Main "HOL-Library.AList" "HOL-Library.Sublist"
begin

section \<open>Prelude: vocabulary and automation shared by every component\<close>

text \<open>
  Generic material on lists, association lists and options that several component
  theories use, and the theorem collections they fill:
  \<^item> \<open>store_simps\<close> evaluates reads after writes on the modelled Redis;
  \<^item> \<open>key_simps\<close> decides which Redis key patterns are equal;
  \<^item> \<open>step_intros\<close> holds the introduction rules of the step relations.
  A Python exception, error return or early return is a value of a sum type
  (\<open>Inl\<close> the error), a Python \<open>None\<close> is an option, a Python \<open>dict\<close> whose order or
  whose enumeration matters is an association list read with \<open>map_of\<close>.
\<close>

named_theorems store_simps "reads after writes on the Redis model"
named_theorems key_simps "equalities between Redis key patterns"
named_theorems step_intros "introduction rules of the step relations"

type_synonym secs = rat

subsection \<open>Dictionaries as association lists\<close>

text \<open>\<open>dict_set\<close> is Python's \<open>d[k] = v\<close>: an existing key keeps its place, a new key
  goes to the end (insertion order).\<close>

fun dict_set :: "('k \<times> 'v) list \<Rightarrow> 'k \<Rightarrow> 'v \<Rightarrow> ('k \<times> 'v) list" where
  "dict_set [] k v = [(k, v)]"
| "dict_set ((k', v') # d) k v = (if k' = k then (k, v) # d else (k', v') # dict_set d k v)"

definition dict_update :: "('k \<times> 'v) list \<Rightarrow> ('k \<times> 'v) list \<Rightarrow> ('k \<times> 'v) list" where
  "dict_update d e = foldl (\<lambda>acc kv. dict_set acc (fst kv) (snd kv)) d e"

definition dict_del :: "('k \<times> 'v) list \<Rightarrow> 'k \<Rightarrow> ('k \<times> 'v) list" where
  "dict_del d k = filter (\<lambda>kv. fst kv \<noteq> k) d"

lemma map_of_dict_set [simp, store_simps]:
  "map_of (dict_set d k v) k' = (if k' = k then Some v else map_of d k')"
  by (induction d k v rule: dict_set.induct) auto

lemma map_of_dict_del [simp, store_simps]:
  "map_of (dict_del d k) k' = (if k' = k then None else map_of d k')"
  by (induction d) (auto simp: dict_del_def)

lemma map_of_dict_update:
  "map_of (dict_update d e) k = (case map_of (rev e) k of None \<Rightarrow> map_of d k | Some v \<Rightarrow> Some v)"
  by (induction e arbitrary: d rule: rev_induct) (auto simp: dict_update_def split: prod.splits)

lemma keys_dict_set: "set (map fst (dict_set d k v)) = insert k (set (map fst d))"
  by (induction d k v rule: dict_set.induct) auto

lemma keys_dict_del: "set (map fst (dict_del d k)) = set (map fst d) - {k}"
  by (auto simp: dict_del_def)

lemma distinct_dict_set: "distinct (map fst d) \<Longrightarrow> distinct (map fst (dict_set d k v))"
  by (induction d k v rule: dict_set.induct) (auto simp: keys_dict_set simp flip: set_map)

lemma distinct_dict_del: "distinct (map fst d) \<Longrightarrow> distinct (map fst (dict_del d k))"
  by (induction d) (auto simp: dict_del_def)

lemma dict_set_fresh: "k \<notin> set (map fst d) \<Longrightarrow> dict_set d k v = d @ [(k, v)]"
  by (induction d k v rule: dict_set.induct) auto

lemma dict_del_set_fresh: "k \<notin> set (map fst d) \<Longrightarrow> dict_del (dict_set d k v) k = d"
  by (auto simp: dict_set_fresh dict_del_def filter_id_conv)

lemma distinct_dict_update: "distinct (map fst d) \<Longrightarrow> distinct (map fst (dict_update d e))"
  by (induction e rule: rev_induct) (simp_all add: dict_update_def distinct_dict_set)

lemma keys_dict_update: "set (map fst (dict_update d e)) = set (map fst d) \<union> set (map fst e)"
proof (induction e rule: rev_induct)
  case (snoc x xs)
  have "dict_update d (xs @ [x]) = dict_set (dict_update d xs) (fst x) (snd x)"
    by (simp add: dict_update_def)
  with snoc show ?case by (simp only: keys_dict_set) auto
qed (simp add: dict_update_def)

lemma map_of_rev_eq:
  assumes "distinct (map fst xs)"
  shows "map_of (rev xs) = map_of xs"
proof
  fix k
  have "map_of (rev xs) k = Some v \<longleftrightarrow> map_of xs k = Some v" for v
    using assms by (simp add: map_of_eq_Some_iff rev_map [symmetric])
  then show "map_of (rev xs) k = map_of xs k" by (metis not_Some_eq)
qed

lemma map_of_dict_update_distinct:
  "distinct (map fst e) \<Longrightarrow>
   map_of (dict_update d e) k = (case map_of e k of None \<Rightarrow> map_of d k | Some v \<Rightarrow> Some v)"
  by (simp add: map_of_dict_update map_of_rev_eq)

subsection \<open>Trying candidates in order\<close>

text \<open>
  The loop shape of \<open>for p in profiles: ok = attempt(p); if ok: return p\<close>, with the state
  threaded through the attempts.
\<close>

fun first_accepted :: "('s \<Rightarrow> 'p \<Rightarrow> 's \<times> bool) \<Rightarrow> 's \<Rightarrow> 'p list \<Rightarrow> 's \<times> 'p option" where
  "first_accepted attempt s [] = (s, None)"
| "first_accepted attempt s (p # ps) =
     (case attempt s p of
        (s', True) \<Rightarrow> (s', Some p)
      | (s', False) \<Rightarrow> first_accepted attempt s' ps)"

lemma first_accepted_in: "first_accepted attempt s ps = (s', Some p) \<Longrightarrow> p \<in> set ps"
  by (induction attempt s ps rule: first_accepted.induct) (auto split: prod.splits bool.splits)

subsection \<open>Lists\<close>

lemma find_Some_in: "find P xs = Some x \<Longrightarrow> x \<in> set xs \<and> P x"
  by (induction xs) (auto split: if_splits)

lemma find_None_all: "find P xs = None \<longleftrightarrow> (\<forall>x \<in> set xs. \<not> P x)"
  by (induction xs) auto

lemma set_map_filter: "set (List.map_filter f xs) = {y. \<exists>x \<in> set xs. f x = Some y}"
  by (induction xs) (auto simp: List.map_filter_simps split: option.splits)

end
