(* ===== verification/Py_Text.thy ===== *)
theory Py_Text
  imports Prelude
begin

section \<open>The Python string operations the components use\<close>

text \<open>
  Strings are \<open>char list\<close>s; WSGI decodes header bytes as Latin-1, so a character is one
  byte here as it is there. The operations are the standard library's: \<open>str.startswith\<close>,
  \<open>str.strip\<close>, \<open>str.split(sep, 1)\<close>, \<open>str.rsplit(sep, 1)\<close>, \<open>str.isascii() and
  str.isdigit()\<close>, \<open>int(text)\<close> on ASCII digits and the decimal rendering of an integer in
  an f-string, with the round trip between the last two.
\<close>

subsection \<open>Digits and decimal numerals\<close>

definition digit_char :: "nat \<Rightarrow> char" where
  "digit_char d = ''0123456789'' ! d"

definition is_digit :: "char \<Rightarrow> bool" where
  "is_digit c \<longleftrightarrow> c \<in> set ''0123456789''"

definition digit_val :: "char \<Rightarrow> nat" where
  "digit_val c = of_char c - 48"

fun show_nat :: "nat \<Rightarrow> string" where
  "show_nat n = (if n < 10 then [digit_char n] else show_nat (n div 10) @ [digit_char (n mod 10)])"

declare show_nat.simps [simp del]

definition show_int :: "int \<Rightarrow> string" where
  "show_int i = (if i < 0 then CHR ''-'' # show_nat (nat (- i)) else show_nat (nat i))"

text \<open>\<open>nat_of_digits\<close> is \<open>int(text)\<close> on a text that \<open>all_digits\<close> accepts.\<close>

definition nat_of_digits :: "string \<Rightarrow> nat" where
  "nat_of_digits s = foldl (\<lambda>n c. 10 * n + digit_val c) 0 s"

definition all_digits :: "string \<Rightarrow> bool" where
  "all_digits s \<longleftrightarrow> s \<noteq> [] \<and> list_all is_digit s"

lemma less_10_cases:
  assumes "(d::nat) < 10"
  obtains "d = 0" | "d = 1" | "d = 2" | "d = 3" | "d = 4" | "d = 5" | "d = 6" | "d = 7"
    | "d = 8" | "d = 9"
proof -
  have "d = 0 \<or> d = 1 \<or> d = 2 \<or> d = 3 \<or> d = 4 \<or> d = 5 \<or> d = 6 \<or> d = 7 \<or> d = 8 \<or> d = 9"
    using assms by presburger
  then show ?thesis using that by blast
qed

lemma digit_val_char [simp]: "d < 10 \<Longrightarrow> digit_val (digit_char d) = d"
  by (erule less_10_cases) (simp_all add: digit_char_def digit_val_def)

lemma is_digit_char [simp]: "d < 10 \<Longrightarrow> is_digit (digit_char d)"
  by (erule less_10_cases) (simp_all add: digit_char_def is_digit_def)

lemma digit_val_less: "is_digit c \<Longrightarrow> digit_val c < 10"
  by (auto simp: digit_val_def is_digit_def)

lemma nat_of_digits_snoc [simp]: "nat_of_digits (s @ [c]) = 10 * nat_of_digits s + digit_val c"
  by (simp add: nat_of_digits_def)

lemma nat_of_digits_show_nat [simp]: "nat_of_digits (show_nat n) = n"
proof (induction n rule: show_nat.induct)
  case (1 n)
  then show ?case
    by (cases "n < 10") (auto simp: show_nat.simps [of n] nat_of_digits_def)
qed

lemma show_nat_nonempty [simp]: "show_nat n \<noteq> []"
  by (subst show_nat.simps) simp

lemma digits_show_nat: "list_all is_digit (show_nat n)"
proof (induction n rule: show_nat.induct)
  case (1 n)
  then show ?case
    by (cases "n < 10") (auto simp: show_nat.simps [of n])
qed

lemma all_digits_show_nat [simp]: "all_digits (show_nat n)"
  by (simp add: all_digits_def digits_show_nat)

lemma show_nat_inject [simp]: "show_nat m = show_nat n \<longleftrightarrow> m = n"
  by (metis nat_of_digits_show_nat)

lemma not_digit_in_show_nat: "\<not> is_digit c \<Longrightarrow> c \<notin> set (show_nat n)"
  using digits_show_nat [of n] by (auto simp: list_all_iff)

lemma show_nat_not_minus [simp]: "show_nat n \<noteq> CHR ''-'' # s"
  using not_digit_in_show_nat [of "CHR ''-''" n] by (auto simp: is_digit_def)

lemma show_int_inject [simp, key_simps]: "show_int i = show_int j \<longleftrightarrow> i = j"
  by (auto simp: show_int_def dest: sym)

lemma not_colon_in_show_int [simp]: "CHR '':'' \<notin> set (show_int i)"
  using not_digit_in_show_nat [of "CHR '':''"] by (simp add: show_int_def is_digit_def)

subsection \<open>Prefixes, splitting and stripping\<close>

definition starts_with :: "string \<Rightarrow> string \<Rightarrow> bool" where
  "starts_with pre s \<longleftrightarrow> take (length pre) s = pre"

definition ends_with :: "string \<Rightarrow> string \<Rightarrow> bool" where
  "ends_with suf s \<longleftrightarrow> starts_with (rev suf) (rev s)"

text \<open>\<open>str.isspace\<close> on the Latin-1 range.\<close>

definition is_space :: "char \<Rightarrow> bool" where
  "is_space c \<longleftrightarrow>
     (let n = (of_char c :: nat)
      in 9 \<le> n \<and> n \<le> 13 \<or> 28 \<le> n \<and> n \<le> 32 \<or> n = 133 \<or> n = 160)"

definition lstrip :: "string \<Rightarrow> string" where
  "lstrip s = dropWhile is_space s"

definition strip :: "string \<Rightarrow> string" where
  "strip s = rev (lstrip (rev (lstrip s)))"

text \<open>\<open>split_once c s\<close>: \<open>s.split(c, 1)\<close> for a separator that occurs, \<open>None\<close> when it does not.\<close>

definition split_once :: "char \<Rightarrow> string \<Rightarrow> (string \<times> string) option" where
  "split_once c s =
     (if c \<in> set s then Some (takeWhile (\<lambda>x. x \<noteq> c) s, tl (dropWhile (\<lambda>x. x \<noteq> c) s)) else None)"

definition rsplit_once :: "char \<Rightarrow> string \<Rightarrow> (string \<times> string) option" where
  "rsplit_once c s =
     (case split_once c (rev s) of None \<Rightarrow> None | Some (a, b) \<Rightarrow> Some (rev b, rev a))"

lemma starts_with_append [simp]: "starts_with pre (pre @ s)"
  by (simp add: starts_with_def)

lemma starts_with_iff: "starts_with pre s \<longleftrightarrow> (\<exists>t. s = pre @ t)"
  unfolding starts_with_def by (metis append_eq_conv_conj append_take_drop_id)

lemma split_once_join:
  assumes "c \<notin> set a"
  shows "split_once c (a @ c # b) = Some (a, b)"
proof -
  have all: "\<And>x. x \<in> set a \<Longrightarrow> x \<noteq> c" using assms by metis
  have "takeWhile (\<lambda>x. x \<noteq> c) (a @ c # b) = a"
    by (subst takeWhile_append2 [OF all]) simp_all
  moreover have "dropWhile (\<lambda>x. x \<noteq> c) (a @ c # b) = c # b"
    by (subst dropWhile_append2 [OF all]) simp_all
  ultimately show ?thesis by (simp add: split_once_def)
qed

lemma split_once_SomeD:
  assumes "split_once c s = Some (a, b)"
  shows "s = a @ c # b" and "c \<notin> set a"
proof -
  from assms have cs: "c \<in> set s" and a: "a = takeWhile (\<lambda>x. x \<noteq> c) s"
    and b: "b = tl (dropWhile (\<lambda>x. x \<noteq> c) s)"
    by (auto simp: split_once_def split: if_splits)
  from cs have ne: "dropWhile (\<lambda>x. x \<noteq> c) s \<noteq> []" by (auto simp: dropWhile_eq_Nil_conv)
  then have "hd (dropWhile (\<lambda>x. x \<noteq> c) s) = c" using hd_dropWhile [OF ne] by simp
  with ne obtain d where d: "dropWhile (\<lambda>x. x \<noteq> c) s = c # d"
    by (cases "dropWhile (\<lambda>x. x \<noteq> c) s") auto
  have "s = takeWhile (\<lambda>x. x \<noteq> c) s @ dropWhile (\<lambda>x. x \<noteq> c) s" by simp
  with a b d show "s = a @ c # b" by simp
  show "c \<notin> set a" using a by (auto dest: set_takeWhileD)
qed

lemma rsplit_once_join: "c \<notin> set b \<Longrightarrow> rsplit_once c (a @ c # b) = Some (a, b)"
  by (simp add: rsplit_once_def split_once_join)

text \<open>A text with no space at either end is unchanged by \<open>strip\<close>.\<close>

lemma strip_id:
  assumes "s = [] \<or> (\<not> is_space (hd s) \<and> \<not> is_space (last s))"
  shows "strip s = s"
proof (cases s rule: rev_cases)
  case Nil
  then show ?thesis by (simp add: strip_def lstrip_def)
next
  case (snoc ys y)
  with assms have "\<not> is_space (hd s)" by simp
  then have "lstrip s = s" by (cases s) (simp_all add: lstrip_def)
  moreover from snoc assms have "lstrip (rev s) = rev s" by (auto simp: lstrip_def)
  ultimately show ?thesis by (simp add: strip_def)
qed

lemma digit_not_space [simp]: "is_digit c \<Longrightarrow> \<not> is_space c"
  by (auto simp: is_digit_def is_space_def Let_def)

lemma hd_show_nat_digit [simp]: "is_digit (hd (show_nat n))"
  using digits_show_nat [of n] by (cases "show_nat n") auto

lemma last_show_nat_digit [simp]: "is_digit (last (show_nat n))"
  using digits_show_nat [of n] by (cases "show_nat n" rule: rev_cases) auto

subsection \<open>Splitting on every separator: \<open>s.split(c)\<close>\<close>

fun split_on :: "char \<Rightarrow> string \<Rightarrow> string list" where
  "split_on c [] = [[]]"
| "split_on c (x # xs) =
     (if x = c then [] # split_on c xs
      else (case split_on c xs of y # ys \<Rightarrow> (x # y) # ys | [] \<Rightarrow> [[x]]))"

lemma split_on_none: "c \<notin> set s \<Longrightarrow> split_on c s = [s]"
  by (induction s) auto

lemma split_on_append: "c \<notin> set a \<Longrightarrow> split_on c (a @ c # b) = a # split_on c b"
  by (induction a) auto

subsection \<open>Integers from text\<close>

text \<open>
  \<open>int(text)\<close>: spaces around it are skipped, a sign and single underscores between the digits
  are taken, and anything else raises \<open>ValueError\<close>, which is \<open>None\<close>.
\<close>

fun underscores_ok :: "string \<Rightarrow> bool" where
  "underscores_ok [] = False"
| "underscores_ok [c] = is_digit c"
| "underscores_ok (c # d # s) =
     (is_digit c \<and> (if d = CHR ''_'' then underscores_ok s else underscores_ok (d # s)))"

definition parse_unsigned :: "string \<Rightarrow> int option" where
  "parse_unsigned s =
     (if underscores_ok s then Some (int (nat_of_digits (filter is_digit s))) else None)"

definition parse_int :: "string \<Rightarrow> int option" where
  "parse_int text =
     (case strip text of
        [] \<Rightarrow> None
      | c # s \<Rightarrow> if c = CHR ''-'' then map_option uminus (parse_unsigned s)
                 else if c = CHR ''+'' then parse_unsigned s
                 else parse_unsigned (c # s))"

lemma underscores_digits: "s \<noteq> [] \<Longrightarrow> list_all is_digit s \<Longrightarrow> underscores_ok s"
  by (induction s rule: underscores_ok.induct) (auto simp: is_digit_def)

lemma parse_int_show_nat [simp]: "parse_int (show_nat n) = Some (int n)"
proof -
  have s: "strip (show_nat n) = show_nat n" by (rule strip_id) simp
  have f: "filter is_digit (show_nat n) = show_nat n"
    using digits_show_nat [of n] by (simp add: filter_id_conv list_all_iff)
  have u: "parse_unsigned (show_nat n) = Some (int n)"
    using underscores_digits [OF show_nat_nonempty digits_show_nat] by (simp add: parse_unsigned_def f)
  obtain c t where ct: "show_nat n = c # t" by (cases "show_nat n") auto
  have "is_digit c" using hd_show_nat_digit [of n] by (simp add: ct)
  then have "c \<noteq> CHR ''-''" "c \<noteq> CHR ''+''" by (auto simp: is_digit_def)
  with s u show ?thesis by (simp add: parse_int_def ct)
qed

end
