(* ===== verification/Redis_Store.thy ===== *)
theory Redis_Store
  imports Py_Text
begin

section \<open>The shared Redis keyspace\<close>

text \<open>
  Every component keeps its cross-process state in one Redis keyspace: plain values
  (counters, pointers, locks) and hashes (VOD sessions, catch-up pool entries). The state
  is one association list from keys to objects, so that a scan can enumerate it, and the
  expiry each key carries. A Redis value is a byte string; \<open>RInt\<close> is one that reads as an
  integer, \<open>RDec\<close> one that reads as a decimal, \<open>RText\<close> any other text. A read of a key of
  the wrong type, which Redis answers with an error, gives \<open>None\<close>: the key families of
  different types are disjoint (theory \<open>Redis_Keys\<close>). Time passing is the step
  \<open>expire_now\<close>, which removes one key.
\<close>

datatype rval = RInt int | RDec rat | RText string

type_synonym rhash = "(string \<times> rval) list"

datatype robj = RStr rval | RHash rhash

record redis =
  objs :: "(string \<times> robj) list"
  ttls :: "(string \<times> int) list"

definition empty_redis :: redis where
  "empty_redis = \<lparr>objs = [], ttls = []\<rparr>"

subsection \<open>Reading a value as the callers do\<close>

text \<open>Python truthiness of a reply: \<open>None\<close> and the empty string are false.\<close>

fun truthy :: "rval option \<Rightarrow> bool" where
  "truthy None = False"
| "truthy (Some (RText s)) = (s \<noteq> [])"
| "truthy (Some _) = True"

text \<open>Python's \<open>int(reply)\<close>, \<open>None\<close> where it raises \<open>ValueError\<close> or \<open>TypeError\<close>.\<close>

fun py_int :: "rval option \<Rightarrow> int option" where
  "py_int (Some (RInt n)) = Some n"
| "py_int _ = None"

text \<open>Python's \<open>float(reply)\<close>.\<close>

fun py_float :: "rval option \<Rightarrow> rat option" where
  "py_float (Some (RInt n)) = Some (of_int n)"
| "py_float (Some (RDec q)) = Some q"
| "py_float _ = None"

text \<open>
  Lua's \<open>tonumber(redis.call('GET', k) or '0') or 0\<close>. The scripts only ever write
  integers; a decimal, which no writer stores in a counter, reads as its floor here.
\<close>

fun lua_num :: "rval option \<Rightarrow> int" where
  "lua_num (Some (RInt n)) = n"
| "lua_num (Some (RDec q)) = \<lfloor>q\<rfloor>"
| "lua_num _ = 0"

subsection \<open>String commands\<close>

definition rget :: "redis \<Rightarrow> string \<Rightarrow> rval option" where
  "rget r k = (case map_of (objs r) k of Some (RStr v) \<Rightarrow> Some v | _ \<Rightarrow> None)"

definition rexists :: "redis \<Rightarrow> string \<Rightarrow> bool" where
  "rexists r k \<longleftrightarrow> map_of (objs r) k \<noteq> None"

definition rset :: "redis \<Rightarrow> string \<Rightarrow> rval \<Rightarrow> redis" where
  "rset r k v = r\<lparr>objs := dict_set (objs r) k (RStr v), ttls := dict_del (ttls r) k\<rparr>"

definition rset_ex :: "redis \<Rightarrow> string \<Rightarrow> rval \<Rightarrow> int \<Rightarrow> redis" where
  "rset_ex r k v t = r\<lparr>objs := dict_set (objs r) k (RStr v), ttls := dict_set (ttls r) k t\<rparr>"

text \<open>\<open>SET k v NX EX t\<close>: the reply is whether the key was absent and is now set.\<close>

definition rset_nx_ex :: "redis \<Rightarrow> string \<Rightarrow> rval \<Rightarrow> int \<Rightarrow> redis \<times> bool" where
  "rset_nx_ex r k v t = (if rexists r k then (r, False) else (rset_ex r k v t, True))"

definition rdel :: "redis \<Rightarrow> string \<Rightarrow> redis" where
  "rdel r k = r\<lparr>objs := dict_del (objs r) k, ttls := dict_del (ttls r) k\<rparr>"

text \<open>
  \<open>INCR\<close>: an absent key counts from zero; the expiry stays. On a non-integer Redis replies
  with an error and writes nothing.
\<close>

definition rincr :: "redis \<Rightarrow> string \<Rightarrow> redis" where
  "rincr r k =
     (case map_of (objs r) k of
        None \<Rightarrow> r\<lparr>objs := dict_set (objs r) k (RStr (RInt 1))\<rparr>
      | Some (RStr (RInt n)) \<Rightarrow> r\<lparr>objs := dict_set (objs r) k (RStr (RInt (n + 1)))\<rparr>
      | _ \<Rightarrow> r)"

definition rexpire :: "redis \<Rightarrow> string \<Rightarrow> int \<Rightarrow> redis" where
  "rexpire r k t = (if rexists r k then r\<lparr>ttls := dict_set (ttls r) k t\<rparr> else r)"

definition rttl :: "redis \<Rightarrow> string \<Rightarrow> int option" where
  "rttl r k = map_of (ttls r) k"

text \<open>The environment's step: a key with an expiry reaches it.\<close>

definition expire_now :: "redis \<Rightarrow> string \<Rightarrow> redis" where
  "expire_now r k = (if rttl r k = None then r else rdel r k)"

subsection \<open>Hash commands\<close>

definition rhgetall :: "redis \<Rightarrow> string \<Rightarrow> rhash" where
  "rhgetall r k = (case map_of (objs r) k of Some (RHash h) \<Rightarrow> h | _ \<Rightarrow> [])"

definition rhget :: "redis \<Rightarrow> string \<Rightarrow> string \<Rightarrow> rval option" where
  "rhget r k f = map_of (rhgetall r k) f"

definition rhset_all :: "redis \<Rightarrow> string \<Rightarrow> rhash \<Rightarrow> redis" where
  "rhset_all r k m =
     (case map_of (objs r) k of
        None \<Rightarrow> r\<lparr>objs := dict_set (objs r) k (RHash (dict_update [] m))\<rparr>
      | Some (RHash h) \<Rightarrow> r\<lparr>objs := dict_set (objs r) k (RHash (dict_update h m))\<rparr>
      | Some (RStr _) \<Rightarrow> r)"

definition rhset :: "redis \<Rightarrow> string \<Rightarrow> string \<Rightarrow> rval \<Rightarrow> redis" where
  "rhset r k f v = rhset_all r k [(f, v)]"

text \<open>\<open>SCAN MATCH prefix*\<close>, restricted to hashes: the keys in the keyspace's own order.\<close>

fun is_hash :: "robj \<Rightarrow> bool" where
  "is_hash (RHash _) = True"
| "is_hash (RStr _) = False"

definition scan_hashes :: "redis \<Rightarrow> string \<Rightarrow> string list" where
  "scan_hashes r pre = map fst (filter (\<lambda>(k, v). starts_with pre k \<and> is_hash v) (objs r))"

definition scan_keys :: "redis \<Rightarrow> string \<Rightarrow> string list" where
  "scan_keys r pre = filter (starts_with pre) (map fst (objs r))"

subsection \<open>Reads after writes\<close>

lemma rget_empty [store_simps, simp]: "rget empty_redis k = None"
  by (simp add: rget_def empty_redis_def)

lemma rexists_empty [simp]: "\<not> rexists empty_redis k"
  by (simp add: rexists_def empty_redis_def)

lemma rget_rset [store_simps]: "rget (rset r k v) k' = (if k' = k then Some v else rget r k')"
  by (simp add: rget_def rset_def)

lemma rget_rset_ex [store_simps]:
  "rget (rset_ex r k v t) k' = (if k' = k then Some v else rget r k')"
  by (simp add: rget_def rset_ex_def)

lemma rget_rdel [store_simps]: "rget (rdel r k) k' = (if k' = k then None else rget r k')"
  by (simp add: rget_def rdel_def)

lemma rget_rexpire [store_simps]: "rget (rexpire r k t) k' = rget r k'"
  by (simp add: rget_def rexpire_def)

lemma rget_rincr_other [store_simps]: "k' \<noteq> k \<Longrightarrow> rget (rincr r k) k' = rget r k'"
  by (auto simp: rget_def rincr_def split: option.splits robj.splits rval.splits)

lemma rget_rincr_int: "rget r k = Some (RInt n) \<Longrightarrow> rget (rincr r k) k = Some (RInt (n + 1))"
  by (auto simp: rget_def rincr_def split: option.splits robj.splits)

lemma rget_rincr_absent: "\<not> rexists r k \<Longrightarrow> rget (rincr r k) k = Some (RInt 1)"
  by (auto simp: rget_def rincr_def rexists_def split: option.splits)

lemma rget_rhset_all [store_simps]: "rget (rhset_all r k m) k' = rget r k'"
  by (auto simp: rget_def rhset_all_def split: option.splits robj.splits)

lemma rget_rhset [store_simps]: "rget (rhset r k f v) k' = rget r k'"
  by (simp add: rhset_def store_simps)

lemma rexists_rset [store_simps]: "rexists (rset r k v) k' \<longleftrightarrow> k' = k \<or> rexists r k'"
  by (auto simp: rexists_def rset_def)

lemma rexists_rset_ex [store_simps]: "rexists (rset_ex r k v t) k' \<longleftrightarrow> k' = k \<or> rexists r k'"
  by (auto simp: rexists_def rset_ex_def)

lemma rexists_rdel [store_simps]: "rexists (rdel r k) k' \<longleftrightarrow> k' \<noteq> k \<and> rexists r k'"
  by (auto simp: rexists_def rdel_def)

lemma rexists_rexpire [store_simps]: "rexists (rexpire r k t) k' \<longleftrightarrow> rexists r k'"
  by (simp add: rexists_def rexpire_def)

lemma rget_Some_exists: "rget r k = Some v \<Longrightarrow> rexists r k"
  by (auto simp: rget_def rexists_def split: option.splits)

lemma not_exists_rget: "\<not> rexists r k \<Longrightarrow> rget r k = None"
  by (simp add: rget_def rexists_def)

lemma rhgetall_rset [store_simps]:
  "rhgetall (rset r k v) k' = (if k' = k then [] else rhgetall r k')"
  by (simp add: rhgetall_def rset_def)

lemma rhgetall_rset_ex [store_simps]:
  "rhgetall (rset_ex r k v t) k' = (if k' = k then [] else rhgetall r k')"
  by (simp add: rhgetall_def rset_ex_def)

lemma rhgetall_rdel [store_simps]:
  "rhgetall (rdel r k) k' = (if k' = k then [] else rhgetall r k')"
  by (simp add: rhgetall_def rdel_def)

lemma rhgetall_rexpire [store_simps]: "rhgetall (rexpire r k t) k' = rhgetall r k'"
  by (simp add: rhgetall_def rexpire_def)

lemma rhgetall_rincr [store_simps]: "rhgetall (rincr r k) k' = rhgetall r k'"
  by (auto simp: rhgetall_def rincr_def split: option.splits robj.splits rval.splits)

lemma rhget_rhset_all:
  "map_of (objs r) k = Some (RHash h) \<Longrightarrow>
   rhget (rhset_all r k m) k' f =
     (if k' = k then (case map_of (rev m) f of None \<Rightarrow> map_of h f | Some v \<Rightarrow> Some v)
      else rhget r k' f)"
  by (simp add: rhget_def rhgetall_def rhset_all_def map_of_dict_update)

lemma rhgetall_rhset_all_other [store_simps]:
  "k' \<noteq> k \<Longrightarrow> rhgetall (rhset_all r k m) k' = rhgetall r k'"
  by (auto simp: rhgetall_def rhset_all_def split: option.splits robj.splits)

lemma rexists_rhset_all [store_simps]:
  "rexists (rhset_all r k m) k' \<longleftrightarrow> k' = k \<or> rexists r k'"
  by (auto simp: rexists_def rhset_all_def split: option.splits robj.splits)

text \<open>A keyspace holds each key once; every command keeps that.\<close>

definition redis_wf :: "redis \<Rightarrow> bool" where
  "redis_wf r \<longleftrightarrow> distinct (map fst (objs r))"

lemma redis_wf_set [simp]:
  "redis_wf r \<Longrightarrow> redis_wf (rset r k v)"
  "redis_wf r \<Longrightarrow> redis_wf (rset_ex r k v t)"
  "redis_wf r \<Longrightarrow> redis_wf (rdel r k)"
  "redis_wf r \<Longrightarrow> redis_wf (rexpire r k t)"
  by (simp_all add: redis_wf_def rset_def rset_ex_def rdel_def rexpire_def distinct_dict_set
      distinct_dict_del)

lemma redis_wf_incr_hset [simp]:
  "redis_wf r \<Longrightarrow> redis_wf (rincr r k)"
  "redis_wf r \<Longrightarrow> redis_wf (rhset_all r k m)"
  "redis_wf r \<Longrightarrow> redis_wf (rhset r k f v)"
  by (auto simp: redis_wf_def rincr_def rhset_def rhset_all_def distinct_dict_set
      split: option.splits robj.splits rval.splits)

lemma scan_hashes_iff:
  assumes "redis_wf r"
  shows "k \<in> set (scan_hashes r pre) \<longleftrightarrow>
    starts_with pre k \<and> (\<exists>h. map_of (objs r) k = Some (RHash h))"
proof -
  have hash: "is_hash v \<longleftrightarrow> (\<exists>h. v = RHash h)" for v by (cases v) auto
  have "k \<in> set (scan_hashes r pre) \<longleftrightarrow>
      (\<exists>v. (k, v) \<in> set (objs r) \<and> starts_with pre k \<and> is_hash v)"
    unfolding scan_hashes_def by force
  also have "\<dots> \<longleftrightarrow> (\<exists>v. map_of (objs r) k = Some v \<and> starts_with pre k \<and> is_hash v)"
    using assms unfolding redis_wf_def by (simp only: map_of_eq_Some_iff)
  finally show ?thesis unfolding hash by blast
qed

lemma distinct_scan_hashes: "redis_wf r \<Longrightarrow> distinct (scan_hashes r pre)"
  by (simp add: scan_hashes_def redis_wf_def distinct_map_filter)

end
