(* ===== verification/Redis_Keys.thy ===== *)
theory Redis_Keys
  imports Redis_Store
begin

section \<open>Redis key builders\<close>

text \<open>
  The f-strings that name every key the modelled components share, and the facts that keep
  the key families apart: each builder is injective where the code relies on it, and keys of
  different families differ. The one family whose keys are not kept apart is the catch-up
  pool, whose session ids come verbatim from the client (see \<open>pool_key_collision\<close>).
\<close>

subsection \<open>Provider-slot counters (apps/m3u/connection\_pool.py)\<close>

definition profile_connections_key :: "int \<Rightarrow> string" where
  "profile_connections_key profile_id = ''profile_connections:'' @ show_int profile_id"

definition profile_credential_release_key :: "int \<Rightarrow> string" where
  "profile_credential_release_key profile_id = ''profile_credential_release:'' @ show_int profile_id"

definition server_group_connections_key :: "int \<Rightarrow> string \<Rightarrow> string" where
  "server_group_connections_key group_id fingerprint =
     ''server_group_connections:'' @ show_int group_id @ '':'' @ take 16 fingerprint"

definition slot_version_key :: "string \<Rightarrow> string" where
  "slot_version_key counter_key = ''slot_version:'' @ counter_key"

definition NO_KEY :: string where
  "NO_KEY = ''provider_slot:unused''"

subsection \<open>Stream assignment (apps/proxy/redis\_keys.py)\<close>

definition channel_stream_key :: "int \<Rightarrow> string" where
  "channel_stream_key channel_pk = ''channel_stream:'' @ show_int channel_pk"

definition stream_profile_key :: "int \<Rightarrow> string" where
  "stream_profile_key stream_id = ''stream_profile:'' @ show_int stream_id"

subsection \<open>VOD sessions and worker liveness\<close>

definition vod_connection_key :: "string \<Rightarrow> string" where
  "vod_connection_key session_id = ''vod_persistent_connection:'' @ session_id"

definition vod_lock_key :: "string \<Rightarrow> string" where
  "vod_lock_key session_id = ''vod_connection_lock:'' @ session_id"

definition get_vod_client_stop_key :: "string \<Rightarrow> string" where
  "get_vod_client_stop_key client_id = ''vod_proxy:client:'' @ client_id @ '':stop''"

definition worker_key :: "string \<Rightarrow> string" where
  "worker_key worker_id = ''vod:worker:'' @ worker_id"

subsection \<open>Catch-up (apps/timeshift/redis\_keys.py)\<close>

definition ts_pool_key :: "string \<Rightarrow> string" where
  "ts_pool_key session_id = ''timeshift:pool:'' @ session_id"

definition ts_pool_lock_key :: "string \<Rightarrow> string" where
  "ts_pool_lock_key session_id = ''timeshift:pool:'' @ session_id @ '':lock''"

definition ts_pool_superseded_key :: "string \<Rightarrow> string" where
  "ts_pool_superseded_key session_id = ''timeshift:pool:'' @ session_id @ '':superseded''"

definition ts_client_metadata_key :: "string \<Rightarrow> string \<Rightarrow> string" where
  "ts_client_metadata_key channel_id client_id =
     ''timeshift:channel:'' @ channel_id @ '':clients:'' @ client_id"

definition ts_client_stop_key :: "string \<Rightarrow> string \<Rightarrow> string" where
  "ts_client_stop_key channel_id client_id =
     ''timeshift:channel:'' @ channel_id @ '':client:'' @ client_id @ '':stop''"

definition ts_api_session_key :: "string \<Rightarrow> string" where
  "ts_api_session_key session_id = ''timeshift:session:'' @ session_id"

subsection \<open>Locks (core/utils.py)\<close>

definition task_lock_key :: "string \<Rightarrow> int \<Rightarrow> string" where
  "task_lock_key task_name i = ''task_lock_'' @ task_name @ ''_'' @ show_int i"

lemmas slot_key_defs = profile_connections_key_def profile_credential_release_key_def
  server_group_connections_key_def slot_version_key_def NO_KEY_def channel_stream_key_def
  stream_profile_key_def

lemmas vod_key_defs = vod_connection_key_def vod_lock_key_def get_vod_client_stop_key_def
  worker_key_def

lemmas ts_key_defs = ts_pool_key_def ts_pool_lock_key_def ts_pool_superseded_key_def
  ts_client_metadata_key_def ts_client_stop_key_def ts_api_session_key_def

lemmas all_key_defs = slot_key_defs vod_key_defs ts_key_defs task_lock_key_def

subsection \<open>Injective builders\<close>

lemma key_inject [simp, key_simps]:
  "profile_connections_key i = profile_connections_key j \<longleftrightarrow> i = j"
  "profile_credential_release_key i = profile_credential_release_key j \<longleftrightarrow> i = j"
  "slot_version_key k = slot_version_key l \<longleftrightarrow> k = l"
  "channel_stream_key i = channel_stream_key j \<longleftrightarrow> i = j"
  "stream_profile_key i = stream_profile_key j \<longleftrightarrow> i = j"
  "vod_connection_key s = vod_connection_key t \<longleftrightarrow> s = t"
  "vod_lock_key s = vod_lock_key t \<longleftrightarrow> s = t"
  "worker_key s = worker_key t \<longleftrightarrow> s = t"
  "ts_pool_key s = ts_pool_key t \<longleftrightarrow> s = t"
  by (simp_all add: all_key_defs)

text \<open>
  A credential counter's key separates server groups: the group id has no colon in it, so
  the first colon after the prefix ends it.
\<close>

lemma server_group_key_inject [key_simps]:
  "server_group_connections_key g f = server_group_connections_key g' f' \<longleftrightarrow>
   g = g' \<and> take 16 f = take 16 f'"
proof
  assume "server_group_connections_key g f = server_group_connections_key g' f'"
  then have eq: "show_int g @ CHR '':'' # take 16 f = show_int g' @ CHR '':'' # take 16 f'"
    by (simp add: server_group_connections_key_def)
  have "split_once (CHR '':'') (show_int g @ CHR '':'' # take 16 f) = Some (show_int g, take 16 f)"
    by (rule split_once_join) simp
  moreover have "split_once (CHR '':'') (show_int g' @ CHR '':'' # take 16 f')
      = Some (show_int g', take 16 f')"
    by (rule split_once_join) simp
  ultimately have "Some (show_int g, take 16 f) = Some (show_int g', take 16 f')"
    unfolding eq by (rule trans [OF sym])
  then show "g = g' \<and> take 16 f = take 16 f'" by simp
qed (simp add: server_group_connections_key_def)

subsection \<open>Distinct families\<close>

lemma slot_keys_distinct [simp, key_simps]:
  "profile_connections_key i \<noteq> profile_credential_release_key j"
  "profile_connections_key i \<noteq> server_group_connections_key g f"
  "profile_connections_key i \<noteq> slot_version_key k"
  "profile_connections_key i \<noteq> channel_stream_key j"
  "profile_connections_key i \<noteq> stream_profile_key j"
  "profile_credential_release_key i \<noteq> server_group_connections_key g f"
  "profile_credential_release_key i \<noteq> slot_version_key k"
  "profile_credential_release_key i \<noteq> channel_stream_key j"
  "profile_credential_release_key i \<noteq> stream_profile_key j"
  "server_group_connections_key g f \<noteq> slot_version_key k"
  "server_group_connections_key g f \<noteq> channel_stream_key j"
  "server_group_connections_key g f \<noteq> stream_profile_key j"
  "slot_version_key k \<noteq> channel_stream_key j"
  "slot_version_key k \<noteq> stream_profile_key j"
  "channel_stream_key i \<noteq> stream_profile_key j"
  by (simp_all add: slot_key_defs)

lemmas slot_keys_distinct_sym [simp, key_simps] = slot_keys_distinct [symmetric]

lemma vod_slot_keys_distinct [simp, key_simps]:
  "profile_connections_key i \<noteq> vod_connection_key s"
  "profile_connections_key i \<noteq> vod_lock_key s"
  "profile_credential_release_key i \<noteq> vod_connection_key s"
  "profile_credential_release_key i \<noteq> vod_lock_key s"
  "server_group_connections_key g f \<noteq> vod_connection_key s"
  "server_group_connections_key g f \<noteq> vod_lock_key s"
  "slot_version_key k \<noteq> vod_connection_key s"
  "slot_version_key k \<noteq> vod_lock_key s"
  "vod_connection_key s \<noteq> vod_lock_key t"
  "vod_connection_key s \<noteq> worker_key t"
  "vod_connection_key s \<noteq> ts_pool_key t"
  "worker_key s \<noteq> ts_pool_key t"
  by (simp_all add: all_key_defs)

lemmas vod_slot_keys_distinct_sym [simp, key_simps] = vod_slot_keys_distinct [symmetric]

subsection \<open>A builder that is not injective across families\<close>

text \<open>
  A catch-up session id is the client's own text. One that ends in \<open>:lock\<close> names, as its
  pool entry, the lock key of another session.
\<close>

lemma pool_key_collision:
  "ts_pool_key (s @ '':lock'') = ts_pool_lock_key s"
  "ts_pool_key (s @ '':superseded'') = ts_pool_superseded_key s"
  by (simp_all add: ts_key_defs)

end
