(* ===== verification/Provider_Model.thy ===== *)
theory Provider_Model
  imports Redis_Keys
begin

section \<open>The rows the slot accounting reads\<close>

text \<open>
  The columns of the Django models that the modelled code reads: M3U accounts and their
  profiles (\<open>apps/m3u/models.py\<close>), streams and channels (\<open>apps/channels/models.py\<close>). A foreign
  key is the referenced row. The \<open>database\<close> record is one consistent read of the tables:
  \<open>db_profiles\<close> in the order a query without \<open>order_by\<close> returns them, \<open>db_streams\<close> in
  \<open>Stream.Meta.ordering\<close> (most recently updated first).
\<close>

datatype account_type = STD | XC

record m3u_account =
  acc_id :: int
  account_type :: account_type
  acc_is_active :: bool
  server_group :: "int option"
  server_url :: "string option"
  username :: "string option"
  password :: "string option"
  acc_user_agent :: "string option"

record m3u_profile =
  prof_id :: int
  prof_account :: m3u_account
  prof_name :: string
  is_default :: bool
  max_streams :: int
  prof_is_active :: bool
  search_pattern :: string
  replace_pattern :: string

record stream_row =
  stream_pk :: int
  stream_name :: string
  stream_url :: "string option"
  stream_hash :: "string option"
  provider_stream_id :: "int option"
  stream_account :: "m3u_account option"

record channel_row =
  chan_pk :: int
  chan_uuid :: string
  chan_name :: string
  chan_streams :: "stream_row list"

record database =
  db_profiles :: "m3u_profile list"
  db_streams :: "stream_row list"
  db_channels :: "channel_row list"

text \<open>\<open>account.profiles\<close>, Django's reverse accessor, and the default profile among some rows.\<close>

definition account_profiles :: "database \<Rightarrow> m3u_account \<Rightarrow> m3u_profile list" where
  "account_profiles db a = filter (\<lambda>p. acc_id (prof_account p) = acc_id a) (db_profiles db)"

definition default_first :: "m3u_profile list \<Rightarrow> m3u_profile list option" where
  "default_first ps =
     (case find is_default ps of
        None \<Rightarrow> None
      | Some d \<Rightarrow> Some (d # filter (\<lambda>p. \<not> is_default p) ps))"

lemma default_first_subset: "default_first ps = Some qs \<Longrightarrow> set qs \<subseteq> set ps"
  by (auto simp: default_first_def dest: find_Some_in split: option.splits)

lemma default_first_hd: "default_first ps = Some qs \<Longrightarrow> qs \<noteq> [] \<and> is_default (hd qs)"
  by (auto simp: default_first_def dest: find_Some_in split: option.splits)

end
