(* ===== verification/Urls.thy ===== *)
theory Urls
  imports Py_Text
begin

section \<open>Splitting and joining URLs\<close>

text \<open>
  What the source uses of \<open>urllib.parse\<close>: \<open>urlparse\<close> into scheme, network location, path,
  parameters, query and fragment, \<open>urlunparse\<close> over \<open>urlunsplit\<close>, and \<open>normalize_server_url\<close> of
  \<open>core/xtream_codes.py\<close>, built on them. \<open>None\<close> is the \<open>ValueError\<close> of a network location
  with one square bracket; the address inside a bracketed host is not validated further.
\<close>

record url_parts =
  u_scheme :: string
  u_netloc :: string
  u_path :: string
  u_params :: string
  u_query :: string
  u_fragment :: string

definition lower_char :: "char \<Rightarrow> char" where
  "lower_char c =
     (let n = (of_char c :: nat)
      in if 65 \<le> n \<and> n \<le> 90 \<or> 192 \<le> n \<and> n \<le> 222 \<and> n \<noteq> 215 then char_of (n + 32) else c)"

definition lower :: "string \<Rightarrow> string" where
  "lower s = map lower_char s"

definition is_alpha :: "char \<Rightarrow> bool" where
  "is_alpha c \<longleftrightarrow> (let n = (of_char c :: nat) in 65 \<le> n \<and> n \<le> 90 \<or> 97 \<le> n \<and> n \<le> 122)"

definition is_scheme_char :: "char \<Rightarrow> bool" where
  "is_scheme_char c \<longleftrightarrow> is_alpha c \<or> is_digit c \<or> c \<in> set ''+-.''"

text \<open>The scheme is what precedes the first colon, when it is spelled as one.\<close>

definition split_scheme :: "string \<Rightarrow> string \<times> string" where
  "split_scheme url =
     (case split_once (CHR '':'') url of
        Some (a, b) \<Rightarrow>
          if a \<noteq> [] \<and> is_alpha (hd a) \<and> list_all is_scheme_char a then (lower a, b) else ([], url)
      | None \<Rightarrow> ([], url))"

definition cut :: "char \<Rightarrow> string \<Rightarrow> string \<times> string" where
  "cut c s = (case split_once c s of Some (a, b) \<Rightarrow> (a, b) | None \<Rightarrow> (s, []))"

definition ends_netloc :: "char \<Rightarrow> bool" where
  "ends_netloc c \<longleftrightarrow> c = CHR ''/'' \<or> c = CHR ''?'' \<or> c = CHR ''#''"

definition split_netloc :: "string \<Rightarrow> string \<times> string" where
  "split_netloc url =
     (if starts_with ''//'' url
      then (takeWhile (\<lambda>c. \<not> ends_netloc c) (drop 2 url),
            dropWhile (\<lambda>c. \<not> ends_netloc c) (drop 2 url))
      else ([], url))"

definition uses_params :: "string list" where
  "uses_params = [[], ''ftp'', ''hdl'', ''prospero'', ''http'', ''https'', ''shttp'', ''rtsp'',
     ''rtsps'', ''sip'', ''sips'', ''mms'', ''sftp'', ''tel'']"

definition uses_netloc :: "string list" where
  "uses_netloc = [[], ''ftp'', ''http'', ''gopher'', ''nntp'', ''telnet'', ''imap'', ''wais'',
     ''file'', ''mms'', ''https'', ''shttp'', ''snews'', ''prospero'', ''rtsp'', ''rtsps'', ''rsync'',
     ''svn'', ''svn+ssh'', ''sftp'', ''nfs'', ''git'', ''git+ssh'', ''ws'', ''wss'', ''itms-services'']"

text \<open>The parameters follow the first semicolon of the last path segment.\<close>

definition split_params :: "string \<Rightarrow> string \<times> string" where
  "split_params path =
     (case rsplit_once (CHR ''/'') path of
        Some (dir, seg) \<Rightarrow> (let (a, b) = cut (CHR '';'') seg in (dir @ ''/'' @ a, b))
      | None \<Rightarrow> cut (CHR '';'') path)"

definition clean_url :: "string \<Rightarrow> string" where
  "clean_url url =
     filter (\<lambda>c. (of_char c :: nat) \<notin> {9, 10, 13})
       (dropWhile (\<lambda>c. (of_char c :: nat) \<le> 32) url)"

definition urlparse :: "string \<Rightarrow> url_parts option" where
  "urlparse raw =
     (let (scheme, rest) = split_scheme (clean_url raw);
          (netloc, rest) = split_netloc rest;
          (rest, fragment) = cut (CHR ''#'') rest;
          (rest, query) = cut (CHR ''?'') rest;
          (path, params) = (if scheme \<in> set uses_params then split_params rest else (rest, []))
      in if (CHR ''['' \<in> set netloc) \<noteq> (CHR '']'' \<in> set netloc) then None
         else Some \<lparr>u_scheme = scheme, u_netloc = netloc, u_path = path, u_params = params,
                    u_query = query, u_fragment = fragment\<rparr>)"

definition urlunsplit :: "string \<Rightarrow> string \<Rightarrow> string \<Rightarrow> string \<Rightarrow> string \<Rightarrow> string" where
  "urlunsplit scheme netloc url query fragment =
     (let url = (if netloc \<noteq> []
                 then ''//'' @ netloc
                      @ (if url \<noteq> [] \<and> \<not> starts_with ''/'' url then ''/'' @ url else url)
                 else if starts_with ''//'' url then ''//'' @ url
                 else if scheme \<noteq> [] \<and> scheme \<in> set uses_netloc \<and> (url = [] \<or> starts_with ''/'' url)
                 then ''//'' @ url
                 else url);
          url = (if scheme \<noteq> [] then scheme @ '':'' @ url else url);
          url = (if query \<noteq> [] then url @ ''?'' @ query else url)
      in if fragment \<noteq> [] then url @ ''#'' @ fragment else url)"

definition urlunparse :: "url_parts \<Rightarrow> string" where
  "urlunparse u =
     urlunsplit (u_scheme u) (u_netloc u)
       (if u_params u \<noteq> [] then u_path u @ '';'' @ u_params u else u_path u) (u_query u) (u_fragment u)"

definition rstrip_char :: "char \<Rightarrow> string \<Rightarrow> string" where
  "rstrip_char c s = rev (dropWhile (\<lambda>x. x = c) (rev s))"

text \<open>
  \<open>normalize_server_url\<close>: \<open>None\<close> inside the result of the outer option is the Python
  \<open>None\<close> or empty argument returned unchanged; the outer \<open>None\<close> is urlparse's exception.
\<close>

definition normalize_server_url :: "string option \<Rightarrow> string option option" where
  "normalize_server_url url =
     (case url of
        None \<Rightarrow> Some None
      | Some text \<Rightarrow>
          if text = [] then Some (Some text)
          else (case urlparse (strip text) of
                  None \<Rightarrow> None
                | Some parsed \<Rightarrow>
                    let path = rstrip_char (CHR ''/'') (u_path parsed);
                        last_segment = (case rsplit_once (CHR ''/'') path of
                                          Some (_, seg) \<Rightarrow> seg | None \<Rightarrow> path);
                        path = (if ends_with ''.php'' last_segment
                                then (if CHR ''/'' \<in> set path
                                      then take (length path - (length last_segment + 1)) path
                                      else [])
                                else path)
                    in Some (Some (urlunparse
                         \<lparr>u_scheme = u_scheme parsed, u_netloc = u_netloc parsed, u_path = path,
                          u_params = [], u_query = [], u_fragment = []\<rparr>))))"

lemma rstrip_char_no_suffix: "rstrip_char c s = [] \<or> last (rstrip_char c s) \<noteq> c"
proof (cases "dropWhile (\<lambda>x. x = c) (rev s)")
  case (Cons d ds)
  then have "d \<noteq> c" by (auto simp: dropWhile_eq_Cons_conv)
  with Cons show ?thesis by (simp add: rstrip_char_def)
qed (simp add: rstrip_char_def)

text \<open>An Xtream API endpoint pasted as the server URL is cut back to its base path.\<close>

lemma normalize_server_url_example:
  "normalize_server_url (Some ''http://h:80/sub/player_api.php?username=u'')
     = Some (Some ''http://h:80/sub'')"
  by code_simp

end
