(* ===== verification/Credentials.thy ===== *)
theory Credentials
  imports Provider_Model Urls
begin

section \<open>Provider credentials and their fingerprint\<close>

text \<open>
  \<open>transform_url\<close> and the JS-to-Python backreference conversion, \<open>get_transformed_credentials\<close>,
  and the credential fingerprint that decides which shared counter a profile's reservations
  count against. The \<open>regex\<close> package and the SHA-256 digest are the arguments collected in
  \<open>libs\<close>; an exception one of them raises (a bad pattern, a timeout) is \<open>None\<close>.
\<close>

record libs =
  re_subn :: "string \<Rightarrow> string \<Rightarrow> string \<Rightarrow> (string \<times> nat) option"
  re_sub :: "string \<Rightarrow> string \<Rightarrow> string \<Rightarrow> string option"
  sha256_hexdigest :: "string \<Rightarrow> string"

subsection \<open>Replacement patterns\<close>

text \<open>\<open>regex.sub(r'\$<([^>]+)>', r'\\g<\1>', s)\<close>.\<close>

function convert_named_backreferences :: "string \<Rightarrow> string" where
  "convert_named_backreferences s =
     (case s of
        [] \<Rightarrow> []
      | c # rest \<Rightarrow>
          if starts_with ''$<'' s \<and> takeWhile (\<lambda>x. x \<noteq> CHR ''>'') (tl rest) \<noteq> []
             \<and> CHR ''>'' \<in> set (tl rest)
          then let name = takeWhile (\<lambda>x. x \<noteq> CHR ''>'') (tl rest)
               in [CHR 0x5C] @ ''g<'' @ name @ ''>''
                  @ convert_named_backreferences (drop (length name + 1) (tl rest))
          else c # convert_named_backreferences rest)"
  by pat_completeness auto
termination
  by (relation "measure length") auto

text \<open>\<open>regex.sub(r"\$(0[1-9]|[1-9]\d?)", r"\\g<\1>", replacement)\<close>.\<close>

definition is_digit19 :: "char \<Rightarrow> bool" where
  "is_digit19 c \<longleftrightarrow> is_digit c \<and> c \<noteq> CHR ''0''"

fun numbered_token :: "string \<Rightarrow> (string \<times> string) option" where
  "numbered_token (a # b # rest) =
     (if a = CHR ''0'' then (if is_digit19 b then Some ([a, b], rest) else None)
      else if is_digit19 a then
        (if is_digit b then Some ([a, b], rest) else Some ([a], b # rest))
      else None)"
| "numbered_token [a] = (if is_digit19 a then Some ([a], []) else None)"
| "numbered_token [] = None"

lemma numbered_token_shorter: "numbered_token s = Some (t, rest) \<Longrightarrow> length rest < length s"
  by (induction s rule: numbered_token.induct) (auto split: if_splits)

function convert_js_numbered_backreferences :: "string \<Rightarrow> string" where
  "convert_js_numbered_backreferences s =
     (case s of
        [] \<Rightarrow> []
      | c # rest \<Rightarrow>
          if c = CHR ''$'' then
            (case numbered_token rest of
               Some (tok, rest') \<Rightarrow>
                 [CHR 0x5C] @ ''g<'' @ tok @ ''>'' @ convert_js_numbered_backreferences rest'
             | None \<Rightarrow> c # convert_js_numbered_backreferences rest)
          else c # convert_js_numbered_backreferences rest)"
  by pat_completeness auto
termination
  by (relation "measure length") (auto dest: numbered_token_shorter)

declare convert_named_backreferences.simps [simp del]
declare convert_js_numbered_backreferences.simps [simp del]

definition safe_replace_pattern :: "string \<Rightarrow> string" where
  "safe_replace_pattern s = convert_js_numbered_backreferences (convert_named_backreferences s)"

lemma convert_named_Nil [simp]: "convert_named_backreferences [] = []"
  by (simp add: convert_named_backreferences.simps)

lemma convert_named_Cons: "c \<noteq> CHR ''$'' \<Longrightarrow>
  convert_named_backreferences (c # s) = c # convert_named_backreferences s"
  by (subst convert_named_backreferences.simps) (simp add: starts_with_def)

lemma convert_numbered_Nil [simp]: "convert_js_numbered_backreferences [] = []"
  by (simp add: convert_js_numbered_backreferences.simps)

lemma convert_numbered_Cons: "c \<noteq> CHR ''$'' \<Longrightarrow>
  convert_js_numbered_backreferences (c # s) = c # convert_js_numbered_backreferences s"
  by (subst convert_js_numbered_backreferences.simps) simp

lemma safe_replace_plain: "CHR ''$'' \<notin> set s \<Longrightarrow> safe_replace_pattern s = s"
  unfolding safe_replace_pattern_def
  by (induction s) (auto simp: convert_named_Cons convert_numbered_Cons)

text \<open>\<open>$0\<close> followed by no digit from 1 to 9 is never a token.\<close>

lemma bare_zero_kept:
  "rest = [] \<or> \<not> is_digit19 (hd rest) \<Longrightarrow>
   convert_js_numbered_backreferences (''$0'' @ rest)
     = ''$0'' @ convert_js_numbered_backreferences rest"
  by (cases rest)
    (simp_all add: convert_js_numbered_backreferences.simps [of "CHR ''$'' # _"] convert_numbered_Cons
      is_digit19_def)

subsection \<open>URL transformation\<close>

definition transform_url :: "libs \<Rightarrow> string \<Rightarrow> string \<Rightarrow> string \<Rightarrow> string" where
  "transform_url L input_url search replace =
     (case re_subn L search (safe_replace_pattern replace) input_url of
        Some (url, _) \<Rightarrow> url
      | None \<Rightarrow> input_url)"

definition opt_text :: "string option \<Rightarrow> string" where
  "opt_text v = (case v of None \<Rightarrow> [] | Some s \<Rightarrow> s)"

text \<open>\<open>urlparse(url).path.split('/')\<close> without its empty parts.\<close>

function path_parts :: "string \<Rightarrow> string list" where
  "path_parts s =
     (case s of
        [] \<Rightarrow> []
      | c # rest \<Rightarrow>
          if c = CHR ''/'' then path_parts rest
          else takeWhile (\<lambda>x. x \<noteq> CHR ''/'') s # path_parts (dropWhile (\<lambda>x. x \<noteq> CHR ''/'') s))"
  by pat_completeness auto
termination
  by (relation "measure length") (auto simp: le_imp_less_Suc length_dropWhile_le)

definition join_path :: "string list \<Rightarrow> string" where
  "join_path ps = concat (map (\<lambda>p. CHR ''/'' # p) ps)"

text \<open>
  The credentials inside a transformed \<open>.../live/user/password/1234.ts\<close> URL: the raw suffix
  first, then the last path segments.
\<close>

definition extract_transformed ::
  "string \<Rightarrow> string \<Rightarrow> string \<Rightarrow> (string \<times> string \<times> string) option" where
  "extract_transformed transformed user pass =
     (let raw_suffix = ''/live/'' @ user @ ''/'' @ pass @ ''/1234.ts'' in
      if ends_with raw_suffix transformed
      then Some (take (length transformed - length raw_suffix) transformed, user, pass)
      else (case urlparse transformed of
              None \<Rightarrow> None
            | Some parsed \<Rightarrow>
                let parts = path_parts (u_path parsed); n = length parts in
                if 4 \<le> n \<and> parts ! (n - 1) = ''1234.ts''
                then Some (u_scheme parsed @ ''://'' @ u_netloc parsed @ join_path (take (n - 4) parts),
                           parts ! (n - 3), parts ! (n - 2))
                else None))"

text \<open>
  \<open>get_transformed_credentials(account, profile)\<close> with a profile given: the result carries
  the account's own fields where the code falls back to them. The outer \<open>None\<close> is the
  exception \<open>normalize_server_url\<close> raises outside the function's own \<open>try\<close>.
\<close>

definition get_transformed_credentials ::
  "libs \<Rightarrow> m3u_account \<Rightarrow> m3u_profile \<Rightarrow>
   (string option \<times> string option \<times> string option) option" where
  "get_transformed_credentials L account profile =
     (case normalize_server_url (server_url account) of
        None \<Rightarrow> None
      | Some base_url \<Rightarrow>
          let base = (base_url, username account, password account) in
          if opt_text base_url \<noteq> [] \<and> opt_text (username account) \<noteq> []
             \<and> opt_text (password account) \<noteq> []
             \<and> search_pattern profile \<noteq> [] \<and> replace_pattern profile \<noteq> []
          then
            let user = opt_text (username account); pass = opt_text (password account);
                complete = rstrip_char (CHR ''/'') (opt_text base_url)
                  @ ''/live/'' @ user @ ''/'' @ pass @ ''/1234.ts''
            in (case re_sub L (search_pattern profile)
                       (safe_replace_pattern (replace_pattern profile)) complete of
                  None \<Rightarrow> Some base
                | Some transformed \<Rightarrow>
                    (case extract_transformed transformed user pass of
                       None \<Rightarrow> Some base
                     | Some (url, u, p) \<Rightarrow> Some (Some url, Some u, Some p)))
          else Some base)"

subsection \<open>Credentials embedded in a stream URL\<close>

text \<open>\<open>re.search(r"/(?:live|movie|series)/([^/]+)/([^/]+)/", url, IGNORECASE)\<close>.\<close>

definition xc_segments :: "string \<Rightarrow> (string \<times> string) option" where
  "xc_segments s =
     (case split_once (CHR ''/'') s of
        Some (u, rest) \<Rightarrow>
          if u = [] then None
          else (case split_once (CHR ''/'') rest of
                  Some (p, _) \<Rightarrow> if p = [] then None else Some (u, p)
                | None \<Rightarrow> None)
      | None \<Rightarrow> None)"

definition xc_match_here :: "string \<Rightarrow> (string \<times> string) option" where
  "xc_match_here s =
     (let t = lower s in
      if starts_with ''/live/'' t then xc_segments (drop 6 s)
      else if starts_with ''/movie/'' t then xc_segments (drop 7 s)
      else if starts_with ''/series/'' t then xc_segments (drop 8 s)
      else None)"

fun xc_search :: "string \<Rightarrow> (string \<times> string) option" where
  "xc_search [] = None"
| "xc_search (c # cs) =
     (case xc_match_here (c # cs) of Some m \<Rightarrow> Some m | None \<Rightarrow> xc_search cs)"

definition extract_credentials_from_stream_url ::
  "string \<Rightarrow> string option \<times> string option" where
  "extract_credentials_from_stream_url url =
     (case xc_search url of None \<Rightarrow> (None, None) | Some (u, p) \<Rightarrow> (Some u, Some p))"

subsection \<open>The fingerprint\<close>

text \<open>\<open>str.casefold\<close> on Latin-1: lower case, and the sharp s as two letters.\<close>

definition casefold :: "string \<Rightarrow> string" where
  "casefold s = concat (map (\<lambda>c. if (of_char c :: nat) = 223 then ''ss'' else [lower_char c]) s)"

definition compute_credential_fingerprint :: "libs \<Rightarrow> string \<Rightarrow> string \<Rightarrow> string option" where
  "compute_credential_fingerprint L user pass =
     (if user = [] \<or> pass = [] then None
      else Some (sha256_hexdigest L (casefold (strip user) @ [CHR 0x00] @ strip pass)))"

text \<open>
  The sample is the account's first stream whose URL is not the empty string; a row with a
  NULL URL passes the \<open>exclude(url="")\<close> and, being first, ends the derivation.
\<close>

definition fingerprint_from_profile_stream_url ::
  "libs \<Rightarrow> database \<Rightarrow> m3u_profile \<Rightarrow> string option" where
  "fingerprint_from_profile_stream_url L db profile =
     (case filter (\<lambda>s. map_option acc_id (stream_account s) = Some (acc_id (prof_account profile))
                     \<and> stream_url s \<noteq> Some []) (db_streams db) of
        [] \<Rightarrow> None
      | s # _ \<Rightarrow>
          (case stream_url s of
             None \<Rightarrow> None
           | Some sample_url \<Rightarrow>
               let transformed = transform_url L sample_url (search_pattern profile)
                     (replace_pattern profile);
                   (u, p) = extract_credentials_from_stream_url
                     (if transformed \<noteq> [] then transformed else sample_url)
               in compute_credential_fingerprint L (opt_text u) (opt_text p)))"

definition get_profile_credential_fingerprint ::
  "libs \<Rightarrow> database \<Rightarrow> m3u_profile \<Rightarrow> string option" where
  "get_profile_credential_fingerprint L db profile =
     (let account = prof_account profile;
          from_xc = (if account_type account = XC
                     then (case get_transformed_credentials L account profile of
                             None \<Rightarrow> None
                           | Some (_, u, p) \<Rightarrow>
                               compute_credential_fingerprint L (opt_text u) (opt_text p))
                     else None);
          own = compute_credential_fingerprint L (opt_text (username account))
                  (opt_text (password account));
          from_stream = fingerprint_from_profile_stream_url L db profile
      in if opt_text from_xc \<noteq> [] then from_xc
         else if opt_text from_stream \<noteq> [] then from_stream
         else own)"

end
