(* ===== verification/Connection_Pool.thy ===== *)
theory Connection_Pool
  imports Credentials
begin

section \<open>Provider-slot accounting (apps/m3u/connection\_pool.py)\<close>

text \<open>
  The one Lua script that writes the provider-slot counters, with its four operations
  reserve, release, switch and reconcile, and the Python functions around it. Each script
  operation is one function of the keyspace, so it is atomic as the script is.
\<close>

subsection \<open>The script's local functions\<close>

definition slot_read :: "redis \<Rightarrow> string \<Rightarrow> int" where
  "slot_read r k = lua_num (rget r k)"

definition slot_write :: "redis \<Rightarrow> string \<Rightarrow> int \<Rightarrow> redis" where
  "slot_write r k v = rincr (rset r k (RInt v)) (slot_version_key k)"

definition give_back :: "redis \<Rightarrow> string \<Rightarrow> redis" where
  "give_back r k =
     (let c = slot_read r k
      in if c > 0 then slot_write r k (c - 1)
         else if c < 0 then slot_write r k 0
         else r)"

definition take_slot :: "redis \<Rightarrow> string \<Rightarrow> redis" where
  "take_slot r k =
     (let c = slot_read r k; c = (if c < 0 then 0 else c) in slot_write r k (c + 1))"

definition slot_version :: "redis \<Rightarrow> string \<Rightarrow> int" where
  "slot_version r k = lua_num (rget r (slot_version_key k))"

text \<open>The key a stored pointer names: the pointer's own text.\<close>

fun key_of_val :: "rval \<Rightarrow> string" where
  "key_of_val (RText s) = s"
| "key_of_val (RInt n) = show_int n"
| "key_of_val (RDec q) = show_int \<lfloor>q\<rfloor>"

subsection \<open>The four operations\<close>

datatype reserve_failure = ProfileFull | CredentialFull

text \<open>
  \<open>reserve\<close>: KEYS are the profile counter, the credential counter (or the placeholder) and
  the release pointer; both caps are checked before anything is written.
\<close>

definition script_reserve ::
  "redis \<Rightarrow> string \<Rightarrow> string \<Rightarrow> string \<Rightarrow> int \<Rightarrow> int \<Rightarrow>
   redis \<times> bool \<times> int \<times> reserve_failure option" where
  "script_reserve r key1 key2 key3 pmax cmax =
     (let pc = (if pmax > 0 then max 0 (slot_read r key1) else 0);
          cc = (if cmax > 0 then max 0 (slot_read r key2) else 0)
      in if pmax > 0 \<and> pc + 1 > pmax then (r, False, pc, Some ProfileFull)
         else if cmax > 0 \<and> cc + 1 > cmax then (r, False, pc, Some CredentialFull)
         else
           let r = (if pmax > 0 then slot_write r key1 (pc + 1) else r);
               r = (if cmax > 0 then rset (slot_write r key2 (cc + 1)) key3 (RText key2) else r)
           in (r, True, if pmax > 0 then pc + 1 else 0, None))"

text \<open>\<open>release\<close>: KEYS are the profile counter and the release pointer.\<close>

definition script_release :: "redis \<Rightarrow> string \<Rightarrow> string \<Rightarrow> redis \<times> bool" where
  "script_release r key1 key2 =
     (case rget r key2 of
        Some ck \<Rightarrow> (give_back (rdel (give_back r (key_of_val ck)) key2) key1, True)
      | None \<Rightarrow> (give_back r key1, False))"

text \<open>
  \<open>switch\<close>: KEYS are the old and the new profile counter, the stream-profile key, the old
  and the new release pointer, and the new credential counter.
\<close>

definition switch_credential ::
  "redis \<Rightarrow> string \<Rightarrow> string \<Rightarrow> string \<Rightarrow> int \<Rightarrow> redis option" where
  "switch_credential r key4 key5 key6 ncmax =
     (let ncc = (if ncmax > 0 then max 0 (slot_read r key6) else 0)
      in if ncmax > 0 \<and> ncc + 1 > ncmax then None
         else
           let r = (case rget r key4 of
                      Some ock \<Rightarrow> rdel (give_back r (key_of_val ock)) key4
                    | None \<Rightarrow> r)
           in Some (if ncmax > 0 then rset (slot_write r key6 (ncc + 1)) key5 (RText key6) else r))"

definition script_switch ::
  "redis \<Rightarrow> string \<Rightarrow> string \<Rightarrow> string \<Rightarrow> string \<Rightarrow> string \<Rightarrow> string \<Rightarrow>
   int \<Rightarrow> bool \<Rightarrow> int \<Rightarrow> redis \<times> bool" where
  "script_switch r key1 key2 key3 key4 key5 key6 new_profile_id move_credential ncmax =
     (case (if move_credential then switch_credential r key4 key5 key6 ncmax else Some r) of
        None \<Rightarrow> (r, False)
      | Some r1 \<Rightarrow> (take_slot (rset (give_back r1 key1) key3 (RInt new_profile_id)) key2, True))"

text \<open>\<open>reconcile\<close>: the status, the counter before and the counter after; no version is bumped.\<close>

definition script_reconcile ::
  "redis \<Rightarrow> string \<Rightarrow> int \<Rightarrow> int \<Rightarrow> int \<Rightarrow> redis \<times> int \<times> int \<times> int" where
  "script_reconcile r k expected lo hi =
     (let v = slot_version r k; c = slot_read r k
      in if v \<noteq> expected then (r, -1, c, c)
         else
           let t = (if c < lo then lo else c); t = (if t > hi then hi else t)
           in if t = c then (r, 0, c, c) else (rset r k (RInt t), 1, c, t))"

subsection \<open>What a profile's reservation counts against\<close>

definition get_enforced_server_group_for_profile :: "m3u_profile \<Rightarrow> int option" where
  "get_enforced_server_group_for_profile profile = server_group (prof_account profile)"

definition credential_counter_key :: "libs \<Rightarrow> database \<Rightarrow> m3u_profile \<Rightarrow> int \<Rightarrow> string option" where
  "credential_counter_key L db profile grp =
     (let fp = get_profile_credential_fingerprint L db profile
      in if opt_text fp = [] then None
         else Some (server_group_connections_key grp (opt_text fp)))"

definition credential_reservation ::
  "libs \<Rightarrow> database \<Rightarrow> m3u_profile \<Rightarrow> string option \<times> int" where
  "credential_reservation L db profile =
     (case get_enforced_server_group_for_profile profile of
        None \<Rightarrow> (None, 0)
      | Some grp \<Rightarrow>
          if max_streams profile = 0 then (None, 0)
          else (case credential_counter_key L db profile grp of
                  None \<Rightarrow> (None, 0)
                | Some cred_key \<Rightarrow> (Some cred_key, max_streams profile)))"

subsection \<open>Capacity checks that write nothing\<close>

text \<open>
  \<open>int(redis_client.get(key) or 0)\<close>; a counter holds an integer or is absent
  (\<open>slot_wf\<close> below), so the conversion does not raise.
\<close>

definition count_of :: "redis \<Rightarrow> string \<Rightarrow> int" where
  "count_of r k = (case py_int (rget r k) of Some n \<Rightarrow> n | None \<Rightarrow> 0)"

definition get_profile_connection_count :: "m3u_profile \<Rightarrow> redis \<Rightarrow> int" where
  "get_profile_connection_count profile r = count_of r (profile_connections_key (prof_id profile))"

definition get_credential_connection_count ::
  "libs \<Rightarrow> database \<Rightarrow> m3u_profile \<Rightarrow> redis \<Rightarrow> int" where
  "get_credential_connection_count L db profile r =
     (case get_enforced_server_group_for_profile profile of
        None \<Rightarrow> 0
      | Some grp \<Rightarrow>
          (case credential_counter_key L db profile grp of
             None \<Rightarrow> 0
           | Some cred_key \<Rightarrow> count_of r cred_key))"

definition profile_has_capacity_for_selection :: "m3u_profile \<Rightarrow> redis \<Rightarrow> bool" where
  "profile_has_capacity_for_selection profile r \<longleftrightarrow>
     max_streams profile = 0 \<or> get_profile_connection_count profile r < max_streams profile"

definition group_has_capacity_for_profile ::
  "libs \<Rightarrow> database \<Rightarrow> m3u_profile \<Rightarrow> redis \<Rightarrow> bool" where
  "group_has_capacity_for_profile L db profile r =
     (case get_enforced_server_group_for_profile profile of
        None \<Rightarrow> True
      | Some grp \<Rightarrow>
          max_streams profile = 0 \<or>
          (case credential_counter_key L db profile grp of
             None \<Rightarrow> True
           | Some cred_key \<Rightarrow> count_of r cred_key < max_streams profile))"

definition pool_has_capacity_for_profile ::
  "libs \<Rightarrow> database \<Rightarrow> m3u_profile \<Rightarrow> redis \<Rightarrow> bool" where
  "pool_has_capacity_for_profile L db profile r \<longleftrightarrow>
     profile_has_capacity_for_selection profile r \<and> group_has_capacity_for_profile L db profile r"

definition profile_available_for_channel_switch ::
  "libs \<Rightarrow> database \<Rightarrow> m3u_profile \<Rightarrow> redis \<Rightarrow> bool \<Rightarrow> bool" where
  "profile_available_for_channel_switch L db profile r channel_already_on_profile \<longleftrightarrow>
     channel_already_on_profile \<or> pool_has_capacity_for_profile L db profile r"

definition credential_sibling_profile_ids ::
  "libs \<Rightarrow> database \<Rightarrow> m3u_profile \<Rightarrow> int list" where
  "credential_sibling_profile_ids L db profile =
     (case fst (credential_reservation L db profile) of
        None \<Rightarrow> []
      | Some key \<Rightarrow>
          sort (map prof_id
            (filter (\<lambda>p. server_group (prof_account p)
                            = get_enforced_server_group_for_profile profile
                       \<and> fst (credential_reservation L db p) = Some key) (db_profiles db))))"

definition blocking_profile_ids ::
  "libs \<Rightarrow> database \<Rightarrow> m3u_profile list \<Rightarrow> redis \<Rightarrow> int list" where
  "blocking_profile_ids L db profiles r =
     sort (remdups (concat (map
       (\<lambda>p. if \<not> profile_has_capacity_for_selection p r then [prof_id p]
            else if \<not> group_has_capacity_for_profile L db p r
            then credential_sibling_profile_ids L db p @ [prof_id p]
            else []) profiles)))"

subsection \<open>The Python callers of the script\<close>

definition reserve_profile_slot ::
  "libs \<Rightarrow> database \<Rightarrow> redis \<Rightarrow> m3u_profile \<Rightarrow> redis \<times> bool \<times> int \<times> reserve_failure option" where
  "reserve_profile_slot L db r profile =
     (let (cred_key, cred_max) = credential_reservation L db profile
      in script_reserve r (profile_connections_key (prof_id profile))
           (case cred_key of Some k \<Rightarrow> k | None \<Rightarrow> NO_KEY)
           (profile_credential_release_key (prof_id profile))
           (max (max_streams profile) 0) cred_max)"

definition release_profile_slot :: "redis \<Rightarrow> int \<Rightarrow> redis" where
  "release_profile_slot r profile_id =
     fst (script_release r (profile_connections_key profile_id)
            (profile_credential_release_key profile_id))"

definition switch_profile_slot ::
  "libs \<Rightarrow> database \<Rightarrow> redis \<Rightarrow> m3u_profile \<Rightarrow> m3u_profile \<Rightarrow> string \<Rightarrow> redis \<times> bool" where
  "switch_profile_slot L db r old_profile new_profile spk =
     (let move = get_profile_credential_fingerprint L db old_profile
                 \<noteq> get_profile_credential_fingerprint L db new_profile;
          (new_cred_key, new_cred_max) =
            (if move then credential_reservation L db new_profile else (None, 0))
      in script_switch r (profile_connections_key (prof_id old_profile))
           (profile_connections_key (prof_id new_profile)) spk
           (profile_credential_release_key (prof_id old_profile))
           (profile_credential_release_key (prof_id new_profile))
           (case new_cred_key of Some k \<Rightarrow> k | None \<Rightarrow> NO_KEY)
           (prof_id new_profile) move new_cred_max)"

definition reconcile_counter ::
  "redis \<Rightarrow> string \<Rightarrow> int \<Rightarrow> int \<Rightarrow> int \<Rightarrow> redis \<times> int \<times> int \<times> int" where
  "reconcile_counter r counter_key expected_version lo hi =
     script_reconcile r counter_key expected_version lo hi"

definition read_slot_versions :: "redis \<Rightarrow> string list \<Rightarrow> (string \<times> int) list" where
  "read_slot_versions r counter_keys = map (\<lambda>k. (k, count_of r (slot_version_key k))) counter_keys"

subsection \<open>The well-formed keyspace\<close>

text \<open>
  What every writer of the slot keys keeps: a counter is an integer or absent, a version is
  an integer or absent, and a release pointer names a credential counter.
\<close>

definition is_counter_key :: "string \<Rightarrow> bool" where
  "is_counter_key k \<longleftrightarrow>
     (\<exists>i. k = profile_connections_key i) \<or> (\<exists>g f. k = server_group_connections_key g f)"

definition slot_wf :: "redis \<Rightarrow> bool" where
  "slot_wf r \<longleftrightarrow>
     (\<forall>k. is_counter_key k \<longrightarrow> rget r k = None \<or> (\<exists>n. rget r k = Some (RInt n))) \<and>
     (\<forall>k. \<not> rexists r (slot_version_key k) \<or> (\<exists>n. rget r (slot_version_key k) = Some (RInt n))) \<and>
     (\<forall>i v. rget r (profile_credential_release_key i) = Some v \<longrightarrow>
            (\<exists>g f. v = RText (server_group_connections_key g f)))"

lemma counter_key_simps [simp]:
  "is_counter_key (profile_connections_key i)"
  "is_counter_key (server_group_connections_key g f)"
  by (auto simp: is_counter_key_def)

lemma counter_key_distinct [simp]:
  assumes "is_counter_key k"
  shows "k \<noteq> slot_version_key l" "slot_version_key l \<noteq> k"
    "k \<noteq> profile_credential_release_key i" "profile_credential_release_key i \<noteq> k"
    "k \<noteq> stream_profile_key i" "stream_profile_key i \<noteq> k"
    "k \<noteq> channel_stream_key i" "channel_stream_key i \<noteq> k"
  using assms by (auto simp: is_counter_key_def)

lemma not_counter_key [simp]:
  "\<not> is_counter_key (slot_version_key k)"
  "\<not> is_counter_key (profile_credential_release_key i)"
  "\<not> is_counter_key (stream_profile_key i)"
  "\<not> is_counter_key (channel_stream_key i)"
  "\<not> is_counter_key (vod_connection_key s)"
  by (auto simp: is_counter_key_def)

lemma slot_wf_empty [simp]: "slot_wf empty_redis"
  by (simp add: slot_wf_def rexists_def empty_redis_def rget_def)

lemma slot_wf_counter: "slot_wf r \<Longrightarrow> is_counter_key k \<Longrightarrow>
  rget r k = None \<or> rget r k = Some (RInt (slot_read r k))"
  unfolding slot_wf_def slot_read_def by fastforce

lemma slot_wf_pointer: "slot_wf r \<Longrightarrow> rget r (profile_credential_release_key i) = Some v \<Longrightarrow>
  \<exists>g f. v = RText (server_group_connections_key g f)"
  unfolding slot_wf_def by blast

lemma slot_wf_version: "slot_wf r \<Longrightarrow>
  \<not> rexists r (slot_version_key k) \<or> (\<exists>n. rget r (slot_version_key k) = Some (RInt n))"
  unfolding slot_wf_def by blast

subsection \<open>One counter write\<close>

lemma rget_slot_write_other:
  "k' \<noteq> k \<Longrightarrow> k' \<noteq> slot_version_key k \<Longrightarrow> rget (slot_write r k v) k' = rget r k'"
  by (simp add: slot_write_def store_simps)

lemma rget_slot_write_same [simp]:
  "is_counter_key k \<Longrightarrow> rget (slot_write r k v) k = Some (RInt v)"
  by (simp add: slot_write_def store_simps)

lemma slot_read_write:
  "is_counter_key k \<Longrightarrow> is_counter_key k' \<Longrightarrow>
   slot_read (slot_write r k v) k' = (if k' = k then v else slot_read r k')"
  by (simp add: slot_read_def rget_slot_write_other)

lemma rget_slot_write_version:
  assumes "slot_wf r" and "is_counter_key k"
  shows "rget (slot_write r k v) (slot_version_key k) = Some (RInt (slot_version r k + 1))"
proof -
  let ?r = "rset r k (RInt v)" and ?vk = "slot_version_key k"
  have same: "rget ?r ?vk = rget r ?vk" and ex: "rexists ?r ?vk \<longleftrightarrow> rexists r ?vk"
    using assms(2) by (simp_all add: store_simps)
  from slot_wf_version [OF assms(1), of k] show ?thesis
  proof
    assume "\<not> rexists r ?vk"
    moreover from this have "rget r ?vk = None" by (rule not_exists_rget)
    ultimately show ?thesis
      using ex by (simp add: slot_write_def slot_version_def rget_rincr_absent)
  next
    assume "\<exists>n. rget r ?vk = Some (RInt n)"
    then show ?thesis
      using same by (auto simp: slot_write_def slot_version_def rget_rincr_int)
  qed
qed

lemma slot_version_write:
  assumes "slot_wf r" and "is_counter_key k"
  shows "slot_version (slot_write r k v) k' = slot_version r k' + (if k' = k then 1 else 0)"
proof (cases "k' = k")
  case True
  then show ?thesis
    using rget_slot_write_version [OF assms] by (simp add: slot_version_def)
next
  case False
  have "rget (slot_write r k v) (slot_version_key k') = rget r (slot_version_key k')"
    using False assms(2) by (intro rget_slot_write_other) auto
  with False show ?thesis by (simp add: slot_version_def)
qed

lemma slot_wf_write:
  assumes wf: "slot_wf r" and k: "is_counter_key k"
  shows "slot_wf (slot_write r k v)"
  unfolding slot_wf_def
proof (intro conjI allI impI)
  fix k' assume k': "is_counter_key k'"
  show "rget (slot_write r k v) k' = None \<or> (\<exists>n. rget (slot_write r k v) k' = Some (RInt n))"
    using slot_wf_counter [OF wf k'] k k' by (cases "k' = k") (auto simp: rget_slot_write_other)
next
  fix k'
  show "\<not> rexists (slot_write r k v) (slot_version_key k') \<or>
      (\<exists>n. rget (slot_write r k v) (slot_version_key k') = Some (RInt n))"
  proof (cases "k' = k")
    case True
    then show ?thesis using rget_slot_write_version [OF wf k] by blast
  next
    case False
    have "rexists (slot_write r k v) (slot_version_key k') \<longleftrightarrow> rexists r (slot_version_key k')"
      using False k by (auto simp: slot_write_def rincr_def rexists_def rset_def
          split: option.splits robj.splits rval.splits)
    moreover have "rget (slot_write r k v) (slot_version_key k') = rget r (slot_version_key k')"
      using False k by (intro rget_slot_write_other) auto
    ultimately show ?thesis using slot_wf_version [OF wf, of k'] by simp
  qed
next
  fix i w assume "rget (slot_write r k v) (profile_credential_release_key i) = Some w"
  then have "rget r (profile_credential_release_key i) = Some w"
    using k by (simp add: rget_slot_write_other)
  then show "\<exists>g f. w = RText (server_group_connections_key g f)"
    by (rule slot_wf_pointer [OF wf])
qed

subsection \<open>Counters with a write stamp: the reconciler's interface\<close>

text \<open>
  What the reconciler relies on: a counter and a stamp per key, a write that sets the one
  and bumps the other, and silent steps that touch neither. From these laws alone, a stamp
  that has not moved proves that the counter has not been written.
\<close>

inductive counter_step ::
  "('s \<Rightarrow> 'k \<Rightarrow> int \<Rightarrow> 's) \<Rightarrow> ('k \<Rightarrow> bool) \<Rightarrow> ('s \<Rightarrow> 's \<Rightarrow> bool) \<Rightarrow> 's \<Rightarrow> 's \<Rightarrow> bool"
  for put key quiet where
    put_step [step_intros]: "key k \<Longrightarrow> counter_step put key quiet s (put s k v)"
  | silent [step_intros]: "quiet s t \<Longrightarrow> counter_step put key quiet s t"

locale stamped_counters =
  fixes count :: "'s \<Rightarrow> 'k \<Rightarrow> int"
    and stamp :: "'s \<Rightarrow> 'k \<Rightarrow> int"
    and put :: "'s \<Rightarrow> 'k \<Rightarrow> int \<Rightarrow> 's"
    and key :: "'k \<Rightarrow> bool"
    and inv :: "'s \<Rightarrow> bool"
    and quiet :: "'s \<Rightarrow> 's \<Rightarrow> bool"
  assumes count_put: "inv s \<Longrightarrow> key k \<Longrightarrow> key k' \<Longrightarrow>
      count (put s k v) k' = (if k' = k then v else count s k')"
    and stamp_put: "inv s \<Longrightarrow> key k \<Longrightarrow> key k' \<Longrightarrow>
      stamp (put s k v) k' = stamp s k' + (if k' = k then 1 else 0)"
    and inv_put: "inv s \<Longrightarrow> key k \<Longrightarrow> inv (put s k v)"
    and quiet_count: "inv s \<Longrightarrow> quiet s t \<Longrightarrow> key k \<Longrightarrow> count t k = count s k"
    and quiet_stamp: "inv s \<Longrightarrow> quiet s t \<Longrightarrow> key k \<Longrightarrow> stamp t k = stamp s k"
    and quiet_inv: "inv s \<Longrightarrow> quiet s t \<Longrightarrow> inv t"
begin

lemma step_stamp:
  assumes "counter_step put key quiet s t" and "inv s" and "key k"
  shows "inv t \<and> stamp s k \<le> stamp t k \<and> (stamp t k = stamp s k \<longrightarrow> count t k = count s k)"
  using assms
  by (cases rule: counter_step.cases)
    (auto simp: count_put stamp_put inv_put quiet_count quiet_stamp intro: quiet_inv)

lemma run_stamp:
  assumes "(counter_step put key quiet)\<^sup>*\<^sup>* s t" and "inv s" and "key k"
  shows "inv t \<and> stamp s k \<le> stamp t k \<and> (stamp t k = stamp s k \<longrightarrow> count t k = count s k)"
  using assms(1)
proof (induction rule: rtranclp_induct)
  case base
  with assms show ?case by simp
next
  case (step t u)
  then have "inv t" by simp
  from step_stamp [OF step.hyps(2) this assms(3)] step.IH show ?case by auto
qed

end

subsection \<open>The slot script's writes are stamped\<close>

text \<open>
  The writes beside the counters: a release pointer set or deleted, and any write of another
  component, which touches no counter, version or pointer.
\<close>

definition is_slot_key :: "string \<Rightarrow> bool" where
  "is_slot_key k \<longleftrightarrow> is_counter_key k \<or> (\<exists>l. k = slot_version_key l)
     \<or> (\<exists>i. k = profile_credential_release_key i)"

definition same_slots :: "redis \<Rightarrow> redis \<Rightarrow> bool" where
  "same_slots r t \<longleftrightarrow> (\<forall>k. is_slot_key k \<longrightarrow> map_of (objs t) k = map_of (objs r) k)"

inductive pool_quiet :: "redis \<Rightarrow> redis \<Rightarrow> bool" where
  set_pointer [step_intros]: "pool_quiet r (rset r (profile_credential_release_key i)
      (RText (server_group_connections_key g f)))"
| drop_pointer [step_intros]: "pool_quiet r (rdel r (profile_credential_release_key i))"
| foreign [step_intros]: "same_slots r t \<Longrightarrow> pool_quiet r t"

lemma slot_key_simps [simp]:
  "is_counter_key k \<Longrightarrow> is_slot_key k"
  "is_slot_key (slot_version_key k)"
  "is_slot_key (profile_credential_release_key i)"
  by (auto simp: is_slot_key_def)

lemma not_slot_key [simp]:
  "\<not> is_slot_key (stream_profile_key i)"
  "\<not> is_slot_key (channel_stream_key i)"
  "\<not> is_slot_key (vod_connection_key s)"
  "\<not> is_slot_key (vod_lock_key s)"
  by (auto simp: is_slot_key_def is_counter_key_def)

lemma same_slots_refl [simp]: "same_slots r r"
  by (simp add: same_slots_def)

lemma same_slots_trans: "same_slots r s \<Longrightarrow> same_slots s t \<Longrightarrow> same_slots r t"
  by (simp add: same_slots_def)

lemma same_slots_write [simp]:
  "\<not> is_slot_key k \<Longrightarrow> same_slots r (rset r k v)"
  "\<not> is_slot_key k \<Longrightarrow> same_slots r (rset_ex r k v t)"
  "\<not> is_slot_key k \<Longrightarrow> same_slots r (rdel r k)"
  "\<not> is_slot_key k \<Longrightarrow> same_slots r (rhset_all r k m)"
  "\<not> is_slot_key k \<Longrightarrow> same_slots r (rexpire r k t)"
  by (auto simp: same_slots_def rset_def rset_ex_def rdel_def rhset_all_def rexpire_def
      split: option.splits robj.splits)

lemma same_slots_read:
  assumes "same_slots r t"
  shows "is_slot_key k \<Longrightarrow> rget t k = rget r k"
    and "is_slot_key k \<Longrightarrow> rexists t k = rexists r k"
    and "is_counter_key k \<Longrightarrow> slot_read t k = slot_read r k"
    and "slot_version t k = slot_version r k"
  using assms by (simp_all add: same_slots_def rget_def rexists_def slot_read_def slot_version_def)

lemma same_slots_wf: "same_slots r t \<Longrightarrow> slot_wf r \<Longrightarrow> slot_wf t"
  unfolding slot_wf_def by (simp add: same_slots_read)

lemma slot_wf_set_pointer: "slot_wf r \<Longrightarrow>
  slot_wf (rset r (profile_credential_release_key i) (RText (server_group_connections_key g f)))"
  unfolding slot_wf_def by (auto simp: store_simps split: if_splits)

lemma slot_wf_drop_pointer: "slot_wf r \<Longrightarrow> slot_wf (rdel r (profile_credential_release_key i))"
  unfolding slot_wf_def by (auto simp: store_simps split: if_splits)

lemma pool_quiet_wf: "pool_quiet r t \<Longrightarrow> slot_wf r \<Longrightarrow> slot_wf t"
  by (cases rule: pool_quiet.cases)
    (auto intro: slot_wf_set_pointer slot_wf_drop_pointer same_slots_wf)

lemma pool_quiet_count: "pool_quiet r t \<Longrightarrow> is_counter_key k \<Longrightarrow> slot_read t k = slot_read r k"
  by (cases rule: pool_quiet.cases)
    (auto simp: slot_read_def store_simps same_slots_read)

lemma pool_quiet_version: "pool_quiet r t \<Longrightarrow> slot_version t k = slot_version r k"
  by (cases rule: pool_quiet.cases)
    (auto simp: slot_version_def store_simps same_slots_read)

interpretation slots: stamped_counters slot_read slot_version slot_write is_counter_key slot_wf
  pool_quiet
  by unfold_locales
    (auto simp: slot_read_write slot_version_write slot_wf_write pool_quiet_count
      pool_quiet_version intro: pool_quiet_wf)

abbreviation slot_run :: "redis \<Rightarrow> redis \<Rightarrow> bool" where
  "slot_run \<equiv> (counter_step slot_write is_counter_key pool_quiet)\<^sup>*\<^sup>*"

lemma slot_run_write [step_intros]: "is_counter_key k \<Longrightarrow> slot_run r (slot_write r k v)"
  by (auto intro: step_intros)

lemma slot_run_quiet [step_intros]: "pool_quiet r t \<Longrightarrow> slot_run r t"
  by (auto intro: step_intros)

lemma slot_run_give_back [step_intros]: "is_counter_key k \<Longrightarrow> slot_run r (give_back r k)"
  by (auto simp: give_back_def Let_def intro: slot_run_write)

lemma slot_run_take [step_intros]: "is_counter_key k \<Longrightarrow> slot_run r (take_slot r k)"
  by (auto simp: take_slot_def Let_def intro: slot_run_write)

lemma slot_run_wf: "slot_run r t \<Longrightarrow> slot_wf r \<Longrightarrow> slot_wf t"
  using slots.run_stamp [of r t "profile_connections_key 0"] by simp

lemma slot_read_give_back:
  "is_counter_key k \<Longrightarrow> is_counter_key k' \<Longrightarrow>
   slot_read (give_back r k) k' = (if k' = k then max 0 (slot_read r k - 1) else slot_read r k')"
  by (auto simp: give_back_def Let_def slot_read_write)

lemma slot_read_take:
  "is_counter_key k \<Longrightarrow> is_counter_key k' \<Longrightarrow>
   slot_read (take_slot r k) k' = (if k' = k then max 0 (slot_read r k) + 1 else slot_read r k')"
  by (auto simp: take_slot_def Let_def slot_read_write)

subsection \<open>What each operation does to the counters\<close>

lemma slot_run_trans: "slot_run r s \<Longrightarrow> slot_run s t \<Longrightarrow> slot_run r t"
  by (rule rtranclp_trans)

lemma slot_run_refl [step_intros]: "slot_run r r"
  by simp

text \<open>A run grows by one write at its end.\<close>

definition is_cred_key :: "string \<Rightarrow> bool" where
  "is_cred_key k \<longleftrightarrow> (\<exists>g f. k = server_group_connections_key g f)"

lemma cred_key_simps [simp]: "is_cred_key (server_group_connections_key g f)"
  by (auto simp: is_cred_key_def)

lemma cred_key_counter [simp, intro]: "is_cred_key k \<Longrightarrow> is_counter_key k"
  by (auto simp: is_cred_key_def)

lemma run_write: "slot_run r s \<Longrightarrow> is_counter_key k \<Longrightarrow> slot_run r (slot_write s k v)"
  by (rule slot_run_trans [OF _ slot_run_write])

lemma run_give_back: "slot_run r s \<Longrightarrow> is_counter_key k \<Longrightarrow> slot_run r (give_back s k)"
  by (rule slot_run_trans [OF _ slot_run_give_back])

lemma run_take: "slot_run r s \<Longrightarrow> is_counter_key k \<Longrightarrow> slot_run r (take_slot s k)"
  by (rule slot_run_trans [OF _ slot_run_take])

lemma run_point: "slot_run r s \<Longrightarrow> is_cred_key k \<Longrightarrow>
  slot_run r (rset s (profile_credential_release_key i) (RText k))"
  unfolding is_cred_key_def
  by (elim exE, hypsubst) (rule slot_run_trans [OF _ slot_run_quiet [OF set_pointer]])

lemma run_drop: "slot_run r s \<Longrightarrow> slot_run r (rdel s (profile_credential_release_key i))"
  by (rule slot_run_trans [OF _ slot_run_quiet [OF drop_pointer]])

lemma run_other: "slot_run r s \<Longrightarrow> \<not> is_slot_key k \<Longrightarrow> slot_run r (rset s k v)"
  by (rule slot_run_trans [OF _ slot_run_quiet [OF foreign [OF same_slots_write(1)]]])

lemmas run_intros = slot_run_refl run_write run_give_back run_take run_point run_drop

lemma key_of_pointer:
  "slot_wf r \<Longrightarrow> rget r (profile_credential_release_key i) = Some v \<Longrightarrow> is_cred_key (key_of_val v)"
  using slot_wf_pointer by fastforce

lemma script_reserve_run:
  assumes "0 < cmax \<Longrightarrow> is_cred_key key2"
  shows "slot_run r (fst (script_reserve r (profile_connections_key i) key2
           (profile_credential_release_key j) pmax cmax))"
  unfolding script_reserve_def Let_def using assms
  by (auto intro!: run_intros)

lemma script_release_run:
  assumes "slot_wf r"
  shows "slot_run r (fst (script_release r (profile_connections_key i)
           (profile_credential_release_key j)))"
  using key_of_pointer [OF assms, of j]
  by (auto simp: script_release_def split: option.splits intro!: run_intros)

lemma switch_credential_run:
  assumes "slot_wf r" and "0 < ncmax \<Longrightarrow> is_cred_key key6"
    and "switch_credential r (profile_credential_release_key i)
           (profile_credential_release_key j) key6 ncmax = Some t"
  shows "slot_run r t"
  using assms(2,3) key_of_pointer [OF assms(1), of i]
  by (auto simp: switch_credential_def Let_def split: option.splits if_splits intro!: run_intros)

lemma script_switch_run:
  assumes "slot_wf r" and "0 < ncmax \<Longrightarrow> is_cred_key key6"
  shows "slot_run r (fst (script_switch r (profile_connections_key i) (profile_connections_key j)
           (stream_profile_key s) (profile_credential_release_key i)
           (profile_credential_release_key j) key6 new_id move ncmax))"
  using switch_credential_run [OF assms]
  by (auto simp: script_switch_def split: option.splits
      intro!: run_take run_other [OF run_give_back] slot_run_refl)

subsection \<open>The Python operations\<close>

lemma credential_reservation_key:
  assumes "credential_reservation L db p = (c, m)"
  shows "c = None \<and> m = 0 \<or> (\<exists>k. c = Some k \<and> is_cred_key k) \<and> m = max_streams p"
  using assms
  by (auto simp: credential_reservation_def credential_counter_key_def Let_def
      split: option.splits if_splits)

lemma reserve_profile_slot_run: "slot_run r (fst (reserve_profile_slot L db r p))"
proof -
  obtain c m where "credential_reservation L db p = (c, m)" by (cases "credential_reservation L db p")
  with credential_reservation_key [OF this] show ?thesis
    by (auto simp: reserve_profile_slot_def intro!: script_reserve_run)
qed

lemma release_profile_slot_run: "slot_wf r \<Longrightarrow> slot_run r (release_profile_slot r i)"
  by (simp add: release_profile_slot_def script_release_run)

lemma switch_profile_slot_run:
  assumes "slot_wf r"
  shows "slot_run r (fst (switch_profile_slot L db r p q (stream_profile_key s)))"
proof -
  obtain c m where cm: "credential_reservation L db q = (c, m)" by (cases "credential_reservation L db q")
  from credential_reservation_key [OF cm] cm show ?thesis
    by (auto simp: switch_profile_slot_def Let_def intro!: script_switch_run [OF assms])
qed

lemma reserve_wf: "slot_wf r \<Longrightarrow> slot_wf (fst (reserve_profile_slot L db r p))"
  by (rule slot_run_wf [OF reserve_profile_slot_run])

lemma release_wf: "slot_wf r \<Longrightarrow> slot_wf (release_profile_slot r i)"
  by (rule slot_run_wf [OF release_profile_slot_run])

lemma switch_wf: "slot_wf r \<Longrightarrow>
  slot_wf (fst (switch_profile_slot L db r p q (stream_profile_key s)))"
  by (rule slot_run_wf [OF switch_profile_slot_run])

subsection \<open>What one operation does to every counter\<close>

text \<open>The counters a profile's stream occupies while it plays.\<close>

definition counts_against :: "libs \<Rightarrow> database \<Rightarrow> m3u_profile \<Rightarrow> string \<Rightarrow> bool" where
  "counts_against L db p k \<longleftrightarrow> max_streams p > 0 \<and>
     (k = profile_connections_key (prof_id p) \<or> fst (credential_reservation L db p) = Some k)"

lemma reservation_cases:
  obtains (unpooled) "credential_reservation L db p = (None, 0)"
  | (pooled) k where "is_cred_key k" "credential_reservation L db p = (Some k, max_streams p)"
proof (cases "credential_reservation L db p")
  case (Pair c m)
  from credential_reservation_key [OF this] that Pair show ?thesis by auto
qed

lemma counts_against_counter: "counts_against L db p k \<Longrightarrow> is_counter_key k"
  by (cases rule: reservation_cases [of L db p]) (auto simp: counts_against_def)

lemma cred_not_profile [simp]:
  "is_cred_key k \<Longrightarrow> k \<noteq> profile_connections_key i"
  "is_cred_key k \<Longrightarrow> profile_connections_key i \<noteq> k"
  by (auto simp: is_cred_key_def)

lemma slot_read_other:
  "is_counter_key k' \<Longrightarrow> slot_read (rset r (profile_credential_release_key i) v) k' = slot_read r k'"
  "is_counter_key k' \<Longrightarrow> slot_read (rdel r (profile_credential_release_key i)) k' = slot_read r k'"
  "is_counter_key k' \<Longrightarrow> slot_read (rset r (stream_profile_key s) v) k' = slot_read r k'"
  by (simp_all add: slot_read_def store_simps)

lemmas slot_reads = slot_read_write slot_read_other slot_read_give_back slot_read_take

lemma reserve_refused: "reserve_profile_slot L db r p = (r', False, n, w) \<Longrightarrow> r' = r"
  by (auto simp: reserve_profile_slot_def script_reserve_def Let_def split: prod.splits if_splits)

lemma reserve_accepts_iff:
  "fst (snd (reserve_profile_slot L db r p)) \<longleftrightarrow>
     (\<forall>k. counts_against L db p k \<longrightarrow> slot_read r k < max_streams p)"
  by (cases rule: reservation_cases [of L db p])
    (auto simp: reserve_profile_slot_def script_reserve_def Let_def counts_against_def)

lemma reserve_effect:
  assumes "reserve_profile_slot L db r p = (r', True, n, w)" and "is_counter_key k"
  shows "slot_read r' k =
    (if counts_against L db p k then max 0 (slot_read r k) + 1 else slot_read r k)"
  using assms
  by (cases rule: reservation_cases [of L db p])
    (auto simp: reserve_profile_slot_def script_reserve_def Let_def counts_against_def slot_reads
      split: if_splits)

lemma reserve_bound:
  assumes "reserve_profile_slot L db r p = (r', True, n, w)" and "counts_against L db p k"
  shows "slot_read r' k \<le> max_streams p"
proof -
  have "slot_read r k < max_streams p"
    using reserve_accepts_iff [of L db r p] assms by simp
  moreover have "0 < max_streams p" using assms(2) by (simp add: counts_against_def)
  ultimately show ?thesis
    using reserve_effect [OF assms(1) counts_against_counter [OF assms(2)]] assms(2) by simp
qed

lemma release_effect:
  assumes "slot_wf r" and "is_counter_key k"
  shows "slot_read (release_profile_slot r i) k =
    (if k = profile_connections_key i \<or> rget r (profile_credential_release_key i) = Some (RText k)
     then max 0 (slot_read r k - 1) else slot_read r k)"
proof (cases "rget r (profile_credential_release_key i)")
  case None
  then show ?thesis
    using assms by (simp add: release_profile_slot_def script_release_def slot_reads)
next
  case (Some v)
  with slot_wf_pointer [OF assms(1) Some] obtain g f
    where "v = RText (server_group_connections_key g f)" by blast
  with Some show ?thesis
    using assms by (auto simp: release_profile_slot_def script_release_def slot_reads)
qed

lemma rget_pointer_give_back [simp]:
  "is_counter_key k \<Longrightarrow>
   rget (give_back r k) (profile_credential_release_key i) = rget r (profile_credential_release_key i)"
  by (simp add: give_back_def Let_def rget_slot_write_other)

lemma rget_pointer_take [simp]:
  "is_counter_key k \<Longrightarrow>
   rget (take_slot r k) (profile_credential_release_key i) = rget r (profile_credential_release_key i)"
  by (simp add: take_slot_def Let_def rget_slot_write_other)

lemma release_pointer:
  assumes "slot_wf r"
  shows "rget (release_profile_slot r i) (profile_credential_release_key j) =
    (if j = i then None else rget r (profile_credential_release_key j))"
proof (cases "rget r (profile_credential_release_key i)")
  case None
  then show ?thesis by (simp add: release_profile_slot_def script_release_def)
next
  case (Some v)
  from key_of_pointer [OF assms Some] have "is_counter_key (key_of_val v)" by simp
  with Some show ?thesis
    by (simp add: release_profile_slot_def script_release_def store_simps)
qed

lemma reserve_pointer:
  assumes "reserve_profile_slot L db r p = (r', True, n, w)"
  shows "rget r' (profile_credential_release_key i) =
    (if i = prof_id p \<and> max_streams p > 0 \<and> fst (credential_reservation L db p) \<noteq> None
     then map_option RText (fst (credential_reservation L db p))
     else rget r (profile_credential_release_key i))"
  using assms
  by (cases rule: reservation_cases [of L db p])
    (auto simp: reserve_profile_slot_def script_reserve_def Let_def store_simps
      rget_slot_write_other split: if_splits)

subsection \<open>A switch\<close>

definition login_changes :: "libs \<Rightarrow> database \<Rightarrow> m3u_profile \<Rightarrow> m3u_profile \<Rightarrow> bool" where
  "login_changes L db p q \<longleftrightarrow>
     get_profile_credential_fingerprint L db p \<noteq> get_profile_credential_fingerprint L db q"

definition credential_after_switch ::
  "libs \<Rightarrow> database \<Rightarrow> redis \<Rightarrow> m3u_profile \<Rightarrow> m3u_profile \<Rightarrow> string \<Rightarrow> int" where
  "credential_after_switch L db r p q k =
     (if login_changes L db p q \<and> counts_against L db q k then max 0 (slot_read r k) + 1
      else if login_changes L db p q
              \<and> rget r (profile_credential_release_key (prof_id p)) = Some (RText k)
      then max 0 (slot_read r k - 1) else slot_read r k)"

lemma cred_counts_against: "is_cred_key k \<Longrightarrow>
  counts_against L db p k \<longleftrightarrow> max_streams p > 0 \<and> fst (credential_reservation L db p) = Some k"
  by (auto simp: counts_against_def)

lemma pointer_key_eq:
  assumes "slot_wf r" and "rget r (profile_credential_release_key i) = Some v"
  shows "key_of_val v = k \<longleftrightarrow> v = RText k"
  using slot_wf_pointer [OF assms] by auto

lemma switch_credential_effect:
  assumes wf: "slot_wf r" and key6: "0 < ncmax \<Longrightarrow> is_cred_key key6" and k: "is_counter_key k"
    and sw: "switch_credential r (profile_credential_release_key i)
           (profile_credential_release_key j) key6 ncmax = Some t"
  shows "slot_read t k =
    (if 0 < ncmax \<and> k = key6 then max 0 (slot_read r k) + 1
     else if rget r (profile_credential_release_key i) = Some (RText k)
     then max 0 (slot_read r k - 1) else slot_read r k)"
proof -
  let ?p = "profile_credential_release_key i"
  define s where "s = (case rget r ?p of
      Some ock \<Rightarrow> rdel (give_back r (key_of_val ock)) ?p | None \<Rightarrow> r)"
  have s: "slot_read s k =
      (if rget r ?p = Some (RText k) then max 0 (slot_read r k - 1) else slot_read r k)"
    using key_of_pointer [OF wf, of i] pointer_key_eq [OF wf, of i _ k] k
    by (auto simp: s_def slot_reads split: option.splits)
  have "t = (if ncmax > 0 then rset (slot_write s key6 (max 0 (slot_read r key6) + 1))
      (profile_credential_release_key j) (RText key6) else s)"
    using sw unfolding switch_credential_def s_def [symmetric] by (auto simp: Let_def split: if_splits)
  then show ?thesis using s k key6 by (auto simp: slot_reads)
qed

lemma switch_refused:
  assumes "switch_profile_slot L db r p q k = (r', False)"
  shows "r' = r"
  using assms
  by (auto simp: switch_profile_slot_def script_switch_def Let_def split: prod.splits option.splits)

lemma switch_accepts_iff:
  "snd (switch_profile_slot L db r p q k) \<longleftrightarrow>
     (\<forall>K. login_changes L db p q \<and> is_cred_key K \<and> counts_against L db q K
          \<longrightarrow> slot_read r K < max_streams q)"
  by (cases rule: reservation_cases [of L db q])
    (auto simp: switch_profile_slot_def script_switch_def switch_credential_def Let_def
      login_changes_def cred_counts_against not_less split: prod.splits option.splits)

lemma switch_script_args:
  assumes "login_changes L db p q"
  obtains key6 ncmax where "switch_profile_slot L db r p q k =
       script_switch r (profile_connections_key (prof_id p)) (profile_connections_key (prof_id q)) k
         (profile_credential_release_key (prof_id p)) (profile_credential_release_key (prof_id q))
         key6 (prof_id q) True ncmax"
    and "0 < ncmax \<longrightarrow> is_cred_key key6"
    and "\<forall>k. is_cred_key k \<longrightarrow> counts_against L db q k = (0 < ncmax \<and> k = key6)"
proof (cases rule: reservation_cases [of L db q])
  case unpooled
  with that [of NO_KEY 0] assms show ?thesis
    by (simp add: switch_profile_slot_def login_changes_def cred_counts_against)
next
  case (pooled K)
  with that [of K "max_streams q"] assms show ?thesis
    by (auto simp: switch_profile_slot_def login_changes_def cred_counts_against)
qed

lemma switch_credential_part:
  assumes wf: "slot_wf r" and sw: "switch_profile_slot L db r p q k = (r', True)"
  obtains r1 where "r' = take_slot (rset (give_back r1 (profile_connections_key (prof_id p))) k
        (RInt (prof_id q))) (profile_connections_key (prof_id q))"
    and "\<forall>k. is_counter_key k \<longrightarrow> slot_read r1 k =
      (if is_cred_key k then credential_after_switch L db r p q k else slot_read r k)"
proof (cases "login_changes L db p q")
  case False
  then show ?thesis
    using sw that [of r]
    by (auto simp: switch_profile_slot_def script_switch_def Let_def login_changes_def
        credential_after_switch_def)
next
  case True
  obtain key6 ncmax where args: "switch_profile_slot L db r p q k =
      script_switch r (profile_connections_key (prof_id p)) (profile_connections_key (prof_id q)) k
         (profile_credential_release_key (prof_id p)) (profile_credential_release_key (prof_id q))
         key6 (prof_id q) True ncmax"
    and key6: "0 < ncmax \<longrightarrow> is_cred_key key6"
    and against: "\<forall>k. is_cred_key k \<longrightarrow> counts_against L db q k = (0 < ncmax \<and> k = key6)"
    by (rule switch_script_args [OF True])
  obtain r1 where r1: "switch_credential r (profile_credential_release_key (prof_id p))
        (profile_credential_release_key (prof_id q)) key6 ncmax = Some r1"
    and r': "r' = take_slot (rset (give_back r1 (profile_connections_key (prof_id p))) k
        (RInt (prof_id q))) (profile_connections_key (prof_id q))"
    using sw unfolding args script_switch_def by (auto split: option.splits)
  have "slot_read r1 k' = (if is_cred_key k' then credential_after_switch L db r p q k'
      else slot_read r k')" if "is_counter_key k'" for k'
    using switch_credential_effect [OF wf key6 [rule_format] that r1] True against key6
      slot_wf_pointer [OF wf, of "prof_id p"]
    by (auto simp: credential_after_switch_def)
  with that [OF r'] show ?thesis by blast
qed

lemma switch_effect:
  assumes wf: "slot_wf r" and sw: "switch_profile_slot L db r p q (stream_profile_key s) = (r', True)"
    and ne: "prof_id p \<noteq> prof_id q"
  shows "slot_read r' (profile_connections_key i) =
      (if i = prof_id q then max 0 (slot_read r (profile_connections_key i)) + 1
       else if i = prof_id p then max 0 (slot_read r (profile_connections_key i) - 1)
       else slot_read r (profile_connections_key i))"
    and "is_cred_key k \<Longrightarrow> slot_read r' k = credential_after_switch L db r p q k"
    and "rget r' (stream_profile_key s) = Some (RInt (prof_id q))"
proof -
  obtain r1 where r1: "r' = take_slot (rset (give_back r1 (profile_connections_key (prof_id p)))
        (stream_profile_key s) (RInt (prof_id q))) (profile_connections_key (prof_id q))"
    and eff: "\<forall>k. is_counter_key k \<longrightarrow> slot_read r1 k =
      (if is_cred_key k then credential_after_switch L db r p q k else slot_read r k)"
    by (rule switch_credential_part [OF wf sw])
  have "\<not> is_cred_key (profile_connections_key i)" for i by (simp add: is_cred_key_def)
  then show "slot_read r' (profile_connections_key i) =
      (if i = prof_id q then max 0 (slot_read r (profile_connections_key i)) + 1
       else if i = prof_id p then max 0 (slot_read r (profile_connections_key i) - 1)
       else slot_read r (profile_connections_key i))"
    using ne eff by (simp add: r1 slot_reads)
  show "is_cred_key k \<Longrightarrow> slot_read r' k = credential_after_switch L db r p q k"
    using eff by (simp add: r1 slot_reads)
  show "rget r' (stream_profile_key s) = Some (RInt (prof_id q))"
    by (simp add: r1 take_slot_def Let_def rget_slot_write_other store_simps)
qed

subsection \<open>Operations in any order\<close>

text \<open>
  Reserves, releases and switches of any number of workers are one sequence of atomic script
  runs, with writes of other components to other keys between them. A switch goes to another
  profile: \<open>Channel.update_stream_profile\<close> returns early when the profile is unchanged.
\<close>

datatype slot_op =
  Reserve m3u_profile
| Release int
| Switch m3u_profile m3u_profile int
| Other

inductive slot_step :: "libs \<Rightarrow> database \<Rightarrow> redis \<Rightarrow> slot_op \<Rightarrow> redis \<Rightarrow> bool" for L db where
  reserve_step: "slot_step L db r (Reserve p) (fst (reserve_profile_slot L db r p))"
| release_step: "slot_step L db r (Release i) (release_profile_slot r i)"
| switch_step: "prof_id p \<noteq> prof_id q \<Longrightarrow>
    slot_step L db r (Switch p q s) (fst (switch_profile_slot L db r p q (stream_profile_key s)))"
| other_step: "same_slots r t \<Longrightarrow> slot_step L db r Other t"

inductive slot_trace :: "libs \<Rightarrow> database \<Rightarrow> redis \<Rightarrow> slot_op list \<Rightarrow> redis \<Rightarrow> bool" for L db where
  trace_nil: "slot_trace L db r [] r"
| trace_snoc: "slot_trace L db r ops s \<Longrightarrow> slot_step L db s oper t \<Longrightarrow> slot_trace L db r (ops @ [oper]) t"

inductive_simps slot_step_simps [simp]:
  "slot_step L db r (Reserve p) t"
  "slot_step L db r (Release i) t"
  "slot_step L db r (Switch p q s) t"
  "slot_step L db r Other t"

lemma slot_step_run: "slot_step L db r oper t \<Longrightarrow> slot_wf r \<Longrightarrow> slot_run r t"
  by (cases oper) (auto intro: reserve_profile_slot_run release_profile_slot_run
      switch_profile_slot_run slot_run_quiet foreign)

lemma slot_trace_run: "slot_trace L db r ops t \<Longrightarrow> slot_wf r \<Longrightarrow> slot_run r t"
proof (induction rule: slot_trace.induct)
  case (trace_snoc r ops s oper t)
  then have "slot_run r s" by simp
  with slot_step_run [OF trace_snoc.hyps(2)] slot_run_wf trace_snoc.prems show ?case
    by (blast intro: slot_run_trans)
qed simp

lemma slot_trace_wf: "slot_trace L db r ops t \<Longrightarrow> slot_wf r \<Longrightarrow> slot_wf t"
  by (blast intro: slot_trace_run slot_run_wf)

text \<open>
  No operation of the sequence lets counter \<open>k\<close> past \<open>M\<close>: each reserve and each move of a
  login that counts against it does so with a limit of at most \<open>M\<close>, and no switch takes the
  profile counter \<open>k\<close>, which it would do without a check.
\<close>

fun within_cap :: "libs \<Rightarrow> database \<Rightarrow> string \<Rightarrow> int \<Rightarrow> slot_op \<Rightarrow> bool" where
  "within_cap L db k M (Reserve p) \<longleftrightarrow> (counts_against L db p k \<longrightarrow> max_streams p \<le> M)"
| "within_cap L db k M (Switch p q s) \<longleftrightarrow> k \<noteq> profile_connections_key (prof_id q)
     \<and> (counts_against L db q k \<longrightarrow> max_streams q \<le> M)"
| "within_cap L db k M _ = True"

definition in_cap :: "redis \<Rightarrow> string \<Rightarrow> int \<Rightarrow> bool" where
  "in_cap r k M \<longleftrightarrow> 0 \<le> slot_read r k \<and> slot_read r k \<le> M"

lemma counter_key_cases: "is_counter_key k \<Longrightarrow> (\<exists>i. k = profile_connections_key i) \<or> is_cred_key k"
  by (auto simp: is_counter_key_def is_cred_key_def)

lemma reserve_in_cap:
  assumes "within_cap L db k M (Reserve p)" and "is_counter_key k"
    and "in_cap r k M"
  shows "in_cap (fst (reserve_profile_slot L db r p)) k M"
proof -
  obtain r' ok n w where res: "reserve_profile_slot L db r p = (r', ok, n, w)" by (metis prod_cases4)
  show ?thesis
  proof (cases ok)
    case False
    with res assms show ?thesis by (auto dest: reserve_refused)
  next
    case True
    with reserve_effect [of L db r p r' n w k] reserve_bound [of L db r p r' n w k] res assms
    show ?thesis by (auto simp: in_cap_def)
  qed
qed

lemma release_in_cap:
  assumes "slot_wf r" and "is_counter_key k" and "in_cap r k M"
  shows "in_cap (release_profile_slot r i) k M"
  using release_effect [OF assms(1,2), of i] assms(3) by (auto simp: in_cap_def)

lemma switch_in_cap:
  assumes wf: "slot_wf r" and cap: "within_cap L db k M (Switch p q s)" and k: "is_counter_key k"
    and ne: "prof_id p \<noteq> prof_id q" and inv: "in_cap r k M"
  shows "in_cap (fst (switch_profile_slot L db r p q (stream_profile_key s))) k M"
proof -
  obtain r' ok where sw: "switch_profile_slot L db r p q (stream_profile_key s) = (r', ok)"
    by fastforce
  show ?thesis
  proof (cases ok)
    case False
    with sw inv show ?thesis by (auto dest: switch_refused)
  next
    case True
    from counter_key_cases [OF k] show ?thesis
    proof
      assume "\<exists>i. k = profile_connections_key i"
      with switch_effect(1) [OF wf _ ne, of L db s r'] sw True cap inv show ?thesis by (auto simp: in_cap_def)
    next
      assume cred: "is_cred_key k"
      with switch_accepts_iff [of L db r p q "stream_profile_key s"] sw True
      have "login_changes L db p q \<and> counts_against L db q k \<longrightarrow> slot_read r k < max_streams q" by simp
      with switch_effect(2) [OF wf _ ne cred, of L db s r'] sw True cap inv show ?thesis
        by (auto simp: credential_after_switch_def in_cap_def)
    qed
  qed
qed

lemma other_in_cap: "same_slots r t \<Longrightarrow> is_counter_key k \<Longrightarrow> in_cap r k M \<Longrightarrow> in_cap t k M"
  by (simp add: in_cap_def same_slots_read)

lemma step_in_cap:
  assumes "slot_step L db r oper t" and "slot_wf r" and "is_counter_key k" and "within_cap L db k M oper"
    and "in_cap r k M"
  shows "in_cap t k M"
  using assms
  by (cases oper) (auto intro: reserve_in_cap release_in_cap switch_in_cap other_in_cap
      simp del: within_cap.simps)

lemma trace_in_cap:
  assumes "slot_trace L db r ops t" and "slot_wf r" and "is_counter_key k"
    and "in_cap r k M" and "\<forall>oper \<in> set ops. within_cap L db k M oper"
  shows "in_cap t k M"
  using assms
proof (induction rule: slot_trace.induct)
  case (trace_snoc r ops s oper t)
  then show ?case
    by (auto intro: step_in_cap slot_trace_wf)
qed simp

subsection \<open>The capacity checks agree with the script\<close>

lemma count_of_slot_read:
  assumes "slot_wf r" and "is_counter_key k"
  shows "count_of r k = slot_read r k"
proof -
  from assms have "rget r k = None \<or> (\<exists>n. rget r k = Some (RInt n))"
    unfolding slot_wf_def by blast
  then show ?thesis by (auto simp: count_of_def slot_read_def)
qed

lemma profile_capacity_iff:
  assumes "slot_wf r" and "0 \<le> max_streams p"
  shows "profile_has_capacity_for_selection p r \<longleftrightarrow>
    (0 < max_streams p \<longrightarrow> slot_read r (profile_connections_key (prof_id p)) < max_streams p)"
  using assms
  by (auto simp: profile_has_capacity_for_selection_def get_profile_connection_count_def
      count_of_slot_read)

lemma group_capacity_iff:
  assumes "slot_wf r" and "0 \<le> max_streams p"
  shows "group_has_capacity_for_profile L db p r \<longleftrightarrow>
    (\<forall>k. 0 < max_streams p \<and> fst (credential_reservation L db p) = Some k
         \<longrightarrow> slot_read r k < max_streams p)"
  using assms
  by (auto simp: group_has_capacity_for_profile_def credential_reservation_def
      credential_counter_key_def Let_def count_of_slot_read split: option.splits if_splits)

lemma pool_capacity_iff:
  assumes "slot_wf r" and "0 \<le> max_streams p"
  shows "pool_has_capacity_for_profile L db p r \<longleftrightarrow>
    (\<forall>k. counts_against L db p k \<longrightarrow> slot_read r k < max_streams p)"
  unfolding pool_has_capacity_for_profile_def profile_capacity_iff [OF assms]
    group_capacity_iff [OF assms] counts_against_def by blast

lemma blocking_profile_ids_iff:
  "i \<in> set (blocking_profile_ids L db ps r) \<longleftrightarrow>
    (\<exists>p \<in> set ps. \<not> pool_has_capacity_for_profile L db p r \<and>
       (i = prof_id p \<or> profile_has_capacity_for_selection p r
                        \<and> i \<in> set (credential_sibling_profile_ids L db p)))"
  by (auto simp: blocking_profile_ids_def pool_has_capacity_for_profile_def)

lemma credential_sibling_iff:
  "i \<in> set (credential_sibling_profile_ids L db p) \<longleftrightarrow>
    (\<exists>k q. fst (credential_reservation L db p) = Some k \<and> q \<in> set (db_profiles db) \<and> i = prof_id q
       \<and> fst (credential_reservation L db q) = Some k)"
proof -
  have "server_group (prof_account q) = get_enforced_server_group_for_profile p"
    if "fst (credential_reservation L db p) = Some k" "fst (credential_reservation L db q) = Some k"
    for q k
    using that by (auto simp: credential_reservation_def credential_counter_key_def Let_def
        get_enforced_server_group_for_profile_def key_simps split: option.splits if_splits)
  then show ?thesis
    by (cases "fst (credential_reservation L db p)") (fastforce simp: credential_sibling_profile_ids_def)+
qed

end
