(* ===== verification/Example_Data.thy ===== *)
theory Example_Data
  imports Provider_Model Credentials
begin

section \<open>A small installation for the witnesses\<close>

text \<open>
  One concrete instance of the model's parameters and tables, shared by the witnesses of the
  properties: an account with a login in server group 7 and one without a group, each with
  profiles, and a library record whose digest is the text itself and whose regular
  expressions replace nothing.
\<close>

definition demo_libs :: libs where
  "demo_libs = \<lparr>re_subn = (\<lambda>p r s. Some (s, 0)), re_sub = (\<lambda>p r s. Some s),
                sha256_hexdigest = (\<lambda>s. s)\<rparr>"

definition demo_account :: m3u_account where
  "demo_account = \<lparr>acc_id = 1, account_type = STD, acc_is_active = True, server_group = Some 7,
     server_url = None, username = Some ''user'', password = Some ''pass'', acc_user_agent = None\<rparr>"

definition solo_account :: m3u_account where
  "solo_account = demo_account\<lparr>acc_id := 2, server_group := None\<rparr>"

definition demo_profile :: m3u_profile where
  "demo_profile = \<lparr>prof_id = 11, prof_account = demo_account, prof_name = ''main'',
     is_default = True, max_streams = 2, prof_is_active = True,
     search_pattern = [], replace_pattern = []\<rparr>"

definition spare_profile :: m3u_profile where
  "spare_profile = demo_profile\<lparr>prof_id := 12, is_default := False, max_streams := 1\<rparr>"

definition solo_profile :: m3u_profile where
  "solo_profile = demo_profile\<lparr>prof_id := 21, prof_account := solo_account\<rparr>"

definition demo_stream :: stream_row where
  "demo_stream = \<lparr>stream_pk = 5, stream_name = ''news'', stream_url = Some ''http://p/live'',
     stream_hash = Some ''h5'', provider_stream_id = None, stream_account = Some demo_account\<rparr>"

definition demo_channel :: channel_row where
  "demo_channel = \<lparr>chan_pk = 3, chan_uuid = ''uuid3'', chan_name = ''News'',
     chan_streams = [demo_stream]\<rparr>"

definition demo_db :: database where
  "demo_db = \<lparr>db_profiles = [demo_profile, spare_profile, solo_profile], db_streams = [],
     db_channels = [demo_channel]\<rparr>"

lemmas demo_defs = demo_libs_def demo_account_def solo_account_def demo_profile_def
  spare_profile_def solo_profile_def demo_stream_def demo_channel_def demo_db_def

lemma demo_fields [simp]:
  "prof_id demo_profile = 11" "prof_id spare_profile = 12" "prof_id solo_profile = 21"
  "max_streams demo_profile = 2" "max_streams spare_profile = 1" "max_streams solo_profile = 2"
  "prof_account demo_profile = demo_account" "prof_account spare_profile = demo_account"
  "prof_account solo_profile = solo_account"
  by (simp_all add: demo_profile_def spare_profile_def solo_profile_def)

end
