(* ===== verification/Pool_Properties.thy ===== *)
theory Pool_Properties
  imports Connection_Pool Example_Data
begin

section \<open>Provider slots: the properties\<close>

text \<open>
  The contract of the slot script as its callers see it: what a reserve, a release and a
  switch do to every counter, the caps over any interleaving, the refinement of a ledger of
  leases for accounts without a server group, and the two ways a shared login's counter
  drifts from it.
\<close>

definition demo_key :: string where
  "demo_key = server_group_connections_key 7 (''user'' @ [CHR 0x00] @ ''pass'')"

lemma demo_fingerprint:
  "get_profile_credential_fingerprint demo_libs demo_db p = Some (''user'' @ [CHR 0x00] @ ''pass'')"
  if "prof_account p = demo_account \<or> prof_account p = solo_account" for p
  using that by (auto simp: demo_defs get_profile_credential_fingerprint_def Let_def
     compute_credential_fingerprint_def fingerprint_from_profile_stream_url_def opt_text_def
     casefold_def lower_def lower_char_def strip_def lstrip_def is_space_def)

lemma demo_reservation:
  "credential_reservation demo_libs demo_db demo_profile = (Some demo_key, 2)"
  "credential_reservation demo_libs demo_db spare_profile = (Some demo_key, 1)"
  "credential_reservation demo_libs demo_db solo_profile = (None, 0)"
proof -
  have acc: "prof_account demo_profile = demo_account" "prof_account spare_profile = demo_account"
    by (simp_all add: demo_profile_def spare_profile_def)
  have fp: "get_profile_credential_fingerprint demo_libs demo_db demo_profile = Some (''user'' @ [CHR 0x00] @ ''pass'')"
   "get_profile_credential_fingerprint demo_libs demo_db spare_profile = Some (''user'' @ [CHR 0x00] @ ''pass'')"
    by (simp_all add: demo_fingerprint acc)
  show "credential_reservation demo_libs demo_db demo_profile = (Some demo_key, 2)"
  "credential_reservation demo_libs demo_db spare_profile = (Some demo_key, 1)"
  "credential_reservation demo_libs demo_db solo_profile = (None, 0)"
  using fp unfolding  credential_reservation_def credential_counter_key_def get_enforced_server_group_for_profile_def
  by (auto simp: Let_def opt_text_def demo_profile_def demo_account_def spare_profile_def solo_profile_def solo_account_def
   demo_key_def)
qed


subsection \<open>One reserve\<close>

text \<open>C1. Reserving a slot is all or nothing: it is granted exactly when every counter the
  profile's stream counts against is below the profile's limit; a grant raises each of those
  counters by one (a negative one counts from zero), keeps it within the limit and leaves
  every other counter alone; a refusal changes nothing at all.\<close>

theorem reserve_all_or_nothing:
  assumes "reserve_profile_slot L db r p = (r', ok, n, why)"
  shows "(ok \<longleftrightarrow> (\<forall>k. counts_against L db p k \<longrightarrow> slot_read r k < max_streams p)) \<and>
    (\<not> ok \<longrightarrow> r' = r \<and> why \<noteq> None) \<and>
    (ok \<longrightarrow> (\<forall>k. is_counter_key k \<longrightarrow>
       slot_read r' k = (if counts_against L db p k then max 0 (slot_read r k) + 1 else slot_read r k) \<and>
       (counts_against L db p k \<longrightarrow> slot_read r' k \<le> max_streams p)))"
proof -
  have ok: "ok \<longleftrightarrow> (\<forall>k. counts_against L db p k \<longrightarrow> slot_read r k < max_streams p)"
    using reserve_accepts_iff [of L db r p] assms by simp
  have "\<not> ok \<longrightarrow> r' = r \<and> why \<noteq> None"
    using assms by (auto simp: reserve_profile_slot_def script_reserve_def Let_def
        split: prod.splits if_splits)
  moreover have "slot_read r' k = (if counts_against L db p k then max 0 (slot_read r k) + 1
      else slot_read r k) \<and> (counts_against L db p k \<longrightarrow> slot_read r' k \<le> max_streams p)"
    if "ok" "is_counter_key k" for k
    using reserve_effect [of L db r p r' n why k] reserve_bound [of L db r p r' n why k] that assms
    by simp
  ultimately show ?thesis using ok by blast
qed

lemma reserve_all_or_nothing_witness:
  "\<exists>r'. reserve_profile_slot demo_libs demo_db empty_redis demo_profile = (r', True, 1, None) \<and>
     slot_read r' demo_key = 1 \<and> slot_read r' (profile_connections_key 11) = 1"
proof -
  obtain r' ok n why where res:
    "reserve_profile_slot demo_libs demo_db empty_redis demo_profile = (r', ok, n, why)"
    by (metis prod_cases4)
  have keys: "counts_against demo_libs demo_db demo_profile k \<longleftrightarrow>
      k = profile_connections_key 11 \<or> k = demo_key" for k
    by (auto simp: counts_against_def demo_reservation)
  have "ok" "n = 1" "why = None"
    using res by (auto simp: reserve_profile_slot_def demo_reservation script_reserve_def
        slot_read_def Let_def split: if_splits)
  moreover have "slot_read r' demo_key = 1 \<and> slot_read r' (profile_connections_key 11) = 1"
    using reserve_all_or_nothing [OF res] \<open>ok\<close>
    by (simp add: keys demo_key_def) (simp add: slot_read_def)
  ultimately show ?thesis using res by auto
qed

subsection \<open>A reserve and its release\<close>

text \<open>A release undoes the reserve it follows: for a profile with a limit, from a
  well-formed store with no negative counter, reserve then release leaves every profile and
  credential counter as it was, with the release pointer of the profile gone.\<close>

theorem release_undoes_reserve:
  assumes wf: "slot_wf r" and nonneg: "\<And>k. is_counter_key k \<Longrightarrow> 0 \<le> slot_read r k"
    and limited: "0 < max_streams p" and fresh: "rget r (profile_credential_release_key (prof_id p)) = None"
    and res: "reserve_profile_slot L db r p = (r', True, n, why)" and k: "is_counter_key k"
  shows "slot_read (release_profile_slot r' (prof_id p)) k = slot_read r k \<and>
    rget (release_profile_slot r' (prof_id p)) (profile_credential_release_key (prof_id p)) = None"
proof -
  have wf': "slot_wf r'" using reserve_wf [OF wf, of L db p] res by simp
  have "counts_against L db p k \<longleftrightarrow> k = profile_connections_key (prof_id p) \<or>
      rget r' (profile_credential_release_key (prof_id p)) = Some (RText k)"
    using limited fresh reserve_pointer [OF res, of "prof_id p"] by (auto simp: counts_against_def)
  then have "slot_read (release_profile_slot r' (prof_id p)) k = slot_read r k"
    using release_effect [OF wf' k, of "prof_id p"] reserve_effect [OF res k] nonneg [OF k] by auto
  then show ?thesis using release_pointer [OF wf'] by simp
qed

lemma demo_reserve_empty:
  obtains r' where
    "reserve_profile_slot demo_libs demo_db empty_redis demo_profile = (r', True, 1, None)"
proof -
  obtain r' ok n why where res:
    "reserve_profile_slot demo_libs demo_db empty_redis demo_profile = (r', ok, n, why)"
    by (metis prod_cases4)
  moreover have "ok" "n = 1" "why = None"
    using res by (auto simp: reserve_profile_slot_def demo_reservation script_reserve_def
        slot_read_def Let_def split: if_splits)
  ultimately show ?thesis using that by auto
qed

lemma slot_read_empty [simp]: "slot_read empty_redis k = 0"
  by (simp add: slot_read_def)

lemma release_undoes_reserve_witness:
  "\<exists>r'. fst (reserve_profile_slot demo_libs demo_db empty_redis demo_profile) = r' \<and>
     slot_read (release_profile_slot r' 11) demo_key = 0"
proof -
  obtain r' where res:
    "reserve_profile_slot demo_libs demo_db empty_redis demo_profile = (r', True, 1, None)"
    by (rule demo_reserve_empty)
  have "slot_read (release_profile_slot r' (prof_id demo_profile)) demo_key
      = slot_read empty_redis demo_key"
    using release_undoes_reserve [of empty_redis demo_profile, OF _ _ _ _ res, of demo_key]
    by (simp add: demo_key_def)
  with res show ?thesis by simp
qed

text \<open>With two streams on one profile of a pooled login the bookkeeping leaks: after
  reserve, reserve, release, release the profile's own counter is back where it was, but the
  credential counter of the shared login stays one higher, with no stream left to hold it
  (the one release pointer per profile is deleted by the first release).\<close>

theorem pooled_login_leaks_on_second_stream:
  assumes wf: "slot_wf r" and nonneg: "\<And>k. is_counter_key k \<Longrightarrow> 0 \<le> slot_read r k"
    and pooled: "credential_reservation L db p = (Some K, max_streams p)" "0 < max_streams p"
    and first: "reserve_profile_slot L db r p = (r1, True, n1, w1)"
    and second: "reserve_profile_slot L db r1 p = (r2, True, n2, w2)"
    and r4: "r4 = release_profile_slot (release_profile_slot r2 (prof_id p)) (prof_id p)"
  shows "slot_read r4 (profile_connections_key (prof_id p))
           = slot_read r (profile_connections_key (prof_id p)) \<and>
         slot_read r4 K = slot_read r K + 1"
proof -
  let ?P = "profile_connections_key (prof_id p)" and ?r3 = "release_profile_slot r2 (prof_id p)"
  have K: "is_cred_key K" using pooled by (cases rule: reservation_cases [of L db p]) auto
  have against: "counts_against L db p ?P" "counts_against L db p K"
    using pooled by (simp_all add: counts_against_def)
  have wf2: "slot_wf r2" and wf3: "slot_wf ?r3"
    using reserve_wf [OF wf, of L db p] reserve_wf [of r1 L db p] first second
    by (simp_all add: release_wf)
  have r2: "slot_read r2 k = slot_read r k + 2" if "k = ?P \<or> k = K" for k
    using that reserve_effect [OF first, of k] reserve_effect [OF second, of k] nonneg [of k]
      against K by auto
  have "rget r2 (profile_credential_release_key (prof_id p)) = Some (RText K)"
    using reserve_pointer [OF second, of "prof_id p"] pooled by simp
  then have r3: "slot_read ?r3 k = slot_read r k + 1" if "k = ?P \<or> k = K" for k
    using that release_effect [OF wf2, of k "prof_id p"] r2 [OF that] K nonneg [of k] by auto
  have "rget ?r3 (profile_credential_release_key (prof_id p)) = None"
    using release_pointer [OF wf2] by simp
  then show ?thesis
    using release_effect [OF wf3, of ?P "prof_id p"] release_effect [OF wf3, of K "prof_id p"]
      r3 [of ?P] r3 [of K] nonneg [of ?P] K unfolding r4 by simp
qed

lemma demo_reserve_second:
  assumes "reserve_profile_slot demo_libs demo_db empty_redis demo_profile = (r1, True, 1, None)"
  obtains r2 where "reserve_profile_slot demo_libs demo_db r1 demo_profile = (r2, True, 2, None)"
proof -
  have reads: "slot_read r1 demo_key = 1" "slot_read r1 (profile_connections_key 11) = 1"
    using reserve_effect [OF assms, of demo_key]
      reserve_effect [OF assms, of "profile_connections_key 11"]
    by (simp_all add: counts_against_def demo_reservation demo_key_def)
  obtain r2 ok n why where res:
    "reserve_profile_slot demo_libs demo_db r1 demo_profile = (r2, ok, n, why)"
    by (metis prod_cases4)
  moreover have "ok" "n = 2" "why = None"
    using res reads by (auto simp: reserve_profile_slot_def demo_reservation script_reserve_def
        Let_def split: if_splits)
  ultimately show ?thesis using that by auto
qed

lemma pooled_login_leaks_witness:
  "\<exists>r1 r2. fst (reserve_profile_slot demo_libs demo_db empty_redis demo_profile) = r1 \<and>
     fst (reserve_profile_slot demo_libs demo_db r1 demo_profile) = r2 \<and>
     slot_read (release_profile_slot (release_profile_slot r2 11) 11) demo_key = 1 \<and>
     slot_read (release_profile_slot (release_profile_slot r2 11) 11) (profile_connections_key 11) = 0"
proof -
  obtain r1 where res1:
    "reserve_profile_slot demo_libs demo_db empty_redis demo_profile = (r1, True, 1, None)"
    by (rule demo_reserve_empty)
  obtain r2 where res2: "reserve_profile_slot demo_libs demo_db r1 demo_profile = (r2, True, 2, None)"
    by (rule demo_reserve_second [OF res1])
  from pooled_login_leaks_on_second_stream [OF _ _ _ _ res1 res2 refl, of demo_key]
  show ?thesis using res1 res2 by (simp add: demo_reservation)
qed

subsection \<open>Caps and versions over any interleaving\<close>

text \<open>C2. A limit is never exceeded: over any sequence of reserves, releases and switches of
  any number of workers, with writes of other components in between, a provider counter that
  starts at no more than M stays between zero and M, as long as every profile that counts
  against it has a limit of at most M and no switch (which takes the profile slot unchecked)
  goes to the profile it counts. For a login shared by several profiles M is the largest of
  their limits.\<close>

theorem limits_hold_over_any_interleaving:
  assumes "slot_trace L db r ops t" and "slot_wf r" and "is_counter_key k"
    and "0 \<le> slot_read r k" and "slot_read r k \<le> M"
    and "\<forall>oper \<in> set ops. within_cap L db k M oper"
  shows "0 \<le> slot_read t k \<and> slot_read t k \<le> M"
  using trace_in_cap [OF assms(1-3) _ assms(6)] assms(4,5) by (simp add: in_cap_def)

lemma demo_trace:
  obtains r1 r2 where "slot_trace demo_libs demo_db empty_redis [Reserve demo_profile, Reserve demo_profile] r2"
    and "reserve_profile_slot demo_libs demo_db empty_redis demo_profile = (r1, True, 1, None)"
    and "reserve_profile_slot demo_libs demo_db r1 demo_profile = (r2, True, 2, None)"
proof -
  obtain r1 where res1:
    "reserve_profile_slot demo_libs demo_db empty_redis demo_profile = (r1, True, 1, None)"
    by (rule demo_reserve_empty)
  obtain r2 where res2: "reserve_profile_slot demo_libs demo_db r1 demo_profile = (r2, True, 2, None)"
    by (rule demo_reserve_second [OF res1])
  have "slot_trace demo_libs demo_db empty_redis ([] @ [Reserve demo_profile]) r1"
    by (rule trace_snoc [OF trace_nil]) (simp add: res1)
  then have "slot_trace demo_libs demo_db empty_redis (([] @ [Reserve demo_profile]) @ [Reserve demo_profile]) r2"
    by (rule trace_snoc) (simp add: res2)
  with res1 res2 that show ?thesis by simp
qed

lemma limits_hold_witness:
  "\<exists>r2. slot_trace demo_libs demo_db empty_redis [Reserve demo_profile, Reserve demo_profile] r2
     \<and> 0 \<le> slot_read r2 demo_key \<and> slot_read r2 demo_key \<le> 2"
proof -
  obtain r1 r2 where tr:
    "slot_trace demo_libs demo_db empty_redis [Reserve demo_profile, Reserve demo_profile] r2"
    by (rule demo_trace)
  from limits_hold_over_any_interleaving [OF this, of demo_key 2] have
    "0 \<le> slot_read r2 demo_key \<and> slot_read r2 demo_key \<le> 2"
    by (simp add: demo_key_def)
  with tr show ?thesis by blast
qed

text \<open>A counter's version is a faithful change record: over any such sequence versions
  never go back, and a counter whose version is the same at both ends has not been changed,
  not even changed and changed back (each write of the script bumps the version).\<close>

theorem unmoved_version_means_untouched_counter:
  assumes "slot_trace L db r ops t" and "slot_wf r" and "is_counter_key k"
  shows "slot_version r k \<le> slot_version t k \<and>
    (slot_version t k = slot_version r k \<longrightarrow> slot_read t k = slot_read r k)"
  using slots.run_stamp [OF slot_trace_run [OF assms(1,2)] assms(2,3)] by blast

lemma unmoved_version_witness:
  "\<exists>r2. slot_trace demo_libs demo_db empty_redis [Reserve demo_profile, Reserve demo_profile] r2
     \<and> slot_read r2 demo_key \<noteq> slot_read empty_redis demo_key
     \<and> slot_version empty_redis demo_key < slot_version r2 demo_key"
proof -
  obtain r1 r2 where tr:
    "slot_trace demo_libs demo_db empty_redis [Reserve demo_profile, Reserve demo_profile] r2"
    and res: "reserve_profile_slot demo_libs demo_db empty_redis demo_profile = (r1, True, 1, None)"
    "reserve_profile_slot demo_libs demo_db r1 demo_profile = (r2, True, 2, None)"
    by (rule demo_trace)
  have "slot_read r2 demo_key = 2"
    using reserve_effect [OF res(1), of demo_key] reserve_effect [OF res(2), of demo_key]
    by (simp add: counts_against_def demo_reservation demo_key_def)
  with tr unmoved_version_means_untouched_counter [OF tr, of demo_key] show ?thesis
    by (intro exI [of _ r2]) (auto simp: demo_key_def)
qed

subsection \<open>Capacity checks and blocking profiles\<close>

text \<open>C33. The read-only capacity check and the script agree: for a profile with a limit of
  zero (unlimited) or more, the check that precedes a reserve passes exactly when the reserve
  that follows at once is granted.\<close>

theorem capacity_check_predicts_reserve:
  assumes "slot_wf r" and "0 \<le> max_streams p"
  shows "pool_has_capacity_for_profile L db p r
    \<longleftrightarrow> fst (snd (reserve_profile_slot L db r p))"
  using assms by (simp add: pool_capacity_iff reserve_accepts_iff)

lemma capacity_check_witness:
  "pool_has_capacity_for_profile demo_libs demo_db demo_profile empty_redis"
proof -
  obtain r' where
    "reserve_profile_slot demo_libs demo_db empty_redis demo_profile = (r', True, 1, None)"
    by (rule demo_reserve_empty)
  with capacity_check_predicts_reserve [of empty_redis demo_profile demo_libs demo_db]
  show ?thesis by simp
qed

text \<open>The blocking-profiles answer names the right profiles: it is empty exactly when some
  reserve could go on for every profile asked about; it names every profile asked about whose
  reserve is refused; and when the profile's own counter has room it names every profile of
  the installation that holds the full login's counter with it.\<close>

theorem blocking_profiles_are_those_that_refuse:
  assumes "slot_wf r" and "\<forall>p \<in> set ps. 0 \<le> max_streams p"
  shows "(blocking_profile_ids L db ps r = [] \<longleftrightarrow>
      (\<forall>p \<in> set ps. fst (snd (reserve_profile_slot L db r p)))) \<and>
    (\<forall>p \<in> set ps. \<not> fst (snd (reserve_profile_slot L db r p))
       \<longrightarrow> prof_id p \<in> set (blocking_profile_ids L db ps r) \<and>
        (profile_has_capacity_for_selection p r \<longrightarrow>
          (\<forall>q \<in> set (db_profiles db). \<forall>k. is_cred_key k \<and> counts_against L db p k \<and> counts_against L db q k
             \<longrightarrow> prof_id q \<in> set (blocking_profile_ids L db ps r))))"
proof -
  have cap: "pool_has_capacity_for_profile L db p r \<longleftrightarrow> fst (snd (reserve_profile_slot L db r p))"
    if "p \<in> set ps" for p
    using that assms by (simp add: pool_capacity_iff reserve_accepts_iff)
  have empty: "blocking_profile_ids L db ps r = [] \<longleftrightarrow> (\<forall>i. i \<notin> set (blocking_profile_ids L db ps r))"
    by auto
  have "blocking_profile_ids L db ps r = [] \<longleftrightarrow> (\<forall>p \<in> set ps. pool_has_capacity_for_profile L db p r)"
    unfolding empty blocking_profile_ids_iff by blast
  moreover have "prof_id p \<in> set (blocking_profile_ids L db ps r)"
    if "p \<in> set ps" "\<not> pool_has_capacity_for_profile L db p r" for p
    unfolding blocking_profile_ids_iff using that by blast
  moreover have "prof_id q \<in> set (blocking_profile_ids L db ps r)"
    if "p \<in> set ps" "\<not> pool_has_capacity_for_profile L db p r" "profile_has_capacity_for_selection p r"
      "q \<in> set (db_profiles db)" "is_cred_key k" "counts_against L db p k" "counts_against L db q k"
    for p q k
    unfolding blocking_profile_ids_iff credential_sibling_iff
    using that by (auto simp: cred_counts_against)
  ultimately show ?thesis using cap by metis
qed

lemma blocking_profiles_witness:
  "blocking_profile_ids demo_libs demo_db [demo_profile] empty_redis = []"
proof -
  obtain r' where
    "reserve_profile_slot demo_libs demo_db empty_redis demo_profile = (r', True, 1, None)"
    by (rule demo_reserve_empty)
  with blocking_profiles_are_those_that_refuse [of empty_redis "[demo_profile]" demo_libs demo_db]
  show ?thesis by simp
qed

subsection \<open>Switches\<close>

text \<open>C14. A switch moves one slot or nothing: a refused switch (only a full login on the new
  side refuses) changes nothing; an accepted one takes one slot from the old profile, gives one
  to the new, moves the login's counter if and only if the login changes, touches no other
  counter and records the new profile as the stream's holder.\<close>

theorem switch_moves_one_slot:
  assumes "slot_wf r" and "prof_id p \<noteq> prof_id q"
    and "switch_profile_slot L db r p q (stream_profile_key s) = (r', ok)"
  shows "(ok \<longleftrightarrow> (\<forall>K. login_changes L db p q \<and> is_cred_key K \<and> counts_against L db q K
                    \<longrightarrow> slot_read r K < max_streams q)) \<and>
    (\<not> ok \<longrightarrow> r' = r) \<and>
    (ok \<longrightarrow>
      (\<forall>i. slot_read r' (profile_connections_key i) =
        (if i = prof_id q then max 0 (slot_read r (profile_connections_key i)) + 1
         else if i = prof_id p then max 0 (slot_read r (profile_connections_key i) - 1)
         else slot_read r (profile_connections_key i))) \<and>
      (\<forall>k. is_cred_key k \<longrightarrow> slot_read r' k =
        (if login_changes L db p q \<and> counts_against L db q k then max 0 (slot_read r k) + 1
         else if login_changes L db p q
                 \<and> rget r (profile_credential_release_key (prof_id p)) = Some (RText k)
         then max 0 (slot_read r k - 1) else slot_read r k)) \<and>
      rget r' (stream_profile_key s) = Some (RInt (prof_id q)))"
proof -
  have "ok \<longleftrightarrow> (\<forall>K. login_changes L db p q \<and> is_cred_key K \<and> counts_against L db q K
                    \<longrightarrow> slot_read r K < max_streams q)"
    using switch_accepts_iff [of L db r p q "stream_profile_key s"] assms(3) by simp
  moreover have "\<not> ok \<longrightarrow> r' = r" using assms(3) by (auto dest: switch_refused)
  ultimately show ?thesis
    using switch_effect [OF assms(1) _ assms(2), of L db s r'] assms(3)
    by (simp add: credential_after_switch_def)
qed

lemma demo_login_unchanged: "\<not> login_changes demo_libs demo_db demo_profile spare_profile"
  by (simp add: login_changes_def demo_fingerprint)

lemma demo_switch:
  obtains r' where "switch_profile_slot demo_libs demo_db r demo_profile spare_profile
    (stream_profile_key 5) = (r', True)"
  using switch_accepts_iff [of demo_libs demo_db r demo_profile spare_profile "stream_profile_key 5"]
    demo_login_unchanged that by (metis prod.collapse)

lemma switch_moves_one_slot_witness:
  "\<exists>r'. switch_profile_slot demo_libs demo_db empty_redis demo_profile spare_profile
      (stream_profile_key 5) = (r', True) \<and>
     slot_read r' (profile_connections_key 12) = 1 \<and> rget r' (stream_profile_key 5) = Some (RInt 12)"
proof -
  obtain r' where sw: "switch_profile_slot demo_libs demo_db empty_redis demo_profile spare_profile
      (stream_profile_key 5) = (r', True)"
    by (rule demo_switch)
  from switch_moves_one_slot [OF _ _ sw] have
    "slot_read r' (profile_connections_key 12) = 1" "rget r' (stream_profile_key 5) = Some (RInt 12)"
    by auto
  with sw show ?thesis by blast
qed

text \<open>A switch between two profiles of one login leaks the login's slot: the release
  pointer stays filed under the old profile, so the release of the new profile, which gives
  back the profile counter, finds no pointer and leaves the shared credential counter one
  higher than before the stream started.\<close>

theorem same_login_switch_leaks:
  assumes wf: "slot_wf r" and nonneg: "\<And>k. is_counter_key k \<Longrightarrow> 0 \<le> slot_read r k"
    and pooled: "fst (credential_reservation L db p) = Some K" "0 < max_streams p"
    and ne: "prof_id p \<noteq> prof_id q" and same: "\<not> login_changes L db p q"
    and fresh: "rget r (profile_credential_release_key (prof_id q)) = None"
    and res: "reserve_profile_slot L db r p = (r1, True, n, w)"
    and sw: "switch_profile_slot L db r1 p q (stream_profile_key s) = (r2, True)"
  shows "slot_read (release_profile_slot r2 (prof_id q)) K = slot_read r K + 1 \<and>
    (\<forall>i. slot_read (release_profile_slot r2 (prof_id q)) (profile_connections_key i)
         = slot_read r (profile_connections_key i))"
proof -
  have K: "is_cred_key K" using pooled by (cases rule: reservation_cases [of L db p]) auto
  have wf1: "slot_wf r1" and wf2: "slot_wf r2"
    using reserve_wf [OF wf, of L db p] switch_wf [of r1 L db p q s] res sw by simp_all
  have r1: "slot_read r1 k = slot_read r k + (if counts_against L db p k then 1 else 0)"
    if "is_counter_key k" for k
    using reserve_effect [OF res that] nonneg [OF that] by simp
  have against: "counts_against L db p (profile_connections_key i) \<longleftrightarrow> i = prof_id p" for i
    using pooled K by (auto simp: counts_against_def)
  have "rget r1 (profile_credential_release_key (prof_id q)) = None"
    using reserve_pointer [OF res] fresh ne by simp
  then have ptr: "rget r2 (profile_credential_release_key (prof_id q)) = None"
    using sw same by (auto simp: switch_profile_slot_def login_changes_def script_switch_def store_simps)
  note reads = release_effect [OF wf2, of _ "prof_id q"] switch_effect(1) [OF wf1 sw ne]
    switch_effect(2) [OF wf1 sw ne K]
  show ?thesis
    using ne ptr K same pooled nonneg reads r1 against
    by (auto simp: credential_after_switch_def counts_against_def [of L db p K] add_nonneg_nonneg)
qed

lemma same_login_switch_witness:
  "\<exists>r1 r2. fst (reserve_profile_slot demo_libs demo_db empty_redis demo_profile) = r1 \<and>
     fst (switch_profile_slot demo_libs demo_db r1 demo_profile spare_profile (stream_profile_key 5)) = r2 \<and>
     slot_read (release_profile_slot r2 12) demo_key = 1 \<and>
     slot_read (release_profile_slot r2 12) (profile_connections_key 12) = 0"
proof -
  obtain r1 where res:
    "reserve_profile_slot demo_libs demo_db empty_redis demo_profile = (r1, True, 1, None)"
    by (rule demo_reserve_empty)
  obtain r2 where sw: "switch_profile_slot demo_libs demo_db r1 demo_profile spare_profile
      (stream_profile_key 5) = (r2, True)"
    by (rule demo_switch)
  from same_login_switch_leaks [OF _ _ _ _ _ demo_login_unchanged _ res sw, of demo_key]
  show ?thesis using res sw by (simp add: demo_reservation)
qed

subsection \<open>Refinement of a ledger of leases\<close>

text \<open>
  The abstract specification: how many streams each profile carries. A profile with a limit
  is leased while it has room, an unlimited one always and without counting.
\<close>

type_synonym ledger = "int \<Rightarrow> nat"

fun ledger_apply :: "ledger \<Rightarrow> slot_op \<Rightarrow> ledger \<times> bool" where
  "ledger_apply m (Reserve p) =
     (if max_streams p \<le> 0 then (m, True)
      else if int (m (prof_id p)) < max_streams p then (m(prof_id p := m (prof_id p) + 1), True)
      else (m, False))"
| "ledger_apply m (Release i) = (m(i := m i - 1), True)"
| "ledger_apply m (Switch p q s) =
     (let m = m(prof_id p := m (prof_id p) - 1) in (m(prof_id q := m (prof_id q) + 1), True))"
| "ledger_apply m Other = (m, True)"

fun slot_apply :: "libs \<Rightarrow> database \<Rightarrow> redis \<Rightarrow> slot_op \<Rightarrow> redis \<times> bool" where
  "slot_apply L db r (Reserve p) =
     (let (r', ok, n, why) = reserve_profile_slot L db r p in (r', ok))"
| "slot_apply L db r (Release i) = (release_profile_slot r i, True)"
| "slot_apply L db r (Switch p q s) = switch_profile_slot L db r p q (stream_profile_key s)"
| "slot_apply L db r Other = (r, True)"

text \<open>A run of operations, with the answer each gave.\<close>

fun run_all :: "('s \<Rightarrow> 'o \<Rightarrow> 's \<times> bool) \<Rightarrow> 's \<Rightarrow> 'o list \<Rightarrow> 's \<times> bool list" where
  "run_all f s [] = (s, [])"
| "run_all f s (x # xs) = (let (s', b) = f s x; (t, bs) = run_all f s' xs in (t, b # bs))"

definition ledger_of :: "redis \<Rightarrow> ledger" where
  "ledger_of r i = nat (slot_read r (profile_connections_key i))"

text \<open>The operations of accounts outside every server group.\<close>

fun unpooled_op :: "slot_op \<Rightarrow> bool" where
  "unpooled_op (Reserve p) \<longleftrightarrow> server_group (prof_account p) = None"
| "unpooled_op (Switch p q s) \<longleftrightarrow> server_group (prof_account q) = None \<and> prof_id p \<noteq> prof_id q"
| "unpooled_op _ = True"

lemma unpooled_against:
  assumes "server_group (prof_account p) = None"
  shows "counts_against L db p k \<longleftrightarrow> 0 < max_streams p \<and> k = profile_connections_key (prof_id p)"
  using assms
  by (auto simp: counts_against_def credential_reservation_def get_enforced_server_group_for_profile_def)

lemma ledger_reserve:
  assumes "slot_wf r" and "server_group (prof_account p) = None"
  shows "(let (r', ok, n, why) = reserve_profile_slot L db r p in ledger_of r' = fst (ledger_apply (ledger_of r) (Reserve p))
     \<and> ok = snd (ledger_apply (ledger_of r) (Reserve p)))"
proof -
  obtain r' ok n w where res: "reserve_profile_slot L db r p = (r', ok, n, w)" by (metis prod_cases4)
  note against = unpooled_against [OF assms(2)]
  have ok: "ok \<longleftrightarrow> snd (ledger_apply (ledger_of r) (Reserve p))"
    using reserve_accepts_iff [of L db r p] res by (auto simp: against ledger_of_def)
  have "ledger_of r' = fst (ledger_apply (ledger_of r) (Reserve p))"
  proof (cases ok)
    case True
    then show ?thesis
      using reserve_effect [of L db r p r' n w] res ok
      by (auto simp: against ledger_of_def fun_eq_iff split: if_splits)
  next
    case False
    with res ok reserve_refused [of L db r p r' n w] show ?thesis by (auto split: if_splits)
  qed
  with ok res show ?thesis by simp
qed

lemma ledger_release:
  "slot_wf r \<Longrightarrow> ledger_of (release_profile_slot r i) = (ledger_of r)(i := ledger_of r i - 1)"
  using slot_wf_pointer [of r i]
  by (fastforce simp: release_effect ledger_of_def fun_eq_iff)

lemma ledger_switch:
  assumes "slot_wf r" and "server_group (prof_account q) = None" and "prof_id p \<noteq> prof_id q"
    and "switch_profile_slot L db r p q (stream_profile_key s) = (r', ok)"
  shows "ok \<and> ledger_of r' = fst (ledger_apply (ledger_of r) (Switch p q s))"
proof -
  have "ok"
    using switch_accepts_iff [of L db r p q "stream_profile_key s"] assms(4)
    by (auto simp: unpooled_against [OF assms(2)] is_cred_key_def)
  with switch_effect(1) [OF assms(1) _ assms(3), of L db s r'] assms(4,3) show ?thesis
    by (auto simp: ledger_of_def fun_eq_iff Let_def)
qed

lemma ledger_step:
  assumes "slot_wf r" and "unpooled_op oper" and "slot_apply L db r oper = (r', ok)"
  shows "slot_wf r' \<and> ledger_apply (ledger_of r) oper = (ledger_of r', ok)"
proof (cases oper)
  case (Reserve p)
  with assms ledger_reserve [of r p L db] reserve_wf [of r L db p] show ?thesis
    by (auto simp del: ledger_apply.simps split: prod.splits intro: prod_eqI)
next
  case (Release i)
  with assms show ?thesis by (auto simp: ledger_release release_wf)
next
  case (Switch p q s)
  with assms ledger_switch [of r q p L db s r' ok] switch_wf [of r L db p q s] show ?thesis
    by (auto simp: Let_def)
qed (use assms in auto)

text \<open>C7. For accounts outside every server group the Redis counters implement the ledger:
  any sequence of reserves, releases and switches gives the same answers on the script's
  counters as on the abstract ledger, and ends with the counters the ledger shows.\<close>

theorem slots_refine_ledger:
  assumes "slot_wf r" and "list_all unpooled_op ops"
  shows "run_all ledger_apply (ledger_of r) ops =
    (let (r', answers) = run_all (slot_apply L db) r ops in (ledger_of r', answers))"
  using assms
proof (induction ops arbitrary: r)
  case (Cons oper ops)
  obtain r' ok where st: "slot_apply L db r oper = (r', ok)" by fastforce
  with Cons.prems ledger_step [of r oper L db r' ok]
  have "slot_wf r'" "ledger_apply (ledger_of r) oper = (ledger_of r', ok)" by simp_all
  with Cons.IH [of r'] Cons.prems st show ?case by (auto split: prod.splits)
qed simp

lemma slots_refine_ledger_witness:
  "snd (run_all (slot_apply demo_libs demo_db) empty_redis
      [Reserve solo_profile, Reserve solo_profile, Reserve solo_profile, Release 21, Reserve solo_profile])
   = [True, True, False, True, True]"
proof -
  let ?ops = "[Reserve solo_profile, Reserve solo_profile, Reserve solo_profile, Release 21,
    Reserve solo_profile]"
  have "snd (run_all (slot_apply demo_libs demo_db) empty_redis ?ops)
      = snd (run_all ledger_apply (ledger_of empty_redis) ?ops)"
    using slots_refine_ledger [of empty_redis ?ops demo_libs demo_db]
    by (simp add: solo_account_def split: prod.splits del: run_all.simps)
  then show ?thesis by (simp add: ledger_of_def)
qed

end
