(* ===== verification/Relay_Client.thy ===== *)
theory Relay_Client
  imports Redis_Store
begin

section \<open>Asking the relay (apps/proxy/relay\_client.py)\<close>

text \<open>
  The control plane's calls to the relay: how an HTTP outcome becomes an answer or one of
  three errors, and what each caller makes of an error. The relay itself is not Python code
  of this program; its answers are arguments here. A JSON scalar is an \<open>rval option\<close>
  (\<open>None\<close> is null or absent).
\<close>

subsection \<open>One signed call\<close>

datatype relay_error =
  RelayUnavailable bool   \<comment> \<open>the \<open>transport\<close> flag\<close>
| RelayRefused int        \<comment> \<open>the status\<close>
| Misconfigured           \<comment> \<open>\<open>ImproperlyConfigured\<close>\<close>
| OtherError

datatype 'a body = EmptyBody | NotJson | NotObject | JsonObject 'a

datatype 'a http_outcome =
  NoBaseUrl
| ConnectionError
| RequestException
| Response int "'a body"

text \<open>\<open>_request\<close>; the empty dictionary of an empty body is the argument \<open>dflt\<close>.\<close>

fun request :: "'a \<Rightarrow> 'a http_outcome \<Rightarrow> relay_error + 'a" where
  "request dflt NoBaseUrl = Inl Misconfigured"
| "request dflt ConnectionError = Inl (RelayUnavailable True)"
| "request dflt RequestException = Inl (RelayUnavailable False)"
| "request dflt (Response status body) =
     (if 300 \<le> status \<and> status < 400 then Inl (RelayUnavailable False)
      else if status \<ge> 500 then Inl (RelayUnavailable False)
      else if status \<ge> 400 then Inl (RelayRefused status)
      else (case body of
              EmptyBody \<Rightarrow> Inr dflt
            | NotJson \<Rightarrow> Inl (RelayUnavailable False)
            | NotObject \<Rightarrow> Inl (RelayUnavailable False)
            | JsonObject a \<Rightarrow> Inr a))"

subsection \<open>Channels and their clients\<close>

record relay_client_row =
  rcl_user_id :: "rval option"
  rcl_client_id :: "string option"
  rcl_connected_at :: "rval option"

record relay_channel =
  rc_channel_id :: string
  rc_profile_id :: "int option"
  rc_state :: "string option"
  rc_clients :: "relay_client_row list option"

text \<open>A list answer; \<open>None\<close> is a body without a channel list.\<close>

record list_answer =
  la_channels :: "relay_channel list option"

definition empty_list_answer :: list_answer where
  "empty_list_answer = \<lparr>la_channels = None\<rparr>"

definition list_channels :: "list_answer http_outcome \<Rightarrow> relay_error + list_answer" where
  "list_channels outcome = request empty_list_answer outcome"

datatype conn_type = Live | Timeshift | Vod

record connection =
  media_id :: "string option"
  client_id :: "string option"
  connected_at :: rat
  conn_type :: conn_type

text \<open>\<open>float(client.get("connected_at") or 0)\<close>: a falsy value is 0.\<close>

definition float_or_zero :: "rval option \<Rightarrow> rat option" where
  "float_or_zero v = (if truthy v then py_float v else Some 0)"

definition live_row :: "int option \<Rightarrow> string \<Rightarrow> relay_client_row \<Rightarrow> connection option" where
  "live_row user channel c =
     (if (case user of None \<Rightarrow> False | Some u \<Rightarrow> py_int (rcl_user_id c) \<noteq> Some u) then None
      else (case float_or_zero (rcl_connected_at c) of
              None \<Rightarrow> None
            | Some t \<Rightarrow> Some \<lparr>media_id = Some channel, client_id = rcl_client_id c,
                              connected_at = t, conn_type = Live\<rparr>))"

fun or_empty :: "'a list option \<Rightarrow> 'a list" where
  "or_empty None = []"
| "or_empty (Some xs) = xs"

definition live_connections ::
  "list_answer http_outcome \<Rightarrow> int option \<Rightarrow> relay_error + connection list" where
  "live_connections outcome user =
     (case list_channels outcome of
        Inl (RelayUnavailable _) \<Rightarrow> Inr []
      | Inl (RelayRefused _) \<Rightarrow> Inr []
      | Inl Misconfigured \<Rightarrow> Inr []
      | Inl OtherError \<Rightarrow> Inl OtherError
      | Inr answer \<Rightarrow>
          Inr (concat (map (\<lambda>ch. List.map_filter (live_row user (rc_channel_id ch))
                                   (or_empty (rc_clients ch)))
                 (or_empty (la_channels answer)))))"

subsection \<open>One channel\<close>

record channel_info =
  ci_state :: "string option"

definition get_channel :: "channel_info http_outcome \<Rightarrow> relay_error + channel_info option" where
  "get_channel outcome =
     (case request \<lparr>ci_state = None\<rparr> outcome of
        Inr info \<Rightarrow> Inr (Some info)
      | Inl (RelayRefused status) \<Rightarrow> (if status = 404 then Inr None else Inl (RelayRefused status))
      | Inl e \<Rightarrow> Inl e)"

record channel_snapshot =
  present :: bool
  active :: bool
  reachable :: bool

definition reusable_states :: "string list" where
  "reusable_states = [''active'', ''waiting_for_clients'', ''buffering'', ''initializing'',
     ''connecting'']"

definition channel_snapshot :: "channel_info http_outcome \<Rightarrow> relay_error + channel_snapshot" where
  "channel_snapshot outcome =
     (case get_channel outcome of
        Inl (RelayUnavailable _) \<Rightarrow> Inr \<lparr>present = False, active = False, reachable = False\<rparr>
      | Inl (RelayRefused _) \<Rightarrow> Inr \<lparr>present = False, active = False, reachable = False\<rparr>
      | Inl e \<Rightarrow> Inl e
      | Inr None \<Rightarrow> Inr \<lparr>present = False, active = False, reachable = True\<rparr>
      | Inr (Some info) \<Rightarrow> Inr \<lparr>present = True,
            active = (case ci_state info of Some s \<Rightarrow> s \<in> set reusable_states | None \<Rightarrow> False),
            reachable = True\<rparr>)"

subsection \<open>Stopping many channels\<close>

text \<open>
  \<open>stop\<close> is the call for one identifier on the relay's state \<open>'s\<close>. A connection-level
  failure and a bad base URL end the batch; every other failure is that identifier's own.
\<close>

fun stop_channels ::
  "('s \<Rightarrow> string \<Rightarrow> 's \<times> (relay_error + unit)) \<Rightarrow> 's \<Rightarrow> string list \<Rightarrow> 's \<times> string list" where
  "stop_channels stop s [] = (s, [])"
| "stop_channels stop s (i # ids) =
     (if i = [] then stop_channels stop s ids
      else (case stop s i of
              (s', Inl (RelayUnavailable transport)) \<Rightarrow>
                 (if transport then (s', []) else stop_channels stop s' ids)
            | (s', Inl Misconfigured) \<Rightarrow> (s', [])
            | (s', Inl (RelayRefused _)) \<Rightarrow> stop_channels stop s' ids
            | (s', Inl OtherError) \<Rightarrow> stop_channels stop s' ids
            | (s', Inr _) \<Rightarrow> (let (t, stopped) = stop_channels stop s' ids in (t, i # stopped))))"

subsection \<open>Facts\<close>

lemma request_ok_iff:
  "request dflt outcome = Inr a \<longleftrightarrow>
     (\<exists>status body. outcome = Response status body \<and> status < 300 \<and>
        (body = EmptyBody \<and> a = dflt \<or> body = JsonObject a))"
  by (cases outcome) (auto split: body.splits if_splits)

text \<open>A snapshot is usable in the tune path only when the relay answered for the channel.\<close>

lemma channel_snapshot_implications:
  "channel_snapshot outcome = Inr s \<Longrightarrow> (active s \<longrightarrow> present s) \<and> (present s \<longrightarrow> reachable s)"
  by (auto simp: channel_snapshot_def split: sum.splits option.splits relay_error.splits)

lemma channel_snapshot_total:
  "outcome \<noteq> NoBaseUrl \<Longrightarrow> \<exists>s. channel_snapshot outcome = Inr s"
  by (cases outcome)
    (auto simp: channel_snapshot_def get_channel_def split: body.splits)

lemma stop_channels_subset: "set (snd (stop_channels stop s ids)) \<subseteq> set ids"
proof (induction stop s ids rule: stop_channels.induct)
  case (2 stop s i ids)
  show ?case
  proof (cases "i = []")
    case False
    obtain s' res where st: "stop s i = (s', res)" by fastforce
    show ?thesis
    proof (cases res)
      case (Inl e)
      then show ?thesis using 2 False st by (cases e) (auto split: if_splits)
    next
      case (Inr u)
      then show ?thesis using 2 False st by (cases "stop_channels stop s' ids") auto
    qed
  qed (use 2 in auto)
qed simp

text \<open>While the relay can be reached, one identifier's failure costs no other its stop.\<close>

definition relay_wide :: "relay_error + 'a \<Rightarrow> bool" where
  "relay_wide res \<longleftrightarrow> res = Inl (RelayUnavailable True) \<or> res = Inl Misconfigured"

lemma stop_channels_complete:
  assumes "\<And>s i. \<not> relay_wide (snd (stop s i))"
    and "\<And>s s' i. (\<exists>u. snd (stop s i) = Inr u) = (\<exists>u. snd (stop s' i) = Inr u)"
  shows "snd (stop_channels stop s ids)
    = filter (\<lambda>i. i \<noteq> [] \<and> (\<exists>u. snd (stop s0 i) = Inr u)) ids"
proof (induction ids arbitrary: s)
  case (Cons i ids)
  obtain s' res where st: "stop s i = (s', res)" by fastforce
  show ?case
  proof (cases res)
    case (Inl e)
    then show ?thesis
      using Cons st assms(1) [of s i] assms(2) [of s i s0]
      by (cases e) (auto simp: relay_wide_def)
  next
    case (Inr u)
    then show ?thesis
      using Cons.IH [of s'] Cons.IH [of s] st assms(2) [of s i s0] by (cases "stop_channels stop s' ids") auto
  qed
qed simp

end
