(* ===== verification/Held_Records.thy ===== *)
theory Held_Records
  imports Redis_Keys
begin

section \<open>Records a process holds (apps/proxy/vod\_proxy/held\_records.py)\<close>

text \<open>
  The registry of the session records one process's generators hold, and the refresher's one
  Lua script. A token is a number in place of Python's fresh object; a refresh iteration that
  cannot reach Redis is the argument \<open>redis_ok\<close>. The refresher thread calls \<open>refresh_once\<close> in
  a loop with a sleep; only the iteration is modelled.
\<close>

definition WORKER_KEY_TTL_SECONDS :: int where "WORKER_KEY_TTL_SECONDS = 60"

type_synonym entry = "string \<times> int \<times> string"

record held_records =
  hr_worker :: string
  held :: "(nat \<times> entry) list"
  next_token :: nat
  failing :: bool

definition new_held_records :: "string \<Rightarrow> held_records" where
  "new_held_records w = \<lparr>hr_worker = w, held = [], next_token = 0, failing = False\<rparr>"

definition hold :: "held_records \<Rightarrow> string \<Rightarrow> int \<Rightarrow> string \<Rightarrow> held_records \<times> nat" where
  "hold h key ttl busy_field =
     (h\<lparr>held := dict_set (held h) (next_token h) (key, ttl, busy_field),
        next_token := next_token h + 1\<rparr>, next_token h)"

definition release :: "held_records \<Rightarrow> nat \<Rightarrow> held_records" where
  "release h token = h\<lparr>held := dict_del (held h) token\<rparr>"

definition held_keys :: "held_records \<Rightarrow> string set" where
  "held_keys h = set (map (fst \<circ> snd) (held h))"

text \<open>The script's loop over KEYS[2..].\<close>

fun refresh_records :: "string \<Rightarrow> redis \<Rightarrow> (string \<times> int \<times> string) list \<Rightarrow> redis \<times> int" where
  "refresh_records w r [] = (r, 0)"
| "refresh_records w r ((key, ttl, busy) # rest) =
     (if rexists r key \<and> (busy = [] \<or> rhget r key busy = Some (RInt 1)) then
        (let (t, n) = refresh_records w (rhset (rexpire r key ttl) key ''worker_id'' (RText w)) rest
         in (t, n + 1))
      else refresh_records w r rest)"

definition refresh_script :: "redis \<Rightarrow> string \<Rightarrow> (string \<times> int \<times> string) list \<Rightarrow> redis \<times> int" where
  "refresh_script r w records =
     refresh_records w (rset_ex r (worker_key w) (RText w) WORKER_KEY_TTL_SECONDS) records"

text \<open>One record per key: the longest TTL of its holders, the busy field of the last one.\<close>

fun by_key :: "(string \<times> int \<times> string) list \<Rightarrow> entry list \<Rightarrow> (string \<times> int \<times> string) list" where
  "by_key acc [] = acc"
| "by_key acc ((key, ttl, busy) # rest) =
     by_key (dict_set acc key
       (case map_of acc key of Some (t, b) \<Rightarrow> (max ttl t, busy) | None \<Rightarrow> (ttl, busy))) rest"

definition refresh_once :: "held_records \<Rightarrow> redis \<Rightarrow> bool \<Rightarrow> held_records \<times> redis \<times> int" where
  "refresh_once h r redis_ok =
     (if redis_ok then
        (let (t, n) = refresh_script r (hr_worker h) (by_key [] (map snd (held h)))
         in (h\<lparr>failing := False\<rparr>, t, n))
      else (h\<lparr>failing := True\<rparr>, r, -1))"

subsection \<open>The registry\<close>

text \<open>Tokens are fresh: every token in the registry is below the next one.\<close>

definition registry_wf :: "held_records \<Rightarrow> bool" where
  "registry_wf h \<longleftrightarrow> distinct (map fst (held h)) \<and> (\<forall>t \<in> set (map fst (held h)). t < next_token h)"

lemma registry_wf_new [simp]: "registry_wf (new_held_records w)"
  by (simp add: registry_wf_def new_held_records_def)

lemma registry_wf_hold: "registry_wf h \<Longrightarrow> registry_wf (fst (hold h k ttl b))"
  by (auto simp: registry_wf_def hold_def distinct_dict_set keys_dict_set simp flip: set_map)

lemma registry_wf_release: "registry_wf h \<Longrightarrow> registry_wf (release h t)"
  using distinct_dict_del [of "held h" t]
  by (auto simp: registry_wf_def release_def keys_dict_del simp del: set_map)

lemma next_token_fresh: "registry_wf h \<Longrightarrow> next_token h \<notin> set (map fst (held h))"
  unfolding registry_wf_def by blast

lemma hold_release:
  "registry_wf h \<Longrightarrow> hold h k ttl b = (h', tok) \<Longrightarrow> held (release h' tok) = held h"
  by (auto simp: hold_def release_def dict_del_set_fresh [OF next_token_fresh])

lemma held_hold:
  "registry_wf h \<Longrightarrow> held (fst (hold h k ttl b)) = held h @ [(next_token h, k, ttl, b)]"
  by (simp add: hold_def dict_set_fresh [OF next_token_fresh])

lemma held_keys_hold: "registry_wf h \<Longrightarrow> held_keys (fst (hold h k ttl b)) = insert k (held_keys h)"
  by (simp add: held_keys_def held_hold)

subsection \<open>The script\<close>

lemma by_key_keys: "set (map fst (by_key acc es)) = set (map fst acc) \<union> set (map fst es)"
  by (induction acc es rule: by_key.induct) (simp_all only: by_key.simps keys_dict_set, auto)

lemma by_key_distinct: "distinct (map fst acc) \<Longrightarrow> distinct (map fst (by_key acc es))"
  by (induction acc es rule: by_key.induct) (simp_all add: distinct_dict_set)

lemma rexists_rhset [store_simps]: "rexists (rhset r k f v) k' \<longleftrightarrow> k' = k \<or> rexists r k'"
  by (simp add: rhset_def store_simps)

lemma rttl_simps [store_simps]:
  "rexists r k \<Longrightarrow> rttl (rexpire r k t) k = Some t"
  "k' \<noteq> k \<Longrightarrow> rttl (rexpire r k t) k' = rttl r k'"
  "rttl (rhset r k f v) k' = rttl r k'"
  "rttl (rset_ex r k v' t) k' = (if k' = k then Some t else rttl r k')"
  by (auto simp: rttl_def rexpire_def rhset_def rhset_all_def rset_ex_def
      split: option.splits robj.splits)

lemma refresh_records_other:
  "k \<notin> fst ` set es \<Longrightarrow> map_of (objs (fst (refresh_records w r es))) k = map_of (objs r) k
     \<and> rttl (fst (refresh_records w r es)) k = rttl r k"
proof (induction w r es rule: refresh_records.induct)
  case (2 w r key ttl busy rest)
  have "map_of (objs (rhset (rexpire r key ttl) key ''worker_id'' (RText w))) k = map_of (objs r) k"
    using 2 by (auto simp: rhset_def rhset_all_def rexpire_def split: option.splits robj.splits)
  with 2 show ?case by (auto simp: store_simps split: prod.splits)
qed simp

lemma rhget_worker:
  "map_of (objs r) k = Some (RHash hs) \<Longrightarrow>
   rhget (rhset (rexpire r k ttl) k ''worker_id'' (RText w)) k f =
     (if f = ''worker_id'' then Some (RText w) else rhget r k f)"
  by (simp add: rhset_def rhget_rhset_all rexpire_def) (simp add: rhget_def rhgetall_def)

lemma refresh_records_held:
  assumes "distinct (map fst es)" and "(k, ttl, busy) \<in> set es"
    and "map_of (objs r) k = Some (RHash hs)" and "busy = [] \<or> rhget r k busy = Some (RInt 1)"
  shows "rhget (fst (refresh_records w r es)) k f =
      (if f = ''worker_id'' then Some (RText w) else rhget r k f)
    \<and> rttl (fst (refresh_records w r es)) k = Some ttl"
  using assms
proof (induction w r es rule: refresh_records.induct)
  case (2 w r key t b rest)
  have ex: "rexists r k" using 2 by (simp add: rexists_def)
  show ?case
  proof (cases "key = k")
    case True
    with 2 have e: "t = ttl" "b = busy" "k \<notin> fst ` set rest" by force+
    let ?r = "rhset (rexpire r k ttl) k ''worker_id'' (RText w)"
    have same: "map_of (objs (fst (refresh_records w ?r rest))) k = map_of (objs ?r) k"
      "rttl (fst (refresh_records w ?r rest)) k = rttl ?r k"
      using refresh_records_other [OF e(3)] by simp_all
    have "rhget (fst (refresh_records w ?r rest)) k f = rhget ?r k f"
      using same(1) by (simp add: rhget_def rhgetall_def)
    with same(2) True e 2 ex show ?thesis
      by (auto simp: rhget_worker store_simps split: prod.splits)
  next
    case False
    then have mem: "(k, ttl, busy) \<in> set rest" using 2 by simp
    let ?r = "rhset (rexpire r key t) key ''worker_id'' (RText w)"
    have obj: "map_of (objs ?r) k = map_of (objs r) k"
      using False by (auto simp: rhset_def rhset_all_def rexpire_def split: option.splits robj.splits)
    then have get: "rhget ?r k g = rhget r k g" for g by (simp add: rhget_def rhgetall_def)
    show ?thesis
    proof (cases "rexists r key \<and> (b = [] \<or> rhget r key b = Some (RInt 1))")
      case True
      then show ?thesis
        using 2(1) [OF True] 2(3-) mem obj get False by (auto simp: store_simps split: prod.splits)
    next
      case False
      then show ?thesis using 2(2) [OF False] 2(3-) mem by (auto split: prod.splits)
    qed
  qed
qed simp

text \<open>A refresh writes the worker's liveness key and its held records, nothing else.\<close>

lemma refresh_once_other:
  assumes "k \<noteq> worker_key (hr_worker h)" and "k \<notin> held_keys h"
  shows "map_of (objs (fst (snd (refresh_once h r ok)))) k = map_of (objs r) k"
proof -
  have "k \<notin> fst ` set (by_key [] (map snd (held h)))"
    using assms(2) by_key_keys [of "[]" "map snd (held h)"] by (simp add: held_keys_def image_image)
  from refresh_records_other [OF this] assms(1) show ?thesis
    by (simp add: refresh_once_def refresh_script_def rset_ex_def split: prod.splits)
qed

end
