(* ===== verification/Slot_Reconciler.thy ===== *)
theory Slot_Reconciler
  imports Connection_Pool Relay_Client Held_Records
begin

section \<open>The provider-slot reconciler (apps/proxy/slot\_reconciler.py)\<close>

text \<open>
  One run of the reconciler: which records count as holders, what each is attributed to,
  which counters it may move and how far. A run reads the store at four moments (the
  versions, the session records, the release pointers, and the writes); between them other
  workers go on, so the four stores are separate arguments. The snapshot a run saves is kept
  as a value; the code keeps it as JSON text under one key, an unreadable text counting as
  no snapshot.
\<close>

subsection \<open>Spacing\<close>

definition MIN_SPACING_SECONDS :: secs where "MIN_SPACING_SECONDS = 60"
definition SPACING_FACTOR :: secs where "SPACING_FACTOR = 2"
definition SNAPSHOT_TTL_RUNS :: secs where "SNAPSHOT_TTL_RUNS = 10"

record windows =
  w_live :: secs
  w_vod :: secs
  w_catch_up :: secs

definition in_flight_windows :: "secs \<Rightarrow> secs \<Rightarrow> windows" where
  "in_flight_windows connection_timeout chunk_timeout =
     \<lparr>w_live = 2 * (2 + 5) + 1 / 10, w_vod = 2 * (10 + 10),
      w_catch_up = 5 + connection_timeout + chunk_timeout\<rparr>"

definition run_spacing_seconds :: "windows \<Rightarrow> secs" where
  "run_spacing_seconds w =
     max MIN_SPACING_SECONDS (SPACING_FACTOR * max (w_live w) (max (w_vod w) (w_catch_up w)))"

definition snapshot_ttl :: "secs \<Rightarrow> int" where
  "snapshot_ttl spacing = \<lfloor>max (spacing * SNAPSHOT_TTL_RUNS) 600\<rfloor>"

subsection \<open>Reading values\<close>

text \<open>\<open>_int\<close>: \<open>int(float(text))\<close>, which truncates toward zero, or the default.\<close>

fun int_or :: "rval option \<Rightarrow> int option \<Rightarrow> int option" where
  "int_or (Some (RInt n)) d = Some n"
| "int_or (Some (RDec q)) d = Some (if q < 0 then \<lceil>q\<rceil> else \<lfloor>q\<rfloor>)"
| "int_or _ d = d"

definition int_of :: "rval option \<Rightarrow> int" where
  "int_of v = (case int_or v (Some 0) of Some n \<Rightarrow> n | None \<Rightarrow> 0)"

definition nonzero :: "int option \<Rightarrow> int option" where
  "nonzero i = (if i = Some 0 then None else i)"

subsection \<open>Counters\<close>

definition limited_profiles :: "database \<Rightarrow> m3u_profile list" where
  "limited_profiles db = filter (\<lambda>p. max_streams p > 0) (db_profiles db)"

definition profile_counters :: "database \<Rightarrow> (int \<times> string) list" where
  "profile_counters db =
     map (\<lambda>p. (prof_id p, profile_connections_key (prof_id p))) (limited_profiles db)"

definition config_credentials :: "libs \<Rightarrow> database \<Rightarrow> (int \<times> string) list" where
  "config_credentials L db =
     List.map_filter (\<lambda>p. map_option (Pair (prof_id p)) (fst (credential_reservation L db p)))
       (limited_profiles db)"

definition counter_keys :: "libs \<Rightarrow> database \<Rightarrow> string list" where
  "counter_keys L db = remdups (map snd (profile_counters db) @ map snd (config_credentials L db))"

subsection \<open>Ground truth\<close>

type_synonym holders = "(string \<times> int) list"

definition ended_relay_states :: "string list" where
  "ended_relay_states = [''stopped'', ''error'']"

definition live_holders :: "relay_channel list \<Rightarrow> holders" where
  "live_holders channels =
     foldl (\<lambda>acc ch.
       (case nonzero (rc_profile_id ch) of
          None \<Rightarrow> acc
        | Some p \<Rightarrow>
            if (case rc_state ch of Some s \<Rightarrow> s \<in> set ended_relay_states | None \<Rightarrow> False) then acc
            else dict_set acc (''live:'' @ rc_channel_id ch) p)) [] channels"

definition alive :: "redis \<Rightarrow> rval option \<Rightarrow> bool" where
  "alive r w =
     (case w of
        None \<Rightarrow> False
      | Some v \<Rightarrow> key_of_val v \<noteq> [] \<and> rget r (worker_key (key_of_val v)) \<noteq> None)"

definition vod_holder :: "redis \<Rightarrow> secs \<Rightarrow> secs \<Rightarrow> string \<Rightarrow> int option" where
  "vod_holder r now vod_window key =
     (case nonzero (int_or (rhget r key ''m3u_profile_id'') None) of
        None \<Rightarrow> None
      | Some p \<Rightarrow>
          let streams = int_of (rhget r key ''active_streams'') in
          if streams > 0 \<and> alive r (rhget r key ''worker_id'') then Some p
          else if streams \<le> 0 \<and> now - of_int (int_of (rhget r key ''created_at'')) < vod_window
          then Some p
          else None)"

definition pool_holder :: "redis \<Rightarrow> string \<Rightarrow> int option" where
  "pool_holder r key =
     (case nonzero (int_or (rhget r key ''profile_id'') None) of
        None \<Rightarrow> None
      | Some p \<Rightarrow>
          if rhget r key ''busy'' = Some (RInt 1) \<and> alive r (rhget r key ''worker_id'')
          then Some p else None)"

definition record_holders :: "redis \<Rightarrow> secs \<Rightarrow> secs \<Rightarrow> holders" where
  "record_holders r now vod_window =
     List.map_filter (\<lambda>key. map_option (Pair (''vod:'' @ key)) (vod_holder r now vod_window key))
       (scan_hashes r ''vod_persistent_connection:'')
     @ List.map_filter (\<lambda>key. map_option (Pair (''catchup:'' @ key)) (pool_holder r key))
       (scan_hashes r ''timeshift:pool:'')"

subsection \<open>Attribution of a credential counter's holders\<close>

type_synonym versions = "(string \<times> int) list"
type_synonym seen = "(string \<times> (int \<times> string list)) list"

definition current_credential :: "redis \<Rightarrow> (int \<times> string) list \<Rightarrow> int \<Rightarrow> string option" where
  "current_credential r config profile_id =
     (case rget r (profile_credential_release_key profile_id) of
        Some v \<Rightarrow> if key_of_val v \<noteq> [] then Some (key_of_val v) else map_of config profile_id
      | None \<Rightarrow> map_of config profile_id)"

definition key_list :: "string option \<Rightarrow> string list" where
  "key_list k = (case k of None \<Rightarrow> [] | Some s \<Rightarrow> if s = [] then [] else [s])"

definition attribute_holder ::
  "string option \<Rightarrow> seen \<Rightarrow> versions \<Rightarrow> seen \<Rightarrow> string \<Rightarrow> int \<Rightarrow> string list" where
  "attribute_holder now_key carried versions before identity profile_id =
     (case map_of carried identity of
        None \<Rightarrow> key_list now_key
      | Some (prior_profile, prior_keys) \<Rightarrow>
          if prior_profile \<noteq> profile_id then remdups (prior_keys @ key_list now_key)
          else (case key_list now_key of
                  [] \<Rightarrow> prior_keys
                | k # _ \<Rightarrow>
                    if k \<in> set prior_keys then prior_keys
                    else
                      let then_version = (case map_of before k of Some (v, _) \<Rightarrow> v | None \<Rightarrow> 0);
                          now_version = (case map_of versions k of Some v \<Rightarrow> v | None \<Rightarrow> then_version)
                      in if now_version \<noteq> then_version then prior_keys @ [k] else prior_keys))"

definition credential_attribution ::
  "redis \<Rightarrow> holders \<Rightarrow> (int \<times> string) list \<Rightarrow> seen \<Rightarrow> versions \<Rightarrow> seen \<Rightarrow> (string \<times> string list) list" where
  "credential_attribution r hs config carried versions before =
     map (\<lambda>(identity, p). (identity,
       attribute_holder (current_credential r config p) carried versions before identity p)) hs"

definition holders_of ::
  "(int \<times> string) list \<Rightarrow> (string \<times> string list) list \<Rightarrow> holders \<Rightarrow> string \<Rightarrow> string list" where
  "holders_of profile_counter attribution hs key =
     map fst (filter (\<lambda>(identity, p). map_of profile_counter p = Some key
        \<or> (case map_of attribution identity of Some ks \<Rightarrow> key \<in> set ks | None \<Rightarrow> False)) hs)"

subsection \<open>The snapshot and the run\<close>

record snapshot =
  taken_at :: secs
  sn_counters :: seen
  sn_attribution :: seen
  sn_present :: "string list"

definition save_snapshot ::
  "secs \<Rightarrow> versions \<Rightarrow> (string \<Rightarrow> string list) \<Rightarrow> holders \<Rightarrow> (string \<times> string list) list \<Rightarrow>
   seen \<Rightarrow> string list \<Rightarrow> snapshot" where
  "save_snapshot now versions identities hs attribution carried was_present =
     \<lparr>taken_at = now,
      sn_counters = map (\<lambda>(k, v). (k, (v, identities k))) versions,
      sn_attribution =
        dict_update
          (filter (\<lambda>(i, _). i \<in> set was_present \<and> i \<notin> fst ` set hs) carried)
          (map (\<lambda>(i, p). (i, (p, case map_of attribution i of Some ks \<Rightarrow> ks | None \<Rightarrow> []))) hs),
      sn_present = map fst hs\<rparr>"

definition both :: "string list \<Rightarrow> string list \<Rightarrow> string list" where
  "both xs ys = filter (\<lambda>x. x \<in> set ys) xs"

definition either :: "string list \<Rightarrow> string list \<Rightarrow> string list" where
  "either xs ys = xs @ filter (\<lambda>y. y \<notin> set xs) ys"

text \<open>The counters a run may move: unmoved versions, with the range each may move in.\<close>

definition reconcile_task ::
  "versions \<Rightarrow> seen \<Rightarrow> (string \<Rightarrow> string list) \<Rightarrow> string \<Rightarrow> (string \<times> int \<times> int \<times> int) option" where
  "reconcile_task versions before identities key =
     (case map_of before key of
        None \<Rightarrow> None
      | Some (expected, then_ids) \<Rightarrow>
          if map_of versions key \<noteq> Some expected then None
          else Some (key, expected, int (length (both then_ids (identities key))),
                     int (length (either then_ids (identities key)))))"

fun reconcile_all ::
  "redis \<Rightarrow> (string \<times> int \<times> int \<times> int) list \<Rightarrow> redis \<times> (string \<times> int \<times> int) list" where
  "reconcile_all r [] = (r, [])"
| "reconcile_all r ((key, expected, lo, hi) # tasks) =
     (let (r', status, was, became) = reconcile_counter r key expected lo hi;
          (t, changes) = reconcile_all r' tasks
      in (t, if status = 1 then (key, was, became) # changes else changes))"

datatype run_result =
  Skipped string
| FirstSnapshot
| Reconciled "(string \<times> int \<times> int) list"
| Raised

record run_reads =
  at_versions :: redis
  at_records :: redis
  at_pointers :: redis
  at_write :: redis

definition run_once ::
  "libs \<Rightarrow> database \<Rightarrow> windows \<Rightarrow> snapshot option \<Rightarrow> secs \<Rightarrow> secs \<Rightarrow> run_reads \<Rightarrow>
   relay_error + list_answer \<Rightarrow> redis \<times> snapshot option \<times> run_result" where
  "run_once L db w previous clock now rd listing =
     (if (case previous of Some s \<Rightarrow> clock - taken_at s < run_spacing_seconds w | None \<Rightarrow> False)
      then (at_write rd, previous, Skipped ''too close'')
      else
        let keys = counter_keys L db; versions = read_slot_versions (at_versions rd) keys in
        (case listing of
           Inl Misconfigured \<Rightarrow> (at_write rd, previous, Skipped ''relay misconfigured'')
         | Inl (RelayUnavailable _) \<Rightarrow> (at_write rd, previous, Skipped ''relay unavailable'')
         | Inl (RelayRefused _) \<Rightarrow> (at_write rd, previous, Skipped ''relay unavailable'')
         | Inl OtherError \<Rightarrow> (at_write rd, previous, Raised)
         | Inr answer \<Rightarrow>
             (case la_channels answer of
                None \<Rightarrow> (at_write rd, previous, Skipped ''relay answer unusable'')
              | Some channels \<Rightarrow>
                  let hs = dict_update (live_holders channels)
                             (record_holders (at_records rd) now (w_vod w));
                      before = (case previous of Some s \<Rightarrow> sn_counters s | None \<Rightarrow> []);
                      carried = (case previous of Some s \<Rightarrow> sn_attribution s | None \<Rightarrow> []);
                      was_present = (case previous of Some s \<Rightarrow> sn_present s | None \<Rightarrow> []);
                      attribution = credential_attribution (at_pointers rd) hs
                        (config_credentials L db) carried versions before;
                      identities = holders_of (profile_counters db) attribution hs;
                      (t, changes) = (case previous of
                          None \<Rightarrow> (at_write rd, [])
                        | Some _ \<Rightarrow> reconcile_all (at_write rd)
                            (List.map_filter (reconcile_task versions before identities) keys));
                      snap = save_snapshot now versions identities hs attribution carried was_present
                  in (t, Some snap,
                      if previous = None then FirstSnapshot else Reconciled changes))))"

text \<open>\<open>run\<close>: one run at a time, by a lock taken without waiting.\<close>

definition run ::
  "bool \<Rightarrow> libs \<Rightarrow> database \<Rightarrow> windows \<Rightarrow> snapshot option \<Rightarrow> secs \<Rightarrow> secs \<Rightarrow> run_reads \<Rightarrow>
   relay_error + list_answer \<Rightarrow> redis \<times> snapshot option \<times> run_result" where
  "run acquired L db w previous clock now rd listing =
     (if acquired then run_once L db w previous clock now rd listing
      else (at_write rd, previous, Skipped ''another run holds the lock''))"

subsection \<open>One write of the reconciler\<close>

definition clamp :: "int \<Rightarrow> int \<Rightarrow> int \<Rightarrow> int" where
  "clamp lo hi c = min (max c lo) hi"

lemma script_reconcile_cases:
  "script_reconcile r k v lo hi =
    (let c = slot_read r k; t = clamp lo hi c in
     if slot_version r k \<noteq> v then (r, -1, c, c)
     else if t = c then (r, 0, c, c) else (rset r k (RInt t), 1, c, t))"
  by (auto simp: script_reconcile_def clamp_def Let_def)

lemma slot_read_reconcile:
  "is_counter_key k \<Longrightarrow> slot_read (fst (reconcile_counter r k v lo hi)) k' =
    (if k' = k \<and> slot_version r k = v then clamp lo hi (slot_read r k) else slot_read r k')"
  by (auto simp: reconcile_counter_def script_reconcile_cases Let_def)
    (auto simp: slot_read_def store_simps)

lemma slot_version_reconcile:
  "is_counter_key k \<Longrightarrow> slot_version (fst (reconcile_counter r k v lo hi)) k' = slot_version r k'"
  by (auto simp: reconcile_counter_def script_reconcile_cases Let_def slot_version_def store_simps)

lemma reconcile_all_effect:
  assumes "distinct (map fst tasks)" and "\<And>t. t \<in> set tasks \<Longrightarrow> is_counter_key (fst t)"
  shows "slot_version (fst (reconcile_all r tasks)) k = slot_version r k
    \<and> slot_read (fst (reconcile_all r tasks)) k =
      (case map_of tasks k of
         None \<Rightarrow> slot_read r k
       | Some (v, lo, hi) \<Rightarrow>
           if slot_version r k = v then clamp lo hi (slot_read r k) else slot_read r k)"
  using assms
proof (induction tasks arbitrary: r)
  case (Cons t tasks)
  obtain key v lo hi where t: "t = (key, v, lo, hi)" by (metis prod_cases4)
  let ?r = "fst (reconcile_counter r key v lo hi)"
  have key: "is_counter_key key" using Cons.prems(2) [of t] t by simp
  have rest: "fst (reconcile_all r (t # tasks)) = fst (reconcile_all ?r tasks)"
    by (simp add: t split: prod.splits)
  have "map_of tasks key = None"
    using Cons.prems(1) t by (simp add: map_of_eq_None_iff)
  then show ?case
    using Cons.IH [of ?r] Cons.prems unfolding rest unfolding t
    by (auto simp: slot_read_reconcile [OF key] slot_version_reconcile [OF key]
        split: option.splits)
qed simp

subsection \<open>The tasks of a run\<close>

lemma counter_keys_counter: "k \<in> set (counter_keys L db) \<Longrightarrow> is_counter_key k"
proof -
  have "is_cred_key x" if "fst (credential_reservation L db p) = Some x" for p x
    using that by (cases rule: reservation_cases [of L db p]) auto
  then show "k \<in> set (counter_keys L db) \<Longrightarrow> is_counter_key k"
    by (auto simp: counter_keys_def profile_counters_def config_credentials_def
        List.map_filter_def split: option.splits)
qed

lemma map_filter_task:
  fixes f :: "string \<Rightarrow> (string \<times> int \<times> int \<times> int) option"
  assumes "\<And>k t. f k = Some t \<Longrightarrow> fst t = k"
  shows "map_of (List.map_filter f ks) k = (if k \<in> set ks then map_option snd (f k) else None)"
    and "distinct ks \<Longrightarrow> distinct (map fst (List.map_filter f ks))"
    and "fst ` set (List.map_filter f ks) \<subseteq> set ks"
proof -
  show sub: "fst ` set (List.map_filter f ks) \<subseteq> set ks" for ks
    using assms by (fastforce simp: List.map_filter_def)
  show "map_of (List.map_filter f ks) k = (if k \<in> set ks then map_option snd (f k) else None)"
  proof (induction ks)
    case (Cons a ks)
    then show ?case
      using assms [of a] by (cases "f a") (auto simp: List.map_filter_simps)
  qed (simp add: List.map_filter_simps)
  show "distinct (map fst (List.map_filter f ks))" if "distinct ks"
    using that
  proof (induction ks)
    case (Cons a ks)
    then show ?case
      using assms [of a] sub [of ks] by (cases "f a") (auto simp: List.map_filter_simps)
  qed (simp add: List.map_filter_simps)
qed

lemma task_key: "reconcile_task versions before identities key = Some t \<Longrightarrow> fst t = key"
  by (auto simp: reconcile_task_def split: option.splits if_splits)

lemma map_of_versions:
  "map_of (read_slot_versions r ks) k = (if k \<in> set ks then Some (count_of r (slot_version_key k)) else None)"
  by (induction ks) (auto simp: read_slot_versions_def)

lemma count_of_version: 
  assumes "slot_wf r"
  shows "count_of r (slot_version_key k) = slot_version r k"
  using slot_wf_version [OF assms, of k]
  by (auto simp: count_of_def slot_version_def dest: not_exists_rget)

subsection \<open>The run\<close>

text \<open>The holders a run counts for a counter.\<close>

definition run_identities ::
  "libs \<Rightarrow> database \<Rightarrow> windows \<Rightarrow> snapshot option \<Rightarrow> secs \<Rightarrow> run_reads \<Rightarrow> relay_channel list \<Rightarrow>
   string \<Rightarrow> string list" where
  "run_identities L db w previous now rd channels =
     (let hs = dict_update (live_holders channels) (record_holders (at_records rd) now (w_vod w))
      in holders_of (profile_counters db)
           (credential_attribution (at_pointers rd) hs (config_credentials L db)
             (case previous of Some s \<Rightarrow> sn_attribution s | None \<Rightarrow> [])
             (read_slot_versions (at_versions rd) (counter_keys L db))
             (case previous of Some s \<Rightarrow> sn_counters s | None \<Rightarrow> [])) hs)"

lemma run_once_spaced:
  assumes "run_once L db w previous clock now rd listing = (t, snap, res)"
    and "\<not> (\<exists>why. res = Skipped why)" and "res \<noteq> Raised" and "previous = Some s"
  shows "run_spacing_seconds w \<le> clock - taken_at s"
  using assms by (auto simp: run_once_def split: if_splits)

lemma run_once_first:
  assumes "previous = None" and "run_once L db w previous clock now rd listing = (t, snap, res)"
  shows "t = at_write rd"
  using assms
  by (auto simp: run_once_def Let_def split: sum.splits relay_error.splits option.splits)

lemma run_once_skip:
  assumes "run_once L db w previous clock now rd listing = (t, snap, res)"
    and "(\<exists>why. res = Skipped why) \<or> res = Raised"
  shows "t = at_write rd \<and> snap = previous"
  using assms
  by (auto simp: run_once_def Let_def split: if_splits sum.splits relay_error.splits option.splits prod.splits)

lemma run_once_reconciled:
  assumes "run_once L db w (Some s) clock now rd listing = (t, snap, Reconciled changes)"
  obtains answer channels where "listing = Inr answer" and "la_channels answer = Some channels"
    and "run_spacing_seconds w \<le> clock - taken_at s"
    and "(t, changes) = reconcile_all (at_write rd) (List.map_filter
      (reconcile_task (read_slot_versions (at_versions rd) (counter_keys L db)) (sn_counters s)
        (run_identities L db w (Some s) now rd channels)) (counter_keys L db))"
    and "\<exists>sn. snap = Some sn \<and> sn_counters sn = map (\<lambda>(k, v). (k, (v, run_identities L db w (Some s) now rd channels k)))
       (read_slot_versions (at_versions rd) (counter_keys L db))"
  using assms
  by (auto simp: run_once_def Let_def run_identities_def save_snapshot_def not_less
      split: if_splits sum.splits relay_error.splits option.splits prod.splits)

end
