(* ===== verification/Reconciler_Properties.thy ===== *)
theory Reconciler_Properties
  imports Slot_Reconciler Pool_Properties
begin

section \<open>The reconciler: the properties\<close>

text \<open>
  What the reconciler promises the slot counters: it moves only toward the holders it saw,
  repairs drift once two runs agree, never writes over a change it did not see, does nothing
  without ground truth, and keeps every holder's attribution while the holder lasts.
\<close>

lemma reconciled_effect:
  assumes run: "run_once L db w (Some s) clock now rd listing = (t, snap, Reconciled changes)"
  obtains answer channels where "listing = Inr answer" and "la_channels answer = Some channels"
    and "\<And>k. slot_version t k = slot_version (at_write rd) k
    \<and> slot_read t k =
      (case reconcile_task (read_slot_versions (at_versions rd) (counter_keys L db)) (sn_counters s)
              (run_identities L db w (Some s) now rd channels) k of
         None \<Rightarrow> slot_read (at_write rd) k
       | Some (_, v, lo, hi) \<Rightarrow> if slot_version (at_write rd) k = v
           then clamp lo hi (slot_read (at_write rd) k) else slot_read (at_write rd) k)"
proof -
  obtain answer channels where lst: "listing = Inr answer" "la_channels answer = Some channels"
    and all: "(t, changes) = reconcile_all (at_write rd) (List.map_filter
      (reconcile_task (read_slot_versions (at_versions rd) (counter_keys L db)) (sn_counters s)
        (run_identities L db w (Some s) now rd channels)) (counter_keys L db))"
    using run by (rule run_once_reconciled)
  let ?f = "reconcile_task (read_slot_versions (at_versions rd) (counter_keys L db)) (sn_counters s)
        (run_identities L db w (Some s) now rd channels)"
  let ?ts = "List.map_filter ?f (counter_keys L db)"
  have key: "\<And>k t. ?f k = Some t \<Longrightarrow> fst t = k" by (rule task_key)
  have dist: "distinct (map fst ?ts)"
    by (rule map_filter_task(2)) (auto intro: key simp: counter_keys_def)
  have ck: "is_counter_key (fst x)" if "x \<in> set ?ts" for x
    using map_filter_task(3) [of ?f "counter_keys L db", OF key] that
    by (auto intro: counter_keys_counter)
  have none: "k \<notin> set (counter_keys L db) \<Longrightarrow> ?f k = None" for k
    by (auto simp: reconcile_task_def map_of_versions split: option.splits)
  have t: "t = fst (reconcile_all (at_write rd) ?ts)" using all by (metis fst_conv)
  have eff: "slot_version t k = slot_version (at_write rd) k \<and> slot_read t k =
      (case ?f k of
         None \<Rightarrow> slot_read (at_write rd) k
       | Some (_, v, lo, hi) \<Rightarrow> if slot_version (at_write rd) k = v
           then clamp lo hi (slot_read (at_write rd) k) else slot_read (at_write rd) k)" for k
    unfolding t
    using reconcile_all_effect [OF dist ck, of "at_write rd" k]
      map_filter_task(1) [of ?f "counter_keys L db" k, OF key] none [of k]
    by (auto split: option.splits if_splits)
  show ?thesis by (rule that [OF lst]) (rule eff)
qed

lemma both_le_either: "length (both xs ys) \<le> length (either xs ys)"
  by (simp add: both_def either_def trans_le_add1)

text \<open>C3. A run never drops a slot a live holder owns and never invents one: it moves no
  version; a counter it moves still has, at the moment of the write, the version the previous
  run recorded; one it lowers ends at the number of holders seen at this run or the previous
  one, and one it raises at the number seen at both.\<close>

theorem reconciler_moves_toward_the_holders:
  assumes run: "run_once L db w (Some s) clock now rd listing = (t, snap, Reconciled changes)"
    and moved: "slot_read t k \<noteq> slot_read (at_write rd) k"
  shows "\<exists>channels v ids. listing = Inr \<lparr>la_channels = Some channels\<rparr> \<and>
      map_of (sn_counters s) k = Some (v, ids) \<and>
      slot_version (at_write rd) k = v \<and> slot_version t k = v \<and>
      (slot_read t k < slot_read (at_write rd) k \<longrightarrow>
        slot_read t k = int (length (either ids (run_identities L db w (Some s) now rd channels k)))) \<and>
      (slot_read (at_write rd) k < slot_read t k \<longrightarrow>
        slot_read t k = int (length (both ids (run_identities L db w (Some s) now rd channels k))))"
proof -
  obtain answer channels where lst: "listing = Inr answer" "la_channels answer = Some channels"
    and eff: "\<And>k. slot_version t k = slot_version (at_write rd) k
    \<and> slot_read t k =
      (case reconcile_task (read_slot_versions (at_versions rd) (counter_keys L db)) (sn_counters s)
              (run_identities L db w (Some s) now rd channels) k of
         None \<Rightarrow> slot_read (at_write rd) k
       | Some (_, v, lo, hi) \<Rightarrow> if slot_version (at_write rd) k = v
           then clamp lo hi (slot_read (at_write rd) k) else slot_read (at_write rd) k)"
    using run by (rule reconciled_effect) blast
  have ans: "answer = \<lparr>la_channels = Some channels\<rparr>" using lst(2) by (cases answer) simp
  let ?ids = "run_identities L db w (Some s) now rd channels k"
  obtain v ids where task: "map_of (sn_counters s) k = Some (v, ids)"
    and eff': "slot_version (at_write rd) k = v"
      "slot_read t k = clamp (int (length (both ids ?ids))) (int (length (either ids ?ids)))
         (slot_read (at_write rd) k)"
    using eff [of k] moved by (auto simp: reconcile_task_def split: option.splits if_splits)
  then show ?thesis
    using lst(1) ans eff [of k] both_le_either [of ids ?ids] by (auto simp: clamp_def)
qed

lemma demo_key_simps [simp]:
  "demo_key \<noteq> profile_connections_key i" "profile_connections_key i \<noteq> demo_key"
  "is_counter_key demo_key" "is_cred_key demo_key"
  by (simp_all add: demo_key_def)

text \<open>A store with one leaked slot on the shared login, seen by a run whose predecessor saw
  no holder.\<close>

definition leaked :: redis where
  "leaked = rset empty_redis demo_key (RInt 1)"

definition idle_snapshot :: snapshot where
  "idle_snapshot = \<lparr>taken_at = 0,
     sn_counters = map (\<lambda>k. (k, (0, []))) (counter_keys demo_libs demo_db),
     sn_attribution = [], sn_present = []\<rparr>"

definition leaked_reads :: run_reads where
  "leaked_reads = \<lparr>at_versions = leaked, at_records = leaked, at_pointers = leaked, at_write = leaked\<rparr>"

lemma demo_counter_keys:
  "counter_keys demo_libs demo_db = [profile_connections_key 11, profile_connections_key 12,
     profile_connections_key 21, demo_key]"
proof -
  have ps: "db_profiles demo_db = [demo_profile, spare_profile, solo_profile]"
    by (simp add: demo_db_def)
  show ?thesis
    by (simp add: counter_keys_def profile_counters_def config_credentials_def limited_profiles_def ps
        List.map_filter_simps demo_reservation)
qed

lemma leaked_reads_simps [simp]:
  "slot_wf leaked" "slot_read leaked demo_key = 1" "slot_version leaked k = 0"
  "slot_read leaked (profile_connections_key i) = 0"
  by (auto simp: leaked_def slot_wf_def store_simps slot_read_def slot_version_def)

lemma leaked_no_records: "record_holders leaked now win = []"
  by (simp add: record_holders_def scan_hashes_def leaked_def rset_def empty_redis_def
      List.map_filter_simps)

lemma demo_run:
  obtains snap where "run_once demo_libs demo_db (in_flight_windows 10 5) (Some idle_snapshot) 100 100
    leaked_reads (Inr \<lparr>la_channels = Some []\<rparr>)
   = (rset leaked demo_key (RInt 0), snap, Reconciled [(demo_key, 1, 0)])"
proof -
  have "\<not> 100 < run_spacing_seconds (in_flight_windows 10 5)"
    by (simp add: run_spacing_seconds_def in_flight_windows_def MIN_SPACING_SECONDS_def SPACING_FACTOR_def)
  then show ?thesis using that
    by (simp add: run_once_def Let_def leaked_reads_def live_holders_def leaked_no_records dict_update_def
       demo_counter_keys idle_snapshot_def List.map_filter_simps reconcile_task_def
       map_of_versions count_of_version holders_of_def both_def either_def
       reconcile_counter_def script_reconcile_cases clamp_def read_slot_versions_def
       credential_attribution_def)
qed

lemma reconciler_moves_witness:
  "\<exists>t snap. run_once demo_libs demo_db (in_flight_windows 10 5) (Some idle_snapshot) 100 100
      leaked_reads (Inr \<lparr>la_channels = Some []\<rparr>) = (t, snap, Reconciled [(demo_key, 1, 0)]) \<and>
    slot_read t demo_key = 0 \<and> slot_version t demo_key = 0"
proof -
  obtain snap where run: "run_once demo_libs demo_db (in_flight_windows 10 5) (Some idle_snapshot) 100 100
    leaked_reads (Inr \<lparr>la_channels = Some []\<rparr>)
   = (rset leaked demo_key (RInt 0), snap, Reconciled [(demo_key, 1, 0)])"
    by (rule demo_run)
  have read: "slot_read (rset leaked demo_key (RInt 0)) demo_key = 0"
    by (simp add: slot_read_def store_simps)
  with reconciler_moves_toward_the_holders [OF run, of demo_key] run show ?thesis
    by (auto simp: leaked_reads_def)
qed

text \<open>C21. The reconciler repairs drift: when a counter of today's configuration has the same
  holders at two consecutive runs and its version has not moved up to the write, the second run
  sets it to exactly the number of those holders, whatever it was (so the slots the release pointers
  lose come back).\<close>

theorem reconciler_repairs_drift:
  assumes run: "run_once L db w (Some s) clock now rd listing = (t, snap, Reconciled changes)"
    and listing: "listing = Inr \<lparr>la_channels = Some channels\<rparr>"
    and before: "map_of (sn_counters s) k = Some (v, ids)"
    and same: "set (run_identities L db w (Some s) now rd channels k) = set ids" "distinct ids"
    and quiet: "slot_wf (at_versions rd)" "slot_version (at_versions rd) k = v"
      "slot_version (at_write rd) k = v"
    and key: "k \<in> set (counter_keys L db)"
  shows "slot_read t k = int (card (set ids))"
proof -
  let ?now = "run_identities L db w (Some s) now rd channels k"
  have eff: "slot_read t k =
      (case reconcile_task (read_slot_versions (at_versions rd) (counter_keys L db)) (sn_counters s)
              (run_identities L db w (Some s) now rd channels) k of
         None \<Rightarrow> slot_read (at_write rd) k
       | Some (_, v, lo, hi) \<Rightarrow> if slot_version (at_write rd) k = v
           then clamp lo hi (slot_read (at_write rd) k) else slot_read (at_write rd) k)"
    using run by (rule reconciled_effect) (use listing in auto)
  have "both ids ?now = ids" "either ids ?now = ids"
    using same(1) by (simp_all add: both_def either_def)
  moreover have "reconcile_task (read_slot_versions (at_versions rd) (counter_keys L db)) (sn_counters s)
      (run_identities L db w (Some s) now rd channels) k
    = Some (k, v, int (length (both ids ?now)), int (length (either ids ?now)))"
    using before key quiet by (simp add: reconcile_task_def map_of_versions count_of_version)
  ultimately show ?thesis
    using eff quiet(3) distinct_card [OF same(2)] by (simp add: clamp_def)
qed

lemma reconciler_repairs_witness:
  "\<exists>t snap. run_once demo_libs demo_db (in_flight_windows 10 5) (Some idle_snapshot) 100 100
      leaked_reads (Inr \<lparr>la_channels = Some []\<rparr>) = (t, snap, Reconciled [(demo_key, 1, 0)]) \<and>
    slot_read leaked demo_key = 1 \<and> slot_read t demo_key = 0"
proof -
  obtain snap where run: "run_once demo_libs demo_db (in_flight_windows 10 5) (Some idle_snapshot) 100 100
    leaked_reads (Inr \<lparr>la_channels = Some []\<rparr>)
   = (rset leaked demo_key (RInt 0), snap, Reconciled [(demo_key, 1, 0)])"
    by (rule demo_run)
  have ids: "run_identities demo_libs demo_db (in_flight_windows 10 5) (Some idle_snapshot) 100
      leaked_reads [] demo_key = []"
    by (simp add: run_identities_def live_holders_def leaked_reads_def leaked_no_records
        dict_update_def holders_of_def)
  have before: "map_of (sn_counters idle_snapshot) demo_key = Some (0, [])"
    by (simp add: idle_snapshot_def demo_counter_keys)
  from reconciler_repairs_drift [OF run refl before] ids run
  show ?thesis by (simp add: leaked_reads_def demo_counter_keys)
qed

text \<open>C4. A run never writes over a change it did not see: a counter that showed, at any moment between
  the previous run's read of its version and this run's write, another value than at that read is left
  as it is. The change may come of any reserves, releases and switches of the other workers, and may
  have been undone by others since.\<close>

theorem reconciler_never_overwrites_a_change:
  assumes run: "run_once L db w (Some s) clock now rd listing = (t, snap, Reconciled changes)"
    and then_read: "map_of (sn_counters s) k = Some (slot_version r0 k, ids)"
    and wf: "slot_wf r0" and key: "is_counter_key k"
    and between: "slot_trace L' db' r0 ops r1" "slot_trace L' db' r1 ops' (at_write rd)"
    and changed: "slot_read r1 k \<noteq> slot_read r0 k"
  shows "slot_read t k = slot_read (at_write rd) k"
proof (rule ccontr)
  assume moved: "slot_read t k \<noteq> slot_read (at_write rd) k"
  obtain answer channels where
    eff: "\<And>k. slot_version t k = slot_version (at_write rd) k
    \<and> slot_read t k =
      (case reconcile_task (read_slot_versions (at_versions rd) (counter_keys L db)) (sn_counters s)
              (run_identities L db w (Some s) now rd channels) k of
         None \<Rightarrow> slot_read (at_write rd) k
       | Some (_, v, lo, hi) \<Rightarrow> if slot_version (at_write rd) k = v
           then clamp lo hi (slot_read (at_write rd) k) else slot_read (at_write rd) k)"
    using run by (rule reconciled_effect) blast
  have "slot_version (at_write rd) k = slot_version r0 k"
    using eff [of k] moved then_read by (auto simp: reconcile_task_def split: option.splits if_splits)
  moreover have "slot_version r0 k \<le> slot_version r1 k" "slot_version r1 k \<le> slot_version (at_write rd) k"
    using slots.run_stamp [OF slot_trace_run [OF between(1) wf] wf key]
      slots.run_stamp [OF slot_trace_run [OF between(2)] _ key] slot_trace_wf [OF between(1) wf] by blast+
  ultimately have "slot_version r1 k = slot_version r0 k" by simp
  with slots.run_stamp [OF slot_trace_run [OF between(1) wf] wf key] changed show False by blast
qed

lemma run_once_reconciles:
  assumes "run_spacing_seconds w \<le> clock - taken_at s"
  shows "\<exists>t snap changes. run_once L db w (Some s) clock now rd (Inr \<lparr>la_channels = Some channels\<rparr>)
    = (t, Some snap, Reconciled changes)"
  using assms by (simp add: run_once_def Let_def split_beta)

lemma never_overwrites_witness:
  "\<exists>r1 t. fst (reserve_profile_slot demo_libs demo_db leaked demo_profile) = r1 \<and>
     slot_read r1 demo_key = 2 \<and>
     fst (run_once demo_libs demo_db (in_flight_windows 10 5) (Some idle_snapshot) 100 100
       (leaked_reads\<lparr>at_write := r1\<rparr>) (Inr \<lparr>la_channels = Some []\<rparr>)) = t \<and> slot_read t demo_key = 2"
proof -
  obtain r1 ok n why where res:
    "reserve_profile_slot demo_libs demo_db leaked demo_profile = (r1, ok, n, why)"
    by (metis prod_cases4)
  have keys: "counts_against demo_libs demo_db demo_profile k \<longleftrightarrow>
      k = profile_connections_key 11 \<or> k = demo_key" for k
    by (auto simp: counts_against_def demo_reservation)
  have "ok" using reserve_accepts_iff [of demo_libs demo_db leaked demo_profile] res
    by (auto simp: keys)
  with res have res: "reserve_profile_slot demo_libs demo_db leaked demo_profile = (r1, True, n, why)"
    by simp
  have two: "slot_read r1 demo_key = 2"
    using reserve_effect [OF res, of demo_key] by (simp add: keys)
  have "slot_trace demo_libs demo_db leaked ([] @ [Reserve demo_profile]) r1"
    by (rule trace_snoc [OF trace_nil]) (simp add: res)
  moreover have "run_spacing_seconds (in_flight_windows 10 5) \<le> 100 - taken_at idle_snapshot"
    by (simp add: run_spacing_seconds_def in_flight_windows_def MIN_SPACING_SECONDS_def
        SPACING_FACTOR_def idle_snapshot_def)
  then obtain t snap changes where run:
    "run_once demo_libs demo_db (in_flight_windows 10 5) (Some idle_snapshot) 100 100
       (leaked_reads\<lparr>at_write := r1\<rparr>) (Inr \<lparr>la_channels = Some []\<rparr>) = (t, Some snap, Reconciled changes)"
    by (blast dest: run_once_reconciles)
  moreover have "map_of (sn_counters idle_snapshot) demo_key = Some (slot_version leaked demo_key, [])"
    by (simp add: idle_snapshot_def demo_counter_keys)
  ultimately have "slot_read t demo_key = 2"
    using reconciler_never_overwrites_a_change [OF run, of demo_key leaked "[]" demo_libs demo_db
        "[] @ [Reserve demo_profile]" r1 "[]"] two trace_nil
    by simp
  with res two run show ?thesis by simp
qed

text \<open>A relay that cannot be asked moves nothing: when the listing fails or carries no
  channel list, or the run comes too soon, neither a counter nor the snapshot changes; and the
  first run only takes a snapshot.\<close>

theorem reconciler_skips_without_ground_truth:
  assumes "run_once L db w previous clock now rd listing = (t, snap, res)"
    and "listing = Inl e \<or> listing = Inr \<lparr>la_channels = None\<rparr>
      \<or> (\<exists>s. previous = Some s \<and> clock - taken_at s < run_spacing_seconds w) \<or> previous = None"
  shows "t = at_write rd \<and> (\<not> (previous = None \<and> res = FirstSnapshot) \<longrightarrow> snap = previous)"
  using assms
  by (auto simp: run_once_def Let_def
      split: if_splits sum.splits relay_error.splits option.splits prod.splits)

lemma reconciler_skips_witness:
  "run_once demo_libs demo_db (in_flight_windows 10 5) (Some idle_snapshot) 100 100 leaked_reads
     (Inl (RelayUnavailable True)) = (leaked, Some idle_snapshot, Skipped ''relay unavailable'')"
proof -
  have "100 \<ge> run_spacing_seconds (in_flight_windows 10 5)"
    by (simp add: run_spacing_seconds_def in_flight_windows_def MIN_SPACING_SECONDS_def
        SPACING_FACTOR_def)
  then obtain t snap where run:
    "run_once demo_libs demo_db (in_flight_windows 10 5) (Some idle_snapshot) 100 100 leaked_reads
     (Inl (RelayUnavailable True)) = (t, snap, Skipped ''relay unavailable'')"
    by (simp add: run_once_def Let_def idle_snapshot_def)
  from reconciler_skips_without_ground_truth [OF run, of "RelayUnavailable True"] run
  show ?thesis by (simp add: leaked_reads_def)
qed

subsection \<open>Attribution\<close>

lemma attribute_holder_keeps:
  "map_of carried identity = Some (p0, ks) \<Longrightarrow>
   set ks \<subseteq> set (attribute_holder now_key carried versions before identity p)"
  by (auto simp: attribute_holder_def Let_def split: list.splits)

lemma map_of_filter_keys:
  "map_of (filter (\<lambda>(i, v). P i) xs) i = (if P i then map_of xs i else None)"
  by (induction xs) auto

lemma map_of_attribution:
  "map_of (credential_attribution r hs config carried versions before) i =
    map_option (\<lambda>p. attribute_holder (current_credential r config p) carried versions before i p)
      (map_of hs i)"
  by (induction hs) (auto simp: credential_attribution_def)

lemma map_of_map_values: "map_of (map (\<lambda>(i, p). (i, f i p)) hs) i = map_option (f i) (map_of hs i)"
  by (induction hs) auto

lemma saved_attribution:
  fixes hs :: holders
  assumes "distinct (map fst hs)"
  shows "map_of (sn_attribution (save_snapshot now versions ids hs attribution carried present_then)) i =
    (case map_of hs i of
       Some p \<Rightarrow> Some (p, case map_of attribution i of Some ks \<Rightarrow> ks | None \<Rightarrow> [])
     | None \<Rightarrow> if i \<in> set present_then then map_of carried i else None)"
proof -
  let ?e = "map (\<lambda>(i, p). (i, (p, case map_of attribution i of Some ks \<Rightarrow> ks | None \<Rightarrow> []))) hs"
  have "map fst ?e = map fst hs" by auto
  with assms have "distinct (map fst ?e)" by (simp only:)
  moreover have "map_of hs i = None \<longleftrightarrow> i \<notin> fst ` set hs" by (simp add: map_of_eq_None_iff)
  ultimately show ?thesis
    unfolding save_snapshot_def snapshot.simps
    by (simp only: map_of_dict_update_distinct map_of_filter_keys map_of_map_values)
      (auto split: option.splits)
qed

lemma live_holders_distinct: "distinct (map fst (live_holders channels))"
proof -
  have "distinct (map fst (foldl (\<lambda>acc ch.
       (case nonzero (rc_profile_id ch) of
          None \<Rightarrow> acc
        | Some p \<Rightarrow>
            if (case rc_state ch of Some s \<Rightarrow> s \<in> set ended_relay_states | None \<Rightarrow> False) then acc
            else dict_set acc (''live:'' @ rc_channel_id ch) p)) acc cs))"
    if "distinct (map fst acc)" for acc :: holders and cs
    using that by (induction cs arbitrary: acc) (simp_all add: distinct_dict_set split: option.split)
  from this [of "[]" channels] show ?thesis unfolding live_holders_def by simp
qed

lemma run_holders_distinct:
  "distinct (map fst (dict_update (live_holders channels) (record_holders r now win)))"
  by (rule distinct_dict_update) (rule live_holders_distinct)

text \<open>C22. A holder's attribution only grows while it lasts: a holder the previous snapshot
  attributed to some counters, and that was present then or is present now, is attributed by
  the next snapshot to at least those counters, whatever became of its profile's release
  pointer or configuration.\<close>

theorem attribution_never_shrinks:
  assumes run: "run_once L db w (Some s) clock now rd (Inr \<lparr>la_channels = Some channels\<rparr>)
      = (t, Some sn, Reconciled changes)"
    and before: "map_of (sn_attribution s) i = Some (p0, ks)"
    and seen: "i \<in> set (sn_present s) \<or> i \<in> set (sn_present sn)"
  shows "\<exists>p1 ks'. map_of (sn_attribution sn) i = Some (p1, ks') \<and> set ks \<subseteq> set ks'"
proof -
  let ?hs = "dict_update (live_holders channels) (record_holders (at_records rd) now (w_vod w))"
  let ?versions = "read_slot_versions (at_versions rd) (counter_keys L db)"
  let ?att = "credential_attribution (at_pointers rd) ?hs (config_credentials L db) (sn_attribution s)
      ?versions (sn_counters s)"
  have sn: "sn = save_snapshot now ?versions (holders_of (profile_counters db) ?att ?hs) ?hs ?att
      (sn_attribution s) (sn_present s)"
    using run by (simp add: run_once_def Let_def split_beta split: if_splits)
  show ?thesis
  proof (cases "map_of ?hs i")
    case None
    then have "i \<notin> set (sn_present sn)" by (simp add: sn save_snapshot_def map_of_eq_None_iff)
    with None show ?thesis
      using before seen by (simp add: sn saved_attribution [OF run_holders_distinct])
  next
    case (Some p)
    then show ?thesis
      using before
      by (simp add: sn saved_attribution [OF run_holders_distinct] map_of_attribution
          attribute_holder_keeps)
  qed
qed

lemma attribution_never_shrinks_witness:
  "\<exists>t sn changes p1 ks'. run_once demo_libs demo_db (in_flight_windows 10 5)
      (Some (idle_snapshot\<lparr>sn_attribution := [(''vod:a'', (11, [demo_key]))], sn_present := [''vod:a'']\<rparr>))
      100 100 leaked_reads (Inr \<lparr>la_channels = Some []\<rparr>) = (t, Some sn, Reconciled changes) \<and>
    map_of (sn_attribution sn) ''vod:a'' = Some (p1, ks') \<and> demo_key \<in> set ks'"
proof -
  let ?s = "idle_snapshot\<lparr>sn_attribution := [(''vod:a'', (11, [demo_key]))], sn_present := [''vod:a'']\<rparr>"
  have "run_spacing_seconds (in_flight_windows 10 5) \<le> 100 - taken_at ?s"
    by (simp add: run_spacing_seconds_def in_flight_windows_def MIN_SPACING_SECONDS_def
        SPACING_FACTOR_def idle_snapshot_def)
  then obtain t sn changes where run: "run_once demo_libs demo_db (in_flight_windows 10 5) (Some ?s)
      100 100 leaked_reads (Inr \<lparr>la_channels = Some []\<rparr>) = (t, Some sn, Reconciled changes)"
    by (blast dest: run_once_reconciles)
  from attribution_never_shrinks [OF run, of "''vod:a''" 11 "[demo_key]"] run
  show ?thesis by auto
qed

subsection \<open>A held session is a holder\<close>

lemma refresh_records_wf: "redis_wf r \<Longrightarrow> redis_wf (fst (refresh_records w r es))"
  by (induction w r es rule: refresh_records.induct) (auto split: prod.splits)

lemma refresh_records_rget: "rget (fst (refresh_records w r es)) k = rget r k"
  by (induction w r es rule: refresh_records.induct) (auto simp: store_simps split: prod.splits)

lemma by_key_busy:
  assumes "\<And>t b. (k, t, b) \<in> set es \<Longrightarrow> b = []" and "\<And>t b. map_of acc k = Some (t, b) \<Longrightarrow> b = []"
    and "map_of (by_key acc es) k = Some (t, b)"
  shows "b = []"
  using assms
proof (induction acc es rule: by_key.induct)
  case (2 acc key ttl busy rest)
  show ?case
    by (rule 2(1)) (use 2(2-) in \<open>auto split: option.splits if_splits prod.splits\<close>)
qed simp

text \<open>A session held by a living process stays a holder however long its player pauses:
  after one refresh of the process's registry, every VOD record it holds with a profile and an
  active stream is counted by the reconciler, whoever had stamped the record before.\<close>

theorem held_session_counts_as_holder:
  assumes held: "k \<in> held_keys h" "\<And>e. e \<in> set (map snd (held h)) \<Longrightarrow> fst e = k \<Longrightarrow> snd (snd e) = []"
    and vod: "k = vod_connection_key sid" and worker: "hr_worker h \<noteq> []"
    and hash: "map_of (objs r) k = Some (RHash hs)" "redis_wf r"
    and fields: "map_of hs ''m3u_profile_id'' = Some (RInt p)" "p \<noteq> 0"
      "map_of hs ''active_streams'' = Some (RInt n)" "0 < n"
  shows "(''vod:'' @ k, p) \<in> set (record_holders (fst (snd (refresh_once h r True))) now win)"
proof -
  let ?w = "hr_worker h"
  let ?start = "rset_ex r (worker_key ?w) (RText ?w) WORKER_KEY_TTL_SECONDS"
  let ?es = "by_key [] (map snd (held h))" and ?r = "fst (snd (refresh_once h r True))"
  have r: "?r = fst (refresh_records ?w ?start ?es)"
    by (simp add: refresh_once_def refresh_script_def split: prod.splits)
  have "k \<in> set (map fst ?es)"
    using held(1) by_key_keys [of "[]" "map snd (held h)"] by (simp add: held_keys_def image_image)
  then obtain ttl busy where e: "(k, ttl, busy) \<in> set ?es" by auto
  have dist: "distinct (map fst ?es)" by (rule by_key_distinct) simp
  then have "map_of ?es k = Some (ttl, busy)" using e by (simp only: map_of_eq_Some_iff)
  have "busy = []"
  proof (rule by_key_busy [of k "map snd (held h)" "[]" ttl])
    fix t b assume "(k, t, b) \<in> set (map snd (held h))"
    from held(2) [OF this] show "b = []" by simp
  qed (use \<open>map_of ?es k = Some (ttl, busy)\<close> in simp_all)
  have k0: "map_of (objs ?start) k = Some (RHash hs)"
    using hash(1) vod by (simp add: rset_ex_def)
  have get: "rhget ?r k f = (if f = ''worker_id'' then Some (RText ?w) else map_of hs f)" for f
    using refresh_records_held [OF dist e k0, of ?w f] \<open>busy = []\<close> k0
    by (simp add: r rhget_def rhgetall_def)
  have "rget ?r (worker_key ?w) = Some (RText ?w)"
    by (simp add: r refresh_records_rget store_simps)
  then have "alive ?r (Some (RText ?w))" using worker by (simp add: alive_def)
  then have vod_holder: "vod_holder ?r now win k = Some p"
    using fields by (simp add: vod_holder_def get nonzero_def int_of_def)
  have "rhgetall ?r k \<noteq> []" using get [of "''worker_id''"] by (auto simp: rhget_def)
  then have "\<exists>g. map_of (objs ?r) k = Some (RHash g)"
    by (auto simp: rhgetall_def split: option.splits robj.splits)
  moreover have "redis_wf ?r" using hash(2) by (simp add: r refresh_records_wf)
  ultimately have "k \<in> set (scan_hashes ?r ''vod_persistent_connection:'')"
    by (simp add: scan_hashes_iff vod vod_connection_key_def starts_with_def)
  with vod_holder show ?thesis
    unfolding record_holders_def List.map_filter_def by force
qed

definition paused_session :: rhash where
  "paused_session = [(''m3u_profile_id'', RInt 11), (''active_streams'', RInt 1),
     (''worker_id'', RText ''gone'')]"

lemma held_session_witness:
  "(''vod:vod_persistent_connection:s1'', 11) \<in> set (record_holders (fst (snd (refresh_once
      (fst (hold (new_held_records ''w1'') (vod_connection_key ''s1'') 3600 []))
      (rhset_all empty_redis (vod_connection_key ''s1'') paused_session) True))) 0 40)"
proof -
  let ?h = "fst (hold (new_held_records ''w1'') (vod_connection_key ''s1'') 3600 [])"
  let ?hash = "[(''m3u_profile_id'', RInt 11), (''active_streams'', RInt 1),
     (''worker_id'', RText ''gone'')]"
  let ?st = "rhset_all empty_redis (vod_connection_key ''s1'') paused_session"
  have held: "map snd (held ?h) = [(vod_connection_key ''s1'', 3600, [])]"
    by (simp add: hold_def new_held_records_def)
  have obj: "map_of (objs ?st) (vod_connection_key ''s1'') = Some (RHash ?hash)" "redis_wf ?st"
    by (simp_all add: rhset_all_def empty_redis_def paused_session_def dict_update_def redis_wf_def)
  have "(''vod:'' @ vod_connection_key ''s1'', 11) \<in> set (record_holders (fst (snd (refresh_once
      ?h ?st True))) 0 40)"
    by (rule held_session_counts_as_holder [OF _ _ refl _ obj])
      (simp_all add: held_keys_def held [simplified] image_image, auto simp: hold_def new_held_records_def)
  then show ?thesis by (simp add: vod_connection_key_def)
qed

end
