(* ===== verification/Channel_Streams.thy ===== *)
theory Channel_Streams
  imports Connection_Pool Relay_Client
begin

section \<open>Stream assignment (apps/channels/models.py)\<close>

text \<open>
  \<open>Channel.get_stream\<close>, \<open>release_stream\<close>, \<open>update_stream_profile\<close> and the same methods of a
  single \<open>Stream\<close> (a preview): which stream and profile a channel plays, kept in two pointer
  keys beside the slot counters. The relay's snapshot of the channel is an argument, consulted
  where the code consults it. An exception that leaves a method is a value of \<open>model_error\<close>,
  with the store as the method left it.
\<close>

datatype model_error = ValueError | AttributeError | DoesNotExist | RelayError relay_error

datatype assignment =
  Assigned int int bool   \<comment> \<open>stream, profile, whether a slot was reserved\<close>
| Refused string

definition ALL_PROFILES_FULL :: string where
  "ALL_PROFILES_FULL = ''All active M3U profiles have reached maximum connection limits''"

definition reserve_attempt :: "libs \<Rightarrow> database \<Rightarrow> redis \<Rightarrow> m3u_profile \<Rightarrow> redis \<times> bool" where
  "reserve_attempt L db r p = (let (r', reserved, count, reason) = reserve_profile_slot L db r p
                               in (r', reserved))"

subsection \<open>\<open>Stream\<close>\<close>

definition assign_stream :: "redis \<Rightarrow> int \<Rightarrow> int \<Rightarrow> int \<Rightarrow> redis" where
  "assign_stream r owner stream_id profile_id =
     rset (rset r (channel_stream_key owner) (RInt stream_id)) (stream_profile_key stream_id)
       (RInt profile_id)"

text \<open>
  The walk of \<open>Stream.get_stream\<close> starts with the default profile; without one its first
  element is \<open>None\<close>, whose \<open>.id\<close> raises.
\<close>

definition stream_get_stream ::
  "libs \<Rightarrow> database \<Rightarrow> redis \<Rightarrow> stream_row \<Rightarrow> redis \<times> (model_error + assignment)" where
  "stream_get_stream L db r s =
     (let profile_id = rget r (stream_profile_key (stream_pk s)) in
      if truthy profile_id then
        (case py_int profile_id of
           Some p \<Rightarrow> (r, Inr (Assigned (stream_pk s) p False))
         | None \<Rightarrow> (r, Inl ValueError))
      else
        (case stream_account s of
           None \<Rightarrow> (r, Inl AttributeError)
         | Some account \<Rightarrow>
             (case default_first (account_profiles db account) of
                None \<Rightarrow> (r, Inl AttributeError)
              | Some profiles \<Rightarrow>
                  (case first_accepted (reserve_attempt L db) r (filter prof_is_active profiles) of
                     (r', Some p) \<Rightarrow>
                       (assign_stream r' (stream_pk s) (stream_pk s) (prof_id p),
                        Inr (Assigned (stream_pk s) (prof_id p) True))
                   | (r', None) \<Rightarrow> (r', Inr (Refused ALL_PROFILES_FULL))))))"

definition stream_blocking_profile_ids ::
  "libs \<Rightarrow> database \<Rightarrow> redis \<Rightarrow> stream_row \<Rightarrow> model_error + int list" where
  "stream_blocking_profile_ids L db r s =
     (case stream_account s of
        None \<Rightarrow> Inl AttributeError
      | Some account \<Rightarrow>
          let m3u_profiles = account_profiles db account;
              profiles = (case find is_default m3u_profiles of Some d \<Rightarrow> [d] | None \<Rightarrow> [])
                         @ filter (\<lambda>p. \<not> is_default p) m3u_profiles
          in Inr (blocking_profile_ids L db (filter prof_is_active profiles) r))"

definition stream_release_stream :: "redis \<Rightarrow> stream_row \<Rightarrow> redis \<times> (model_error + bool)" where
  "stream_release_stream r s =
     (let key = stream_profile_key (stream_pk s); profile_id = rget r key in
      if \<not> truthy profile_id then (r, Inr False)
      else
        let r = rdel r key in
        (case py_int profile_id of
           None \<Rightarrow> (r, Inl ValueError)
         | Some p \<Rightarrow> (release_profile_slot r p, Inr True)))"

subsection \<open>\<open>Channel\<close>: an existing assignment\<close>

definition stream_assignment_is_reusable ::
  "redis \<Rightarrow> relay_error + channel_snapshot \<Rightarrow> int \<Rightarrow> model_error + bool" where
  "stream_assignment_is_reusable r snapshot stream_id =
     (case snapshot of
        Inl e \<Rightarrow> Inl (RelayError e)
      | Inr s \<Rightarrow>
          if active s then Inr True
          else if \<not> present s then Inr (rget r (stream_profile_key stream_id) \<noteq> None)
          else Inr False)"

definition release_stale_stream_assignment :: "redis \<Rightarrow> channel_row \<Rightarrow> int \<Rightarrow> redis" where
  "release_stale_stream_assignment r ch stream_id =
     (let profile_id = py_int (rget r (stream_profile_key stream_id));
          r = (case profile_id of Some p \<Rightarrow> release_profile_slot r p | None \<Rightarrow> r)
      in rdel (rdel r (channel_stream_key (chan_pk ch))) (stream_profile_key stream_id))"

text \<open>
  What the start of \<open>get_stream\<close> makes of the channel's stored stream id: an assignment to
  return, or the store to go on with.
\<close>

definition existing_assignment ::
  "redis \<Rightarrow> channel_row \<Rightarrow> relay_error + channel_snapshot \<Rightarrow>
   redis \<times> (model_error + assignment option)" where
  "existing_assignment r ch snapshot =
     (case py_int (rget r (channel_stream_key (chan_pk ch))) of
        None \<Rightarrow> (r, Inr None)
      | Some stream_id \<Rightarrow>
          (case stream_assignment_is_reusable r snapshot stream_id of
             Inl e \<Rightarrow> (r, Inl e)
           | Inr False \<Rightarrow> (release_stale_stream_assignment r ch stream_id, Inr None)
           | Inr True \<Rightarrow>
               (case py_int (rget r (stream_profile_key stream_id)) of
                  Some p \<Rightarrow> (r, Inr (Some (Assigned stream_id p False)))
                | None \<Rightarrow> (r, Inr None))))"

subsection \<open>\<open>Channel\<close>: a new assignment\<close>

text \<open>The profiles one stream offers, default first; none when the stream is skipped.\<close>

definition stream_profiles :: "database \<Rightarrow> stream_row \<Rightarrow> m3u_profile list" where
  "stream_profiles db s =
     (case stream_account s of
        None \<Rightarrow> []
      | Some account \<Rightarrow>
          if \<not> acc_is_active account then []
          else (case default_first (filter prof_is_active (account_profiles db account)) of
                  None \<Rightarrow> []
                | Some profiles \<Rightarrow> profiles))"

text \<open>
  The walk over the streams: the assignment made, if any, and whether some profile was tried
  (\<open>has_active_profiles\<close>) and some refused (\<open>has_streams_but_maxed_out\<close>).
\<close>

fun try_streams ::
  "libs \<Rightarrow> database \<Rightarrow> int \<Rightarrow> redis \<Rightarrow> stream_row list \<Rightarrow> bool \<times> bool \<Rightarrow>
   redis \<times> (int \<times> int) option \<times> bool \<times> bool" where
  "try_streams L db owner r [] (tried, full) = (r, None, tried, full)"
| "try_streams L db owner r (s # ss) (tried, full) =
     (let profiles = stream_profiles db s; tried = (tried \<or> profiles \<noteq> []) in
      case first_accepted (reserve_attempt L db) r profiles of
        (r', Some p) \<Rightarrow>
          (assign_stream r' owner (stream_pk s) (prof_id p), Some (stream_pk s, prof_id p), tried, full)
      | (r', None) \<Rightarrow> try_streams L db owner r' ss (tried, full \<or> profiles \<noteq> []))"

definition channel_get_stream ::
  "libs \<Rightarrow> database \<Rightarrow> redis \<Rightarrow> channel_row \<Rightarrow> relay_error + channel_snapshot \<Rightarrow>
   redis \<times> (model_error + assignment)" where
  "channel_get_stream L db r ch snapshot =
     (if chan_streams ch = [] then (r, Inr (Refused ''No streams assigned to channel''))
      else
        (case existing_assignment r ch snapshot of
           (r, Inl e) \<Rightarrow> (r, Inl e)
         | (r, Inr (Some a)) \<Rightarrow> (r, Inr a)
         | (r, Inr None) \<Rightarrow>
             (case try_streams L db (chan_pk ch) r (chan_streams ch) (False, False) of
                (r, Some (s, p), _) \<Rightarrow> (r, Inr (Assigned s p True))
              | (r, None, tried, full) \<Rightarrow>
                  (r, Inr (Refused
                    (if full then ALL_PROFILES_FULL
                     else if tried then ''No compatible active profile found for any assigned stream''
                     else ''No active profiles found for any assigned stream''))))))"

definition walk_profiles :: "database \<Rightarrow> channel_row \<Rightarrow> m3u_profile list" where
  "walk_profiles db ch = concat (map (stream_profiles db) (chan_streams ch))"

text \<open>The first occurrence of each profile id.\<close>

fun first_by_id :: "int list \<Rightarrow> m3u_profile list \<Rightarrow> m3u_profile list" where
  "first_by_id seen [] = []"
| "first_by_id seen (p # ps) =
     (if prof_id p \<in> set seen then first_by_id seen ps
      else p # first_by_id (prof_id p # seen) ps)"

definition channel_blocking_profile_ids :: "libs \<Rightarrow> database \<Rightarrow> redis \<Rightarrow> channel_row \<Rightarrow> int list" where
  "channel_blocking_profile_ids L db r ch =
     blocking_profile_ids L db (first_by_id [] (walk_profiles db ch)) r"

subsection \<open>\<open>Channel\<close>: release and switch\<close>

definition channel_release_stream :: "redis \<Rightarrow> channel_row \<Rightarrow> redis \<times> (model_error + bool)" where
  "channel_release_stream r ch =
     (let key = channel_stream_key (chan_pk ch); stream_id = rget r key in
      if \<not> truthy stream_id then (r, Inr False)
      else
        let r = rdel r key in
        (case py_int stream_id of
           None \<Rightarrow> (r, Inl ValueError)
         | Some s \<Rightarrow>
             let profile_id = rget r (stream_profile_key s) in
             if \<not> truthy profile_id then (r, Inr False)
             else
               let r = rdel r (stream_profile_key s) in
               (case py_int profile_id of
                  None \<Rightarrow> (r, Inl ValueError)
                | Some p \<Rightarrow> (release_profile_slot r p, Inr True))))"

definition profile_by_id :: "database \<Rightarrow> int \<Rightarrow> m3u_profile option" where
  "profile_by_id db i = find (\<lambda>p. prof_id p = i) (db_profiles db)"

definition channel_update_stream_profile ::
  "libs \<Rightarrow> database \<Rightarrow> redis \<Rightarrow> channel_row \<Rightarrow> int \<Rightarrow> redis \<times> (model_error + bool)" where
  "channel_update_stream_profile L db r ch new_profile_id =
     (let stream_id = rget r (channel_stream_key (chan_pk ch)) in
      if \<not> truthy stream_id then (r, Inr False)
      else
        (case py_int stream_id of
           None \<Rightarrow> (r, Inl ValueError)
         | Some s \<Rightarrow>
             let current = rget r (stream_profile_key s) in
             if \<not> truthy current then (r, Inr False)
             else
               (case py_int current of
                  None \<Rightarrow> (r, Inl ValueError)
                | Some current_profile_id \<Rightarrow>
                    if current_profile_id = new_profile_id then (r, Inr True)
                    else
                      (case (profile_by_id db current_profile_id, profile_by_id db new_profile_id) of
                         (Some old, Some new) \<Rightarrow>
                           (let (r', ok) = switch_profile_slot L db r old new (stream_profile_key s)
                            in (r', Inr ok))
                       | _ \<Rightarrow> (r, Inl DoesNotExist)))))"

subsection \<open>The interface the walks rely on\<close>

text \<open>
  A source of slots: an attempt that is granted exactly when a read-only check says so, and
  that leaves the state alone when refused. A walk over candidates then takes the first free
  one and touches nothing else.
\<close>

locale slot_source =
  fixes attempt :: "'s \<Rightarrow> 'p \<Rightarrow> 's \<times> bool"
    and free :: "'s \<Rightarrow> 'p \<Rightarrow> bool"
    and inv :: "'s \<Rightarrow> bool"
    and valid :: "'p \<Rightarrow> bool"
  assumes granted_iff: "inv s \<Longrightarrow> valid p \<Longrightarrow> snd (attempt s p) = free s p"
    and refused_same: "inv s \<Longrightarrow> valid p \<Longrightarrow> \<not> free s p \<Longrightarrow> fst (attempt s p) = s"
    and attempt_inv: "inv s \<Longrightarrow> valid p \<Longrightarrow> inv (fst (attempt s p))"
begin

lemma walk:
  assumes "inv s" and "\<forall>p \<in> set ps. valid p"
  shows "first_accepted attempt s ps =
    (case find (free s) ps of None \<Rightarrow> (s, None) | Some p \<Rightarrow> (fst (attempt s p), Some p))"
  using assms
proof (induction ps)
  case (Cons p ps)
  obtain s' ok where st: "attempt s p = (s', ok)" by fastforce
  with Cons granted_iff [of s p] refused_same [of s p] show ?case
    by (cases ok) auto
qed simp

lemma walk_inv:
  assumes "inv s" and "\<forall>p \<in> set ps. valid p"
  shows "inv (fst (first_accepted attempt s ps))"
  using assms attempt_inv
  by (auto simp: walk [OF assms] find_Some_iff split: option.split)

lemma walk_none_iff:
  assumes "inv s" and "\<forall>p \<in> set ps. valid p"
  shows "snd (first_accepted attempt s ps) = None \<longleftrightarrow> (\<forall>p \<in> set ps. \<not> free s p)"
  using walk [OF assms] by (auto simp: find_None_all [symmetric] split: option.splits)

end

definition valid_limit :: "m3u_profile \<Rightarrow> bool" where
  "valid_limit p \<longleftrightarrow> 0 \<le> max_streams p"

interpretation provider_slots: slot_source "reserve_attempt L db"
  "\<lambda>r p. pool_has_capacity_for_profile L db p r" slot_wf valid_limit for L db
proof unfold_locales
  fix r p assume r: "slot_wf r" and p: "valid_limit p"
  obtain r' ok n w where res: "reserve_profile_slot L db r p = (r', ok, n, w)" by (metis prod_cases4)
  with r p show "snd (reserve_attempt L db r p) = pool_has_capacity_for_profile L db p r"
    using reserve_accepts_iff [of L db r p]
    by (simp add: reserve_attempt_def pool_capacity_iff valid_limit_def)
  then show "\<not> pool_has_capacity_for_profile L db p r \<Longrightarrow> fst (reserve_attempt L db r p) = r"
    using res reserve_refused [of L db r p r' n w] by (auto simp: reserve_attempt_def)
  show "slot_wf (fst (reserve_attempt L db r p))"
    using reserve_wf [OF r, of L db p] res by (simp add: reserve_attempt_def)
qed

subsection \<open>The pointer keys\<close>

lemma same_slots_assign: "same_slots r (assign_stream r owner s p)"
  unfolding assign_stream_def by (rule same_slots_trans [of _ "rset r (channel_stream_key owner) (RInt s)"]) simp_all

lemma rget_assign [simp]:
  "rget (assign_stream r owner s p) (channel_stream_key owner) = Some (RInt s)"
  "rget (assign_stream r owner s p) (stream_profile_key s) = Some (RInt p)"
  by (simp_all add: assign_stream_def store_simps)

lemma rget_assign_other:
  "k \<noteq> channel_stream_key owner \<Longrightarrow> k \<noteq> stream_profile_key s \<Longrightarrow>
   rget (assign_stream r owner s p) k = rget r k"
  by (simp add: assign_stream_def store_simps)

lemma script_frame:
  assumes "\<not> is_slot_key k" 
  shows "rget (fst (reserve_attempt L db r p)) k = rget r k"
proof -
  have k: "\<not> is_counter_key k" "k \<noteq> slot_version_key l" "k \<noteq> profile_credential_release_key i" for l i
    using assms by (auto simp: is_slot_key_def)
  have w: "rget (slot_write r c v) k = rget r k" if "is_counter_key c" for r c v
    using k that by (intro rget_slot_write_other) auto
  show ?thesis
    by (cases rule: reservation_cases [of L db p])
      (auto simp: reserve_attempt_def reserve_profile_slot_def script_reserve_def Let_def w
        store_simps k split: prod.splits)
qed

lemma release_frame:
  assumes "\<not> is_slot_key k" and "slot_wf r"
  shows "rget (release_profile_slot r i) k = rget r k"
proof -
  have k: "\<not> is_counter_key k" "k \<noteq> slot_version_key l" "k \<noteq> profile_credential_release_key j" for l j
    using assms by (auto simp: is_slot_key_def)
  have g: "rget (give_back r c) k = rget r k" if "is_counter_key c" for r c
    using k that by (auto simp: give_back_def Let_def intro!: rget_slot_write_other)
  show ?thesis
    using key_of_pointer [OF assms(2), of i]
    by (auto simp: release_profile_slot_def script_release_def g store_simps k split: option.splits)
qed

subsection \<open>The walk over a channel's streams\<close>

definition limits_ok :: "database \<Rightarrow> bool" where
  "limits_ok db \<longleftrightarrow> (\<forall>p \<in> set (db_profiles db). valid_limit p)"

lemma stream_profiles_in_db: "set (stream_profiles db s) \<subseteq> set (db_profiles db)"
proof (cases "stream_account s")
  case (Some a)
  show ?thesis
  proof (cases "default_first (filter prof_is_active (account_profiles db a))")
    case (Some qs)
    from default_first_subset [OF this] show ?thesis
      using \<open>stream_account s = Some a\<close> Some by (auto simp: stream_profiles_def account_profiles_def)
  qed (simp add: stream_profiles_def Some)
qed (simp add: stream_profiles_def)

lemma stream_profiles_valid: "limits_ok db \<Longrightarrow> \<forall>p \<in> set (stream_profiles db s). valid_limit p"
  using stream_profiles_in_db [of db s] by (auto simp: limits_ok_def)

text \<open>The candidates in the order the walk meets them.\<close>

definition candidates :: "database \<Rightarrow> stream_row list \<Rightarrow> (stream_row \<times> m3u_profile) list" where
  "candidates db ss = concat (map (\<lambda>s. map (Pair s) (stream_profiles db s)) ss)"

definition free_candidate :: "libs \<Rightarrow> database \<Rightarrow> redis \<Rightarrow> stream_row \<times> m3u_profile \<Rightarrow> bool" where
  "free_candidate L db r sp = pool_has_capacity_for_profile L db (snd sp) r"

lemma find_map_Pair:
  "find (\<lambda>sp. P (snd sp)) (map (Pair s) ps) = map_option (Pair s) (find P ps)"
  by (induction ps) auto

lemma find_append: "find P (xs @ ys) = (case find P xs of None \<Rightarrow> find P ys | Some x \<Rightarrow> Some x)"
  by (induction xs) auto

lemma try_streams_spec:
  assumes "slot_wf r" and "limits_ok db"
  shows "try_streams L db owner r ss (tried, full) =
    (case find (free_candidate L db r) (candidates db ss) of
       Some (s, p) \<Rightarrow> (assign_stream (fst (reserve_attempt L db r p)) owner (stream_pk s) (prof_id p),
                      Some (stream_pk s, prof_id p),
                      fst (snd (snd (try_streams L db owner r ss (tried, full)))),
                      snd (snd (snd (try_streams L db owner r ss (tried, full)))))
     | None \<Rightarrow> (r, None, tried \<or> candidates db ss \<noteq> [], full \<or> candidates db ss \<noteq> []))"
proof (induction ss arbitrary: tried full)
  case (Cons s ss)
  let ?ps = "stream_profiles db s"
  have walk: "first_accepted (reserve_attempt L db) r ?ps =
      (case find (\<lambda>p. pool_has_capacity_for_profile L db p r) ?ps of
         None \<Rightarrow> (r, None) | Some p \<Rightarrow> (fst (reserve_attempt L db r p), Some p))"
    by (rule provider_slots.walk [OF assms(1) stream_profiles_valid [OF assms(2)]])
  have cand: "find (free_candidate L db r) (candidates db (s # ss)) =
      (case find (\<lambda>p. pool_has_capacity_for_profile L db p r) ?ps of
         None \<Rightarrow> find (free_candidate L db r) (candidates db ss) | Some p \<Rightarrow> Some (s, p))"
    unfolding candidates_def list.map concat.simps find_append
    using find_map_Pair [of "\<lambda>p. pool_has_capacity_for_profile L db p r" s ?ps]
    by (auto simp: free_candidate_def [abs_def] split: option.splits)
  show ?case
  proof (cases "find (\<lambda>p. pool_has_capacity_for_profile L db p r) ?ps")
    case (Some p)
    then show ?thesis unfolding cand by (simp add: walk Let_def)
  next
    case None
    have "candidates db (s # ss) \<noteq> [] \<longleftrightarrow> ?ps \<noteq> [] \<or> candidates db ss \<noteq> []"
      by (simp add: candidates_def)
    with None Cons.IH [of "tried \<or> ?ps \<noteq> []" "full \<or> ?ps \<noteq> []"] show ?thesis
      unfolding cand by (auto simp: walk Let_def split: option.splits)
  qed
qed (simp add: candidates_def)

end
