(* ===== verification/Channel_Properties.thy ===== *)
theory Channel_Properties
  imports Channel_Streams Pool_Properties
begin

section \<open>Stream assignment: the properties\<close>

text \<open>
  What a tune and its release promise: the first free candidate, the balance of a tune and its
  release, the agreement of the blocking-profiles answer with the walk, and the two cases in
  which assignments that share a key disturb each other.
\<close>

lemma unassigned_get_stream:
  assumes "slot_wf r" and "limits_ok db" and "chan_streams ch \<noteq> []"
    and "py_int (rget r (channel_stream_key (chan_pk ch))) = None"
  shows "channel_get_stream L db r ch snap =
    (case find (free_candidate L db r) (candidates db (chan_streams ch)) of
       Some (s, p) \<Rightarrow>
         (assign_stream (fst (reserve_attempt L db r p)) (chan_pk ch) (stream_pk s) (prof_id p),
          Inr (Assigned (stream_pk s) (prof_id p) True))
     | None \<Rightarrow> (r, Inr (Refused (if candidates db (chan_streams ch) = []
                    then ''No active profiles found for any assigned stream'' else ALL_PROFILES_FULL))))"
proof -
  have ex: "existing_assignment r ch snap = (r, Inr None)"
    using assms(4) by (simp add: existing_assignment_def)
  show ?thesis
  proof (cases "find (free_candidate L db r) (candidates db (chan_streams ch))")
    case None
    then show ?thesis
      using try_streams_spec [OF assms(1,2), of L "chan_pk ch" "chan_streams ch" False False] assms(3)
      by (simp add: channel_get_stream_def ex)
  next
    case (Some sp)
    obtain s p where sp: "sp = (s, p)" by fastforce
    with Some try_streams_spec [OF assms(1,2), of L "chan_pk ch" "chan_streams ch" False False]
    have "try_streams L db (chan_pk ch) r (chan_streams ch) (False, False) =
      (assign_stream (fst (reserve_attempt L db r p)) (chan_pk ch) (stream_pk s) (prof_id p),
       Some (stream_pk s, prof_id p), snd (snd (try_streams L db (chan_pk ch) r (chan_streams ch) (False, False))))"
      by simp
    then obtain c where "try_streams L db (chan_pk ch) r (chan_streams ch) (False, False) =
      (assign_stream (fst (reserve_attempt L db r p)) (chan_pk ch) (stream_pk s) (prof_id p),
       Some (stream_pk s, prof_id p), c)"
      by blast
    with Some sp show ?thesis using assms(3) by (simp add: channel_get_stream_def ex)
  qed
qed

text \<open>C8. A tune without a standing assignment takes the first free candidate: walking the
  channel's streams in order and each active account's active profiles, default first, it makes
  the reserve of the first profile whose counters have room, records that stream and profile, and
  writes nothing else; with none free it changes nothing and says that every profile is full, or,
  when there was no candidate at all, that no profile is active, or, when the channel has no
  stream, that none is assigned. The remaining refusal the method can name is never given. No
  profile has a negative limit.\<close>

theorem tune_takes_first_free_candidate:
  assumes "slot_wf r" and "limits_ok db"
    and "py_int (rget r (channel_stream_key (chan_pk ch))) = None"
  shows "channel_get_stream L db r ch snap =
    (if chan_streams ch = [] then (r, Inr (Refused ''No streams assigned to channel''))
     else
       (case find (\<lambda>(s, p). pool_has_capacity_for_profile L db p r)
               (concat (map (\<lambda>s. map (Pair s) (stream_profiles db s)) (chan_streams ch))) of
          Some (s, p) \<Rightarrow>
            (assign_stream (fst (reserve_profile_slot L db r p)) (chan_pk ch) (stream_pk s) (prof_id p),
             Inr (Assigned (stream_pk s) (prof_id p) True))
        | None \<Rightarrow> (r, Inr (Refused
            (if walk_profiles db ch = [] then ''No active profiles found for any assigned stream''
             else ALL_PROFILES_FULL)))))"
proof (cases "chan_streams ch = []")
  case True
  then show ?thesis by (simp add: channel_get_stream_def)
next
  case False
  have "free_candidate L db r = (\<lambda>(s, p). pool_has_capacity_for_profile L db p r)"
    by (auto simp: free_candidate_def fun_eq_iff)
  moreover have "fst (reserve_attempt L db r p) = fst (reserve_profile_slot L db r p)" for p
    by (simp add: reserve_attempt_def split: prod.splits)
  moreover have "candidates db (chan_streams ch) = [] \<longleftrightarrow> walk_profiles db ch = []"
    by (simp add: candidates_def walk_profiles_def)
  ultimately show ?thesis
    using unassigned_get_stream [OF assms(1,2) False assms(3), of L snap] False
    by (auto simp: candidates_def split: option.splits)
qed

lemma demo_limits: "limits_ok demo_db"
  by (simp add: limits_ok_def valid_limit_def demo_db_def)

lemma demo_stream_profiles: "stream_profiles demo_db demo_stream = [demo_profile, spare_profile]"
  by (simp add: stream_profiles_def demo_stream_def account_profiles_def demo_db_def default_first_def)
    (simp add: demo_defs)

lemma demo_channel_fields [simp]:
  "chan_pk demo_channel = 3" "chan_streams demo_channel = [demo_stream]" "stream_pk demo_stream = 5"
  by (simp_all add: demo_channel_def demo_stream_def)

lemma demo_capacity [simp]:
  "0 \<le> max_streams p \<Longrightarrow> pool_has_capacity_for_profile L db p empty_redis"
  by (auto simp: pool_capacity_iff counts_against_def)

lemma tune_takes_first_free_witness:
  "snd (channel_get_stream demo_libs demo_db empty_redis demo_channel (Inl Misconfigured))
    = Inr (Assigned 5 11 True)"
  using tune_takes_first_free_candidate [of empty_redis demo_db demo_channel demo_libs "Inl Misconfigured"]
  by (simp add: demo_limits demo_stream_profiles demo_capacity)

lemma assigned_candidate:
  assumes "slot_wf r" and "limits_ok db" 
    and "py_int (rget r (channel_stream_key (chan_pk ch))) = None"
    and "channel_get_stream L db r ch snap = (r1, Inr (Assigned s i True))"
  obtains p n w r0 where "p \<in> set (db_profiles db)" and "prof_id p = i"
    and "reserve_profile_slot L db r p = (r0, True, n, w)"
    and "r1 = assign_stream r0 (chan_pk ch) s i"
proof -
  have ne: "chan_streams ch \<noteq> []" using assms(4) by (auto simp: channel_get_stream_def)
  obtain st p where f: "find (free_candidate L db r) (candidates db (chan_streams ch)) = Some (st, p)"
    and r1: "r1 = assign_stream (fst (reserve_attempt L db r p)) (chan_pk ch) s i"
      "s = stream_pk st" "i = prof_id p"
    using assms(4) unfolding unassigned_get_stream [OF assms(1,2) ne assms(3)]
    by (auto split: option.splits if_splits)
  from find_Some_in [OF f] have p: "p \<in> set (db_profiles db)"
    "pool_has_capacity_for_profile L db p r"
    using stream_profiles_in_db by (auto simp: candidates_def free_candidate_def)
  obtain r0 ok n w where res: "reserve_profile_slot L db r p = (r0, ok, n, w)" by (metis prod_cases4)
  have "valid_limit p" using p(1) assms(2) by (simp add: limits_ok_def)
  with p(2) res reserve_accepts_iff [of L db r p] assms(1) have "ok"
    by (simp add: pool_capacity_iff valid_limit_def)
  with res r1 that [of p r0 n w] p(1) show ?thesis by (simp add: reserve_attempt_def)
qed

text \<open>A profile is limited, or nothing is counted against it.\<close>

definition counters_settled :: "database \<Rightarrow> redis \<Rightarrow> bool" where
  "counters_settled db r \<longleftrightarrow>
     (\<forall>p \<in> set (db_profiles db). 0 < max_streams p \<or>
        max_streams p = 0 \<and> slot_read r (profile_connections_key (prof_id p)) = 0)"

lemma tune_release:
  assumes wf: "slot_wf r" and nonneg: "\<And>k. is_counter_key k \<Longrightarrow> 0 \<le> slot_read r k"
    and fresh: "\<And>i. rget r (profile_credential_release_key i) = None"
    and settled: "counters_settled db r"
    and unassigned: "py_int (rget r (channel_stream_key (chan_pk ch))) = None"
    and tune: "channel_get_stream L db r ch snap = (r1, Inr (Assigned s i True))"
  shows "\<exists>r2. channel_release_stream r1 ch = (r2, Inr True) \<and>
    rget r2 (channel_stream_key (chan_pk ch)) = None \<and> rget r2 (stream_profile_key s) = None \<and>
    (\<forall>k. is_counter_key k \<longrightarrow> slot_read r2 k = slot_read r k)"
proof -
  have lim: "limits_ok db" using settled by (auto simp: counters_settled_def limits_ok_def valid_limit_def)
  obtain p n w r0 where p: "p \<in> set (db_profiles db)" "prof_id p = i"
    and res: "reserve_profile_slot L db r p = (r0, True, n, w)"
    and r1: "r1 = assign_stream r0 (chan_pk ch) s i"
    by (rule assigned_candidate [OF wf lim unassigned tune])
  let ?r = "rdel (rdel r1 (channel_stream_key (chan_pk ch))) (stream_profile_key s)"
  have rel: "channel_release_stream r1 ch = (release_profile_slot ?r i, Inr True)"
    by (simp add: channel_release_stream_def r1 store_simps Let_def)
  have same: "same_slots r0 ?r"
    unfolding r1
    by (rule same_slots_trans [OF same_slots_assign
          same_slots_trans [OF same_slots_write(3) same_slots_write(3)]]) simp_all
  have wf0: "slot_wf r0" using reserve_wf [OF wf, of L db p] res by simp
  then have wf': "slot_wf ?r" using same by (rule same_slots_wf [rotated])
  have ptr: "rget ?r (profile_credential_release_key i) = rget r0 (profile_credential_release_key i)"
    by (rule same_slots_read(1) [OF same]) simp
  have "slot_read (release_profile_slot ?r i) k = slot_read r k" if k: "is_counter_key k" for k
  proof -
    note effect = release_effect [OF wf' k, of i] reserve_effect [OF res k] same_slots_read(3) [OF same k]
    show ?thesis
    proof (cases "0 < max_streams p")
      case True
      then have "counts_against L db p k \<longleftrightarrow> k = profile_connections_key i \<or>
          rget r0 (profile_credential_release_key i) = Some (RText k)"
        using p fresh [of i] reserve_pointer [OF res, of i] by (auto simp: counts_against_def)
      then show ?thesis using effect nonneg [OF k] by (simp add: ptr)
    next
      case False
      then have "\<not> counts_against L db p k" "rget r0 (profile_credential_release_key i) = None"
        "slot_read r (profile_connections_key i) = 0"
        using p fresh [of i] reserve_pointer [OF res, of i] settled by (auto simp: counts_against_def counters_settled_def)
      then show ?thesis using effect nonneg [OF k] by (auto simp: ptr)
    qed
  qed
  moreover have "rget (release_profile_slot ?r i) (channel_stream_key (chan_pk ch)) = None"
    "rget (release_profile_slot ?r i) (stream_profile_key s) = None"
    using wf' by (simp_all add: release_frame store_simps)
  ultimately show ?thesis using rel by blast
qed

text \<open>C9. A tune and its release balance: when a tune of a channel with no assignment stored reserved a
  slot, the release that follows succeeds, clears both pointer keys and puts every provider counter
  back. The keyspace is well formed, no counter is negative, no release pointer was left over, and
  every profile is limited or is unlimited with its own counter at zero.\<close>

theorem tune_then_release_balances:
  assumes wf: "slot_wf r" and nonneg: "\<And>k. is_counter_key k \<Longrightarrow> 0 \<le> slot_read r k"
    and fresh: "\<And>i. rget r (profile_credential_release_key i) = None"
    and settled: "counters_settled db r"
    and unassigned: "py_int (rget r (channel_stream_key (chan_pk ch))) = None"
    and tune: "channel_get_stream L db r ch snap = (r1, Inr (Assigned s i True))"
  shows "\<exists>r2. channel_release_stream r1 ch = (r2, Inr True) \<and>
    rget r2 (channel_stream_key (chan_pk ch)) = None \<and> rget r2 (stream_profile_key s) = None \<and>
    (\<forall>k. is_counter_key k \<longrightarrow> slot_read r2 k = slot_read r k)"
  by (rule tune_release [OF wf nonneg fresh settled unassigned tune])

lemma demo_tune:
  obtains r1 where "channel_get_stream demo_libs demo_db empty_redis demo_channel (Inl Misconfigured)
    = (r1, Inr (Assigned 5 11 True))"
  using unassigned_get_stream [of empty_redis demo_db demo_channel demo_libs "Inl Misconfigured"] that
  by (simp add: demo_limits candidates_def demo_stream_profiles free_candidate_def demo_capacity)

lemma tune_then_release_witness:
  "\<exists>r1 r2. channel_get_stream demo_libs demo_db empty_redis demo_channel (Inl Misconfigured)
     = (r1, Inr (Assigned 5 11 True)) \<and> channel_release_stream r1 demo_channel = (r2, Inr True) \<and>
    slot_read r2 demo_key = 0"
proof -
  obtain r1 where tune: "channel_get_stream demo_libs demo_db empty_redis demo_channel (Inl Misconfigured)
    = (r1, Inr (Assigned 5 11 True))"
    by (rule demo_tune)
  have "counters_settled demo_db empty_redis" by (simp add: counters_settled_def demo_db_def)
  with tune_then_release_balances [of empty_redis, OF _ _ _ _ _ tune] obtain r2 where
    "channel_release_stream r1 demo_channel = (r2, Inr True)"
    "\<forall>k. is_counter_key k \<longrightarrow> slot_read r2 k = slot_read empty_redis k"
    by auto
  with tune show ?thesis by (auto simp: demo_key_def)
qed

subsection \<open>Blocking profiles\<close>

lemma first_by_id_spec:
  assumes "inj_on prof_id (set ps)"
  shows "set (first_by_id seen ps) = {p \<in> set ps. prof_id p \<notin> set seen}"
  using assms
proof (induction seen ps rule: first_by_id.induct)
  case (2 seen p ps)
  then show ?case by (auto simp: inj_on_def)
qed simp

text \<open>A refused tune can name its blockers: whenever the walk finds no free profile the
  channel's blocking profiles contain every profile the walk tried, and when every profile of
  the walk has room the answer is empty.\<close>

theorem refused_tune_names_its_blockers:
  assumes "slot_wf r" and "limits_ok db" and "inj_on prof_id (set (db_profiles db))"
    and "chan_streams ch \<noteq> []" and "py_int (rget r (channel_stream_key (chan_pk ch))) = None"
  shows "((\<exists>why. channel_get_stream L db r ch snap = (r, Inr (Refused why))) \<longrightarrow>
      prof_id ` set (walk_profiles db ch) \<subseteq> set (channel_blocking_profile_ids L db r ch)) \<and>
    ((\<forall>p \<in> set (walk_profiles db ch). pool_has_capacity_for_profile L db p r) \<longrightarrow>
      channel_blocking_profile_ids L db r ch = [])"
proof -
  have sub: "set (walk_profiles db ch) \<subseteq> set (db_profiles db)"
    using stream_profiles_in_db by (auto simp: walk_profiles_def)
  have inj: "inj_on prof_id (set (walk_profiles db ch))" by (rule inj_on_subset [OF assms(3) sub])
  have once: "set (first_by_id [] (walk_profiles db ch)) = set (walk_profiles db ch)"
    using first_by_id_spec [OF inj, of "[]"] by simp
  have mem: "i \<in> set (channel_blocking_profile_ids L db r ch) \<longleftrightarrow>
      (\<exists>p \<in> set (walk_profiles db ch). \<not> pool_has_capacity_for_profile L db p r \<and>
       (i = prof_id p \<or> profile_has_capacity_for_selection p r
                        \<and> i \<in> set (credential_sibling_profile_ids L db p)))" for i
    unfolding channel_blocking_profile_ids_def blocking_profile_ids_iff once ..
  have "\<forall>p \<in> set (walk_profiles db ch). \<not> pool_has_capacity_for_profile L db p r"
    if "channel_get_stream L db r ch snap = (r, Inr (Refused why))" for why
  proof -
    have "find (free_candidate L db r) (candidates db (chan_streams ch)) = None"
      using that unfolding unassigned_get_stream [OF assms(1,2,4,5)] by (auto split: option.splits)
    then show ?thesis by (auto simp: find_None_all candidates_def free_candidate_def walk_profiles_def)
  qed
  then have "prof_id ` set (walk_profiles db ch) \<subseteq> set (channel_blocking_profile_ids L db r ch)"
    if "\<exists>why. channel_get_stream L db r ch snap = (r, Inr (Refused why))"
    using that mem by blast
  moreover have "channel_blocking_profile_ids L db r ch = []"
    if "\<forall>p \<in> set (walk_profiles db ch). pool_has_capacity_for_profile L db p r"
    using that mem by (metis list.set_intros(1) neq_Nil_conv)
  ultimately show ?thesis by blast
qed

lemma refused_tune_witness:
  "channel_blocking_profile_ids demo_libs demo_db empty_redis demo_channel = []"
proof -
  have "inj_on prof_id (set (db_profiles demo_db))" by (auto simp: demo_db_def inj_on_def)
  then show ?thesis
    using refused_tune_names_its_blockers [of empty_redis demo_db demo_channel demo_libs "Inl Misconfigured"]
    by (simp add: demo_limits walk_profiles_def demo_stream_profiles)
qed

subsection \<open>Two assignments that share a key\<close>

text \<open>Two channels that play the same stream lose a slot: the second tune overwrites the
  one record of the stream's profile, the first channel's release takes it away, and the second
  channel's release then finds no profile, reports failure and gives nothing back.\<close>

theorem shared_stream_release_loses_a_slot:
  assumes wf: "slot_wf r" and lim: "limits_ok db" and ne: "chan_pk a \<noteq> chan_pk b"
    and free: "py_int (rget r (channel_stream_key (chan_pk a))) = None"
      "py_int (rget r (channel_stream_key (chan_pk b))) = None"
    and tune_a: "channel_get_stream L db r a snap_a = (r1, Inr (Assigned s i True))"
    and tune_b: "channel_get_stream L db r1 b snap_b = (r2, Inr (Assigned s j True))"
  shows "\<exists>r3. channel_release_stream r2 a = (r3, Inr True) \<and>
    (\<exists>r4. channel_release_stream r3 b = (r4, Inr False) \<and>
       (\<forall>k. is_counter_key k \<longrightarrow> slot_read r4 k = slot_read r3 k))"
proof -
  let ?ka = "channel_stream_key (chan_pk a)" and ?kb = "channel_stream_key (chan_pk b)"
    and ?ks = "stream_profile_key s"
  obtain p n w ra where res_a: "reserve_profile_slot L db r p = (ra, True, n, w)"
    and r1: "r1 = assign_stream ra (chan_pk a) s i"
    by (rule assigned_candidate [OF wf lim free(1) tune_a])
  have wf1: "slot_wf r1"
    unfolding r1 using reserve_wf [OF wf, of L db p] res_a by (intro same_slots_wf [OF same_slots_assign]) simp
  have "rget r1 ?kb = rget r ?kb"
    using ne res_a script_frame [of ?kb L db r p]
    by (simp add: r1 rget_assign_other reserve_attempt_def)
  with free(2) have free1: "py_int (rget r1 ?kb) = None" by simp
  obtain q m v rb where res_b: "reserve_profile_slot L db r1 q = (rb, True, m, v)"
    and r2: "r2 = assign_stream rb (chan_pk b) s j"
    by (rule assigned_candidate [OF wf1 lim free1 tune_b])
  have wf2: "slot_wf r2"
    unfolding r2 using reserve_wf [OF wf1, of L db q] res_b by (intro same_slots_wf [OF same_slots_assign]) simp
  have "rget r2 ?ka = rget r1 ?ka"
    using ne res_b script_frame [of ?ka L db r1 q]
    by (simp add: r2 rget_assign_other reserve_attempt_def)
  then have keys: "rget r2 ?ka = Some (RInt s)" "rget r2 ?kb = Some (RInt s)" "rget r2 ?ks = Some (RInt j)"
    by (simp_all add: r1 r2)
  let ?r = "rdel (rdel r2 ?ka) ?ks" and ?r3 = "release_profile_slot (rdel (rdel r2 ?ka) ?ks) j"
  have "same_slots r2 ?r" by (rule same_slots_trans [OF same_slots_write(3) same_slots_write(3)]) simp_all
  then have wf': "slot_wf ?r" using wf2 by (rule same_slots_wf)
  have "channel_release_stream r2 a = (?r3, Inr True)"
    by (simp add: channel_release_stream_def keys store_simps Let_def)
  moreover have "rget ?r3 ?kb = Some (RInt s)" "rget ?r3 ?ks = None"
    using wf' ne keys by (simp_all add: release_frame store_simps)
  then have "channel_release_stream ?r3 b = (rdel ?r3 ?kb, Inr False)"
    by (simp add: channel_release_stream_def store_simps Let_def)
  moreover have "slot_read (rdel ?r3 ?kb) k = slot_read ?r3 k" if "is_counter_key k" for k
    using that by (simp add: slot_read_def store_simps)
  ultimately show ?thesis by blast
qed

lemma shared_stream_witness:
  "\<exists>r1 r2 r3 r4. channel_get_stream demo_libs demo_db empty_redis demo_channel (Inl Misconfigured)
      = (r1, Inr (Assigned 5 11 True)) \<and>
    channel_get_stream demo_libs demo_db r1 (demo_channel\<lparr>chan_pk := 4\<rparr>) (Inl Misconfigured)
      = (r2, Inr (Assigned 5 11 True)) \<and>
    channel_release_stream r2 demo_channel = (r3, Inr True) \<and>
    channel_release_stream r3 (demo_channel\<lparr>chan_pk := 4\<rparr>) = (r4, Inr False)"
proof -
  let ?b = "demo_channel\<lparr>chan_pk := 4\<rparr>"
  obtain r1 where tune: "channel_get_stream demo_libs demo_db empty_redis demo_channel (Inl Misconfigured)
    = (r1, Inr (Assigned 5 11 True))"
    by (rule demo_tune)
  obtain p n w r0 where p: "p \<in> set (db_profiles demo_db)" "prof_id p = 11"
    and res: "reserve_profile_slot demo_libs demo_db empty_redis p = (r0, True, n, w)"
    and r1: "r1 = assign_stream r0 (chan_pk demo_channel) 5 11"
    by (rule assigned_candidate [OF slot_wf_empty demo_limits _ tune]) auto
  have "p = demo_profile" using p by (auto simp: demo_db_def)
  have wf1: "slot_wf r1"
    unfolding r1 using reserve_wf [of empty_redis demo_libs demo_db p] res
    by (intro same_slots_wf [OF same_slots_assign]) simp
  have "slot_read r1 k < 2" if "counts_against demo_libs demo_db demo_profile k" for k
    using reserve_effect [OF res, of k] that \<open>p = demo_profile\<close> counts_against_counter [OF that]
      same_slots_read(3) [OF same_slots_assign, of k r0]
    by (simp add: r1)
  then have "pool_has_capacity_for_profile demo_libs demo_db demo_profile r1"
    using wf1 by (simp add: pool_capacity_iff)
  moreover have free: "py_int (rget r1 (channel_stream_key 4)) = None"
    using script_frame [of "channel_stream_key 4" demo_libs demo_db empty_redis p] res
    by (simp add: r1 rget_assign_other reserve_attempt_def)
  ultimately obtain r2 where tune2: "channel_get_stream demo_libs demo_db r1 ?b (Inl Misconfigured)
      = (r2, Inr (Assigned 5 11 True))"
    using unassigned_get_stream [OF wf1 demo_limits, of ?b demo_libs "Inl Misconfigured"]
    by (simp add: candidates_def demo_stream_profiles free_candidate_def)
  from shared_stream_release_loses_a_slot [OF slot_wf_empty demo_limits _ _ _ tune tune2] free
  show ?thesis using tune tune2 by auto
qed

text \<open>A preview can hijack a channel: a preview of stream x records its stream under the
  channel key of x, so a channel whose own id is x, with any streams of its own, is then given
  stream x and the preview's profile without a slot of its own, whenever the relay does not
  know the channel.\<close>

theorem preview_hijacks_channel_with_same_id:
  assumes "stream_get_stream L db r s = (r1, Inr (Assigned (stream_pk s) i True))"
    and "chan_pk ch = stream_pk s" and "chan_streams ch \<noteq> []"
  shows "channel_get_stream L db r1 ch (Inr \<lparr>present = False, active = False, reachable = seen\<rparr>)
    = (r1, Inr (Assigned (stream_pk s) i False))"
proof -
  obtain r0 where "r1 = assign_stream r0 (stream_pk s) (stream_pk s) i"
    using assms(1) by (auto simp: stream_get_stream_def Let_def split: if_splits option.splits prod.splits)
  then show ?thesis
    using assms(2,3)
    by (simp add: channel_get_stream_def existing_assignment_def stream_assignment_is_reusable_def)
qed

lemma preview_hijacks_witness:
  "\<exists>r1. stream_get_stream demo_libs demo_db empty_redis demo_stream = (r1, Inr (Assigned 5 11 True)) \<and>
     channel_get_stream demo_libs demo_db r1 (demo_channel\<lparr>chan_pk := 5, chan_streams := [demo_stream\<lparr>stream_pk := 8\<rparr>]\<rparr>)
       (Inr \<lparr>present = False, active = False, reachable = True\<rparr>) = (r1, Inr (Assigned 5 11 False))"
proof -
  have "default_first (account_profiles demo_db demo_account) = Some [demo_profile, spare_profile]"
    by (simp add: account_profiles_def demo_db_def default_first_def) (simp add: demo_defs)
  moreover have "prof_is_active demo_profile" "stream_account demo_stream = Some demo_account"
    by (simp_all add: demo_profile_def demo_stream_def)
  moreover have "reserve_attempt demo_libs demo_db empty_redis demo_profile
      = (fst (reserve_attempt demo_libs demo_db empty_redis demo_profile), True)"
    using provider_slots.granted_iff [of empty_redis demo_profile demo_libs demo_db]
    by (auto simp: valid_limit_def intro: prod_eqI)
  then obtain r0 where "reserve_attempt demo_libs demo_db empty_redis demo_profile = (r0, True)" by blast
  ultimately obtain r1 where
    pre: "stream_get_stream demo_libs demo_db empty_redis demo_stream
      = (r1, Inr (Assigned (stream_pk demo_stream) 11 True))"
    by (simp add: stream_get_stream_def)
  from preview_hijacks_channel_with_same_id [OF pre, of
      "demo_channel\<lparr>chan_pk := 5, chan_streams := [demo_stream\<lparr>stream_pk := 8\<rparr>]\<rparr>" True] pre
  show ?thesis by auto
qed

end
