(* ===== verification/Byte_Range.thy ===== *)
theory Byte_Range
  imports Py_Text
begin

section \<open>Byte ranges of the VOD proxy (apps/proxy/vod\_proxy/byte\_range.py)\<close>

text \<open>
  Range headers, Content-Range headers, and the plan that cuts an upstream body to what the
  client is told. Headers are Latin-1 text, as WSGI decodes them; a numeral longer than the
  interpreter's limit for \<open>int\<close> (4300 digits) is outside the model.
\<close>

subsection \<open>Numerals\<close>

text \<open>\<open>parse_length\<close> on \<open>str(value)\<close>.\<close>

definition parse_length :: "string option \<Rightarrow> int option" where
  "parse_length v =
     (case v of
        None \<Rightarrow> None
      | Some s \<Rightarrow> if all_digits s then Some (int (nat_of_digits s)) else None)"

definition num :: "string \<Rightarrow> int" where
  "num s = int (nat_of_digits s)"

subsection \<open>The Range header\<close>

datatype resolved_range = Ignored | Unsatisfiable | Satisfiable int int

definition resolve_suffix :: "string \<Rightarrow> int \<Rightarrow> resolved_range" where
  "resolve_suffix last' tot =
     (if \<not> all_digits last' then Ignored
      else if num last' = 0 \<or> tot \<le> 0 then Unsatisfiable
      else Satisfiable (max 0 (tot - num last')) (tot - 1))"

definition resolve_span :: "string \<Rightarrow> string \<Rightarrow> int \<Rightarrow> resolved_range" where
  "resolve_span first last' tot =
     (if \<not> all_digits first then Ignored
      else
        let start = num first in
        if last' = [] then
          (if start \<ge> tot then Unsatisfiable else Satisfiable start (tot - 1))
        else if all_digits last' then
          (if num last' < start then Unsatisfiable
           else if start \<ge> tot then Unsatisfiable
           else Satisfiable start (min (num last') (tot - 1)))
        else Ignored)"

definition resolve_range :: "string option \<Rightarrow> int \<Rightarrow> resolved_range" where
  "resolve_range range_header tot =
     (case range_header of
        None \<Rightarrow> Ignored
      | Some h \<Rightarrow>
          if \<not> starts_with ''bytes='' h then Ignored
          else
            let spec = strip (drop 6 h) in
            if CHR '','' \<in> set spec then Ignored
            else
              (case split_once (CHR ''-'') spec of
                 None \<Rightarrow> Ignored
               | Some (first, last') \<Rightarrow>
                   if first = [] then resolve_suffix last' tot
                   else resolve_span first last' tot))"

subsection \<open>The Content-Range header\<close>

definition parse_content_range :: "string option \<Rightarrow> (int \<times> int \<times> int option) option" where
  "parse_content_range v =
     (case v of
        None \<Rightarrow> None
      | Some h \<Rightarrow>
          if \<not> starts_with ''bytes '' h then None
          else
            (case rsplit_once (CHR ''/'') (strip (drop 6 h)) of
               None \<Rightarrow> None
             | Some (span', total_part) \<Rightarrow>
                 (case split_once (CHR ''-'') span' of
                    None \<Rightarrow> None
                  | Some (first, last') \<Rightarrow>
                      if \<not> (all_digits first \<and> all_digits last') then None
                      else if total_part \<noteq> ''*'' \<and> \<not> all_digits total_part then None
                      else
                        let start = num first; end' = num last';
                            tot = (if total_part = ''*'' then None else Some (num total_part))
                        in if end' < start \<or> (case tot of Some t \<Rightarrow> end' \<ge> t | None \<Rightarrow> False) then None
                           else Some (start, end', tot))))"

subsection \<open>The plan\<close>

record downstream_plan =
  dp_status :: int
  dp_content_range :: "string option"
  dp_content_length :: "int option"
  dp_skip :: int
  dp_limit :: "int option"
  dp_start :: "int option"
  dp_total :: "int option"
  dp_unsatisfiable :: bool

definition plain_plan :: "int \<Rightarrow> int option \<Rightarrow> downstream_plan" where
  "plain_plan status len =
     \<lparr>dp_status = status, dp_content_range = None, dp_content_length = len, dp_skip = 0,
      dp_limit = None, dp_start = None, dp_total = None, dp_unsatisfiable = False\<rparr>"

definition show_range :: "int \<Rightarrow> int \<Rightarrow> int option \<Rightarrow> string" where
  "show_range start end' tot =
     ''bytes '' @ show_int start @ ''-'' @ show_int end' @ ''/'' @
     (case tot of Some t \<Rightarrow> show_int t | None \<Rightarrow> ''*'')"

definition range_plan :: "int \<Rightarrow> int \<Rightarrow> int option \<Rightarrow> downstream_plan" where
  "range_plan start end' tot =
     \<lparr>dp_status = 206, dp_content_range = Some (show_range start end' tot),
      dp_content_length = Some (end' - start + 1), dp_skip = 0, dp_limit = None,
      dp_start = Some start, dp_total = tot, dp_unsatisfiable = False\<rparr>"

definition plan_partial ::
  "string option \<Rightarrow> string option \<Rightarrow> int option \<Rightarrow> int option \<Rightarrow> downstream_plan" where
  "plan_partial client_range content_range upstream_length known_total =
     (case parse_content_range content_range of
        Some (start, end', tot) \<Rightarrow>
          range_plan start end' (case tot of Some t \<Rightarrow> Some t | None \<Rightarrow> known_total)
      | None \<Rightarrow>
          (case (if known_total = None \<or> known_total = Some 0 then Ignored
                 else resolve_range client_range (the known_total)) of
             Satisfiable start end' \<Rightarrow> range_plan start end' known_total
           | _ \<Rightarrow> plain_plan 206 upstream_length))"

definition plan_full ::
  "string option \<Rightarrow> int option \<Rightarrow> int option \<Rightarrow> downstream_plan" where
  "plan_full client_range upstream_length known_total =
     (case (case upstream_length of Some n \<Rightarrow> Some n | None \<Rightarrow> known_total) of
        None \<Rightarrow> plain_plan 200 None
      | Some tot \<Rightarrow>
          (case resolve_range client_range tot of
             Ignored \<Rightarrow> plain_plan 200 (Some tot)
           | Unsatisfiable \<Rightarrow>
               (plain_plan 416 None)\<lparr>dp_total := Some tot, dp_unsatisfiable := True\<rparr>
           | Satisfiable start end' \<Rightarrow>
               (range_plan start end' (Some tot))
                 \<lparr>dp_skip := start, dp_limit := Some (end' - start + 1)\<rparr>))"

definition plan_downstream ::
  "string option \<Rightarrow> int \<Rightarrow> string option \<Rightarrow> string option \<Rightarrow> int option \<Rightarrow> downstream_plan" where
  "plan_downstream client_range upstream_status content_range content_length known_total =
     (let upstream_length = parse_length content_length in
      if client_range = None \<or> client_range = Some [] then
        plain_plan 200 (case known_total of Some t \<Rightarrow> Some t | None \<Rightarrow> upstream_length)
      else if upstream_status = 206 then
        plan_partial client_range content_range upstream_length known_total
      else if upstream_status = 200 then plan_full client_range upstream_length known_total
      else plain_plan upstream_status upstream_length)"

subsection \<open>Cutting the body\<close>

text \<open>The generator's output; \<open>skip\<close> and \<open>limit\<close> are not negative.\<close>

fun slice_chunks :: "'b list list \<Rightarrow> nat \<Rightarrow> nat option \<Rightarrow> 'b list list" where
  "slice_chunks [] skip limit = []"
| "slice_chunks (chunk # chunks) skip limit =
     (if chunk = [] then slice_chunks chunks skip limit
      else if skip \<noteq> 0 \<and> length chunk \<le> skip then slice_chunks chunks (skip - length chunk) limit
      else
        let chunk = drop skip chunk in
        (case limit of
           None \<Rightarrow> chunk # slice_chunks chunks 0 None
         | Some n \<Rightarrow>
             if length chunk \<ge> n then [take n chunk]
             else chunk # slice_chunks chunks 0 (Some (n - length chunk))))"

subsection \<open>Facts\<close>

lemma num_nonneg [simp]: "0 \<le> num s"
  by (simp add: num_def)

lemma resolve_suffix_bounds:
  "resolve_suffix last' tot = Satisfiable s e \<Longrightarrow> 0 \<le> s \<and> s \<le> e \<and> e < tot"
  by (auto simp: resolve_suffix_def num_def split: if_splits)

lemma resolve_span_bounds:
  "resolve_span first last' tot = Satisfiable s e \<Longrightarrow> 0 \<le> s \<and> s \<le> e \<and> e < tot"
  by (auto simp: resolve_span_def Let_def split: if_splits)

lemma resolve_range_bounds:
  "resolve_range h tot = Satisfiable s e \<Longrightarrow> 0 \<le> s \<and> s \<le> e \<and> e < tot"
  by (auto simp: resolve_range_def Let_def dest: resolve_suffix_bounds resolve_span_bounds
      split: option.splits if_splits)

lemma parse_content_range_bounds:
  "parse_content_range h = Some (s, e, t) \<Longrightarrow> 0 \<le> s \<and> s \<le> e \<and> (\<forall>n. t = Some n \<longrightarrow> e < n)"
  by (auto simp: parse_content_range_def Let_def split: option.splits if_splits)

lemma concat_slice_chunks:
  "concat (slice_chunks chunks skip limit) =
    (case limit of None \<Rightarrow> drop skip (concat chunks) | Some n \<Rightarrow> take n (drop skip (concat chunks)))"
proof (induction chunks skip limit rule: slice_chunks.induct)
  case (2 chunk chunks skip limit)
  show ?case
  proof (cases "chunk = [] \<or> skip \<noteq> 0 \<and> length chunk \<le> skip")
    case True
    with 2 show ?thesis by (auto split: option.splits)
  next
    case False
    with 2 show ?thesis by (cases limit) (auto simp: Let_def)
  qed
qed (auto split: option.splits)

lemma slice_chunks_nonempty:
  "limit \<noteq> Some 0 \<Longrightarrow> [] \<notin> set (slice_chunks chunks skip limit)"
  by (induction chunks skip limit rule: slice_chunks.induct) (auto simp: Let_def split: option.splits)

subsection \<open>Headers as texts\<close>

lemma num_show_nat [simp]: "num (show_nat n) = int n"
  by (simp add: num_def)

lemma show_nat_no [simp]: "CHR ''-'' \<notin> set (show_nat n)" "CHR '','' \<notin> set (show_nat n)"
  "CHR ''/'' \<notin> set (show_nat n)" "CHR ''*'' \<notin> set (show_nat n)"
  using not_digit_in_show_nat by (simp_all add: is_digit_def)

lemma split_dash: "CHR ''-'' \<notin> set a \<Longrightarrow> split_once (CHR ''-'') (a @ ''-'' @ b) = Some (a, b)"
  using split_once_join [of "CHR ''-''" a b] by simp

lemma strip_range: 
  assumes "a \<noteq> [] \<Longrightarrow> \<not> is_space (hd a)" and "b \<noteq> [] \<Longrightarrow> \<not> is_space (last b)"
  shows "strip (a @ ''-'' @ b) = a @ ''-'' @ b"
  using assms by (intro strip_id) (cases a; cases b; auto simp: is_space_def Let_def)

lemma drop_bytes [simp]: "drop 6 (''bytes='' @ s) = s" "drop 6 (''bytes '' @ s) = s"
  by simp_all

lemma resolve_range_text:
  assumes "CHR ''-'' \<notin> set a" and "CHR '','' \<notin> set a" "CHR '','' \<notin> set b"
    and "a \<noteq> [] \<Longrightarrow> \<not> is_space (hd a)" and "b \<noteq> [] \<Longrightarrow> \<not> is_space (last b)"
  shows "resolve_range (Some (''bytes='' @ a @ ''-'' @ b)) tot =
    (if a = [] then resolve_suffix b tot else resolve_span a b tot)"
proof -
  have "strip (drop 6 (''bytes='' @ a @ ''-'' @ b)) = a @ ''-'' @ b"
    unfolding drop_bytes using assms(4,5) by (rule strip_range)
  moreover have "(CHR '','' \<in> set (a @ ''-'' @ b)) = False" using assms by simp
  ultimately show ?thesis
    by (simp only: resolve_range_def option.case Let_def starts_with_append not_True_eq_False
        if_False split_dash [OF assms(1)] prod.case)
qed

subsection \<open>The properties\<close>

lemma hd_show_nat_space [simp]: "\<not> is_space (hd (show_nat n))" "\<not> is_space (last (show_nat n))"
  by simp_all

lemma all_digits_Nil [simp]: "\<not> all_digits []"
  by (simp add: all_digits_def)

lemma show_nat_ne [simp]: "show_nat n \<noteq> []"
  using all_digits_show_nat [of n] by (metis all_digits_Nil)

text \<open>C31. The Range header is read as RFC 9110 writes it: \<open>bytes=a-b\<close> selects a to the smaller
  of b and the last byte when a is inside the representation and not past b, \<open>bytes=a-\<close> selects
  everything from a, \<open>bytes=-n\<close> the final n bytes (all of them when there are fewer), and
  whatever the header text, a selected range lies inside the representation.\<close>

theorem range_header_selects_the_right_bytes:
  "resolve_range (Some (''bytes='' @ show_nat a @ ''-'' @ show_nat b)) tot =
     (if b < a \<or> int a \<ge> tot then Unsatisfiable else Satisfiable (int a) (min (int b) (tot - 1))) \<and>
   resolve_range (Some (''bytes='' @ show_nat a @ ''-'')) tot =
     (if int a \<ge> tot then Unsatisfiable else Satisfiable (int a) (tot - 1)) \<and>
   resolve_range (Some (''bytes=-'' @ show_nat b)) tot =
     (if b = 0 \<or> tot \<le> 0 then Unsatisfiable else Satisfiable (max 0 (tot - int b)) (tot - 1)) \<and>
   (resolve_range h tot = Satisfiable s e \<longrightarrow> 0 \<le> s \<and> s \<le> e \<and> e < tot)"
proof (intro conjI impI)
  show "resolve_range (Some (''bytes='' @ show_nat a @ ''-'' @ show_nat b)) tot =
     (if b < a \<or> int a \<ge> tot then Unsatisfiable else Satisfiable (int a) (min (int b) (tot - 1)))"
    by (subst resolve_range_text) (simp_all add: resolve_span_def Let_def)
  show "resolve_range (Some (''bytes='' @ show_nat a @ ''-'')) tot =
     (if int a \<ge> tot then Unsatisfiable else Satisfiable (int a) (tot - 1))"
    using resolve_range_text [of "show_nat a" "[]" tot]
    by (simp add: resolve_span_def Let_def)
  show "resolve_range (Some (''bytes=-'' @ show_nat b)) tot =
     (if b = 0 \<or> tot \<le> 0 then Unsatisfiable else Satisfiable (max 0 (tot - int b)) (tot - 1))"
    using resolve_range_text [of "[]" "show_nat b" tot]
    by (simp add: resolve_suffix_def)
qed (auto dest: resolve_range_bounds)

lemma range_header_witness: "resolve_range (Some ''bytes=2-50'') 10 = Satisfiable 2 9"
  using range_header_selects_the_right_bytes [of 2 50 10 None 0 0]
  by (simp add: show_nat.simps digit_char_def)

lemma show_int_nat [simp]: "show_int (int n) = show_nat n"
  by (simp add: show_int_def)

definition show_total :: "nat option \<Rightarrow> string" where
  "show_total t = (case t of Some n \<Rightarrow> show_nat n | None \<Rightarrow> ''*'')"

lemma show_range_nat:
  "show_range (int s) (int e) (map_option int t) =
     ''bytes '' @ (show_nat s @ ''-'' @ show_nat e) @ ''/'' @ show_total t"
  by (cases t) (simp_all add: show_range_def show_total_def)

lemma show_total_facts [simp]:
  "CHR ''/'' \<notin> set (show_total t)" "show_total t \<noteq> []" "\<not> is_space (last (show_total t))"
  "show_total t = ''*'' \<longleftrightarrow> t = None" "t \<noteq> None \<Longrightarrow> all_digits (show_total t)"
  "t = Some n \<Longrightarrow> num (show_total t) = int n"
proof -
  have "show_nat n \<noteq> ''*''" for n
  proof
    assume "show_nat n = ''*''"
    with all_digits_show_nat [of n] show False by (simp add: all_digits_def is_digit_def)
  qed
  then show "show_total t = ''*'' \<longleftrightarrow> t = None" by (cases t) (simp_all add: show_total_def)
  show "\<not> is_space (last (show_total t))"
    by (cases t) (simp_all add: show_total_def, simp add: is_space_def)
qed (auto simp: show_total_def split: option.splits)

text \<open>The Content-Range the proxy writes is one it reads back: the text it renders for a
  range inside a representation of known or unknown size parses to exactly that range.\<close>

theorem content_range_round_trip:
  assumes "s \<le> e" and "case t of Some n \<Rightarrow> e < n | None \<Rightarrow> True"
  shows "parse_content_range (Some (show_range (int s) (int e) (map_option int t)))
    = Some (int s, int e, map_option int t)"
proof -
  let ?span = "show_nat s @ ''-'' @ show_nat e"
  have "strip (?span @ ''/'' @ show_total t) = ?span @ ''/'' @ show_total t"
    by (rule strip_id) (simp add: hd_append)
  moreover have "rsplit_once (CHR ''/'') (?span @ ''/'' @ show_total t) = Some (?span, show_total t)"
    using rsplit_once_join [of "CHR ''/''" "show_total t" ?span] by simp
  moreover have "split_once (CHR ''-'') ?span = Some (show_nat s, show_nat e)"
    by (rule split_dash) simp
  ultimately have "parse_content_range (Some (show_range (int s) (int e) (map_option int t))) =
    (let tot = (if show_total t = ''*'' then None else Some (num (show_total t)))
     in if show_total t \<noteq> ''*'' \<and> \<not> all_digits (show_total t) then None
        else if int e < int s \<or> (case tot of Some t \<Rightarrow> int e \<ge> t | None \<Rightarrow> False) then None
        else Some (int s, int e, tot))"
    unfolding show_range_nat parse_content_range_def option.case starts_with_append not_True_eq_False
      if_False drop_bytes
    by (simp only: option.case prod.case Let_def all_digits_show_nat num_show_nat simp_thms if_False
        starts_with_append not_True_eq_False)
  with assms show ?thesis by (cases t) (simp_all add: Let_def)
qed

lemma content_range_witness: "parse_content_range (Some ''bytes 0-9/20'') = Some (0, 9, Some 20)"
  using content_range_round_trip [of 0 9 "Some 20"]
  by (simp add: show_range_def show_int_def show_nat.simps digit_char_def)

text \<open>What the client is told is what it is sent: when the upstream answers a ranged request
  with 200 and a body of the length it declares, the plan's status, Content-Range and
  Content-Length describe exactly the bytes the cut body holds: all of it with 200, the bytes
  start to end with 206, none with 416.\<close>

theorem plan_describes_the_bytes_sent:
  assumes plan: "plan_downstream (Some h) 200 cr (Some (show_nat (length (concat chunks)))) known = p"
    and ranged: "h \<noteq> []"
  shows "dp_status p \<in> {200, 206, 416} \<and>
    (dp_status p = 200 \<longrightarrow>
      concat (slice_chunks chunks (nat (dp_skip p)) (map_option nat (dp_limit p))) = concat chunks \<and>
      dp_content_length p = Some (int (length (concat chunks))) \<and> dp_content_range p = None) \<and>
    (dp_status p = 206 \<longrightarrow> (\<exists>s e. s \<le> e \<and> e < length (concat chunks) \<and>
      resolve_range (Some h) (int (length (concat chunks))) = Satisfiable (int s) (int e) \<and>
      concat (slice_chunks chunks (nat (dp_skip p)) (map_option nat (dp_limit p)))
        = take (e - s + 1) (drop s (concat chunks)) \<and>
      dp_content_length p = Some (int (length
        (concat (slice_chunks chunks (nat (dp_skip p)) (map_option nat (dp_limit p)))))) \<and>
      dp_content_range p = Some (show_range (int s) (int e) (Some (int (length (concat chunks))))))) \<and>
    (dp_status p = 416 \<longrightarrow> resolve_range (Some h) (int (length (concat chunks))) = Unsatisfiable
       \<and> dp_unsatisfiable p)"
proof -
  let ?n = "length (concat chunks)"
  have p: "p = plan_full (Some h) (Some (int ?n)) known"
    using plan ranged by (simp add: plan_downstream_def parse_length_def num_def)
  show ?thesis
  proof (cases "resolve_range (Some h) (int ?n)")
    case Ignored
    then show ?thesis by (simp add: p plan_full_def plain_plan_def concat_slice_chunks)
  next
    case Unsatisfiable
    then show ?thesis by (simp add: p plan_full_def plain_plan_def)
  next
    case (Satisfiable s e)
    with resolve_range_bounds [OF this] obtain a b where ab: "s = int a" "e = int b" "a \<le> b" "b < ?n"
      by (metis nonneg_int_cases order_trans of_nat_less_iff of_nat_le_iff)
    have len: "nat (int b - int a + 1) = b - a + 1" using ab(3) by linarith
    show ?thesis
      using Satisfiable ab
      by (intro conjI impI exI [of _ a] exI [of _ b])
        (simp_all add: p plan_full_def range_plan_def concat_slice_chunks len [simplified], linarith?)
  qed
qed

lemma plan_describes_witness:
  "dp_content_range (plan_downstream (Some ''bytes=1-3'') 200 None (Some ''6'') None) = Some ''bytes 1-3/6'' \<and>
   concat (slice_chunks [''ab'', ''cdef''] 1 (Some 3)) = ''bcd''"
proof -
  let ?p = "plan_downstream (Some ''bytes=1-3'') 200 None (Some ''6'') None"
  have len: "show_nat (length (concat [''ab'', ''cdef''])) = ''6''"
    by (simp add: show_nat.simps digit_char_def)
  have range: "resolve_range (Some ''bytes=1-3'') 6 = Satisfiable 1 3"
    by (simp add: resolve_range_def starts_with_def split_once_def strip_def lstrip_def is_space_def
        resolve_span_def all_digits_def is_digit_def num_def nat_of_digits_def digit_val_def)
  have "plan_full (Some ''bytes=1-3'') (Some 6) None = ?p"
    by (simp add: plan_downstream_def parse_length_def all_digits_def is_digit_def nat_of_digits_def
        digit_val_def)
  then have p: "dp_status ?p = 206" "dp_skip ?p = 1" "dp_limit ?p = Some 3"
    by (simp_all add: plan_full_def range range_plan_def flip: \<open>plan_full _ _ _ = ?p\<close>)
  from plan_describes_the_bytes_sent [of "''bytes=1-3''" None "[''ab'', ''cdef'']" None ?p] p len range
  show ?thesis
    by (auto simp: show_range_def show_int_def show_nat.simps digit_char_def numeral_nat)
qed

end
