(* ===== verification/Locks.thy ===== *)
theory Locks
  imports Redis_Keys
begin

section \<open>Locks (core/utils.py, dispatcharr/persistent\_lock.py)\<close>

text \<open>
  The two locks of the code: the task lock, one key set with NX and an expiry and deleted by
  its release whoever holds it, and the persistent lock, which stores a token and releases
  only its own. A fresh UUID is an argument.
\<close>

subsection \<open>The interface\<close>

text \<open>
  A lock table: an acquire is granted exactly when the key is not held, and then holds it; a
  refused acquire changes nothing; other keys are not touched. Then nobody else can acquire a
  held key until somebody releases it.
\<close>

locale lock_table =
  fixes acquire :: "'s \<Rightarrow> 'k \<Rightarrow> 's \<times> bool"
    and held :: "'s \<Rightarrow> 'k \<Rightarrow> bool"
  assumes acquire_iff: "snd (acquire s k) \<longleftrightarrow> \<not> held s k"
    and acquire_holds: "held (fst (acquire s k)) k' \<longleftrightarrow> k' = k \<or> held s k'"
begin

lemma held_mono: "held s k \<Longrightarrow> held (foldl (\<lambda>s k. fst (acquire s k)) s ks) k"
  by (induction ks arbitrary: s) (simp_all add: acquire_holds)

lemma exclusive: "held s k \<Longrightarrow> \<not> snd (acquire (foldl (\<lambda>s k. fst (acquire s k)) s ks) k)"
  by (simp add: acquire_iff held_mono)

end

subsection \<open>Task locks\<close>

definition LOCKED :: rval where
  "LOCKED = RText ''locked''"

definition acquire_task_lock :: "redis \<Rightarrow> string \<Rightarrow> int \<Rightarrow> redis \<times> bool" where
  "acquire_task_lock r task_name i = rset_nx_ex r (task_lock_key task_name i) LOCKED 300"

definition release_task_lock :: "redis \<Rightarrow> string \<Rightarrow> int \<Rightarrow> redis" where
  "release_task_lock r task_name i = rdel r (task_lock_key task_name i)"

definition is_task_lock_held :: "redis \<Rightarrow> string \<Rightarrow> int \<Rightarrow> bool" where
  "is_task_lock_held r task_name i = rexists r (task_lock_key task_name i)"

text \<open>One round of the renewer's loop: whether it goes on.\<close>

definition renew_task_lock :: "redis \<Rightarrow> string \<Rightarrow> int \<Rightarrow> int \<Rightarrow> redis \<times> bool" where
  "renew_task_lock r task_name i ttl =
     (let k = task_lock_key task_name i in
      if rexists r k then (rexpire r k ttl, True) else (r, False))"

lemma rexists_nx: "rexists (fst (rset_nx_ex r k v t)) k' \<longleftrightarrow> k' = k \<or> rexists r k'"
  by (auto simp: rset_nx_ex_def store_simps)

lemma snd_nx: "snd (rset_nx_ex r k v t) \<longleftrightarrow> \<not> rexists r k"
  by (simp add: rset_nx_ex_def)

interpretation task_locks: lock_table "\<lambda>r (k :: string). rset_nx_ex r k LOCKED 300" rexists
  by unfold_locales (simp_all add: rexists_nx snd_nx)

subsection \<open>Persistent locks\<close>

record persistent_lock =
  pl_key :: string
  pl_timeout :: int
  pl_token :: "string option"
  pl_has_lock :: bool

definition new_persistent_lock :: "string \<Rightarrow> int \<Rightarrow> persistent_lock" where
  "new_persistent_lock k timeout =
     \<lparr>pl_key = k, pl_timeout = timeout, pl_token = None, pl_has_lock = False\<rparr>"

definition pl_acquire :: "persistent_lock \<Rightarrow> string \<Rightarrow> redis \<Rightarrow> persistent_lock \<times> redis \<times> bool" where
  "pl_acquire l uuid r =
     (let l = l\<lparr>pl_token := Some uuid\<rparr>;
          (r, ok) = rset_nx_ex r (pl_key l) (RText uuid) (pl_timeout l)
      in (if ok then l\<lparr>pl_has_lock := True\<rparr> else l, r, ok))"

definition pl_refresh :: "persistent_lock \<Rightarrow> redis \<Rightarrow> persistent_lock \<times> redis \<times> bool" where
  "pl_refresh l r =
     (let current = rget r (pl_key l) in
      if truthy current \<and> current = map_option RText (pl_token l)
      then (l\<lparr>pl_has_lock := False\<rparr>, rexpire r (pl_key l) (pl_timeout l), True)
      else (l, r, False))"

text \<open>The client refuses a missing token as a script argument: \<open>None\<close>.\<close>

definition pl_release :: "persistent_lock \<Rightarrow> redis \<Rightarrow> (redis \<times> bool) option" where
  "pl_release l r =
     (case pl_token l of
        None \<Rightarrow> None
      | Some token \<Rightarrow>
          if rget r (pl_key l) = Some (RText token) then Some (rdel r (pl_key l), True)
          else Some (r, False))"

interpretation persistent_locks: lock_table
  "\<lambda>r (k :: string). snd (pl_acquire (new_persistent_lock k timeout) uuid r)" rexists for timeout uuid
  by unfold_locales
    (simp_all add: pl_acquire_def new_persistent_lock_def rexists_nx snd_nx split_beta Let_def)

subsection \<open>The properties\<close>

text \<open>A task lock excludes: once acquired, and whatever locks are then acquired in whatever
  order, every further acquire of it is refused until it is released or expires; a release
  frees it for the next acquire and touches no other task's lock.\<close>

theorem task_lock_excludes:
  assumes "acquire_task_lock r name i = (r1, True)"
    and "r2 = foldl (\<lambda>s k. fst (rset_nx_ex s k LOCKED 300)) r1 ks"
  shows "\<not> snd (acquire_task_lock r2 name i) \<and> is_task_lock_held r2 name i \<and>
    snd (acquire_task_lock (release_task_lock r2 name i) name i) \<and>
    (\<forall>other j. task_lock_key other j \<noteq> task_lock_key name i \<longrightarrow>
       is_task_lock_held (release_task_lock r2 name i) other j = is_task_lock_held r2 other j)"
proof -
  let ?k = "task_lock_key name i"
  have held: "rexists r1 ?k"
    using task_locks.acquire_holds [of r ?k ?k] assms(1) by (simp add: acquire_task_lock_def)
  have "\<not> snd (acquire_task_lock r2 name i)"
    using task_locks.exclusive [OF held, of ks] assms(2) by (simp add: acquire_task_lock_def)
  moreover have "is_task_lock_held r2 name i"
    using task_locks.held_mono [OF held, of ks] assms(2) by (simp add: is_task_lock_held_def)
  ultimately show ?thesis
    by (simp add: acquire_task_lock_def release_task_lock_def is_task_lock_held_def snd_nx store_simps)
qed

lemma task_lock_excludes_witness:
  "\<exists>r1. acquire_task_lock empty_redis ''refresh'' 7 = (r1, True) \<and>
     \<not> snd (acquire_task_lock r1 ''refresh'' 7)"
proof -
  obtain r1 ok where a: "acquire_task_lock empty_redis ''refresh'' 7 = (r1, ok)" by fastforce
  then have "ok" by (auto simp: acquire_task_lock_def rset_nx_ex_def split: if_splits)
  with a task_lock_excludes [of empty_redis "''refresh''" 7 r1 r1 "[]"] show ?thesis by simp
qed

lemma task_lock_has_ttl:
  "acquire_task_lock r name i = (r1, True) \<Longrightarrow>
   map_of (objs (expire_now r1 (task_lock_key name i))) (task_lock_key name i) = None"
  by (auto simp: acquire_task_lock_def rset_nx_ex_def expire_now_def rttl_def rset_ex_def rdel_def
      split: if_splits)

text \<open>Only the persistent lock survives its own expiry: when a lock expires under its
  holder and a second worker takes it, the first worker's late release of a task lock frees the
  second worker's lock for a third, while its late release of a persistent lock reports failure
  and leaves the second worker's lock in place.\<close>

theorem late_release_after_expiry:
  assumes "acquire_task_lock r name i = (r1, True)"
    and "acquire_task_lock (expire_now r1 (task_lock_key name i)) name i = (r2, took_task)"
    and "pl_acquire (new_persistent_lock k timeout) a r = (l1, s1, True)"
    and "pl_acquire (new_persistent_lock k timeout) b (expire_now s1 k) = (l2, s2, took_lock)"
    and "a \<noteq> b"
  shows "took_task \<and> snd (acquire_task_lock (release_task_lock r2 name i) name i) \<and>
    took_lock \<and> pl_release l1 s2 = Some (s2, False) \<and>
    \<not> snd (snd (pl_acquire (new_persistent_lock k timeout) c s2))"
proof -
  have "\<not> rexists (expire_now r1 (task_lock_key name i)) (task_lock_key name i)"
    using task_lock_has_ttl [OF assms(1)] by (simp add: rexists_def)
  then have "took_task" using assms(2) by (auto simp: acquire_task_lock_def rset_nx_ex_def)
  moreover have "snd (acquire_task_lock (release_task_lock r2 name i) name i)"
    by (simp add: acquire_task_lock_def release_task_lock_def snd_nx store_simps)
  moreover have s1: "s1 = rset_ex r k (RText a) timeout" "l1 = \<lparr>pl_key = k, pl_timeout = timeout,
      pl_token = Some a, pl_has_lock = True\<rparr>"
    using assms(3) by (auto simp: pl_acquire_def new_persistent_lock_def rset_nx_ex_def Let_def split: if_splits)
  have "expire_now s1 k = rdel s1 k"
    by (simp add: expire_now_def rttl_def s1 rset_ex_def)
  then have s2: "took_lock" "s2 = rset_ex (rdel s1 k) k (RText b) timeout"
    using assms(4) by (auto simp: pl_acquire_def new_persistent_lock_def rset_nx_ex_def Let_def
        store_simps split: if_splits)
  moreover have "pl_release l1 s2 = Some (s2, False)"
    using assms(5) by (simp add: pl_release_def s1 s2 store_simps)
  moreover have "\<not> snd (snd (pl_acquire (new_persistent_lock k timeout) c s2))"
    by (simp add: pl_acquire_def new_persistent_lock_def snd_nx split_beta Let_def s2 store_simps)
  ultimately show ?thesis by blast
qed

lemma late_release_witness:
  "\<exists>r1 r2 l1 s1 l2 s2. acquire_task_lock empty_redis ''refresh'' 7 = (r1, True) \<and>
     acquire_task_lock (expire_now r1 (task_lock_key ''refresh'' 7)) ''refresh'' 7 = (r2, True) \<and>
     snd (acquire_task_lock (release_task_lock r2 ''refresh'' 7) ''refresh'' 7) \<and>
     pl_acquire (new_persistent_lock ''k'' 120) ''a'' empty_redis = (l1, s1, True) \<and>
     pl_acquire (new_persistent_lock ''k'' 120) ''b'' (expire_now s1 ''k'') = (l2, s2, True) \<and>
     pl_release l1 s2 = Some (s2, False)"
proof -
  obtain r1 where a: "acquire_task_lock empty_redis ''refresh'' 7 = (r1, True)"
    by (simp add: acquire_task_lock_def rset_nx_ex_def)
  obtain r2 tt where b: "acquire_task_lock (expire_now r1 (task_lock_key ''refresh'' 7)) ''refresh'' 7 = (r2, tt)"
    by fastforce
  obtain l1 s1 where c: "pl_acquire (new_persistent_lock ''k'' 120) ''a'' empty_redis = (l1, s1, True)"
    by (simp add: pl_acquire_def new_persistent_lock_def rset_nx_ex_def)
  obtain l2 s2 tl where d:
    "pl_acquire (new_persistent_lock ''k'' 120) ''b'' (expire_now s1 ''k'') = (l2, s2, tl)"
    by (metis prod_cases3)
  from late_release_after_expiry [OF a b c d] a b c d show ?thesis by simp
qed

end
