(* ===== verification/Channel_Numbering.thy ===== *)
theory Channel_Numbering
  imports Locks Urls "HOL-Library.List_Lexorder" "HOL-Library.Char_ord"
    "HOL-Library.Product_Lexorder" "HOL-Library.Multiset"
begin

section \<open>Channel numbers (apps/m3u/tasks.py, apps/channels/compact\_numbering.py)\<close>

text \<open>
  How auto-created channels get their numbers: the search for the next free number, the
  choice by numbering mode, and the compact mode that packs a group's visible channels into
  its range. Channel numbers are floats in the database and rationals here; a range's ends
  are truncated to integers as the code does.
\<close>

subsection \<open>The next free number\<close>

lemma fewer_above:
  assumes "of_int n \<in> set (used :: rat list)"
  shows "length (filter (\<lambda>u. of_int (n + 1) \<le> u) used) < length (filter (\<lambda>u. of_int n \<le> u) used)"
proof -
  have imp: "of_int n \<le> u" if "of_int (n + 1) \<le> u" for u :: rat
    using that by simp
  have "filter (\<lambda>u. of_int (n + 1) \<le> u) used
      = filter (\<lambda>u. of_int (n + 1) \<le> u) (filter (\<lambda>u. of_int n \<le> u) used)"
    unfolding filter_filter using imp by (intro filter_cong) auto
  moreover have "length (filter (\<lambda>u. of_int (n + 1) \<le> u) (filter (\<lambda>u. of_int n \<le> u) used))
      < length (filter (\<lambda>u. of_int n \<le> u) used)"
    using assms by (intro length_filter_less [of "of_int n"]) simp_all
  ultimately show ?thesis by simp
qed

function next_available_number :: "rat list \<Rightarrow> int \<Rightarrow> int option \<Rightarrow> int option" where
  "next_available_number used n stop =
     (if of_int n \<in> set used then
        (case stop of
           Some e \<Rightarrow> if n + 1 > e then None else next_available_number used (n + 1) stop
         | None \<Rightarrow> next_available_number used (n + 1) stop)
      else (case stop of Some e \<Rightarrow> if n > e then None else Some n | None \<Rightarrow> Some n))"
  by pat_completeness auto

termination
  by (relation "measure (\<lambda>(used, n, stop). length (filter (\<lambda>u. of_int n \<le> u) used))")
    (use fewer_above in auto)

declare next_available_number.simps [simp del]

datatype numbering_mode = Provider | NextAvailable | Fixed

text \<open>\<open>_pick_target_number\<close>; a mode the code does not name is treated as fixed.\<close>

definition pick_target_number ::
  "numbering_mode \<Rightarrow> rat option \<Rightarrow> rat list \<Rightarrow> int \<Rightarrow> int \<Rightarrow> int option \<Rightarrow> rat option" where
  "pick_target_number mode chno used fixed_cursor fallback_start end_number =
     (case mode of
        Provider \<Rightarrow>
          (case chno of
             Some c \<Rightarrow>
               if c \<notin> set used then Some c
               else map_option of_int (next_available_number used fallback_start end_number)
           | None \<Rightarrow> map_option of_int (next_available_number used fallback_start end_number))
      | NextAvailable \<Rightarrow> map_option of_int (next_available_number used 1 None)
      | Fixed \<Rightarrow> map_option of_int (next_available_number used fixed_cursor end_number))"

definition trunc :: "rat \<Rightarrow> int" where
  "trunc q = (if q < 0 then \<lceil>q\<rceil> else \<lfloor>q\<rfloor>)"

definition range_exhausted_error :: "numbering_mode \<Rightarrow> rat \<Rightarrow> rat \<Rightarrow> rat \<Rightarrow> string" where
  "range_exhausted_error mode start_number end_number fallback_start =
     ''Channel number range ''
       @ show_int (trunc (if mode = Provider then fallback_start else start_number))
       @ ''-'' @ show_int (trunc end_number) @ '' is full''"

subsection \<open>Natural sort keys (core/utils.py)\<close>

datatype chunk = Txt string | Num nat

lemma split_digits_shorter:
  assumes "dropWhile (\<lambda>c. \<not> is_digit c) s = c # r"
  shows "length (dropWhile is_digit (c # r)) < length s"
proof -
  have "is_digit c" using assms by (metis dropWhile_eq_Cons_conv)
  then have "length (dropWhile is_digit (c # r)) < length (c # r)"
    by (simp add: le_imp_less_Suc length_dropWhile_le)
  also have "\<dots> \<le> length s" using length_dropWhile_le assms by metis
  finally show ?thesis .
qed

text \<open>
  The pieces of \<open>re.split('([0-9]+)', text)\<close>: text, digits, text, and so on, beginning and
  ending with a text that may be empty.
\<close>

function split_digits :: "string \<Rightarrow> string list" where
  "split_digits s =
     (let a = takeWhile (\<lambda>c. \<not> is_digit c) s; rest = dropWhile (\<lambda>c. \<not> is_digit c) s
      in if rest = [] then [a]
         else a # takeWhile is_digit rest # split_digits (dropWhile is_digit rest))"
  by pat_completeness auto

termination
proof (relation "measure length")
  fix s x xa assume "x = takeWhile (\<lambda>c. \<not> is_digit c) s" "xa = dropWhile (\<lambda>c. \<not> is_digit c) s" "xa \<noteq> []"
  then show "(dropWhile is_digit xa, s) \<in> measure length"
    using split_digits_shorter [of s "hd xa" "tl xa"] by simp
qed simp

declare split_digits.simps [simp del]

text \<open>\<open>str.isdigit\<close> on Latin-1 also holds for the three superscript digits.\<close>

definition isdigit_char :: "char \<Rightarrow> bool" where
  "isdigit_char c \<longleftrightarrow> is_digit c \<or> (of_char c :: nat) \<in> {178, 179, 185}"

text \<open>\<open>convert\<close>: \<open>int\<close> raises \<open>ValueError\<close> on a superscript digit.\<close>

definition convert_chunk :: "string \<Rightarrow> chunk option" where
  "convert_chunk s =
     (if s \<noteq> [] \<and> list_all isdigit_char s then
        (if list_all is_digit s then Some (Num (nat_of_digits s)) else None)
      else Some (Txt (lower s)))"

fun convert_all :: "string list \<Rightarrow> chunk list option" where
  "convert_all [] = Some []"
| "convert_all (s # ss) =
     (case (convert_chunk s, convert_all ss) of (Some c, Some cs) \<Rightarrow> Some (c # cs) | _ \<Rightarrow> None)"

definition natural_sort_key :: "string \<Rightarrow> chunk list option" where
  "natural_sort_key s = convert_all (split_digits s)"

text \<open>
  The order of chunks. A text and a number are never compared, since both keys alternate
  between them from the same start (lemma \<open>natural_sort_key_alternates\<close>); a text counts as
  the smaller here.
\<close>

instantiation chunk :: linorder
begin

fun less_eq_chunk :: "chunk \<Rightarrow> chunk \<Rightarrow> bool" where
  "less_eq_chunk (Txt a) (Txt b) \<longleftrightarrow> a \<le> b"
| "less_eq_chunk (Txt a) (Num n) \<longleftrightarrow> True"
| "less_eq_chunk (Num m) (Txt b) \<longleftrightarrow> False"
| "less_eq_chunk (Num m) (Num n) \<longleftrightarrow> m \<le> n"

definition less_chunk :: "chunk \<Rightarrow> chunk \<Rightarrow> bool" where
  "less_chunk x y \<longleftrightarrow> x \<le> y \<and> \<not> y \<le> x"

instance
proof
  fix x y z :: chunk
  show "x < y \<longleftrightarrow> x \<le> y \<and> \<not> y \<le> x" by (rule less_chunk_def)
  show "x \<le> x" by (cases x) simp_all
  show "x \<le> y \<Longrightarrow> y \<le> z \<Longrightarrow> x \<le> z" by (cases x; cases y; cases z) auto
  show "x \<le> y \<Longrightarrow> y \<le> x \<Longrightarrow> x = y" by (cases x; cases y) auto
  show "x \<le> y \<or> y \<le> x" by (cases x; cases y) auto
qed

end

subsection \<open>Compact groups\<close>

text \<open>
  A group override as the custom properties hold it, an integer or a text, with its truth
  value, \<open>str(value)\<close> and \<open>int(value)\<close>.
\<close>

datatype json_value = JInt int | JStr string

fun json_truthy :: "json_value \<Rightarrow> bool" where
  "json_truthy (JInt n) = (n \<noteq> 0)"
| "json_truthy (JStr s) = (s \<noteq> [])"

fun json_text :: "json_value \<Rightarrow> string" where
  "json_text (JInt n) = show_int n"
| "json_text (JStr s) = s"

fun json_int :: "json_value \<Rightarrow> int option" where
  "json_int (JInt n) = Some n"
| "json_int (JStr s) = parse_int s"

text \<open>
  A channel row with its override's number (\<open>None\<close> when there is no override or it sets no
  number), and a group relation with the fields of its custom properties the code reads.
\<close>

record auto_channel =
  ac_id :: int
  ac_name :: string
  ac_tvg_id :: string
  ac_updated :: rat
  ac_number :: "rat option"
  ac_hidden :: bool
  ac_auto :: bool
  ac_account :: "int option"
  ac_group :: "int option"
  ac_override :: "rat option"

record group_relation =
  gr_id :: int
  gr_account :: int
  gr_group :: int
  gr_start :: "rat option"
  gr_end :: "rat option"
  gr_compact :: bool
  gr_sort :: string
  gr_reverse :: bool
  gr_override :: "json_value option"

definition is_compact_group :: "group_relation \<Rightarrow> bool" where
  "is_compact_group rel = gr_compact rel"

definition has_number_override :: "auto_channel \<Rightarrow> bool" where
  "has_number_override ch \<longleftrightarrow> ac_override ch \<noteq> None"

text \<open>\<open>int(start or 1)\<close>, and the end, absent when it is 0 or missing.\<close>

definition range_start :: "group_relation \<Rightarrow> int" where
  "range_start rel =
     (case gr_start rel of Some q \<Rightarrow> if q = 0 then 1 else trunc q | None \<Rightarrow> 1)"

definition range_end :: "group_relation \<Rightarrow> int option" where
  "range_end rel =
     (case gr_end rel of Some q \<Rightarrow> if q = 0 then None else Some (trunc q) | None \<Rightarrow> None)"

definition in_range :: "int \<Rightarrow> int option \<Rightarrow> rat \<Rightarrow> bool" where
  "in_range start stop q \<longleftrightarrow>
     of_int start \<le> q \<and> (case stop of Some e \<Rightarrow> q \<le> of_int e | None \<Rightarrow> True)"

definition build_reserved_set ::
  "auto_channel list \<Rightarrow> int list \<Rightarrow> int \<Rightarrow> int option \<Rightarrow> rat list" where
  "build_reserved_set channels excluded start stop =
     filter (in_range start stop)
       (List.map_filter ac_override channels
        @ List.map_filter ac_number (filter (\<lambda>c. ac_id c \<notin> set excluded) channels))"

text \<open>The packing loop: the number each channel gets, in order.\<close>

fun pack :: "rat list \<Rightarrow> int \<Rightarrow> int option \<Rightarrow> int list \<Rightarrow> (int \<times> rat option) list" where
  "pack reserved start stop [] = []"
| "pack reserved start stop (i # ids) =
     (case next_available_number reserved start stop of
        None \<Rightarrow> (i, None) # pack reserved start stop ids
      | Some n \<Rightarrow> (i, Some (of_int n)) # pack (of_int n # reserved) start stop ids)"

text \<open>\<open>list.sort(key, reverse)\<close>: stable in both directions.\<close>

definition py_sort :: "('a \<Rightarrow> 'k::linorder) \<Rightarrow> bool \<Rightarrow> 'a list \<Rightarrow> 'a list" where
  "py_sort key reverse xs = (if reverse then rev (sort_key key (rev xs)) else sort_key key xs)"

definition sort_visible :: "string \<Rightarrow> bool \<Rightarrow> auto_channel list \<Rightarrow> auto_channel list option" where
  "sort_visible sort_order reverse visible =
     (if sort_order = ''name'' then
        (if list_all (\<lambda>c. natural_sort_key (ac_name c) \<noteq> None) visible
         then Some (py_sort (\<lambda>c. (the (natural_sort_key (ac_name c)), ac_id c)) reverse visible)
         else None)
      else if sort_order = ''tvg_id'' then
        Some (py_sort (\<lambda>c. (ac_tvg_id c, ac_id c)) reverse visible)
      else if sort_order = ''updated_at'' then
        Some (py_sort (\<lambda>c. (ac_updated c, ac_id c)) reverse visible)
      else Some visible)"

definition override_group :: "group_relation \<Rightarrow> int option" where
  "override_group rel =
     (case gr_override rel of
        Some v \<Rightarrow> if json_truthy v then json_int v else None
      | None \<Rightarrow> None)"

definition group_ids :: "group_relation \<Rightarrow> int list" where
  "group_ids rel = gr_group rel # (case override_group rel of Some g \<Rightarrow> [g] | None \<Rightarrow> [])"

definition in_group :: "group_relation \<Rightarrow> auto_channel \<Rightarrow> bool" where
  "in_group rel c \<longleftrightarrow> ac_auto c \<and> ac_account c = Some (gr_account rel)
     \<and> (case ac_group c of Some g \<Rightarrow> g \<in> set (group_ids rel) | None \<Rightarrow> False)"

record repack_counts =
  rp_assigned :: nat
  rp_released :: nat
  rp_failed :: nat

text \<open>
  \<open>_repack_inner\<close> inside its transaction: the new table, or \<open>None\<close> when a sort key raises and
  the transaction is rolled back. The table is in id order, as the query orders it.
\<close>

definition repack_group ::
  "group_relation \<Rightarrow> auto_channel list \<Rightarrow> (auto_channel list \<times> repack_counts) option" where
  "repack_group rel channels =
     (let mine = filter (in_group rel) channels;
          pinned = filter has_number_override mine;
          hidden = filter (\<lambda>c. \<not> has_number_override c \<and> ac_hidden c) mine;
          visible = filter (\<lambda>c. \<not> has_number_override c \<and> \<not> ac_hidden c) mine
      in case sort_visible (gr_sort rel) (gr_reverse rel) visible of
           None \<Rightarrow> None
         | Some visible \<Rightarrow>
             let reserved = build_reserved_set channels (map ac_id (visible @ hidden @ pinned))
                              (range_start rel) (range_end rel);
                 packed = pack reserved (range_start rel) (range_end rel) (map ac_id visible);
                 table = map (\<lambda>c. (case map_of packed (ac_id c) of
                             Some num \<Rightarrow> c\<lparr>ac_number := num\<rparr>
                           | None \<Rightarrow> if ac_id c \<in> set (map ac_id (hidden @ pinned))
                                      then c\<lparr>ac_number := None\<rparr> else c)) channels
             in Some (table,
                  \<lparr>rp_assigned = length (filter (\<lambda>(i, num). num \<noteq> None) packed),
                   rp_released = length (filter (\<lambda>c. ac_number c \<noteq> None) hidden),
                   rp_failed = length (filter (\<lambda>(i, num). num = None) packed)\<rparr>))"

subsection \<open>Numbers for channels that become visible\<close>

text \<open>
  \<open>get_group_relation_for_channel\<close>: the relation of the channel's own group, else the first
  one of the account whose override names it, compared as texts; a missing override reads as
  the empty text.
\<close>

definition get_group_relation_for_channel ::
  "group_relation list \<Rightarrow> auto_channel \<Rightarrow> group_relation option" where
  "get_group_relation_for_channel relations ch =
     (if \<not> ac_auto ch then None
      else case (ac_account ch, ac_group ch) of
        (Some account, Some g) \<Rightarrow>
          (if account = 0 \<or> g = 0 then None
           else case find (\<lambda>rel. gr_account rel = account \<and> gr_group rel = g) relations of
                  Some rel \<Rightarrow> Some rel
                | None \<Rightarrow>
                    find (\<lambda>rel. gr_account rel = account
                            \<and> (case gr_override rel of Some v \<Rightarrow> json_text v | None \<Rightarrow> []) = show_int g)
                      relations)
      | _ \<Rightarrow> None)"

definition wants_number :: "int list \<Rightarrow> auto_channel \<Rightarrow> bool" where
  "wants_number channel_ids c \<longleftrightarrow>
     ac_id c \<in> set channel_ids \<and> ac_auto c \<and> ac_account c \<noteq> None \<and> \<not> ac_hidden c
     \<and> ac_number c = None \<and> \<not> has_number_override c"

text \<open>\<open>by_pair.setdefault(key, []).append(ch)\<close>, over a whole list.\<close>

definition append_under :: "('k \<times> 'v list) list \<Rightarrow> 'k \<Rightarrow> 'v \<Rightarrow> ('k \<times> 'v list) list" where
  "append_under d k v = dict_set d k ((case map_of d k of Some vs \<Rightarrow> vs | None \<Rightarrow> []) @ [v])"

definition collect_by :: "('v \<Rightarrow> 'k) \<Rightarrow> 'v list \<Rightarrow> ('k \<times> 'v list) list" where
  "collect_by key vs = foldl (\<lambda>d v. append_under d (key v) v) [] vs"

text \<open>
  The relation a pair of account and group resolves to: a later row of a query replaces an
  earlier one, and overrides are looked at for pairs with no row of their own.
\<close>

definition relation_of_pair :: "group_relation list \<Rightarrow> int \<times> int option \<Rightarrow> group_relation option" where
  "relation_of_pair relations pair =
     (case find (\<lambda>rel. gr_account rel = fst pair \<and> Some (gr_group rel) = snd pair) (rev relations) of
        Some rel \<Rightarrow> Some rel
      | None \<Rightarrow>
          find (\<lambda>rel. gr_account rel = fst pair \<and> override_group rel \<noteq> None
                  \<and> override_group rel = snd pair) (rev relations))"

type_synonym relation_batch = "group_relation \<times> int list"

text \<open>\<open>by_relation[rel.id] = (rel, group_channels)\<close> over the pairs.\<close>

definition batches_by_relation ::
  "group_relation list \<Rightarrow> ((int \<times> int option) \<times> auto_channel list) list \<Rightarrow> (int \<times> relation_batch) list" where
  "batches_by_relation relations by_pair =
     foldl (\<lambda>d (pair, chans).
         case relation_of_pair relations pair of
           Some rel \<Rightarrow> if is_compact_group rel then dict_set d (gr_id rel) (rel, map ac_id chans) else d
         | None \<Rightarrow> d) [] by_pair"

definition set_numbers :: "(int \<times> rat option) list \<Rightarrow> auto_channel list \<Rightarrow> auto_channel list" where
  "set_numbers packed channels =
     map (\<lambda>c. (case map_of packed (ac_id c) of
                 Some (Some q) \<Rightarrow> c\<lparr>ac_number := Some q\<rparr> | _ \<Rightarrow> c)) channels"

text \<open>One relation's part of the transaction, and all of an account's.\<close>

definition number_batch :: "auto_channel list \<Rightarrow> relation_batch \<Rightarrow> auto_channel list \<times> (int \<times> rat option) list" where
  "number_batch channels batch =
     (let rel = fst batch; ids = snd batch;
          reserved = build_reserved_set channels ids (range_start rel) (range_end rel);
          packed = pack reserved (range_start rel) (range_end rel) ids
      in (set_numbers packed channels, packed))"

fun number_batches ::
  "auto_channel list \<Rightarrow> relation_batch list \<Rightarrow> auto_channel list \<times> (int \<times> rat option) list" where
  "number_batches channels [] = (channels, [])"
| "number_batches channels (b # bs) =
     (let (channels1, packed) = number_batch channels b;
          (channels2, rest) = number_batches channels1 bs
      in (channels2, packed @ rest))"

text \<open>The accounts in turn, each under its refresh lock; a held lock defers the account.\<close>

fun number_accounts ::
  "redis \<Rightarrow> auto_channel list \<Rightarrow> (int \<times> relation_batch list) list
   \<Rightarrow> redis \<times> auto_channel list \<times> (int \<times> rat option) list" where
  "number_accounts r channels [] = (r, channels, [])"
| "number_accounts r channels ((account, bs) # accounts) =
     (let (r1, locked) = acquire_task_lock r ''refresh_single_m3u_account'' account in
      if locked then
        (let (channels1, found) = number_batches channels bs;
             r2 = release_task_lock r1 ''refresh_single_m3u_account'' account;
             (r3, channels2, rest) = number_accounts r2 channels1 accounts
         in (r3, channels2, found @ rest))
      else
        (let (r3, channels2, rest) = number_accounts r1 channels accounts
         in (r3, channels2, map (\<lambda>i. (i, None)) (concat (map snd bs)) @ rest)))"

definition assign_compact_numbers_for_channels ::
  "redis \<Rightarrow> group_relation list \<Rightarrow> auto_channel list \<Rightarrow> int list
   \<Rightarrow> redis \<times> auto_channel list \<times> (int \<times> rat option) list" where
  "assign_compact_numbers_for_channels r relations channels channel_ids =
     (let wanted = filter (wants_number channel_ids) channels;
          by_pair = collect_by (\<lambda>c. (the (ac_account c), ac_group c)) wanted;
          by_relation = batches_by_relation relations by_pair;
          by_account = collect_by (\<lambda>(rel, ids). gr_account rel) (map snd by_relation)
      in number_accounts r channels by_account)"

subsection \<open>The search\<close>

lemma next_available_Some:
  assumes "next_available_number used start stop = Some n"
  shows "start \<le> n \<and> of_int n \<notin> set used \<and> (\<forall>e. stop = Some e \<longrightarrow> n \<le> e)
    \<and> (\<forall>m. start \<le> m \<and> m < n \<longrightarrow> of_int m \<in> set used)"
  using assms
proof (induction used start stop rule: next_available_number.induct)
  case (1 used start stop)
  show ?case
  proof (cases "of_int start \<in> set used")
    case False
    with 1(3) show ?thesis
      by (auto simp: next_available_number.simps [of used start] split: option.splits if_splits)
  next
    case True
    with 1(3) have n: "next_available_number used (start + 1) stop = Some n"
      by (auto simp: next_available_number.simps [of used start] split: option.splits if_splits)
    have "start + 1 \<le> n \<and> of_int n \<notin> set used \<and> (\<forall>e. stop = Some e \<longrightarrow> n \<le> e)
        \<and> (\<forall>m. start + 1 \<le> m \<and> m < n \<longrightarrow> of_int m \<in> set used)"
    proof (cases stop)
      case None
      with 1(1) [OF True] n show ?thesis by simp
    next
      case (Some e)
      with 1(3) True have "\<not> start + 1 > e"
        by (auto simp: next_available_number.simps [of used start] split: if_splits)
      with 1(2) [OF True Some] n Some show ?thesis by simp
    qed
    moreover have "m = start \<or> start + 1 \<le> m" if "start \<le> m" for m using that by linarith
    ultimately show ?thesis using True by fastforce
  qed
qed

lemma next_available_None:
  assumes "next_available_number used start stop = None"
  shows "\<exists>e. stop = Some e \<and> (\<forall>m. start \<le> m \<and> m \<le> e \<longrightarrow> of_int m \<in> set used)"
  using assms
proof (induction used start stop rule: next_available_number.induct)
  case (1 used start stop)
  show ?case
  proof (cases "of_int start \<in> set used")
    case False
    with 1(3) show ?thesis
      by (auto simp: next_available_number.simps [of used start] split: option.splits if_splits)
  next
    case True
    show ?thesis
    proof (cases stop)
      case None
      with 1(1) [OF True None] 1(3) True show ?thesis
        by (auto simp: next_available_number.simps [of used start])
    next
      case (Some e)
      have step: "m = start \<or> start + 1 \<le> m" if "start \<le> m" for m :: int using that by linarith
      show ?thesis
      proof (cases "start + 1 > e")
        case True
        then have "m = start" if "start \<le> m" "m \<le> e" for m using that by linarith
        with \<open>of_int start \<in> set used\<close> Some show ?thesis by auto
      next
        case False
        with 1(3) True Some have "next_available_number used (start + 1) stop = None"
          by (simp add: next_available_number.simps [of used start])
        with 1(2) [OF True Some] False Some have "\<forall>m. start + 1 \<le> m \<and> m \<le> e \<longrightarrow> of_int m \<in> set used"
          by simp
        with step True Some show ?thesis by fastforce
      qed
    qed
  qed
qed

subsection \<open>The interface of the packing loop\<close>

text \<open>
  A number source gives, for what is already taken, a number that is not taken and that the
  range admits, or none. Handing out its numbers one after the other, each one taken, gives
  pairwise different numbers that avoid everything reserved.
\<close>

fun hand_out :: "('u list \<Rightarrow> 'u option) \<Rightarrow> 'u list \<Rightarrow> 'i list \<Rightarrow> ('i \<times> 'u option) list" where
  "hand_out source taken [] = []"
| "hand_out source taken (i # ids) =
     (case source taken of
        None \<Rightarrow> (i, None) # hand_out source taken ids
      | Some n \<Rightarrow> (i, Some n) # hand_out source (n # taken) ids)"

locale number_source =
  fixes source :: "'u list \<Rightarrow> 'u option"
    and admitted :: "'u \<Rightarrow> bool"
  assumes not_taken: "source taken = Some n \<Longrightarrow> n \<notin> set taken"
    and in_admitted: "source taken = Some n \<Longrightarrow> admitted n"
    and depends_on_set: "set taken = set taken' \<Longrightarrow> source taken = source taken'"
begin

lemma numbers_fresh:
  "Some n \<in> snd ` set (hand_out source taken ids) \<Longrightarrow> n \<notin> set taken \<and> admitted n"
proof (induction ids arbitrary: taken)
  case (Cons i ids)
  show ?case
  proof (cases "source taken")
    case None
    with Cons show ?thesis by simp
  next
    case (Some m)
    with Cons.prems have "n = m \<or> Some n \<in> snd ` set (hand_out source (m # taken) ids)" by auto
    with Cons.IH [of "m # taken"] not_taken [OF Some] in_admitted [OF Some] show ?thesis by auto
  qed
qed simp

lemma numbers_distinct: "distinct (List.map_filter snd (hand_out source taken ids))"
proof (induction ids arbitrary: taken)
  case (Cons i ids)
  show ?case
  proof (cases "source taken")
    case (Some m)
    have "m \<notin> set (List.map_filter snd (hand_out source (m # taken) ids))"
      using numbers_fresh [of m "m # taken" ids] by (force simp: List.map_filter_def)
    with Some Cons.IH [of "m # taken"] show ?thesis by (simp add: List.map_filter_simps)
  qed (use Cons in \<open>simp add: List.map_filter_simps\<close>)
qed (simp add: List.map_filter_simps)

lemma same_set: "set taken = set taken' \<Longrightarrow> hand_out source taken ids = hand_out source taken' ids"
proof (induction ids arbitrary: taken taken')
  case (Cons i ids)
  have eq: "source taken = source taken'" by (rule depends_on_set [OF Cons.prems])
  have "hand_out source (n # taken) ids = hand_out source (n # taken') ids" for n
    by (rule Cons.IH) (simp add: Cons.prems)
  with eq Cons.IH [OF Cons.prems] show ?case by (simp split: option.split)
qed simp

end

lemma next_available_set:
  assumes "set used = set used'"
  shows "next_available_number used start stop = next_available_number used' start stop"
  using assms
proof (induction used start stop rule: next_available_number.induct)
  case (1 used start stop)
  have mem: "(of_int start \<in> set used) = (of_int start \<in> set used')" by (simp only: 1(3))
  show ?case
  proof (cases "of_int start \<in> set used")
    case True
    with 1(1) [OF True _ 1(3)] 1(2) [OF True _ _ 1(3)] mem show ?thesis
      unfolding next_available_number.simps [of used start] next_available_number.simps [of used' start]
      by (cases stop) simp_all
  next
    case False
    with mem show ?thesis
      unfolding next_available_number.simps [of used start] next_available_number.simps [of used' start]
      by simp
  qed
qed

definition range_source :: "int \<Rightarrow> int option \<Rightarrow> rat list \<Rightarrow> rat option" where
  "range_source start stop used = map_option of_int (next_available_number used start stop)"

interpretation packing: number_source "range_source start stop" "in_range start stop" for start stop
proof
  show "range_source start stop used = Some n \<Longrightarrow> n \<notin> set used" for used n
    by (auto simp: range_source_def dest!: next_available_Some)
  show "range_source start stop used = Some n \<Longrightarrow> in_range start stop n" for used n
    by (auto simp: range_source_def in_range_def split: option.splits dest!: next_available_Some)
  show "set used = set used' \<Longrightarrow> range_source start stop used = range_source start stop used'"
    for used used'
    unfolding range_source_def by (rule arg_cong [OF next_available_set])
qed

lemma pack_hand_out: "pack reserved start stop ids = hand_out (range_source start stop) reserved ids"
  by (induction ids arbitrary: reserved) (auto simp: range_source_def split: option.splits)

lemma keys_hand_out [simp]: "map fst (hand_out source taken ids) = ids"
  by (induction ids arbitrary: taken) (auto split: option.splits)

subsection \<open>What a repack computes\<close>

definition own_visible :: "group_relation \<Rightarrow> auto_channel \<Rightarrow> bool" where
  "own_visible rel c \<longleftrightarrow> in_group rel c \<and> \<not> has_number_override c \<and> \<not> ac_hidden c"

definition own_ids :: "group_relation \<Rightarrow> auto_channel list \<Rightarrow> int set" where
  "own_ids rel channels = ac_id ` {c \<in> set channels. in_group rel c}"

definition others_numbers :: "group_relation \<Rightarrow> auto_channel list \<Rightarrow> rat set" where
  "others_numbers rel channels =
     {q. \<exists>c \<in> set channels. ac_override c = Some q \<or> ac_number c = Some q \<and> ac_id c \<notin> own_ids rel channels}"

definition renumber :: "group_relation \<Rightarrow> (int \<times> rat option) list \<Rightarrow> auto_channel \<Rightarrow> auto_channel" where
  "renumber rel packed c =
     (case map_of packed (ac_id c) of
        Some num \<Rightarrow> c\<lparr>ac_number := num\<rparr>
      | None \<Rightarrow> if in_group rel c then c\<lparr>ac_number := None\<rparr> else c)"

lemma sort_visible_set: "sort_visible ord rv xs = Some ys \<Longrightarrow> mset ys = mset xs"
  by (auto simp: sort_visible_def py_sort_def split: if_splits)

lemma map_of_rows_none:
  assumes "map_of packed i = None" and "map fst packed = map ac_id visible"
  shows "i \<notin> ac_id ` set visible"
  using assms by (metis image_set map_of_eq_None_iff set_map)

lemma released_rows:
  assumes "distinct (map ac_id channels)" and "c \<in> set channels"
    and "ac_id c \<notin> ac_id ` set (filter (own_visible rel) channels)"
  shows "ac_id c \<in> set (map ac_id (filter (\<lambda>c. \<not> has_number_override c \<and> ac_hidden c) (filter (in_group rel) channels)
           @ filter has_number_override (filter (in_group rel) channels))) \<longleftrightarrow> in_group rel c" (is "?l \<longleftrightarrow> _")
proof
  assume ?l
  then obtain d where "d \<in> set channels" "in_group rel d" "ac_id d = ac_id c" by auto
  with assms(1,2) show "in_group rel c" by (metis distinct_map inj_onD)
next
  assume g: "in_group rel c"
  have "\<not> own_visible rel c" using assms(2,3) by auto
  with g assms(2) show ?l by (auto simp: own_visible_def)
qed

definition packed_numbers :: "group_relation \<Rightarrow> auto_channel list \<Rightarrow> auto_channel list \<Rightarrow> (int \<times> rat option) list" where
  "packed_numbers rel channels visible =
     pack (build_reserved_set channels (map ac_id (filter (in_group rel) channels)) (range_start rel) (range_end rel))
       (range_start rel) (range_end rel) (map ac_id visible)"

lemma packed_keys [simp]: "map fst (packed_numbers rel channels visible) = map ac_id visible"
  by (simp add: packed_numbers_def pack_hand_out)

lemma own_visible_filter:
  "filter (own_visible rel) channels
    = filter (\<lambda>c. \<not> has_number_override c \<and> \<not> ac_hidden c) (filter (in_group rel) channels)"
  by (simp add: own_visible_def[abs_def] conj_ac)

lemma reserved_same:
  assumes "mset visible = mset (filter (own_visible rel) channels)"
  shows "build_reserved_set channels (map ac_id (visible
       @ filter (\<lambda>c. \<not> has_number_override c \<and> ac_hidden c) (filter (in_group rel) channels)
       @ filter has_number_override (filter (in_group rel) channels))) a b
    = build_reserved_set channels (map ac_id (filter (in_group rel) channels)) a b"
proof -
  have "set visible = set (filter (own_visible rel) channels)" using assms by (rule mset_eq_setD)
  then have "set (map ac_id (visible
       @ filter (\<lambda>c. \<not> has_number_override c \<and> ac_hidden c) (filter (in_group rel) channels)
       @ filter has_number_override (filter (in_group rel) channels)))
    = set (map ac_id (filter (in_group rel) channels))"
    unfolding own_visible_filter by auto
  then show ?thesis unfolding build_reserved_set_def by (simp only:)
qed

lemma repack_rows:
  assumes "distinct (map ac_id channels)"
    and "mset visible = mset (filter (own_visible rel) channels)"
    and "map fst packed = map ac_id visible"
  shows "map (\<lambda>c. case map_of packed (ac_id c) of Some num \<Rightarrow> c\<lparr>ac_number := num\<rparr>
        | None \<Rightarrow> if ac_id c \<in> set (map ac_id
               (filter (\<lambda>c. \<not> has_number_override c \<and> ac_hidden c) (filter (in_group rel) channels)
                @ filter has_number_override (filter (in_group rel) channels)))
            then c\<lparr>ac_number := None\<rparr> else c) channels
      = map (renumber rel packed) channels"
proof (rule map_cong [OF refl])
  fix c assume c: "c \<in> set channels"
  show "(case map_of packed (ac_id c) of Some num \<Rightarrow> c\<lparr>ac_number := num\<rparr>
        | None \<Rightarrow> if ac_id c \<in> set (map ac_id
               (filter (\<lambda>c. \<not> has_number_override c \<and> ac_hidden c) (filter (in_group rel) channels)
                @ filter has_number_override (filter (in_group rel) channels)))
            then c\<lparr>ac_number := None\<rparr> else c) = renumber rel packed c"
  proof (cases "map_of packed (ac_id c)")
    case None
    have "ac_id c \<notin> ac_id ` set (filter (own_visible rel) channels)"
      using map_of_rows_none [OF None assms(3)] mset_eq_setD [OF assms(2)] by (simp only: not_False_eq_True)
    from released_rows [OF assms(1) c this] None show ?thesis
      by (simp only: renumber_def option.case)
  qed (simp add: renumber_def)
qed

lemma repack_group_eq:
  assumes "distinct (map ac_id channels)"
  shows "repack_group rel channels =
     (case sort_visible (gr_sort rel) (gr_reverse rel) (filter (own_visible rel) channels) of
        None \<Rightarrow> None
      | Some visible \<Rightarrow> Some (map (renumber rel (packed_numbers rel channels visible)) channels,
          \<lparr>rp_assigned = length (filter (\<lambda>(i, num). num \<noteq> None) (packed_numbers rel channels visible)),
           rp_released = length (filter (\<lambda>c. ac_number c \<noteq> None)
              (filter (\<lambda>c. \<not> has_number_override c \<and> ac_hidden c) (filter (in_group rel) channels))),
           rp_failed = length (filter (\<lambda>(i, num). num = None) (packed_numbers rel channels visible))\<rparr>))"
proof (cases "sort_visible (gr_sort rel) (gr_reverse rel) (filter (own_visible rel) channels)")
  case None
  then show ?thesis unfolding repack_group_def Let_def own_visible_filter [symmetric] by simp
next
  case (Some visible)
  have m: "mset visible = mset (filter (own_visible rel) channels)" by (rule sort_visible_set [OF Some])
  show ?thesis
    unfolding repack_group_def Let_def own_visible_filter [symmetric] Some option.case
      reserved_same [OF m] packed_numbers_def [symmetric] repack_rows [OF assms m packed_keys] ..
qed

subsection \<open>Order and exhaustion of the packed numbers\<close>

lemma pack_above:
  assumes "\<forall>m. start \<le> m \<and> m \<le> n \<longrightarrow> of_int m \<in> set reserved"
    and "Some q \<in> snd ` set (pack reserved start stop ids)"
  shows "of_int n < q"
  using assms
proof (induction ids arbitrary: reserved)
  case (Cons i ids)
  show ?case
  proof (cases "next_available_number reserved start stop")
    case None
    with Cons show ?thesis by auto
  next
    case (Some k)
    note k = next_available_Some [OF Some]
    have "n < k" using k Cons.prems(1) by (metis linorder_not_le)
    moreover have "q = of_int k \<or> Some q \<in> snd ` set (pack (of_int k # reserved) start stop ids)"
      using Cons.prems(2) Some by auto
    moreover have "\<forall>m. start \<le> m \<and> m \<le> n \<longrightarrow> of_int m \<in> set (of_int k # reserved)"
      using Cons.prems(1) by simp
    ultimately show ?thesis using Cons.IH [of "of_int k # reserved"] by (metis of_int_less_iff)
  qed
qed simp

lemma pack_increasing: "sorted_wrt (<) (List.map_filter snd (pack reserved start stop ids))"
proof (induction ids arbitrary: reserved)
  case (Cons i ids)
  show ?case
  proof (cases "next_available_number reserved start stop")
    case (Some k)
    note k = next_available_Some [OF Some]
    have below: "\<forall>m. start \<le> m \<and> m \<le> k \<longrightarrow> of_int m \<in> set (of_int k # reserved)"
      using k by (auto simp: order_le_less)
    have "of_int k < q" if "q \<in> set (List.map_filter snd (pack (of_int k # reserved) start stop ids))" for q
    proof (rule pack_above [OF below])
      show "Some q \<in> snd ` set (pack (of_int k # reserved) start stop ids)"
        using that by (force simp: List.map_filter_def)
    qed
    with Some Cons.IH show ?thesis by (simp add: List.map_filter_simps)
  qed (use Cons in \<open>simp add: List.map_filter_simps\<close>)
qed (simp add: List.map_filter_simps)

lemma pack_exhausted:
  assumes "None \<in> snd ` set (pack reserved start stop ids)"
  shows "\<exists>e. stop = Some e \<and> (\<forall>m. start \<le> m \<and> m \<le> e \<longrightarrow>
           of_int m \<in> set reserved \<or> Some (of_int m) \<in> snd ` set (pack reserved start stop ids))"
  using assms
proof (induction ids arbitrary: reserved)
  case (Cons i ids)
  show ?case
  proof (cases "next_available_number reserved start stop")
    case None
    from next_available_None [OF None] show ?thesis by auto
  next
    case (Some k)
    with Cons.prems have "None \<in> snd ` set (pack (of_int k # reserved) start stop ids)" by auto
    from Cons.IH [OF this] Some show ?thesis by auto
  qed
qed simp

lemma pack_fresh:
  "Some q \<in> snd ` set (pack reserved start stop ids) \<Longrightarrow> q \<notin> set reserved \<and> in_range start stop q"
  unfolding pack_hand_out by (rule packing.numbers_fresh)

subsection \<open>The rows after a repack\<close>

definition row_number :: "auto_channel list \<Rightarrow> int \<Rightarrow> rat option" where
  "row_number table i =
     (case map_of (map (\<lambda>c. (ac_id c, ac_number c)) table) i of Some num \<Rightarrow> num | None \<Rightarrow> None)"

lemma reserved_others:
  assumes "distinct (map ac_id channels)" and "in_range start stop q"
  shows "q \<in> set (build_reserved_set channels (map ac_id (filter (in_group rel) channels)) start stop)
     \<longleftrightarrow> q \<in> others_numbers rel channels"
  using assms(2)
  by (auto simp: build_reserved_set_def others_numbers_def own_ids_def set_map_filter)

lemma renumber_outside:
  assumes "map fst packed = map ac_id visible" and "mset visible = mset (filter (own_visible rel) channels)"
    and "distinct (map ac_id channels)" and "c \<in> set channels"
  shows "renumber rel packed c =
     (if own_visible rel c then c\<lparr>ac_number := the (map_of packed (ac_id c))\<rparr>
      else if in_group rel c then c\<lparr>ac_number := None\<rparr> else c)"
proof (cases "own_visible rel c")
  case True
  then have "c \<in> set visible" using mset_eq_setD [OF assms(2)] assms(4) by simp
  then have "ac_id c \<in> fst ` set packed" using arg_cong [OF assms(1), of set] by force
  then obtain num where "map_of packed (ac_id c) = Some num" by (cases "map_of packed (ac_id c)") (auto simp: map_of_eq_None_iff)
  with True show ?thesis by (simp add: renumber_def)
next
  case False
  have "ac_id c \<notin> ac_id ` set visible"
  proof
    assume "ac_id c \<in> ac_id ` set visible"
    then obtain d where "d \<in> set channels" "own_visible rel d" "ac_id d = ac_id c"
      using mset_eq_setD [OF assms(2)] by auto
    with assms(3,4) False show False by (metis distinct_map inj_onD)
  qed
  with assms(1) have "map_of packed (ac_id c) = None" by (metis image_set map_of_eq_None_iff set_map)
  with False show ?thesis by (auto simp: renumber_def own_visible_def)
qed

lemma renumber_same [simp]:
  "ac_id (renumber rel packed c) = ac_id c" "ac_name (renumber rel packed c) = ac_name c"
  "ac_tvg_id (renumber rel packed c) = ac_tvg_id c" "ac_updated (renumber rel packed c) = ac_updated c"
  "ac_hidden (renumber rel packed c) = ac_hidden c" "ac_override (renumber rel packed c) = ac_override c"
  "in_group rel' (renumber rel packed c) = in_group rel' c"
  "own_visible rel' (renumber rel packed c) = own_visible rel' c"
  by (auto simp: renumber_def in_group_def own_visible_def has_number_override_def split: option.splits)

lemma row_number_renumber:
  assumes "map fst packed = map ac_id visible" and "mset visible = mset (filter (own_visible rel) channels)"
    and "distinct (map ac_id channels)" and "c \<in> set visible"
  shows "row_number (map (renumber rel packed) channels) (ac_id c) = the (map_of packed (ac_id c))"
proof -
  have c: "c \<in> set channels" "own_visible rel c" using mset_eq_setD [OF assms(2)] assms(4) by auto
  have "map_of (map (\<lambda>c. (ac_id c, ac_number c)) (map (renumber rel packed) channels)) (ac_id c)
     = Some (ac_number (renumber rel packed c))"
    using assms(3) c(1) by (intro map_of_is_SomeI) (auto simp: comp_def)
  with renumber_outside [OF assms(1-3) c(1)] c(2) show ?thesis by (simp add: row_number_def)
qed

lemma row_numbers_packed:
  assumes "distinct (map ac_id channels)" and "mset visible = mset (filter (own_visible rel) channels)"
    and "map fst packed = map ac_id visible"
  shows "map (row_number (map (renumber rel packed) channels)) (map ac_id visible) = map snd packed"
proof -
  have d: "distinct (map fst packed)"
  proof -
    have "distinct (map ac_id (filter (own_visible rel) channels))" using assms(1) by (rule distinct_map_filter)
    then have "distinct (map ac_id visible)" using assms(2) by (metis distinct_count_atmost_1 mset_map mset_eq_imp_distinct_iff)
    with assms(3) show ?thesis by simp
  qed
  have "map (row_number (map (renumber rel packed) channels)) (map ac_id visible)
      = map (\<lambda>i. the (map_of packed i)) (map ac_id visible)"
    using row_number_renumber [OF assms(3,2,1)] by simp
  also have "\<dots> = map (\<lambda>i. the (map_of packed i)) (map fst packed)" by (simp only: assms(3))
  also have "\<dots> = map snd packed" using d by (auto simp: map_of_is_SomeI)
  finally show ?thesis .
qed


subsection \<open>Properties\<close>

text \<open>C35. The search for a number ends for every request, and what it returns is the least
  number from the start on that is not in use, within the range; it returns none only when
  the range has an end and every number of the range is in use.\<close>

theorem next_number_is_least_free:
  "case next_available_number used start stop of
     Some n \<Rightarrow> start \<le> n \<and> of_int n \<notin> set used \<and> (\<forall>e. stop = Some e \<longrightarrow> n \<le> e)
       \<and> (\<forall>m. start \<le> m \<and> m < n \<longrightarrow> of_int m \<in> set used)
   | None \<Rightarrow> \<exists>e. stop = Some e \<and> (\<forall>m. start \<le> m \<and> m \<le> e \<longrightarrow> of_int m \<in> set used)"
  using next_available_Some next_available_None by (simp split: option.split)

lemma next_number_witness:
  "next_available_number [1, 2, 5/2, 4] 1 (Some 4) = Some 3 \<and> of_int (3 :: int) \<notin> set [1, 2, 5/2, 4 :: rat]
   \<and> list_all (\<lambda>m :: int. of_int m \<in> set [1, 2, 5/2, 4 :: rat]) [1, 2]"
proof -
  have "next_available_number [1, 2, 5/2, 4] 1 (Some 4) = Some 3"
    by (simp add: next_available_number.simps [of _ 1] next_available_number.simps [of _ 2]
      next_available_number.simps [of _ 3])
  with next_number_is_least_free [where used = "[1, 2, 5/2, 4]" and start = 1 and stop = "Some 4"]
  show ?thesis by simp
qed

text \<open>Repacking a compact group touches only the group's channels and only their numbers:
  hidden channels and channels with a pinned number lose theirs, the visible ones get
  numbers in the order of the configured sort, each in the group's range, different from
  every pinned number and every other group's number, and strictly increasing, so no two
  are equal. Every visible channel is counted as assigned or as failed, and a channel fails
  only when every number of the range is in use.\<close>

theorem repack_group_packs_the_range:
  assumes "distinct (map ac_id channels)"
    and "repack_group rel channels = Some (table, counts)"
  shows "\<exists>visible. sort_visible (gr_sort rel) (gr_reverse rel) (filter (own_visible rel) channels) = Some visible
    \<and> length table = length channels
    \<and> (\<forall>j < length channels. table ! j = (channels ! j)\<lparr>ac_number := ac_number (table ! j)\<rparr>
         \<and> (\<not> in_group rel (channels ! j) \<longrightarrow> table ! j = channels ! j)
         \<and> (in_group rel (channels ! j) \<and> \<not> own_visible rel (channels ! j) \<longrightarrow> ac_number (table ! j) = None))
    \<and> (let numbers = map (row_number table) (map ac_id visible) in
         sorted_wrt (<) (List.map_filter id numbers)
         \<and> (\<forall>q. Some q \<in> set numbers \<longrightarrow>
              in_range (range_start rel) (range_end rel) q \<and> q \<notin> others_numbers rel channels)
         \<and> rp_assigned counts = length (filter (\<lambda>n. n \<noteq> None) numbers)
         \<and> rp_failed counts = length (filter (\<lambda>n. n = None) numbers)
         \<and> (None \<in> set numbers \<longrightarrow> (\<exists>e. range_end rel = Some e \<and> (\<forall>m. range_start rel \<le> m \<and> m \<le> e \<longrightarrow>
              of_int m \<in> others_numbers rel channels \<or> Some (of_int m) \<in> set numbers))))"
proof -
  obtain visible where v: "sort_visible (gr_sort rel) (gr_reverse rel) (filter (own_visible rel) channels) = Some visible"
    and t: "table = map (renumber rel (packed_numbers rel channels visible)) channels"
    and a: "rp_assigned counts = length (filter (\<lambda>(i, num). num \<noteq> None) (packed_numbers rel channels visible))"
    and f: "rp_failed counts = length (filter (\<lambda>(i, num). num = None) (packed_numbers rel channels visible))"
    using assms(2) unfolding repack_group_eq [OF assms(1)] by (auto split: option.splits)
  let ?packed = "packed_numbers rel channels visible"
  have m: "mset visible = mset (filter (own_visible rel) channels)" by (rule sort_visible_set [OF v])
  have nums: "map (row_number table) (map ac_id visible) = map snd ?packed"
    unfolding t by (rule row_numbers_packed [OF assms(1) m packed_keys])
  have rows: "table ! j = (channels ! j)\<lparr>ac_number := ac_number (table ! j)\<rparr>
         \<and> (\<not> in_group rel (channels ! j) \<longrightarrow> table ! j = channels ! j)
         \<and> (in_group rel (channels ! j) \<and> \<not> own_visible rel (channels ! j) \<longrightarrow> ac_number (table ! j) = None)"
    if "j < length channels" for j
    using renumber_outside [OF packed_keys m assms(1) nth_mem [OF that]] that
    by (simp add: t own_visible_def)
  have sorted: "sorted_wrt (<) (List.map_filter id (map snd ?packed))"
    using pack_increasing unfolding packed_numbers_def by (simp add: map_filter_def comp_def filter_map)
  have others: "q \<in> set (build_reserved_set channels (map ac_id (filter (in_group rel) channels))
      (range_start rel) (range_end rel)) \<longleftrightarrow> q \<in> others_numbers rel channels"
    if "in_range (range_start rel) (range_end rel) q" for q
    by (rule reserved_others [OF assms(1) that])
  have fresh: "in_range (range_start rel) (range_end rel) q \<and> q \<notin> others_numbers rel channels"
    if "Some q \<in> set (map snd ?packed)" for q
    using pack_fresh [OF that [unfolded packed_numbers_def set_map]] others [of q] by blast
  have full: "\<exists>e. range_end rel = Some e \<and> (\<forall>m. range_start rel \<le> m \<and> m \<le> e \<longrightarrow>
              of_int m \<in> others_numbers rel channels \<or> Some (of_int m) \<in> set (map snd ?packed))"
    if none: "None \<in> set (map snd ?packed)"
  proof -
    obtain e where e: "range_end rel = Some e" and all: "\<forall>m. range_start rel \<le> m \<and> m \<le> e \<longrightarrow>
        of_int m \<in> set (build_reserved_set channels (map ac_id (filter (in_group rel) channels))
          (range_start rel) (range_end rel)) \<or> Some (of_int m) \<in> set (map snd ?packed)"
      using pack_exhausted [OF none [unfolded packed_numbers_def set_map]] unfolding packed_numbers_def set_map by blast
    moreover have "in_range (range_start rel) (range_end rel) (of_int m)"
      if "range_start rel \<le> m \<and> m \<le> e" for m using that e by (simp add: in_range_def)
    ultimately show ?thesis using others by blast
  qed
  have counts: "rp_assigned counts = length (filter (\<lambda>n. n \<noteq> None) (map snd ?packed))"
    "rp_failed counts = length (filter (\<lambda>n. n = None) (map snd ?packed))"
    unfolding a f filter_map length_map by (auto intro!: arg_cong [where f = length] filter_cong)
  have "length table = length channels" by (simp add: t)
  with v rows sorted fresh full counts show ?thesis
    unfolding Let_def by (intro exI [of _ visible]) (unfold nums, intro conjI; blast)
qed


text \<open>The demonstration's channels: a group of three with range 10 to 11, one pinned, one other.\<close>

definition demo_rel :: group_relation where
  "demo_rel = \<lparr>gr_id = 1, gr_account = 7, gr_group = 5, gr_start = Some 10, gr_end = Some 12,
     gr_compact = True, gr_sort = ''name'', gr_reverse = False, gr_override = Some (JStr ''9'')\<rparr>"

definition demo_chan :: "int \<Rightarrow> string \<Rightarrow> rat option \<Rightarrow> bool \<Rightarrow> int \<Rightarrow> rat option \<Rightarrow> auto_channel" where
  "demo_chan i name num hid g ov = \<lparr>ac_id = i, ac_name = name, ac_tvg_id = [], ac_updated = 0,
     ac_number = num, ac_hidden = hid, ac_auto = True, ac_account = Some 7, ac_group = Some g, ac_override = ov\<rparr>"

definition demo_lineup :: "auto_channel list" where
  "demo_lineup = [demo_chan 1 ''PPV 10'' None False 5 None, demo_chan 2 ''PPV 9'' (Some 10) False 5 None,
     demo_chan 3 ''PPV 8'' (Some 12) True 9 None, demo_chan 4 ''PPV 7'' (Some 3) False 5 (Some 11)]"

lemma demo_repack:
  "repack_group demo_rel demo_lineup =
     Some ([demo_chan 1 ''PPV 10'' (Some 12) False 5 None, demo_chan 2 ''PPV 9'' (Some 10) False 5 None,
            demo_chan 3 ''PPV 8'' None True 9 None, demo_chan 4 ''PPV 7'' None False 5 (Some 11)],
           \<lparr>rp_assigned = 2, rp_released = 1, rp_failed = 0\<rparr>)"
  by code_simp

lemma repack_packs_witness:
  "\<exists>visible. sort_visible ''name'' False (filter (own_visible demo_rel) demo_lineup) = Some visible
    \<and> (\<forall>q. Some q \<in> set (map (row_number [demo_chan 1 ''PPV 10'' (Some 12) False 5 None,
           demo_chan 2 ''PPV 9'' (Some 10) False 5 None, demo_chan 3 ''PPV 8'' None True 9 None,
           demo_chan 4 ''PPV 7'' None False 5 (Some 11)]) (map ac_id visible)) \<longrightarrow>
          in_range 10 (Some 12) q \<and> q \<notin> others_numbers demo_rel demo_lineup)"
proof -
  have d: "distinct (map ac_id demo_lineup)" by (simp add: demo_lineup_def demo_chan_def)
  have r: "range_start demo_rel = 10" "range_end demo_rel = Some 12" "gr_sort demo_rel = ''name''"
    "gr_reverse demo_rel = False"
    by (simp_all add: demo_rel_def range_start_def range_end_def trunc_def)
  show ?thesis
    using repack_group_packs_the_range [OF d demo_repack] unfolding Let_def r by blast
qed

subsection \<open>Repacking twice\<close>

lemma sort_key_map_same:
  assumes "\<And>x. k (f x) = k x"
  shows "sort_key k (map f xs) = map f (sort_key k xs)"
proof -
  have "insort_key k (f x) (map f xs) = map f (insort_key k x xs)" for x xs
    by (induction xs) (simp_all add: assms)
  then show ?thesis by (induction xs) simp_all
qed

lemma py_sort_map_same: "(\<And>x. k (f x) = k x) \<Longrightarrow> py_sort k reverse (map f xs) = map f (py_sort k reverse xs)"
  by (simp add: py_sort_def sort_key_map_same rev_map)

lemma sort_visible_renumber:
  "sort_visible order reverse (map (renumber rel packed) xs)
    = map_option (map (renumber rel packed)) (sort_visible order reverse xs)"
  by (auto simp: sort_visible_def py_sort_map_same list_all_iff)

lemma reserved_renumber:
  assumes "distinct (map ac_id channels)"
    and "map fst packed = map ac_id visible" and "mset visible = mset (filter (own_visible rel) channels)"
  shows "set (build_reserved_set (map (renumber rel packed) channels)
      (map ac_id (filter (in_group rel) (map (renumber rel packed) channels))) start stop)
    = set (build_reserved_set channels (map ac_id (filter (in_group rel) channels)) start stop)"
proof -
  have ids: "map ac_id (filter (in_group rel) (map (renumber rel packed) channels))
      = map ac_id (filter (in_group rel) channels)"
    by (simp add: filter_map comp_def)
  have outside: "renumber rel packed c = c" if "c \<in> set channels" "ac_id c \<notin> ac_id ` {c \<in> set channels. in_group rel c}" for c
    using renumber_outside [OF assms(2,3,1) that(1)] that by (auto simp: own_visible_def)
  have "set (List.map_filter ac_number (filter (\<lambda>c. ac_id c \<notin> ac_id ` {c \<in> set channels. in_group rel c})
          (map (renumber rel packed) channels)))
      = set (List.map_filter ac_number (filter (\<lambda>c. ac_id c \<notin> ac_id ` {c \<in> set channels. in_group rel c}) channels))"
    using outside by (simp add: set_map_filter set_eq_iff) metis
  then show ?thesis
    unfolding build_reserved_set_def ids by (simp add: set_map_filter)
qed

text \<open>Repacking is stable: a second repack right after the first succeeds, changes no
  channel, assigns and fails as many and releases none.\<close>

theorem repack_group_twice:
  assumes "distinct (map ac_id channels)"
    and "repack_group rel channels = Some (table, counts)"
  shows "repack_group rel table = Some (table, counts\<lparr>rp_released := 0\<rparr>)"
proof -
  obtain visible where v: "sort_visible (gr_sort rel) (gr_reverse rel) (filter (own_visible rel) channels) = Some visible"
    and t: "table = map (renumber rel (packed_numbers rel channels visible)) channels"
    and a: "rp_assigned counts = length (filter (\<lambda>(i, num). num \<noteq> None) (packed_numbers rel channels visible))"
    and f: "rp_failed counts = length (filter (\<lambda>(i, num). num = None) (packed_numbers rel channels visible))"
    using assms(2) unfolding repack_group_eq [OF assms(1)] by (auto split: option.splits)
  let ?packed = "packed_numbers rel channels visible" and ?visible = "map (renumber rel (packed_numbers rel channels visible)) visible"
  have m: "mset visible = mset (filter (own_visible rel) channels)" by (rule sort_visible_set [OF v])
  have d: "distinct (map ac_id table)" using assms(1) by (simp add: t comp_def)
  have own: "filter (own_visible rel) table = map (renumber rel ?packed) (filter (own_visible rel) channels)"
    by (simp add: t filter_map comp_def)
  have v2: "sort_visible (gr_sort rel) (gr_reverse rel) (filter (own_visible rel) table) = Some ?visible"
    unfolding own sort_visible_renumber v by simp
  have p2: "packed_numbers rel table ?visible = ?packed"
    unfolding packed_numbers_def pack_hand_out map_map
    using packing.same_set [OF reserved_renumber [OF assms(1) packed_keys m]]
    by (simp add: t packed_numbers_def pack_hand_out comp_def)
  have again: "map (renumber rel ?packed) table = table"
    unfolding t map_map by (rule map_cong [OF refl]) (simp add: renumber_def split: option.split)
  have none: "filter (\<lambda>c. ac_number c \<noteq> None)
      (filter (\<lambda>c. \<not> has_number_override c \<and> ac_hidden c) (filter (in_group rel) table)) = []"
    using renumber_outside [OF packed_keys m assms(1)]
    by (auto simp: t filter_empty_conv own_visible_def has_number_override_def)
  show ?thesis
    unfolding repack_group_eq [OF d] v2 option.case p2 again none using a f by simp
qed

lemma repack_twice_witness:
  "repack_group demo_rel [demo_chan 1 ''PPV 10'' (Some 12) False 5 None, demo_chan 2 ''PPV 9'' (Some 10) False 5 None,
      demo_chan 3 ''PPV 8'' None True 9 None, demo_chan 4 ''PPV 7'' None False 5 (Some 11)]
   = Some ([demo_chan 1 ''PPV 10'' (Some 12) False 5 None, demo_chan 2 ''PPV 9'' (Some 10) False 5 None,
            demo_chan 3 ''PPV 8'' None True 9 None, demo_chan 4 ''PPV 7'' None False 5 (Some 11)],
           \<lparr>rp_assigned = 2, rp_released = 0, rp_failed = 0\<rparr>)"
proof -
  have d: "distinct (map ac_id demo_lineup)" by (simp add: demo_lineup_def demo_chan_def)
  show ?thesis using repack_group_twice [OF d demo_repack] by simp
qed

subsection \<open>Natural sort keys\<close>

lemma split_digits_digit_free:
  assumes "list_all (\<lambda>c. \<not> is_digit c) p" and "ds \<noteq> []" and "list_all is_digit ds"
    and "s = [] \<or> \<not> is_digit (hd s)"
  shows "split_digits (p @ ds @ s) = p # ds # split_digits s"
proof -
  have hd: "is_digit (hd ds)" using assms(2,3) by (cases ds) auto
  have t: "takeWhile (\<lambda>c. \<not> is_digit c) (p @ ds @ s) = p" and dr: "dropWhile (\<lambda>c. \<not> is_digit c) (p @ ds @ s) = ds @ s"
    using assms(1,2) hd by (auto simp: takeWhile_append2 dropWhile_append2 list_all_iff takeWhile_eq_Nil_iff dropWhile_eq_self_iff neq_Nil_conv)
  have "takeWhile is_digit (ds @ s) = ds" and "dropWhile is_digit (ds @ s) = s"
    using assms(3,4) by (auto simp: takeWhile_append2 dropWhile_append2 list_all_iff takeWhile_eq_Nil_iff dropWhile_eq_self_iff)
  then show ?thesis
    by (subst split_digits.simps) (simp add: Let_def t dr assms(2))
qed

lemma convert_text: "list_all (\<lambda>c. \<not> isdigit_char c) p \<Longrightarrow> convert_chunk p = Some (Txt (lower p))"
  by (cases p) (auto simp: convert_chunk_def)

lemma convert_show_nat: "convert_chunk (show_nat n) = Some (Num n)"
  using digits_show_nat [of n] by (auto simp: convert_chunk_def isdigit_char_def list_all_iff)

lemma natural_sort_key_number:
  assumes "list_all (\<lambda>c. \<not> isdigit_char c) p" and "s = [] \<or> \<not> is_digit (hd s)" and "natural_sort_key s = Some ks"
  shows "natural_sort_key (p @ show_nat n @ s) = Some (Txt (lower p) # Num n # ks)"
proof -
  have "list_all (\<lambda>c. \<not> is_digit c) p" using assms(1) by (auto simp: list_all_iff isdigit_char_def)
  from split_digits_digit_free [OF this show_nat_nonempty digits_show_nat assms(2)] assms(3) show ?thesis
    by (simp add: natural_sort_key_def convert_text [OF assms(1)] convert_show_nat)
qed

text \<open>A key alternates between texts and numbers, starting and ending with a text.\<close>

fun alternates :: "chunk list \<Rightarrow> bool" where
  "alternates [Txt _] = True"
| "alternates (Txt _ # Num _ # ks) = alternates ks"
| "alternates _ = False"

lemma convert_chunk_text:
  assumes "convert_chunk p = Some k" and "list_all (\<lambda>c. \<not> is_digit c) p"
  shows "\<exists>t. k = Txt t"
  using assms by (cases p) (auto simp: convert_chunk_def split: if_splits)

lemma convert_chunk_digits:
  assumes "convert_chunk p = Some k" and "list_all is_digit p" and "p \<noteq> []"
  shows "\<exists>n. k = Num n"
  using assms by (auto simp: convert_chunk_def isdigit_char_def list_all_iff split: if_splits)

lemma natural_sort_key_alternates: "natural_sort_key s = Some ks \<Longrightarrow> alternates ks"
proof (induction s arbitrary: ks rule: split_digits.induct)
  case (1 s)
  let ?a = "takeWhile (\<lambda>c. \<not> is_digit c) s" and ?r = "dropWhile (\<lambda>c. \<not> is_digit c) s"
  have a: "list_all (\<lambda>c. \<not> is_digit c) ?a" by (auto simp: list_all_iff dest: set_takeWhileD)
  show ?case
  proof (cases "?r = []")
    case True
    then have "split_digits s = [?a]" by (subst split_digits.simps) simp
    with 1(2) obtain x where "convert_chunk ?a = Some x" "ks = [x]"
      by (auto simp: natural_sort_key_def split: option.splits)
    with convert_chunk_text [OF _ a] show ?thesis by auto
  next
    case False
    let ?d = "takeWhile is_digit ?r" and ?s = "dropWhile is_digit ?r"
    have "is_digit (hd ?r)" using hd_dropWhile [OF False] by simp
    with False have d: "?d \<noteq> []" "list_all is_digit ?d"
      by (auto simp: takeWhile_eq_Nil_iff list_all_iff dest: set_takeWhileD)
    have split: "split_digits s = ?a # ?d # split_digits ?s"
      by (subst split_digits.simps) (simp only: Let_def False if_False)
    from 1(2) obtain x y zs where c: "convert_chunk ?a = Some x" "convert_chunk ?d = Some y"
      and zs: "natural_sort_key ?s = Some zs" and ks: "ks = x # y # zs"
      unfolding natural_sort_key_def split by (auto split: option.splits)
    from 1(1) [OF refl refl False zs] convert_chunk_text [OF c(1) a] convert_chunk_digits [OF c(2) d(2,1)]
    show ?thesis by (auto simp: ks)
  qed
qed

text \<open>Names sort by the value of their numbers and not by their digits: of two names with
  the same text, letter case aside, before a number, the one with the smaller number comes
  first, whatever follows.\<close>

theorem names_sort_by_number:
  assumes "list_all (\<lambda>c. \<not> isdigit_char c) p" and "list_all (\<lambda>c. \<not> isdigit_char c) p'" and "lower p = lower p'"
    and "s = [] \<or> \<not> is_digit (hd s)" and "t = [] \<or> \<not> is_digit (hd t)"
    and "natural_sort_key s \<noteq> None" and "natural_sort_key t \<noteq> None" and "a < b"
  shows "\<exists>x y. natural_sort_key (p @ show_nat a @ s) = Some x \<and> natural_sort_key (p' @ show_nat b @ t) = Some y \<and> x < y"
proof -
  obtain ks kt where k: "natural_sort_key s = Some ks" "natural_sort_key t = Some kt" using assms(6,7) by blast
  have "Num a < Num b" using assms(8) by (simp add: less_chunk_def)
  with natural_sort_key_number [OF assms(1,4) k(1)] natural_sort_key_number [OF assms(2,5) k(2)] assms(3)
  show ?thesis by simp
qed

lemma names_sort_witness:
  "\<exists>x y. natural_sort_key (''PPV '' @ show_nat 9 @ '' HD'') = Some x \<and> natural_sort_key (''Ppv '' @ show_nat 10 @ []) = Some y \<and> x < y"
proof (rule names_sort_by_number)
  show "natural_sort_key '' HD'' \<noteq> None" "natural_sort_key [] \<noteq> None" "lower ''PPV '' = lower ''Ppv ''"
    "list_all (\<lambda>c. \<not> isdigit_char c) ''PPV ''" "list_all (\<lambda>c. \<not> isdigit_char c) ''Ppv ''"
    by code_simp+
qed (simp_all add: is_digit_def)

subsection \<open>Numbers stay unique\<close>

definition numbers_ok :: "auto_channel list \<Rightarrow> bool" where
  "numbers_ok channels \<longleftrightarrow>
     (\<forall>c \<in> set channels. \<forall>d \<in> set channels. ac_id c \<noteq> ac_id d \<longrightarrow>
        (\<forall>q. ac_number c = Some q \<longrightarrow> ac_number d \<noteq> Some q \<and> ac_override d \<noteq> Some q))"

definition unnumbered :: "auto_channel list \<Rightarrow> int list \<Rightarrow> bool" where
  "unnumbered channels ids \<longleftrightarrow>
     (\<forall>c \<in> set channels. ac_id c \<in> set ids \<longrightarrow> ac_number c = None \<and> ac_override c = None)"

text \<open>What numbering some channels leaves alone, and what it keeps.\<close>

definition only_numbers :: "int set \<Rightarrow> auto_channel list \<Rightarrow> auto_channel list \<Rightarrow> bool" where
  "only_numbers I channels channels' \<longleftrightarrow>
     length channels' = length channels \<and>
     (\<forall>j < length channels. channels' ! j = (channels ! j)\<lparr>ac_number := ac_number (channels' ! j)\<rparr>
        \<and> (ac_id (channels ! j) \<notin> I \<longrightarrow> channels' ! j = channels ! j))"

lemma only_numbers_refl: "only_numbers I channels channels"
  by (simp add: only_numbers_def)

lemma only_numbers_trans:
  assumes "only_numbers I a b" and "only_numbers J b c" and "I \<subseteq> K" and "J \<subseteq> K"
  shows "only_numbers K a c"
proof -
  have "c ! j = (a ! j)\<lparr>ac_number := ac_number (c ! j)\<rparr> \<and> (ac_id (a ! j) \<notin> K \<longrightarrow> c ! j = a ! j)"
    if "j < length a" for j
  proof -
    have ab: "b ! j = (a ! j)\<lparr>ac_number := ac_number (b ! j)\<rparr>" "ac_id (a ! j) \<notin> I \<longrightarrow> b ! j = a ! j"
      and bc: "c ! j = (b ! j)\<lparr>ac_number := ac_number (c ! j)\<rparr>" "ac_id (b ! j) \<notin> J \<longrightarrow> c ! j = b ! j"
      using assms(1,2) that by (auto simp: only_numbers_def)
    have "ac_id (b ! j) = ac_id (a ! j)" by (subst ab(1)) simp
    moreover have "c ! j = (a ! j)\<lparr>ac_number := ac_number (c ! j)\<rparr>"
      by (subst bc(1), subst ab(1)) simp
    ultimately show ?thesis using ab(2) bc(2) assms(3,4) by auto
  qed
  with assms(1,2) show ?thesis by (simp add: only_numbers_def)
qed

lemma number_update_id: "c = d\<lparr>ac_number := n\<rparr> \<Longrightarrow> ac_id c = ac_id d"
  by simp

lemma only_numbers_ids: "only_numbers I a b \<Longrightarrow> map ac_id b = map ac_id a"
  by (rule nth_equalityI) (auto simp: only_numbers_def dest: number_update_id)

lemma set_numbers_only:
  assumes "map fst packed = ids"
  shows "only_numbers (set ids) channels (set_numbers packed channels)"
proof -
  have "map_of packed i = None" if "i \<notin> set ids" for i
    using that assms by (metis list.set_map map_of_eq_None_iff)
  then show ?thesis by (auto simp: only_numbers_def set_numbers_def split: option.split)
qed

lemma unnumbered_only:
  assumes "only_numbers I channels channels'" and "unnumbered channels ids" and "set ids \<inter> I = {}"
  shows "unnumbered channels' ids"
  unfolding unnumbered_def
proof (intro ballI impI)
  fix c assume "c \<in> set channels'" "ac_id c \<in> set ids"
  then obtain j where j: "j < length channels'" "c = channels' ! j" by (auto simp: in_set_conv_nth)
  with assms(1) have l: "j < length channels" and upd: "c = (channels ! j)\<lparr>ac_number := ac_number c\<rparr>"
    and same: "ac_id (channels ! j) \<notin> I \<longrightarrow> c = channels ! j" by (auto simp: only_numbers_def)
  have "ac_id (channels ! j) = ac_id c" using number_update_id [OF upd] by simp
  with \<open>ac_id c \<in> set ids\<close> assms(3) same have "c = channels ! j" by auto
  with l \<open>ac_id c \<in> set ids\<close> assms(2) show "ac_number c = None \<and> ac_override c = None"
    by (auto simp: unnumbered_def)
qed

lemma set_numbers_elim:
  assumes "c \<in> set (set_numbers packed channels)"
  obtains d where "d \<in> set channels" "ac_id d = ac_id c" "ac_override d = ac_override c"
    "c = d \<or> (\<exists>q. map_of packed (ac_id c) = Some (Some q) \<and> ac_number c = Some q)"
  using assms by (auto simp: set_numbers_def split: option.splits)

lemma increasing_different:
  assumes "sorted_wrt (<) (List.map_filter snd (packed :: (int \<times> rat option) list))"
    and "map_of packed i = Some (Some p)" and "map_of packed i' = Some (Some p')" and "i \<noteq> i'"
  shows "p \<noteq> p'"
  using assms
proof (induction packed)
  case (Cons x packed)
  obtain k n where x: "x = (k, n)" by (cases x)
  have in_tail: "u \<in> set (List.map_filter snd packed)" if "map_of packed j = Some (Some u)" for j u
    using map_of_SomeD [OF that] by (force simp: set_map_filter)
  from Cons x in_tail show ?case
    by (cases n) (auto simp: List.map_filter_simps split: if_splits)
qed simp

lemma set_numbers_ok:
  assumes "numbers_ok channels" and "unnumbered channels ids" and "distinct ids"
    and packed: "packed = pack (build_reserved_set channels ids start stop) start stop ids"
  shows "numbers_ok (set_numbers packed channels)"
  unfolding numbers_ok_def
proof (intro ballI impI allI)
  fix c d q
  assume c: "c \<in> set (set_numbers packed channels)" and d: "d \<in> set (set_numbers packed channels)"
    and ne: "ac_id c \<noteq> ac_id d" and num: "ac_number c = Some q"
  obtain c0 where c0: "c0 \<in> set channels" "ac_id c0 = ac_id c" "ac_override c0 = ac_override c"
    "c = c0 \<or> (\<exists>q. map_of packed (ac_id c) = Some (Some q) \<and> ac_number c = Some q)" by (rule set_numbers_elim [OF c])
  obtain d0 where d0: "d0 \<in> set channels" "ac_id d0 = ac_id d" "ac_override d0 = ac_override d"
    "d = d0 \<or> (\<exists>q. map_of packed (ac_id d) = Some (Some q) \<and> ac_number d = Some q)" by (rule set_numbers_elim [OF d])
  have keys: "map fst packed = ids" by (simp add: packed pack_hand_out)
  have inids: "i \<in> set ids" if "map_of packed i = Some n" for i n
    using map_of_SomeD [OF that] keys by force
  have fresh: "in_range start stop p \<and> p \<notin> set (build_reserved_set channels ids start stop)"
    if "map_of packed i = Some (Some p)" for i p
    using pack_fresh [of p] map_of_SomeD [OF that] unfolding packed by force
  have avoid: "ac_override e \<noteq> Some p \<and> (ac_id e \<notin> set ids \<longrightarrow> ac_number e \<noteq> Some p)"
    if "map_of packed i = Some (Some p)" "e \<in> set channels" for i p e
    using fresh [OF that(1)] that(2) by (auto simp: build_reserved_set_def set_map_filter)
  have free: "ac_number e = None" if "e \<in> set channels" "ac_id e \<in> set ids" for e
    using assms(2) that by (simp add: unnumbered_def)
  have diff: "p \<noteq> p'" if "map_of packed i = Some (Some p)" "map_of packed i' = Some (Some p')" "i \<noteq> i'" for i i' p p'
    using increasing_different [OF _ that] pack_increasing unfolding packed by blast
  show "ac_number d \<noteq> Some q \<and> ac_override d \<noteq> Some q"
  proof (cases "c = c0")
    case True
    note c_old = this
    have "ac_override d \<noteq> Some q"
      using assms(1) c0(1) d0 ne num True by (auto simp: numbers_ok_def)
    moreover have "ac_number d \<noteq> Some q"
    proof (cases "d = d0")
      case True
      with assms(1) c0(1) d0(1) ne num c_old show ?thesis by (auto simp: numbers_ok_def)
    next
      case False
      with d0(4) obtain p where p: "map_of packed (ac_id d) = Some (Some p)" "ac_number d = Some p" by blast
      have "ac_id c \<notin> set ids" using free [OF c0(1)] num c_old by auto
      with avoid [OF p(1) c0(1)] num c_old p(2) show ?thesis by auto
    qed
    ultimately show ?thesis by blast
  next
    case False
    with c0(4) num have p: "map_of packed (ac_id c) = Some (Some q)" by auto
    have "ac_number d \<noteq> Some q"
    proof (cases "d = d0")
      case True
      with avoid [OF p d0(1)] free [OF d0(1)] show ?thesis by (cases "ac_id d0 \<in> set ids") auto
    next
      case False
      with d0(4) diff [OF p _ ne] show ?thesis by auto
    qed
    with avoid [OF p d0(1)] d0(3) show ?thesis by auto
  qed
qed


lemma number_batches_keep:
  assumes "numbers_ok channels" and "distinct (concat (map snd bs))" and "unnumbered channels (concat (map snd bs))"
    and "number_batches channels bs = (channels', found)"
  shows "numbers_ok channels' \<and> only_numbers (set (concat (map snd bs))) channels channels'"
  using assms
proof (induction bs arbitrary: channels found)
  case Nil
  then show ?case by (simp add: only_numbers_refl)
next
  case (Cons b bs)
  let ?ids = "snd b" and ?packed = "snd (number_batch channels b)"
  obtain channels1 where c1: "channels1 = set_numbers ?packed channels"
    and rest: "number_batches channels1 bs = (channels', snd (number_batches channels1 bs))"
    using Cons.prems(4) by (auto simp: number_batch_def Let_def split: prod.splits)
  have keys: "map fst ?packed = ?ids" by (simp add: number_batch_def Let_def pack_hand_out)
  have d: "distinct ?ids" "distinct (concat (map snd bs))" "set (concat (map snd bs)) \<inter> set ?ids = {}"
    using Cons.prems(2) by auto
  have un: "unnumbered channels ?ids" "unnumbered channels (concat (map snd bs))"
    using Cons.prems(3) by (auto simp: unnumbered_def)
  have ok1: "numbers_ok channels1"
    unfolding c1 by (rule set_numbers_ok [OF Cons.prems(1) un(1) d(1)]) (simp add: number_batch_def Let_def)
  have o1: "only_numbers (set ?ids) channels channels1" unfolding c1 by (rule set_numbers_only [OF keys])
  from Cons.IH [OF ok1 d(2) unnumbered_only [OF o1 un(2) d(3)] rest]
  have "numbers_ok channels' \<and> only_numbers (set (concat (map snd bs))) channels1 channels'" .
  with only_numbers_trans [OF o1, where K = "set (concat (map snd (b # bs)))"] show ?case by auto
qed

lemma number_accounts_keep:
  assumes "numbers_ok channels"
    and "distinct (concat (map snd (concat (map snd accounts))))"
    and "unnumbered channels (concat (map snd (concat (map snd accounts))))"
    and "number_accounts r channels accounts = (r', channels', found)"
  shows "numbers_ok channels' \<and> only_numbers (set (concat (map snd (concat (map snd accounts))))) channels channels'
    \<and> (\<forall>k. rexists r' k = rexists r k)"
  using assms
proof (induction accounts arbitrary: r channels found)
  case Nil
  then show ?case by (simp add: only_numbers_refl)
next
  case (Cons x accounts)
  obtain account bs where x: "x = (account, bs)" by (cases x)
  let ?here = "concat (map snd bs)" and ?rest = "concat (map snd (concat (map snd accounts)))"
  let ?K = "set (concat (map snd (concat (map snd (x # accounts)))))"
  have sub: "set ?here \<subseteq> ?K" "set ?rest \<subseteq> ?K" by (auto simp: x)
  have d: "distinct ?here" "distinct ?rest" "set ?rest \<inter> set ?here = {}" using Cons.prems(2) by (auto simp: x)
  have un: "unnumbered channels ?here" "unnumbered channels ?rest"
    using Cons.prems(3) by (auto simp: x unnumbered_def)
  show ?case
  proof (cases "rexists r (task_lock_key ''refresh_single_m3u_account'' account)")
    case True
    then have "number_accounts r channels accounts = (r', channels', snd (snd (number_accounts r channels accounts)))"
      using Cons.prems(4) by (auto simp: x acquire_task_lock_def rset_nx_ex_def split: prod.splits)
    from Cons.IH [OF Cons.prems(1) d(2) un(2) this] only_numbers_trans [OF only_numbers_refl, where K = ?K and J = "set ?rest" and I = "{}"]
      sub(2) show ?thesis by auto
  next
    case False
    let ?r2 = "release_task_lock (fst (acquire_task_lock r ''refresh_single_m3u_account'' account))
        ''refresh_single_m3u_account'' account"
    obtain channels1 found1 where c1: "number_batches channels bs = (channels1, found1)" by fastforce
    have rest: "number_accounts ?r2 channels1 accounts = (r', channels', snd (snd (number_accounts ?r2 channels1 accounts)))"
      using Cons.prems(4) False by (auto simp: x c1 acquire_task_lock_def rset_nx_ex_def split: prod.splits)
    from number_batches_keep [OF Cons.prems(1) d(1) un(1) c1]
    have 1: "numbers_ok channels1" "only_numbers (set ?here) channels channels1" by auto
    from Cons.IH [OF 1(1) d(2) unnumbered_only [OF 1(2) un(2) d(3)] rest]
    have 2: "numbers_ok channels'" "only_numbers (set ?rest) channels1 channels'" "\<forall>k. rexists r' k = rexists ?r2 k" by auto
    have "rexists ?r2 k = rexists r k" for k
      using False by (auto simp: release_task_lock_def acquire_task_lock_def rset_nx_ex_def store_simps)
    with 2 only_numbers_trans [OF 1(2) 2(2) sub] show ?thesis by auto
  qed
qed

subsection \<open>The grouping keeps the channels apart\<close>

lemma dict_set_mset:
  "mset (concat (map snd (dict_set d k vs))) + mset (case map_of d k of Some us \<Rightarrow> us | None \<Rightarrow> [])
     = mset (concat (map snd d)) + mset vs"
proof (induction d)
  case (Cons x d)
  then show ?case by (cases x; cases "fst x = k") simp_all
qed simp

lemma append_under_mset:
  "mset (concat (map snd (append_under d k v))) = add_mset v (mset (concat (map snd d)))"
  using dict_set_mset [of d k "(case map_of d k of Some us \<Rightarrow> us | None \<Rightarrow> []) @ [v]"]
  unfolding append_under_def mset_append by simp

lemma collect_by_mset: "mset (concat (map snd (collect_by key vs))) = mset vs"
proof (induction vs rule: rev_induct)
  case (snoc v vs)
  have "collect_by key (vs @ [v]) = append_under (collect_by key vs) (key v) v" by (simp add: collect_by_def)
  with snoc append_under_mset [of "collect_by key vs" "key v" v] show ?case by simp
qed (simp add: collect_by_def)

lemma dict_set_sub:
  "mset (concat (map (f \<circ> snd) (dict_set d k v))) \<subseteq># mset (concat (map (f \<circ> snd) d)) + mset (f v)"
proof (induction d)
  case (Cons x d)
  then show ?case by (cases x; cases "fst x = k") (simp_all add: ac_simps)
qed simp

lemma batches_by_relation_sub:
  "mset (concat (map (snd \<circ> snd) (batches_by_relation relations by_pair)))
     \<subseteq># image_mset ac_id (mset (concat (map snd by_pair)))"
proof (induction by_pair rule: rev_induct)
  case (snoc x by_pair)
  obtain pair chans where x: "x = (pair, chans)" by (cases x)
  let ?d = "batches_by_relation relations by_pair"
  have step: "batches_by_relation relations (by_pair @ [x]) =
     (case relation_of_pair relations pair of
        Some rel \<Rightarrow> if is_compact_group rel then dict_set ?d (gr_id rel) (rel, map ac_id chans) else ?d
      | None \<Rightarrow> ?d)" by (simp add: batches_by_relation_def x split: option.split)
  have sub: "mset (concat (map (snd \<circ> snd) (dict_set ?d k (rel, map ac_id chans))))
      \<subseteq># image_mset ac_id (mset (concat (map snd (by_pair @ [x]))))" for k rel
    using subset_mset.order_trans [OF dict_set_sub [of snd ?d k "(rel, map ac_id chans)", unfolded snd_conv]
        subset_mset.add_right_mono [OF snoc, of "mset (map ac_id chans)"]] by (simp add: x)
  have "mset (concat (map (snd \<circ> snd) ?d)) \<subseteq># image_mset ac_id (mset (concat (map snd (by_pair @ [x]))))"
    by (simp add: x) (rule subset_mset.order_trans [OF snoc mset_subset_eq_add_left])
  with sub show ?case
    unfolding step by (cases "relation_of_pair relations pair") (simp_all only: option.case split: if_split, auto)
qed (simp add: batches_by_relation_def)

lemma distinct_sub:
  assumes "mset xs \<subseteq># mset ys" and "distinct ys"
  shows "distinct xs"
proof -
  obtain zs where "mset ys = mset xs + mset zs" using assms(1) by (metis ex_mset mset_subset_eq_exists_conv)
  then have "mset (xs @ zs) = mset ys" by simp
  from mset_eq_imp_distinct_iff [OF this] assms(2) show ?thesis by simp
qed

lemma mset_concat_snd: "mset (concat (map snd xs)) = sum_mset (image_mset (\<lambda>x. mset (snd x)) (mset xs))"
  by (induction xs) simp_all

text \<open>The ids of an account's batches are those of channels that want a number, each once.\<close>

lemma account_batches:
  assumes "distinct (map ac_id channels)"
    and "by_account = collect_by key (map snd (batches_by_relation relations
           (collect_by pair (filter (wants_number ids) channels))))"
  shows "distinct (concat (map snd (concat (map snd by_account))))"
    and "set (concat (map snd (concat (map snd by_account)))) \<subseteq> ac_id ` {c \<in> set channels. wants_number ids c}"
proof -
  let ?bs = "batches_by_relation relations (collect_by pair (filter (wants_number ids) channels))"
  have "mset (concat (map snd by_account)) = mset (map snd ?bs)"
    unfolding assms(2) by (rule collect_by_mset)
  then have "mset (concat (map snd (concat (map snd by_account)))) = mset (concat (map snd (map snd ?bs)))"
    unfolding mset_concat_snd [of "concat (map snd by_account)"] mset_concat_snd [of "map snd ?bs"]
    by (rule arg_cong)
  also have "\<dots> = mset (concat (map (snd \<circ> snd) ?bs))" by simp
  also have "\<dots> \<subseteq># image_mset ac_id (mset (concat (map snd (collect_by pair (filter (wants_number ids) channels)))))"
    by (rule batches_by_relation_sub)
  also have "\<dots> = mset (map ac_id (filter (wants_number ids) channels))" by (simp only: collect_by_mset mset_map)
  finally have sub: "mset (concat (map snd (concat (map snd by_account)))) \<subseteq># mset (map ac_id (filter (wants_number ids) channels))" .
  show "distinct (concat (map snd (concat (map snd by_account))))"
    by (rule distinct_sub [OF sub]) (rule distinct_map_filter [OF assms(1)])
  show "set (concat (map snd (concat (map snd by_account)))) \<subseteq> ac_id ` {c \<in> set channels. wants_number ids c}"
    using set_mset_mono [OF sub] by auto
qed

text \<open>Giving numbers to channels that become visible keeps every number unique: if no two
  channels shared a number and no number was another channel's pinned one, the same holds
  afterwards; only channels that ask for a number and have none change, and only in their
  number; and every refresh lock taken is given back, while a lock held by a running
  refresh stays held.\<close>

theorem unhide_keeps_numbers_unique:
  assumes "distinct (map ac_id channels)" and "numbers_ok channels"
    and "assign_compact_numbers_for_channels r relations channels ids = (r', channels', found)"
  shows "numbers_ok channels' \<and> length channels' = length channels
    \<and> (\<forall>j < length channels. channels' ! j = (channels ! j)\<lparr>ac_number := ac_number (channels' ! j)\<rparr>
         \<and> (\<not> wants_number ids (channels ! j) \<longrightarrow> channels' ! j = channels ! j))
    \<and> (\<forall>name account. is_task_lock_held r' name account = is_task_lock_held r name account)"
proof -
  define by_account where "by_account = collect_by (\<lambda>(rel, ids). gr_account rel) (map snd (batches_by_relation relations
           (collect_by (\<lambda>c. (the (ac_account c), ac_group c)) (filter (wants_number ids) channels))))"
  let ?I = "set (concat (map snd (concat (map snd by_account))))"
  note batches = account_batches [OF assms(1) by_account_def]
  have same: "d = c" if "c \<in> set channels" "d \<in> set channels" "ac_id d = ac_id c" for c d
    using assms(1) that by (auto simp: distinct_map dest: inj_onD)
  have "unnumbered channels (concat (map snd (concat (map snd by_account))))"
    unfolding unnumbered_def
  proof (intro ballI impI)
    fix c assume "c \<in> set channels" "ac_id c \<in> ?I"
    with batches(2) same have "wants_number ids c" by blast
    then show "ac_number c = None \<and> ac_override c = None"
      by (simp add: wants_number_def has_number_override_def)
  qed
  moreover have "number_accounts r channels by_account = (r', channels', found)"
    using assms(3) unfolding assign_compact_numbers_for_channels_def Let_def by_account_def .
  ultimately have k: "numbers_ok channels'" "only_numbers ?I channels channels'" "\<forall>k. rexists r' k = rexists r k"
    using number_accounts_keep [OF assms(2) batches(1)] by blast+
  have "ac_id (channels ! j) \<notin> ?I" if "j < length channels" "\<not> wants_number ids (channels ! j)" for j
  proof
    assume "ac_id (channels ! j) \<in> ?I"
    with batches(2) obtain c where "c \<in> set channels" "wants_number ids c" "ac_id (channels ! j) = ac_id c" by auto
    with same [OF _ nth_mem [OF that(1)]] that(2) show False by auto
  qed
  with k show ?thesis by (simp add: only_numbers_def is_task_lock_held_def)
qed

text \<open>The demonstration: an override group's channel and an own-group channel in one batch.\<close>

definition demo_hidden_pair :: "auto_channel list" where
  "demo_hidden_pair = [demo_chan 1 ''A'' None False 5 None, demo_chan 2 ''B'' None False 9 None]"

lemma demo_unhide_one:
  "assign_compact_numbers_for_channels empty_redis [demo_rel] demo_hidden_pair [1]
     = (empty_redis, [demo_chan 1 ''A'' (Some 10) False 5 None, demo_chan 2 ''B'' None False 9 None], [(1, Some 10)])"
  by code_simp

lemma unhide_witness:
  "numbers_ok [demo_chan 1 ''A'' (Some 10) False 5 None, demo_chan 2 ''B'' None False 9 None]"
proof -
  have "distinct (map ac_id demo_hidden_pair)" "numbers_ok demo_hidden_pair"
    by (simp_all add: demo_hidden_pair_def demo_chan_def numbers_ok_def)
  from unhide_keeps_numbers_unique [OF this demo_unhide_one] show ?thesis by blast
qed

text \<open>Two channels of one relation, one in the relation's own group and one in its override
  group, that become visible in one batch: the second batch replaces the first under the
  relation's id, so the first channel gets no number and is missing from the result,
  though the range has room and it gets one when it is alone.\<close>

theorem batch_unhide_drops_a_pair:
  "assign_compact_numbers_for_channels empty_redis [demo_rel] demo_hidden_pair [1, 2]
     = (empty_redis, [demo_chan 1 ''A'' None False 5 None, demo_chan 2 ''B'' (Some 10) False 9 None], [(2, Some 10)])
   \<and> assign_compact_numbers_for_channels empty_redis [demo_rel] demo_hidden_pair [1]
     = (empty_redis, [demo_chan 1 ''A'' (Some 10) False 5 None, demo_chan 2 ''B'' None False 9 None], [(1, Some 10)])"
  by (intro conjI) code_simp+

end
