(* ===== verification/Commands.thy ===== *)
theory Commands
  imports Py_Text
begin

section \<open>Command lines (core/models.py)\<close>

text \<open>
  \<open>StreamProfile.build_command\<close> and \<open>OutputProfile.build_command\<close>: the parameters split into
  words as the standard library's \<open>shlex.split\<close> does (POSIX mode, no comments), then the
  placeholders of each word replaced. An unbalanced quote or a trailing backslash raises
  \<open>ValueError\<close>, which is \<open>None\<close>.
\<close>

subsection \<open>\<open>shlex.split\<close>\<close>

datatype shlex_state =
  Between                \<comment> \<open>before a word\<close>
| InWord
| InQuotes char
| Escaped "char option"  \<comment> \<open>after a backslash, in these quotes or in a word\<close>

definition BACKSLASH :: char where "BACKSLASH = CHR 0x5C"
definition SQUOTE :: char where "SQUOTE = CHR 0x27"
definition DQUOTE :: char where "DQUOTE = CHR 0x22"

definition is_blank :: "char \<Rightarrow> bool" where
  "is_blank c \<longleftrightarrow> c \<in> {CHR '' '', CHR 0x09, CHR 0x0D, CHR 0x0A}"

definition is_quote :: "char \<Rightarrow> bool" where
  "is_quote c \<longleftrightarrow> c = SQUOTE \<or> c = DQUOTE"

text \<open>
  \<open>read_token\<close> over the whole text: the token so far and whether it was quoted. A word that is
  empty and not quoted is not emitted.
\<close>

fun shlex_go :: "shlex_state \<Rightarrow> string \<Rightarrow> bool \<Rightarrow> string \<Rightarrow> string list option" where
  "shlex_go Between token quoted [] = Some []"
| "shlex_go InWord token quoted [] = Some (if token = [] \<and> \<not> quoted then [] else [token])"
| "shlex_go (InQuotes q) token quoted [] = None"
| "shlex_go (Escaped w) token quoted [] = None"
| "shlex_go Between token quoted (c # s) =
     (if is_blank c then shlex_go Between token quoted s
      else if c = BACKSLASH then shlex_go (Escaped None) token quoted s
      else if is_quote c then shlex_go (InQuotes c) token quoted s
      else shlex_go InWord [c] quoted s)"
| "shlex_go (InQuotes q) token quoted (c # s) =
     (if c = q then shlex_go InWord token True s
      else if c = BACKSLASH \<and> q = DQUOTE then shlex_go (Escaped (Some q)) token True s
      else shlex_go (InQuotes q) (token @ [c]) True s)"
| "shlex_go (Escaped w) token quoted (c # s) =
     (case w of
        None \<Rightarrow> shlex_go InWord (token @ [c]) quoted s
      | Some q \<Rightarrow>
          shlex_go (InQuotes q)
            (token @ (if c \<noteq> BACKSLASH \<and> c \<noteq> q then [BACKSLASH] else []) @ [c]) quoted s)"
| "shlex_go InWord token quoted (c # s) =
     (if is_blank c then
        (if token \<noteq> [] \<or> quoted
         then map_option ((#) token) (shlex_go Between [] False s)
         else shlex_go Between token quoted s)
      else if is_quote c then shlex_go (InQuotes c) token quoted s
      else if c = BACKSLASH then shlex_go (Escaped None) token quoted s
      else shlex_go InWord (token @ [c]) quoted s)"

definition shlex_split :: "string \<Rightarrow> string list option" where
  "shlex_split s = shlex_go Between [] False s"

subsection \<open>Placeholders\<close>

text \<open>\<open>part.replace(key, value)\<close> for a key that is not empty: left to right, not overlapping.\<close>

function replace_all :: "string \<Rightarrow> string \<Rightarrow> string \<Rightarrow> string" where
  "replace_all key v s =
     (case s of
        [] \<Rightarrow> []
      | c # rest \<Rightarrow>
          if key \<noteq> [] \<and> starts_with key s then v @ replace_all key v (drop (length key) s)
          else c # replace_all key v rest)"
  by pat_completeness auto
termination
  by (relation "measure (\<lambda>(key, v, s). length s)") auto

declare replace_all.simps [simp del]

record stream_profile_row =
  sp_id :: int
  sp_name :: string
  sp_locked :: bool
  sp_command :: string
  sp_parameters :: string

definition is_proxy :: "stream_profile_row \<Rightarrow> bool" where
  "is_proxy p \<longleftrightarrow> sp_locked p \<and> sp_name p = ''Proxy''"

definition is_redirect :: "stream_profile_row \<Rightarrow> bool" where
  "is_redirect p \<longleftrightarrow> sp_locked p \<and> sp_name p = ''Redirect''"

text \<open>\<open>_replace_in_part\<close>: the URL, then the user agent, then the channel id.\<close>

definition replace_in_part :: "string \<Rightarrow> string \<Rightarrow> string \<Rightarrow> string \<Rightarrow> string" where
  "replace_in_part url user_agent channel_id part =
     replace_all ''{channelId}'' channel_id
       (replace_all ''{userAgent}'' user_agent (replace_all ''{streamUrl}'' url part))"

text \<open>The channel id is empty when there is none or it is 0.\<close>

definition build_command ::
  "stream_profile_row \<Rightarrow> string \<Rightarrow> string \<Rightarrow> int option \<Rightarrow> string list option" where
  "build_command p url user_agent channel_id =
     (if is_proxy p \<or> is_redirect p then Some []
      else map_option (\<lambda>parts. sp_command p # map (replace_in_part url user_agent
               (case channel_id of Some i \<Rightarrow> if i = 0 then [] else show_int i | None \<Rightarrow> [])) parts)
             (shlex_split (sp_parameters p)))"

record output_profile_row =
  op_id :: int
  op_is_active :: bool
  op_hls_mode :: string
  op_command :: string
  op_parameters :: string

definition output_build_command :: "output_profile_row \<Rightarrow> string list option" where
  "output_build_command p = map_option ((#) (op_command p)) (shlex_split (op_parameters p))"

subsection \<open>Quoted words\<close>

text \<open>A word as an administrator quotes it: single quotes, and each single quote in double ones.\<close>

definition quote_word :: "string \<Rightarrow> string" where
  "quote_word w =
     SQUOTE # concat (map (\<lambda>c. if c = SQUOTE then [SQUOTE, DQUOTE, SQUOTE, DQUOTE, SQUOTE] else [c]) w)
     @ [SQUOTE]"

fun join_words :: "string list \<Rightarrow> string" where
  "join_words [] = []"
| "join_words [w] = quote_word w"
| "join_words (w # ws) = quote_word w @ '' '' @ join_words ws"

lemma quote_chars [simp]:
  "is_quote SQUOTE" "is_quote DQUOTE" "\<not> is_blank SQUOTE" "\<not> is_blank DQUOTE" "\<not> is_quote BACKSLASH"
  "SQUOTE \<noteq> DQUOTE" "DQUOTE \<noteq> SQUOTE" "SQUOTE \<noteq> BACKSLASH" "DQUOTE \<noteq> BACKSLASH" "is_blank CHR '' ''"
  by (simp_all add: is_quote_def is_blank_def SQUOTE_def DQUOTE_def BACKSLASH_def)

lemma shlex_quoted_tail:
  "shlex_go (InQuotes SQUOTE) token quoted
     (concat (map (\<lambda>c. if c = SQUOTE then [SQUOTE, DQUOTE, SQUOTE, DQUOTE, SQUOTE] else [c]) w) @ SQUOTE # s)
   = shlex_go InWord (token @ w) True s"
  by (induction w arbitrary: token quoted) simp_all

lemma shlex_quoted_word:
  "shlex_go Between [] False (quote_word w @ s) = shlex_go InWord w True s"
  by (simp add: quote_word_def shlex_quoted_tail)

lemma shlex_join: "shlex_split (join_words ws) = Some ws"
proof (induction ws rule: join_words.induct)
  case (2 w)
  then show ?case using shlex_quoted_word [of w "[]"] by (simp add: shlex_split_def)
next
  case (3 w v ws)
  then show ?case
    using shlex_quoted_word [of w "'' '' @ join_words (v # ws)"] by (simp add: shlex_split_def)
qed (simp add: shlex_split_def)

lemma replace_all_absent:
  assumes "key \<noteq> []" and "hd key \<notin> set s"
  shows "replace_all key v s = s"
  using assms(2)
proof (induction s)
  case (Cons c s)
  have "\<not> starts_with key (c # s)" using Cons.prems assms(1) by (cases key) (auto simp: starts_with_def)
  with Cons show ?case by (simp add: replace_all.simps [of _ _ "c # s"])
qed (simp add: replace_all.simps)

lemma replace_in_part_plain: "CHR ''{'' \<notin> set part \<Longrightarrow> replace_in_part url ua i part = part"
  by (simp add: replace_in_part_def replace_all_absent)

lemma replace_all_key: "key \<noteq> [] \<Longrightarrow> replace_all key v key = v"
  by (cases key) (simp_all add: replace_all.simps [of _ _ "_ # _"] replace_all.simps [of _ _ "[]"] starts_with_def)

subsection \<open>Words with placeholders\<close>

text \<open>A word of the parameters as its parts: text without an opening brace, and placeholders. Below, the
  word as it is written, with the values given for the placeholders already replaced.\<close>

datatype word_part = Literal string | Stream_Url | User_Agent | Channel_Id

fun part_text :: "string option \<Rightarrow> string option \<Rightarrow> string option \<Rightarrow> word_part \<Rightarrow> string" where
  "part_text u a i (Literal s) = s"
| "part_text u a i Stream_Url = (case u of Some v \<Rightarrow> v | None \<Rightarrow> ''{streamUrl}'')"
| "part_text u a i User_Agent = (case a of Some v \<Rightarrow> v | None \<Rightarrow> ''{userAgent}'')"
| "part_text u a i Channel_Id = (case i of Some v \<Rightarrow> v | None \<Rightarrow> ''{channelId}'')"

definition word_text :: "string option \<Rightarrow> string option \<Rightarrow> string option \<Rightarrow> word_part list \<Rightarrow> string" where
  "word_text u a i w = concat (map (part_text u a i) w)"

definition plain_literals :: "word_part list \<Rightarrow> bool" where
  "plain_literals w \<longleftrightarrow> list_all (\<lambda>x. case x of Literal s \<Rightarrow> CHR ''{'' \<notin> set s | _ \<Rightarrow> True) w"

text \<open>What the channel id of a tune is written as.\<close>

definition id_word :: "int option \<Rightarrow> string" where
  "id_word channel_id = (case channel_id of Some i \<Rightarrow> if i = 0 then [] else show_int i | None \<Rightarrow> [])"

lemma replace_all_skip:
  "key \<noteq> [] \<Longrightarrow> hd key \<notin> set s \<Longrightarrow> replace_all key v (s @ t) = s @ replace_all key v t"
proof (induction s)
  case (Cons c s)
  have "\<not> starts_with key (c # s @ t)" using Cons.prems by (cases key) (auto simp: starts_with_def)
  with Cons show ?case by (simp add: replace_all.simps [of _ _ "c # s @ t"])
qed simp

lemma replace_all_hit: "key \<noteq> [] \<Longrightarrow> replace_all key v (key @ t) = v @ replace_all key v t"
  by (cases key) (simp_all add: replace_all.simps [of _ _ "_ # _"] starts_with_def)

lemma replace_all_miss:
  assumes "starts_with ''{'' key" and "\<not> starts_with key (other @ t)" and "starts_with ''{'' other" and "CHR ''{'' \<notin> set (tl other)"
  shows "replace_all key v (other @ t) = other @ replace_all key v t"
proof -
  obtain k o' where k: "key = CHR ''{'' # k" "other = CHR ''{'' # o'" using assms(1,3) by (auto simp: starts_with_iff)
  have "replace_all key v (other @ t) = CHR ''{'' # replace_all key v (o' @ t)"
    using assms(2) by (simp add: k replace_all.simps [of _ _ "_ # _"])
  then show ?thesis using assms(4) replace_all_skip [of key o' v t] by (simp add: k)
qed

lemma fill_url:
  "plain_literals w \<Longrightarrow> replace_all ''{streamUrl}'' v (word_text None None None w) = word_text (Some v) None None w"
proof (induction w)
  case (Cons x w)
  then show ?case
    by (cases x) (simp_all add: word_text_def plain_literals_def replace_all_skip
      replace_all_hit [of "''{streamUrl}''", simplified] replace_all_miss [of _ "''{userAgent}''", simplified]
      replace_all_miss [of _ "''{channelId}''", simplified] starts_with_def)
qed (simp add: word_text_def replace_all.simps)

lemma fill_agent:
  "plain_literals w \<Longrightarrow> CHR ''{'' \<notin> set u \<Longrightarrow>
   replace_all ''{userAgent}'' v (word_text (Some u) None None w) = word_text (Some u) (Some v) None w"
proof (induction w)
  case (Cons x w)
  then show ?case
    by (cases x) (simp_all add: word_text_def plain_literals_def replace_all_skip
      replace_all_hit [of "''{userAgent}''", simplified]
      replace_all_miss [of _ "''{channelId}''", simplified] starts_with_def)
qed (simp add: word_text_def replace_all.simps)

lemma fill_id:
  "plain_literals w \<Longrightarrow> CHR ''{'' \<notin> set u \<Longrightarrow> CHR ''{'' \<notin> set a \<Longrightarrow>
   replace_all ''{channelId}'' v (word_text (Some u) (Some a) None w) = word_text (Some u) (Some a) (Some v) w"
proof (induction w)
  case (Cons x w)
  then show ?case
    by (cases x) (simp_all add: word_text_def plain_literals_def replace_all_skip
      replace_all_hit [of "''{channelId}''", simplified] starts_with_def)
qed (simp add: word_text_def replace_all.simps)

subsection \<open>The properties\<close>

text \<open>C30. Nothing in a stream URL, a user agent or a channel id can add an argument to the command, split
  one or reach another one: when the parameters split into words made of text and placeholders,
  the command line is the profile's command and exactly those words, in order, with the URL, the user
  agent and the channel id (empty when there is none or it is 0) in the place of their own placeholder, whatever
  blanks or quotes they have. The quoted form of the words splits into them. The text between the
  placeholders holds no opening brace, and neither does the URL or the user agent: the replacements run one
  after the other over the same text, so a placeholder inside those would be replaced too. The locked
  Proxy and Redirect profiles have no command line and are left out.\<close>

theorem arguments_cannot_be_injected:
  assumes "shlex_split (sp_parameters p) = Some (map (word_text None None None) ws)"
    and "\<not> is_proxy p" and "\<not> is_redirect p"
    and "list_all plain_literals ws" and "CHR ''{'' \<notin> set url" and "CHR ''{'' \<notin> set user_agent"
  shows "build_command p url user_agent channel_id =
      Some (sp_command p # map (word_text (Some url) (Some user_agent) (Some (id_word channel_id))) ws)
    \<and> shlex_split (join_words (map (word_text None None None) ws)) = shlex_split (sp_parameters p)"
proof -
  have "replace_in_part url user_agent i (word_text None None None w) = word_text (Some url) (Some user_agent) (Some i) w"
    if "w \<in> set ws" for w i
    using that assms(4-6) by (simp add: replace_in_part_def fill_url fill_agent fill_id list_all_iff)
  then have "map (replace_in_part url user_agent i) (map (word_text None None None) ws) =
      map (word_text (Some url) (Some user_agent) (Some i)) ws" for i
    by simp
  then show ?thesis
    using assms(1-3) by (simp add: build_command_def shlex_join id_word_def [symmetric])
qed

text \<open>The command line of a profile with one placeholder in a longer word and a quoted word.\<close>

lemma injection_witness:
  "build_command \<lparr>sp_id = 1, sp_name = ''f'', sp_locked = False, sp_command = ''ffmpeg'',
       sp_parameters = ''-user_agent {userAgent} -i {streamUrl} id={channelId} \"a b\"''\<rparr> ''http://p/ -y x'' ''VLC/3 x'' (Some 7)
     = Some [''ffmpeg'', ''-user_agent'', ''VLC/3 x'', ''-i'', ''http://p/ -y x'', ''id=7'', ''a b'']"
proof -
  let ?p = "\<lparr>sp_id = 1, sp_name = ''f'', sp_locked = False, sp_command = ''ffmpeg'',
       sp_parameters = ''-user_agent {userAgent} -i {streamUrl} id={channelId} \"a b\"''\<rparr>"
  let ?ws = "[[Literal ''-user_agent''], [User_Agent], [Literal ''-i''], [Stream_Url], [Literal ''id='', Channel_Id], [Literal ''a b'']]"
  have split: "shlex_split (sp_parameters ?p) = Some (map (word_text None None None) ?ws)" by code_simp
  have "id_word (Some 7) = ''7''" by code_simp
  then show ?thesis
    using arguments_cannot_be_injected [OF split, of "''http://p/ -y x''" "''VLC/3 x''" "Some 7"]
    by (simp add: is_proxy_def is_redirect_def plain_literals_def word_text_def)
qed

text \<open>
  The replacements run one after the other over the same text, so a placeholder inside the URL
  is replaced too.
\<close>

lemma placeholder_in_url_is_replaced:
  "replace_in_part ''http://p/{userAgent}'' ''vlc'' [] ''{streamUrl}'' = ''http://p/vlc''"
  by code_simp

end
