(* ===== verification/Next_Source.thy ===== *)
theory Next_Source
  imports Channel_Streams Commands
begin

section \<open>The next source (apps/proxy/next\_source.py)\<close>

text \<open>
  What Django answers when the relay asks what a channel plays: the initial tune, a switch to a
  stream, the ordered failover, the fallback list, and the release. Every answer carries the
  URL, the user agent and the built command lines.

  The rows and settings the answer reads are the record \<open>playback\<close>; the store is threaded
  through. An exception the code turns into the text \<open>str(e)\<close> is \<open>Exn e\<close>, one that leaves a
  function is \<open>Raised e\<close> or the left side of a sum. Identifiers are in the canonical text
  form of a UUID, so that equal identifiers are equal texts.
\<close>

record playback =
  pb_libs :: libs
  pb_db :: database
  pb_stream_profiles :: "stream_profile_row list"
  pb_channel_profile :: "int \<Rightarrow> stream_profile_row option"
  pb_stream_profile :: "int \<Rightarrow> stream_profile_row option"
  pb_default_profile :: int
  pb_output_profiles :: "output_profile_row list"
  pb_hls_choice :: "int \<Rightarrow> int option"
  pb_default_user_agent :: string
  pb_relay_user_agent :: string
  pb_class_defaults :: "(string \<times> string) list"
  pb_stored_settings :: "(string \<times> string) list"

datatype answer_error = Text string | Exn model_error | Raised model_error

subsection \<open>The URL\<close>

text \<open>\<open>urllib.parse.quote(s, safe='')\<close>: UTF-8, then percent escapes.\<close>

definition hex_digit :: "nat \<Rightarrow> char" where
  "hex_digit d = ''0123456789ABCDEF'' ! d"

definition percent :: "nat \<Rightarrow> string" where
  "percent b = [CHR ''%'', hex_digit (b div 16), hex_digit (b mod 16)]"

definition utf8_bytes :: "char \<Rightarrow> nat list" where
  "utf8_bytes c =
     (let n = (of_char c :: nat) in if n < 128 then [n] else [192 + n div 64, 128 + n mod 64])"

definition is_unreserved :: "char \<Rightarrow> bool" where
  "is_unreserved c \<longleftrightarrow> is_alpha c \<or> is_digit c \<or> c \<in> set ''_.-~''"

definition url_quote :: "string \<Rightarrow> string" where
  "url_quote s = concat (map (\<lambda>c. if is_unreserved c then [c] else concat (map percent (utf8_bytes c))) s)"

definition resolve_live_stream_url ::
  "libs \<Rightarrow> stream_row \<Rightarrow> m3u_account \<Rightarrow> m3u_profile \<Rightarrow> model_error + string" where
  "resolve_live_stream_url L stream account profile =
     (let plain = transform_url L (opt_text (stream_url stream)) (search_pattern profile) (replace_pattern profile) in
      case provider_stream_id stream of
        None \<Rightarrow> Inr plain
      | Some sid \<Rightarrow>
          if account_type account = XC \<and> sid \<noteq> 0 then
            (case get_transformed_credentials L account profile of
               None \<Rightarrow> Inl ValueError
             | Some (url, user, pass) \<Rightarrow>
                 if opt_text url \<noteq> [] \<and> opt_text user \<noteq> [] \<and> opt_text pass \<noteq> []
                 then Inr (rstrip_char (CHR ''/'') (opt_text url) @ ''/live/'' @ url_quote (opt_text user)
                        @ ''/'' @ url_quote (opt_text pass) @ ''/'' @ show_int sid @ ''.ts'')
                 else Inr plain)
          else Inr plain)"

subsection \<open>Stream profiles on the wire\<close>

datatype profile_kind = KRedirect | KProxy | KTranscode

definition profile_kind_of :: "stream_profile_row \<Rightarrow> profile_kind" where
  "profile_kind_of p = (if is_redirect p then KRedirect else if is_proxy p then KProxy else KTranscode)"

record profile_ref =
  ref_id :: int
  ref_command :: string
  ref_args :: string
  ref_kind :: profile_kind
  ref_argv :: "string list option"

definition stream_profile_ref ::
  "playback \<Rightarrow> stream_profile_row \<Rightarrow> string \<Rightarrow> string \<Rightarrow> int option \<Rightarrow> profile_ref" where
  "stream_profile_ref C p url user_agent pk =
     \<lparr>ref_id = sp_id p, ref_command = sp_command p, ref_args = sp_parameters p, ref_kind = profile_kind_of p,
      ref_argv = map_option tl
        (build_command p url (if user_agent = [] then pb_relay_user_agent C else user_agent) pk)\<rparr>"

definition locked_ffmpeg_profile :: "playback \<Rightarrow> stream_profile_row option" where
  "locked_ffmpeg_profile C = find (\<lambda>p. sp_name p = ''ffmpeg'' \<and> sp_locked p) (pb_stream_profiles C)"

definition locked_ffmpeg_ref :: "playback \<Rightarrow> string \<Rightarrow> string \<Rightarrow> int option \<Rightarrow> profile_ref option" where
  "locked_ffmpeg_ref C url user_agent pk =
     map_option (\<lambda>p. stream_profile_ref C p url user_agent pk) (locked_ffmpeg_profile C)"

definition or_default_profile :: "playback \<Rightarrow> stream_profile_row option \<Rightarrow> model_error + stream_profile_row" where
  "or_default_profile C own =
     (case own of
        Some p \<Rightarrow> Inr p
      | None \<Rightarrow>
          (case find (\<lambda>p. sp_id p = pb_default_profile C) (pb_stream_profiles C) of
             Some p \<Rightarrow> Inr p
           | None \<Rightarrow> Inl DoesNotExist))"

definition channel_get_stream_profile :: "playback \<Rightarrow> channel_row \<Rightarrow> model_error + stream_profile_row" where
  "channel_get_stream_profile C ch = or_default_profile C (pb_channel_profile C (chan_pk ch))"

definition stream_get_stream_profile :: "playback \<Rightarrow> stream_row \<Rightarrow> model_error + stream_profile_row" where
  "stream_get_stream_profile C s = or_default_profile C (pb_stream_profile C (stream_pk s))"

definition needs_transcode :: "stream_profile_row \<Rightarrow> bool" where
  "needs_transcode p \<longleftrightarrow> \<not> (is_proxy p \<or> is_redirect p)"

definition channel_stream_profile_ref ::
  "playback \<Rightarrow> channel_row \<Rightarrow> string \<Rightarrow> string \<Rightarrow> model_error + (bool \<times> profile_ref \<times> profile_ref option)" where
  "channel_stream_profile_ref C ch url user_agent =
     (case channel_get_stream_profile C ch of
        Inl e \<Rightarrow> Inl e
      | Inr p \<Rightarrow> Inr (needs_transcode p, stream_profile_ref C p url user_agent (Some (chan_pk ch)),
                     locked_ffmpeg_ref C url user_agent (Some (chan_pk ch))))"

definition get_user_agent_string :: "playback \<Rightarrow> m3u_account \<Rightarrow> string" where
  "get_user_agent_string C account =
     (if opt_text (acc_user_agent account) \<noteq> [] then opt_text (acc_user_agent account)
      else pb_default_user_agent C)"

subsection \<open>Looking rows up\<close>

datatype played = PlayedChannel channel_row | PlayedStream stream_row

definition channel_by_uuid :: "playback \<Rightarrow> string \<Rightarrow> channel_row option" where
  "channel_by_uuid C i = find (\<lambda>ch. chan_uuid ch = i) (db_channels (pb_db C))"

definition stream_by_hash :: "playback \<Rightarrow> string \<Rightarrow> stream_row option" where
  "stream_by_hash C i = find (\<lambda>s. stream_hash s = Some i) (db_streams (pb_db C))"

definition stream_by_pk :: "playback \<Rightarrow> int \<Rightarrow> stream_row option" where
  "stream_by_pk C i = find (\<lambda>s. stream_pk s = i) (db_streams (pb_db C))"

definition get_stream_object :: "playback \<Rightarrow> string \<Rightarrow> played option" where
  "get_stream_object C i =
     (case channel_by_uuid C i of
        Some ch \<Rightarrow> Some (PlayedChannel ch)
      | None \<Rightarrow> map_option PlayedStream (stream_by_hash C i))"

subsection \<open>The order of the candidates\<close>

record alternate =
  alt_stream :: int
  alt_profile :: int
  alt_name :: string

text \<open>\<open>list.index\<close>, \<open>None\<close> where it raises.\<close>

fun index_of :: "'a list \<Rightarrow> 'a \<Rightarrow> nat option" where
  "index_of [] x = None"
| "index_of (y # ys) x = (if y = x then Some 0 else map_option Suc (index_of ys x))"

definition order_alternates_from_current ::
  "alternate list \<Rightarrow> int list \<Rightarrow> int option \<Rightarrow> alternate list" where
  "order_alternates_from_current alternates ordered current =
     (case current of
        None \<Rightarrow> alternates
      | Some c \<Rightarrow>
          if alternates = [] \<or> ordered = [] then alternates
          else
            (case index_of ordered c of
               None \<Rightarrow> alternates
             | Some k \<Rightarrow>
                 let by_id = map_of (rev (map (\<lambda>a. (alt_stream a, a)) alternates)) in
                 List.map_filter (\<lambda>off. by_id (ordered ! ((k + off) mod length ordered)))
                   [1..<length ordered]))"

subsection \<open>A profile for a switch\<close>

text \<open>
  Whether the channel already plays on the profile, read from the two pointers; \<open>int\<close> of the
  profile pointer raises on a value that is no integer.
\<close>

definition stored_stream_profile :: "redis \<Rightarrow> rval \<Rightarrow> rval option" where
  "stored_stream_profile r v =
     (case v of
        RInt s \<Rightarrow> rget r (stream_profile_key s)
      | RText t \<Rightarrow> rget r (''stream_profile:'' @ t)
      | RDec _ \<Rightarrow> None)"

definition channel_using_profile :: "redis \<Rightarrow> channel_row \<Rightarrow> m3u_profile \<Rightarrow> model_error + bool" where
  "channel_using_profile r ch p =
     (case rget r (channel_stream_key (chan_pk ch)) of
        None \<Rightarrow> Inr False
      | Some v \<Rightarrow>
          if \<not> truthy (Some v) then Inr False
          else
            let existing = stored_stream_profile r v in
            if \<not> truthy existing then Inr False
            else (case py_int existing of
                    None \<Rightarrow> Inl ValueError
                  | Some i \<Rightarrow> Inr (i = prof_id p)))"

fun select_profile ::
  "libs \<Rightarrow> database \<Rightarrow> redis \<Rightarrow> channel_row \<Rightarrow> m3u_profile list \<Rightarrow> model_error + m3u_profile option" where
  "select_profile L db r ch [] = Inr None"
| "select_profile L db r ch (p # ps) =
     (case channel_using_profile r ch p of
        Inl e \<Rightarrow> Inl e
      | Inr already \<Rightarrow>
          if profile_available_for_channel_switch L db p r already then Inr (Some p)
          else select_profile L db r ch ps)"

definition alternate_of ::
  "libs \<Rightarrow> database \<Rightarrow> redis \<Rightarrow> channel_row \<Rightarrow> int option \<Rightarrow> stream_row \<Rightarrow> alternate option" where
  "alternate_of L db r ch current s =
     (if current = Some (stream_pk s) \<and> stream_pk s \<noteq> 0 then None
      else (case select_profile L db r ch (stream_profiles db s) of
              Inr (Some p) \<Rightarrow>
                Some \<lparr>alt_stream = stream_pk s, alt_profile = prof_id p, alt_name = stream_name s\<rparr>
            | _ \<Rightarrow> None))"

definition get_alternate_streams :: "playback \<Rightarrow> redis \<Rightarrow> string \<Rightarrow> int option \<Rightarrow> alternate list" where
  "get_alternate_streams C r identifier current =
     (case get_stream_object C identifier of
        Some (PlayedChannel ch) \<Rightarrow>
          order_alternates_from_current
            (List.map_filter (alternate_of (pb_libs C) (pb_db C) r ch current) (chan_streams ch))
            (map stream_pk (chan_streams ch)) current
      | _ \<Rightarrow> [])"

subsection \<open>One source for a switch\<close>

record stream_info =
  info_url :: string
  info_user_agent :: string
  info_transcode :: bool
  info_stream_profile :: int
  info_stream_id :: int
  info_m3u_profile_id :: int
  info_stream_name :: string
  info_channel_name :: string
  info_m3u_profile_name :: string
  info_channel_pk :: int

text \<open>The part after a stream and a profile are chosen; every failure is an exception.\<close>

definition switch_info ::
  "playback \<Rightarrow> channel_row \<Rightarrow> int \<Rightarrow> int \<Rightarrow> model_error + stream_info" where
  "switch_info C ch stream_id m3u_profile_id =
     (case (stream_by_pk C stream_id, profile_by_id (pb_db C) m3u_profile_id) of
        (Some s, Some p) \<Rightarrow>
          (case resolve_live_stream_url (pb_libs C) s (prof_account p) p of
             Inl e \<Rightarrow> Inl e
           | Inr url \<Rightarrow>
               (case channel_get_stream_profile C ch of
                  Inl e \<Rightarrow> Inl e
                | Inr sp \<Rightarrow>
                    Inr \<lparr>info_url = url, info_user_agent = get_user_agent_string C (prof_account p),
                         info_transcode = needs_transcode sp, info_stream_profile = sp_id sp,
                         info_stream_id = stream_id, info_m3u_profile_id = m3u_profile_id,
                         info_stream_name = stream_name s, info_channel_name = chan_name ch,
                         info_m3u_profile_name = prof_name p, info_channel_pk = chan_pk ch\<rparr>))
      | _ \<Rightarrow> Inl DoesNotExist)"

text \<open>The stream and profile a switch to one stream uses; nothing is reserved.\<close>

definition switch_target ::
  "playback \<Rightarrow> redis \<Rightarrow> channel_row \<Rightarrow> int \<Rightarrow> answer_error + int" where
  "switch_target C r ch target =
     (case stream_by_pk C target of
        None \<Rightarrow> Inl (Exn DoesNotExist)
      | Some s \<Rightarrow>
          (case stream_account s of
             None \<Rightarrow> Inl (Text ''Stream has no M3U account'')
           | Some account \<Rightarrow>
               (case default_first (filter prof_is_active (account_profiles (pb_db C) account)) of
                  None \<Rightarrow> Inl (Text ''M3U account has no default profile'')
                | Some profiles \<Rightarrow>
                    (case select_profile (pb_libs C) (pb_db C) r ch profiles of
                       Inl e \<Rightarrow> Inl (Exn e)
                     | Inr None \<Rightarrow> Inl (Text ''No profiles available with connection capacity'')
                     | Inr (Some p) \<Rightarrow> Inr (prof_id p)))))"

definition get_stream_info_for_switch ::
  "playback \<Rightarrow> redis \<Rightarrow> relay_error + channel_snapshot \<Rightarrow> string \<Rightarrow> int option
   \<Rightarrow> redis \<times> (answer_error + stream_info)" where
  "get_stream_info_for_switch C r snapshot channel_id target =
     (case channel_by_uuid C channel_id of
        None \<Rightarrow> (r, Inl (Exn DoesNotExist))
      | Some ch \<Rightarrow>
          if target \<noteq> None \<and> target \<noteq> Some 0 then
            (case switch_target C r ch (the target) of
               Inl e \<Rightarrow> (r, Inl e)
             | Inr profile_id \<Rightarrow>
                 (case switch_info C ch (the target) profile_id of
                    Inl e \<Rightarrow> (r, Inl (Exn e))
                  | Inr info \<Rightarrow> (r, Inr info)))
          else
            (case channel_get_stream (pb_libs C) (pb_db C) r ch snapshot of
               (r1, Inl e) \<Rightarrow> (r1, Inl (Exn e))
             | (r1, Inr (Refused reason)) \<Rightarrow> (r1, Inl (Text reason))
             | (r1, Inr (Assigned stream_id profile_id slot_reserved)) \<Rightarrow>
                 (case switch_info C ch stream_id profile_id of
                    Inr info \<Rightarrow> (r1, Inr info)
                  | Inl e \<Rightarrow>
                      if slot_reserved then
                        (case channel_release_stream r1 ch of
                           (r2, Inl e2) \<Rightarrow> (r2, Inl (Raised e2))
                         | (r2, Inr _) \<Rightarrow> (r2, Inl (Exn e)))
                      else (r1, Inl (Exn e)))))"

subsection \<open>Answers\<close>

record source =
  src_stream_id :: int
  src_url :: string
  src_user_agent :: string
  src_transcode :: bool
  src_stream_profile :: profile_ref
  src_m3u_profile_id :: int
  src_slot_reserved :: bool
  src_channel_name :: string
  src_stream_name :: string
  src_m3u_profile_name :: string
  src_ffmpeg :: "profile_ref option"

record answer =
  ans_source :: "source option"
  ans_error :: "answer_error option"
  ans_capacity :: "int list option"
  ans_alternates :: "source list"
  ans_settings :: "(string \<times> string) list"
  ans_output_profiles :: "(string \<times> int \<times> string list option) list"
  ans_hls :: "(int \<times> string) option"

definition bare_answer :: "source option \<Rightarrow> answer_error option \<Rightarrow> answer" where
  "bare_answer s e = \<lparr>ans_source = s, ans_error = e, ans_capacity = None, ans_alternates = [],
     ans_settings = [], ans_output_profiles = [], ans_hls = None\<rparr>"

text \<open>A refusal, with the blocking profiles when every profile was full.\<close>

definition refusal :: "string \<Rightarrow> model_error + int list \<Rightarrow> answer" where
  "refusal reason blocking =
     (if reason = ALL_PROFILES_FULL then
        (case blocking of
           Inl e \<Rightarrow> bare_answer None (Some (Exn e))
         | Inr ids \<Rightarrow> (bare_answer None (Some (Text reason)))\<lparr>ans_capacity := Some ids\<rparr>)
      else bare_answer None (Some (Text reason)))"

text \<open>The source built for a reserved stream and profile, \<open>pk\<close> and name being the object's own.\<close>

definition build_source ::
  "playback \<Rightarrow> stream_row option \<Rightarrow> int \<Rightarrow> bool \<Rightarrow> model_error + stream_profile_row \<Rightarrow> int \<Rightarrow> string
   \<Rightarrow> model_error + source" where
  "build_source C stream profile_id slot_reserved stream_profile pk name =
     (case (stream, profile_by_id (pb_db C) profile_id) of
        (Some s, Some p) \<Rightarrow>
          (case resolve_live_stream_url (pb_libs C) s (prof_account p) p of
             Inl e \<Rightarrow> Inl e
           | Inr url \<Rightarrow>
               (case stream_profile of
                  Inl e \<Rightarrow> Inl e
                | Inr sp \<Rightarrow>
                    let ua = get_user_agent_string C (prof_account p) in
                    Inr \<lparr>src_stream_id = stream_pk s, src_url = url, src_user_agent = ua,
                         src_transcode = needs_transcode sp,
                         src_stream_profile = stream_profile_ref C sp url ua (Some pk),
                         src_m3u_profile_id = profile_id, src_slot_reserved = slot_reserved,
                         src_channel_name = name, src_stream_name = stream_name s,
                         src_m3u_profile_name = prof_name p,
                         src_ffmpeg = locked_ffmpeg_ref C url ua (Some pk)\<rparr>))
      | _ \<Rightarrow> Inl DoesNotExist)"

text \<open>
  The initial tune of a channel or of a previewed stream. A failure after a reservation gives
  the slot back; an exception of that release replaces the error.
\<close>

definition give_back_on_error ::
  "redis \<Rightarrow> bool \<Rightarrow> (redis \<Rightarrow> redis \<times> (model_error + bool)) \<Rightarrow> model_error \<Rightarrow> redis \<times> answer" where
  "give_back_on_error r slot_reserved release_it e =
     (if slot_reserved then
        (case release_it r of
           (r', Inl e2) \<Rightarrow> (r', bare_answer None (Some (Exn e2)))
         | (r', Inr _) \<Rightarrow> (r', bare_answer None (Some (Exn e))))
      else (r, bare_answer None (Some (Exn e))))"

definition resolve_preview :: "playback \<Rightarrow> redis \<Rightarrow> stream_row \<Rightarrow> redis \<times> answer" where
  "resolve_preview C r s =
     (if stream_account s = None then (r, bare_answer None (Some (Text ''Stream has no M3U account'')))
      else
        (case stream_get_stream (pb_libs C) (pb_db C) r s of
           (r1, Inl e) \<Rightarrow> (r1, bare_answer None (Some (Exn e)))
         | (r1, Inr (Refused reason)) \<Rightarrow>
             (r1, refusal reason (stream_blocking_profile_ids (pb_libs C) (pb_db C) r1 s))
         | (r1, Inr (Assigned stream_id profile_id slot_reserved)) \<Rightarrow>
             if stream_id = 0 \<or> profile_id = 0 then (r1, bare_answer None None)
             else
               (case build_source C (Some s) profile_id slot_reserved (stream_get_stream_profile C s)
                       (stream_pk s) (stream_name s) of
                  Inr source \<Rightarrow> (r1, bare_answer (Some source) None)
                | Inl e \<Rightarrow> give_back_on_error r1 slot_reserved (\<lambda>r. stream_release_stream r s) e)))"

definition resolve_channel ::
  "playback \<Rightarrow> redis \<Rightarrow> relay_error + channel_snapshot \<Rightarrow> channel_row \<Rightarrow> redis \<times> answer" where
  "resolve_channel C r snapshot ch =
     (case channel_get_stream (pb_libs C) (pb_db C) r ch snapshot of
        (r1, Inl e) \<Rightarrow> (r1, bare_answer None (Some (Exn e)))
      | (r1, Inr (Refused reason)) \<Rightarrow>
          (r1, refusal reason (Inr (channel_blocking_profile_ids (pb_libs C) (pb_db C) r1 ch)))
      | (r1, Inr (Assigned stream_id profile_id slot_reserved)) \<Rightarrow>
          if stream_id = 0 \<or> profile_id = 0 then (r1, bare_answer None None)
          else
            (case build_source C (stream_by_pk C stream_id) profile_id slot_reserved
                    (channel_get_stream_profile C ch) (chan_pk ch) (chan_name ch) of
               Inr source \<Rightarrow> (r1, bare_answer (Some source) None)
             | Inl e \<Rightarrow> give_back_on_error r1 slot_reserved (\<lambda>r. channel_release_stream r ch) e))"

definition resolve_initial_source ::
  "playback \<Rightarrow> redis \<Rightarrow> relay_error + channel_snapshot \<Rightarrow> string \<Rightarrow> redis \<times> answer" where
  "resolve_initial_source C r snapshot identifier =
     (case get_stream_object C identifier of
        None \<Rightarrow> (r, bare_answer None (Some (Exn DoesNotExist)))
      | Some (PlayedStream s) \<Rightarrow> resolve_preview C r s
      | Some (PlayedChannel ch) \<Rightarrow> resolve_channel C r snapshot ch)"

definition source_from_info :: "playback \<Rightarrow> stream_info \<Rightarrow> bool \<Rightarrow> model_error + source" where
  "source_from_info C info slot_reserved =
     (case find (\<lambda>p. sp_id p = info_stream_profile info) (pb_stream_profiles C) of
        None \<Rightarrow> Inl DoesNotExist
      | Some sp \<Rightarrow>
          Inr \<lparr>src_stream_id = info_stream_id info, src_url = info_url info,
               src_user_agent = info_user_agent info, src_transcode = info_transcode info,
               src_stream_profile = stream_profile_ref C sp (info_url info) (info_user_agent info)
                 (Some (info_channel_pk info)),
               src_m3u_profile_id = info_m3u_profile_id info, src_slot_reserved = slot_reserved,
               src_channel_name = info_channel_name info, src_stream_name = info_stream_name info,
               src_m3u_profile_name = info_m3u_profile_name info,
               src_ffmpeg = locked_ffmpeg_ref C (info_url info) (info_user_agent info)
                 (Some (info_channel_pk info))\<rparr>)"

fun alternates_from ::
  "playback \<Rightarrow> redis \<Rightarrow> relay_error + channel_snapshot \<Rightarrow> string \<Rightarrow> alternate list
   \<Rightarrow> redis \<times> (model_error + source list)" where
  "alternates_from C r snapshot identifier [] = (r, Inr [])"
| "alternates_from C r snapshot identifier (a # as) =
     (case get_stream_info_for_switch C r snapshot identifier (Some (alt_stream a)) of
        (r1, Inl (Raised e)) \<Rightarrow> (r1, Inl e)
      | (r1, Inl _) \<Rightarrow> alternates_from C r1 snapshot identifier as
      | (r1, Inr info) \<Rightarrow>
          (case source_from_info C info False of
             Inl e \<Rightarrow> (r1, Inl e)
           | Inr s \<Rightarrow>
               (case alternates_from C r1 snapshot identifier as of
                  (r2, Inl e) \<Rightarrow> (r2, Inl e)
                | (r2, Inr ss) \<Rightarrow> (r2, Inr (s # ss)))))"

definition resolve_alternates ::
  "playback \<Rightarrow> redis \<Rightarrow> relay_error + channel_snapshot \<Rightarrow> string \<Rightarrow> int \<Rightarrow> redis \<times> (model_error + source list)" where
  "resolve_alternates C r snapshot identifier current =
     alternates_from C r snapshot identifier (get_alternate_streams C r identifier (Some current))"

definition commit ::
  "playback \<Rightarrow> redis \<Rightarrow> string \<Rightarrow> stream_info \<Rightarrow> redis \<times> (model_error + source)" where
  "commit C r identifier info =
     (case get_stream_object C identifier of
        None \<Rightarrow> (r, Inl DoesNotExist)
      | Some (PlayedStream s) \<Rightarrow> (r, source_from_info C info False)
      | Some (PlayedChannel ch) \<Rightarrow>
          if info_m3u_profile_id info = 0 then (r, source_from_info C info False)
          else
            (case channel_update_stream_profile (pb_libs C) (pb_db C) r ch (info_m3u_profile_id info) of
               (r1, Inl e) \<Rightarrow> (r1, Inl e)
             | (r1, Inr moved) \<Rightarrow> (r1, source_from_info C info moved)))"

subsection \<open>The whole answer\<close>

definition with_proxy_settings :: "playback \<Rightarrow> answer \<Rightarrow> answer" where
  "with_proxy_settings C a = a\<lparr>ans_settings := dict_update (pb_class_defaults C) (pb_stored_settings C)\<rparr>"

definition output_entries :: "playback \<Rightarrow> (string \<times> int \<times> string list option) list" where
  "output_entries C =
     foldl (\<lambda>d p. dict_set d (show_int (op_id p)) (op_id p, output_build_command p)) []
       (filter (\<lambda>p. op_is_active p \<and> op_hls_mode p = []) (pb_output_profiles C))"

definition hls_entry :: "playback \<Rightarrow> int option \<Rightarrow> (int \<times> string) option" where
  "hls_entry C choice =
     map_option (\<lambda>p. (op_id p, op_hls_mode p))
       (find (\<lambda>p. op_is_active p \<and> op_hls_mode p \<noteq> [] \<and> Some (op_id p) = choice) (rev (pb_output_profiles C)))"

definition with_output_profiles :: "playback \<Rightarrow> int option \<Rightarrow> answer \<Rightarrow> answer" where
  "with_output_profiles C choice a =
     a\<lparr>ans_output_profiles := output_entries C, ans_hls := hls_entry C choice\<rparr>"

definition finish :: "playback \<Rightarrow> played \<Rightarrow> answer \<Rightarrow> answer" where
  "finish C obj a =
     with_output_profiles C (case obj of PlayedChannel ch \<Rightarrow> pb_hls_choice C (chan_pk ch) | PlayedStream _ \<Rightarrow> None)
       (with_proxy_settings C a)"

datatype failover_step = Next | Won stream_info | Failed model_error

text \<open>What the failover makes of one candidate.\<close>

definition failover_candidate ::
  "int list \<Rightarrow> string option \<Rightarrow> alternate \<Rightarrow> answer_error + stream_info \<Rightarrow> failover_step" where
  "failover_candidate excluded current_url a info =
     (case info of
        Inl (Raised e) \<Rightarrow> Failed e
      | Inl _ \<Rightarrow> Next
      | Inr i \<Rightarrow>
          if info_url i = [] then Next
          else if opt_text current_url \<noteq> [] \<and> Some (info_url i) = current_url then Next
          else Won i)"

fun failover ::
  "playback \<Rightarrow> redis \<Rightarrow> relay_error + channel_snapshot \<Rightarrow> string \<Rightarrow> int list \<Rightarrow> string option
   \<Rightarrow> alternate list \<Rightarrow> redis \<times> (model_error + source option)" where
  "failover C r snapshot identifier excluded current_url [] = (r, Inr None)"
| "failover C r snapshot identifier excluded current_url (a # as) =
     (if alt_stream a \<in> set excluded then failover C r snapshot identifier excluded current_url as
      else
        (case get_stream_info_for_switch C r snapshot identifier (Some (alt_stream a)) of
           (r1, info) \<Rightarrow>
             (case failover_candidate excluded current_url a info of
                Next \<Rightarrow> failover C r1 snapshot identifier excluded current_url as
              | Failed e \<Rightarrow> (r1, Inl e)
              | Won i \<Rightarrow>
                  (case commit C r1 identifier i of
                     (r2, Inl e) \<Rightarrow> (r2, Inl e)
                   | (r2, Inr s) \<Rightarrow> (r2, Inr (Some s))))))"

record source_request =
  rq_exclude :: "int list"
  rq_current_url :: "string option"
  rq_target :: "int option"
  rq_current_stream :: "int option"
  rq_reason :: string
  rq_include_alternates :: bool

definition is_failover_request :: "source_request \<Rightarrow> bool" where
  "is_failover_request q \<longleftrightarrow> rq_current_url q \<noteq> None \<or> rq_reason q = ''failover''"

definition resolve_source ::
  "playback \<Rightarrow> redis \<Rightarrow> relay_error + channel_snapshot \<Rightarrow> string \<Rightarrow> source_request
   \<Rightarrow> redis \<times> (model_error + answer)" where
  "resolve_source C r snapshot identifier q =
     (case get_stream_object C identifier of
        None \<Rightarrow> (r, Inl DoesNotExist)
      | Some obj \<Rightarrow>
          if rq_exclude q = [] \<and> rq_target q = None \<and> \<not> is_failover_request q then
            (let (r1, a) = resolve_initial_source C r snapshot identifier in
             case (ans_source a, obj) of
               (Some s, PlayedChannel ch) \<Rightarrow>
                 if rq_include_alternates q then
                   (case resolve_alternates C r1 snapshot identifier (src_stream_id s) of
                      (r2, Inl e) \<Rightarrow> (r2, Inl e)
                    | (r2, Inr alts) \<Rightarrow> (r2, Inr (finish C obj (a\<lparr>ans_alternates := alts\<rparr>))))
                 else (r1, Inr (finish C obj a))
             | _ \<Rightarrow> (r1, Inr (finish C obj a)))
          else
            (case rq_target q of
               Some target \<Rightarrow>
                 (case get_stream_info_for_switch C r snapshot identifier (Some target) of
                    (r1, Inl (Raised e)) \<Rightarrow> (r1, Inl e)
                  | (r1, Inl e) \<Rightarrow> (r1, Inr (finish C obj (bare_answer None (Some e))))
                  | (r1, Inr info) \<Rightarrow>
                      (case commit C r1 identifier info of
                         (r2, Inl e) \<Rightarrow> (r2, Inl e)
                       | (r2, Inr s) \<Rightarrow> (r2, Inr (finish C obj (bare_answer (Some s) None)))))
             | None \<Rightarrow>
                 (case failover C r snapshot identifier (rq_exclude q) (rq_current_url q)
                         (get_alternate_streams C r identifier (rq_current_stream q)) of
                    (r1, Inl e) \<Rightarrow> (r1, Inl e)
                  | (r1, Inr (Some s)) \<Rightarrow> (r1, Inr (finish C obj (bare_answer (Some s) None)))
                  | (r1, Inr None) \<Rightarrow>
                      (r1, Inr (finish C obj (bare_answer None
                         (Some (Text ''No alternate stream with available connections''))))))))"

subsection \<open>Releasing a source\<close>

text \<open>
  The channel's release, then the stream's, then the ids of the relay's own record. A release
  that raises counts as one that found nothing.
\<close>

definition released :: "redis \<times> (model_error + bool) \<Rightarrow> bool" where
  "released res \<longleftrightarrow> snd res = Inr True"

definition release_source ::
  "playback \<Rightarrow> redis \<Rightarrow> string \<Rightarrow> int option \<Rightarrow> int option \<Rightarrow> int option \<Rightarrow> redis \<times> bool" where
  "release_source C r identifier stream_id m3u_profile_id channel_pk =
     (let res1 = (case channel_by_uuid C identifier of
                    Some ch \<Rightarrow> channel_release_stream r ch | None \<Rightarrow> (r, Inr False)) in
      if released res1 then (fst res1, True)
      else
        let res2 = (case stream_by_hash C identifier of
                      Some s \<Rightarrow> stream_release_stream (fst res1) s | None \<Rightarrow> (fst res1, Inr False)) in
        if released res2 then (fst res2, True)
        else
          (case m3u_profile_id of
             None \<Rightarrow> (fst res2, False)
           | Some p \<Rightarrow>
               if p = 0 then (fst res2, False)
               else
                 let r3 = (case channel_pk of Some k \<Rightarrow> rdel (fst res2) (channel_stream_key k) | None \<Rightarrow> fst res2);
                     r4 = (case stream_id of Some s \<Rightarrow> rdel r3 (stream_profile_key s) | None \<Rightarrow> r3)
                 in (release_profile_slot r4 p, True)))"

end
