(* ===== verification/Source_Properties.thy ===== *)
theory Source_Properties
  imports Next_Source Channel_Properties
begin

section \<open>The next source: the properties\<close>

text \<open>
  The order of a failover, what it reserves, what a failed resolution leaves behind, the
  agreement of a source's fields, and the release by the relay's own record.
\<close>

subsection \<open>Switching without reserving\<close>

lemma switch_same_store:
  "target \<noteq> 0 \<Longrightarrow> fst (get_stream_info_for_switch C r snap i (Some target)) = r"
  by (auto simp: get_stream_info_for_switch_def split: option.split sum.split)

lemma switch_not_raised:
  "target \<noteq> 0 \<Longrightarrow> snd (get_stream_info_for_switch C r snap i (Some target)) \<noteq> Inl (Raised e)"
  by (auto simp: get_stream_info_for_switch_def switch_target_def split: option.split sum.split)

text \<open>What a failover may play on a candidate, if anything.\<close>

definition usable_info ::
  "playback \<Rightarrow> redis \<Rightarrow> relay_error + channel_snapshot \<Rightarrow> string \<Rightarrow> int list \<Rightarrow> string option \<Rightarrow> alternate
   \<Rightarrow> stream_info option" where
  "usable_info C r snap i excluded current_url a =
     (if alt_stream a \<in> set excluded then None
      else (case snd (get_stream_info_for_switch C r snap i (Some (alt_stream a))) of
              Inr info \<Rightarrow>
                if info_url info = [] \<or> opt_text current_url \<noteq> [] \<and> current_url = Some (info_url info)
                then None else Some info
            | Inl _ \<Rightarrow> None))"

definition commit_first :: "playback \<Rightarrow> redis \<Rightarrow> string \<Rightarrow> stream_info list \<Rightarrow> redis \<times> (model_error + source option)" where
  "commit_first C r i infos =
     (case infos of
        [] \<Rightarrow> (r, Inr None)
      | info # _ \<Rightarrow> (case commit C r i info of (r2, Inl e) \<Rightarrow> (r2, Inl e) | (r2, Inr s) \<Rightarrow> (r2, Inr (Some s))))"

lemma failover_first:
  assumes "\<forall>a \<in> set as. alt_stream a \<noteq> 0"
  shows "failover C r snap i excluded current_url as =
    commit_first C r i (List.map_filter (usable_info C r snap i excluded current_url) as)"
  using assms
proof (induction as)
  case (Cons a as)
  obtain res where g: "get_stream_info_for_switch C r snap i (Some (alt_stream a)) = (r, res)"
    using switch_same_store [of "alt_stream a" C r snap i] Cons.prems by (cases "get_stream_info_for_switch C r snap i (Some (alt_stream a))") auto
  have nr: "res \<noteq> Inl (Raised e)" for e
    using switch_not_raised [of "alt_stream a" C r snap i e] Cons.prems g by auto
  show ?case
  proof (cases "usable_info C r snap i excluded current_url a")
    case None
    have "alt_stream a \<in> set excluded \<or> failover_candidate excluded current_url a res = Next"
    proof (cases res)
      case (Inl e)
      with nr show ?thesis by (cases e) (auto simp: failover_candidate_def)
    next
      case (Inr info)
      with None g show ?thesis by (auto simp: usable_info_def failover_candidate_def split: if_splits)
    qed
    with None Cons g show ?thesis by (auto simp: List.map_filter_simps)
  next
    case (Some info)
    then have "alt_stream a \<notin> set excluded" "failover_candidate excluded current_url a res = Won info"
      by (auto simp: usable_info_def g failover_candidate_def split: if_splits sum.splits)
    with Some g show ?thesis by (simp add: List.map_filter_simps commit_first_def)
  qed
qed (simp add: List.map_filter_simps commit_first_def)

lemma alternates_same_store:
  assumes "\<forall>a \<in> set as. alt_stream a \<noteq> 0"
  shows "fst (alternates_from C r snap i as) = r"
  using assms
proof (induction as)
  case (Cons a as)
  obtain res where g: "get_stream_info_for_switch C r snap i (Some (alt_stream a)) = (r, res)"
    using switch_same_store [of "alt_stream a" C r snap i] Cons.prems by (cases "get_stream_info_for_switch C r snap i (Some (alt_stream a))") auto
  from Cons have "fst (alternates_from C r snap i as) = r" by simp
  then show ?case by (auto simp: g split: sum.split answer_error.split prod.split)
qed simp

subsection \<open>The rotation\<close>

lemma index_of_append: "c \<notin> set before \<Longrightarrow> index_of (before @ c # after) c = Some (length before)"
  by (induction before) auto

lemma rotated_ids:
  assumes "k = length before" and "n = length before + 1 + length after"
  shows "map (\<lambda>off. (before @ c # after) ! ((k + off) mod n)) [1..<n] = after @ before"
proof (rule nth_equalityI)
  fix j assume "j < length (map (\<lambda>off. (before @ c # after) ! ((k + off) mod n)) [1..<n])"
  then have j: "j < n - 1" by simp
  then have "map (\<lambda>off. (before @ c # after) ! ((k + off) mod n)) [1..<n] ! j
      = (before @ c # after) ! ((k + (1 + j)) mod n)" by simp
  also have "\<dots> = (after @ before) ! j"
  proof (cases "j < length after")
    case True
    then have "(k + (1 + j)) mod n = length before + Suc j" using assms by simp
    with True show ?thesis by (simp add: nth_append)
  next
    case False
    then have "k + (1 + j) = (j - length after) + n" and "j - length after < n" using assms j by simp_all
    then have "(k + (1 + j)) mod n = j - length after" by simp
    moreover have "j - length after < length before" using False assms j by linarith
    ultimately show ?thesis using False by (simp add: nth_append)
  qed
  finally show "map (\<lambda>off. (before @ c # after) ! ((k + off) mod n)) [1..<n] ! j = (after @ before) ! j" .
qed (simp add: assms del: upt_Suc)

lemma map_filter_map: "List.map_filter g (map f xs) = List.map_filter (g \<circ> f) xs"
  by (induction xs) (auto simp: List.map_filter_simps split: option.split)

lemma order_from_current_eq:
  assumes "c \<notin> set before" and "alternates \<noteq> []"
  shows "order_alternates_from_current alternates (before @ c # after) (Some c) =
    List.map_filter (map_of (rev (map (\<lambda>a. (alt_stream a, a)) alternates))) (after @ before)"
proof -
  let ?o = "before @ c # after" and ?by = "map_of (rev (map (\<lambda>a. (alt_stream a, a)) alternates))"
  have "List.map_filter (\<lambda>off. ?by (?o ! ((length before + off) mod length ?o))) [1..<length ?o]
      = List.map_filter ?by (map (\<lambda>off. ?o ! ((length before + off) mod length ?o)) [1..<length ?o])"
    by (simp add: map_filter_map comp_def del: upt_Suc)
  moreover have "map (\<lambda>off. ?o ! ((length before + off) mod length ?o)) [1..<length ?o] = after @ before"
    by (rule rotated_ids) simp_all
  ultimately show ?thesis
    using assms by (simp add: order_alternates_from_current_def index_of_append del: upt_Suc)
qed


lemma by_key_Some: "map_of (rev (map (\<lambda>a. (key a, a)) as)) k = Some a \<Longrightarrow> a \<in> set as \<and> key a = k"
  by (auto dest!: map_of_SomeD)

lemma by_key_dom: "map_of (rev (map (\<lambda>a. (key a, a)) as)) k \<noteq> None \<longleftrightarrow> k \<in> key ` set as"
  by (simp add: map_of_eq_None_iff image_image)

lemma map_filter_by_key:
  "map key (List.map_filter (map_of (rev (map (\<lambda>a. (key a, a)) as))) ks) = filter (\<lambda>k. k \<in> key ` set as) ks"
proof (induction ks)
  case (Cons k ks)
  show ?case
  proof (cases "map_of (rev (map (\<lambda>a. (key a, a)) as)) k")
    case None
    then have "k \<notin> key ` set as" using by_key_dom [of key as k] by simp
    with None Cons show ?thesis by (simp add: List.map_filter_simps)
  next
    case (Some a)
    with by_key_Some [OF Some] Cons show ?thesis by (auto simp: List.map_filter_simps)
  qed
qed (simp add: List.map_filter_simps)

lemma alternate_of_stream: "alternate_of L db r ch cur s = Some a \<Longrightarrow> alt_stream a = stream_pk s"
  by (auto simp: alternate_of_def split: if_splits sum.splits option.splits)

lemma alternate_of_iff:
  "alternate_of L db r ch cur s \<noteq> None \<longleftrightarrow> \<not> (cur = Some (stream_pk s) \<and> stream_pk s \<noteq> 0)
     \<and> (\<exists>p. select_profile L db r ch (stream_profiles db s) = Inr (Some p))"
  by (auto simp: alternate_of_def split: sum.split option.split)

lemma alternates_in_channel:
  assumes "get_stream_object C i = Some (PlayedChannel ch)" and "\<forall>s \<in> set (chan_streams ch). stream_pk s \<noteq> 0"
  shows "\<forall>a \<in> set (get_alternate_streams C r i cur). alt_stream a \<noteq> 0"
proof -
  have base: "\<forall>a \<in> set (List.map_filter (alternate_of (pb_libs C) (pb_db C) r ch cur) (chan_streams ch)). alt_stream a \<noteq> 0"
    using assms(2) by (auto simp: set_map_filter dest!: alternate_of_stream)
  have "set (order_alternates_from_current as ids cur) \<subseteq> set as" for as ids
    by (auto simp: order_alternates_from_current_def set_map_filter Let_def split: option.splits if_splits
        dest!: map_of_SomeD)
  with base assms(1) show ?thesis by (auto simp: get_alternate_streams_def)
qed

text \<open>A failover starts after the stream that failed and wraps round: for a channel whose
  streams are listed once each, the candidates come in the channel's order from the one
  after the current stream to the one before it, and they are exactly the streams that
  offer a profile now, each once and none of them the current one.\<close>

theorem failover_starts_after_the_current:
  assumes "get_stream_object C i = Some (PlayedChannel ch)"
    and "map stream_pk (chan_streams ch) = before @ c # after" and "distinct (before @ c # after)" and "c \<noteq> 0"
  shows "map alt_stream (get_alternate_streams C r i (Some c))
    = filter (\<lambda>k. \<exists>s \<in> set (chan_streams ch). stream_pk s = k \<and>
        (\<exists>p. select_profile (pb_libs C) (pb_db C) r ch (stream_profiles (pb_db C) s) = Inr (Some p))) (after @ before)"
proof -
  let ?alt = "alternate_of (pb_libs C) (pb_db C) r ch (Some c)" and ?ss = "chan_streams ch"
  let ?alts = "List.map_filter ?alt ?ss"
    and ?offers = "\<lambda>s. \<exists>p. select_profile (pb_libs C) (pb_db C) r ch (stream_profiles (pb_db C) s) = Inr (Some p)"
  have nc: "c \<notin> set before" "c \<notin> set after" using assms(3) by auto
  have mem: "k \<in> alt_stream ` set ?alts \<longleftrightarrow> (\<exists>s \<in> set ?ss. stream_pk s = k \<and> ?offers s)"
    if "k \<in> set (after @ before)" for k
  proof
    assume "k \<in> alt_stream ` set ?alts"
    then obtain s a where "s \<in> set ?ss" "?alt s = Some a" "alt_stream a = k" by (auto simp: set_map_filter)
    with alternate_of_stream [of "pb_libs C" "pb_db C" r ch "Some c" s a]
      alternate_of_iff [of "pb_libs C" "pb_db C" r ch "Some c" s]
    show "\<exists>s \<in> set ?ss. stream_pk s = k \<and> ?offers s" by auto
  next
    assume "\<exists>s \<in> set ?ss. stream_pk s = k \<and> ?offers s"
    then obtain s where s: "s \<in> set ?ss" "stream_pk s = k" "?offers s" by blast
    have "k \<noteq> c" using that nc by auto
    with s alternate_of_iff [of "pb_libs C" "pb_db C" r ch "Some c" s] obtain a where a: "?alt s = Some a" by auto
    with alternate_of_stream [OF a] s(1,2) show "k \<in> alt_stream ` set ?alts" by (force simp: set_map_filter)
  qed
  have "map alt_stream (order_alternates_from_current ?alts (before @ c # after) (Some c))
      = filter (\<lambda>k. k \<in> alt_stream ` set ?alts) (after @ before)"
  proof (cases "?alts = []")
    case True
    then show ?thesis by (simp add: order_alternates_from_current_def)
  next
    case False
    show ?thesis unfolding order_from_current_eq [OF nc(1) False] by (rule map_filter_by_key)
  qed
  also have "\<dots> = filter (\<lambda>k. \<exists>s \<in> set ?ss. stream_pk s = k \<and> ?offers s) (after @ before)"
    using mem by (intro filter_cong) auto
  finally show ?thesis by (simp add: get_alternate_streams_def assms(1,2))
qed

text \<open>The demonstration: two streams of one account on one channel.\<close>

definition demo_second :: stream_row where
  "demo_second = demo_stream\<lparr>stream_pk := 6, stream_name := ''news 2'', stream_url := Some ''http://p/live2''\<rparr>"

definition demo_pair :: channel_row where
  "demo_pair = demo_channel\<lparr>chan_streams := [demo_stream, demo_second]\<rparr>"

definition proxy_row :: stream_profile_row where
  "proxy_row = \<lparr>sp_id = 1, sp_name = ''Proxy'', sp_locked = True, sp_command = [], sp_parameters = []\<rparr>"

definition demo_playback :: playback where
  "demo_playback = \<lparr>pb_libs = demo_libs,
     pb_db = demo_db\<lparr>db_streams := [demo_stream, demo_second], db_channels := [demo_pair]\<rparr>,
     pb_stream_profiles = [proxy_row], pb_channel_profile = (\<lambda>i. None), pb_stream_profile = (\<lambda>i. None),
     pb_default_profile = 1, pb_output_profiles = [], pb_hls_choice = (\<lambda>i. None),
     pb_default_user_agent = ''VLC'', pb_relay_user_agent = ''VLC'', pb_class_defaults = [],
     pb_stored_settings = []\<rparr>"

lemma demo_lookup:
  "get_stream_object demo_playback ''uuid3'' = Some (PlayedChannel demo_pair)"
  "map stream_pk (chan_streams demo_pair) = [] @ 5 # [6]"
  by code_simp+

lemma failover_order_witness:
  "map alt_stream (get_alternate_streams demo_playback empty_redis ''uuid3'' (Some 5))
    = filter (\<lambda>k. \<exists>s \<in> set (chan_streams demo_pair). stream_pk s = k \<and>
        (\<exists>p. select_profile demo_libs (pb_db demo_playback) empty_redis demo_pair (stream_profiles (pb_db demo_playback) s)
           = Inr (Some p))) ([6] @ [])"
proof -
  have "distinct ([] @ 5 # [6 :: int])" by simp
  from failover_starts_after_the_current [OF demo_lookup this, of empty_redis]
  show ?thesis by (simp add: demo_playback_def)
qed

text \<open>C24. A failover answers with the first candidate it may use and moves nothing else: it
  skips the streams the relay has tried, those without a free profile or a URL, and the one
  whose URL is already playing; only the winner's commit touches the store, and without a
  winner the store is as it was and the answer names no source.\<close>

theorem failover_takes_first_usable:
  assumes "get_stream_object C i = Some (PlayedChannel ch)" and "\<forall>s \<in> set (chan_streams ch). stream_pk s \<noteq> 0"
    and "rq_target q = None" and "is_failover_request q \<or> rq_exclude q \<noteq> []"
  shows "resolve_source C r snap i q =
    (case List.map_filter (usable_info C r snap i (rq_exclude q) (rq_current_url q))
            (get_alternate_streams C r i (rq_current_stream q)) of
       [] \<Rightarrow> (r, Inr (finish C (PlayedChannel ch) (bare_answer None
               (Some (Text ''No alternate stream with available connections'')))))
     | info # _ \<Rightarrow>
         (case commit C r i info of
            (r2, Inl e) \<Rightarrow> (r2, Inl e)
          | (r2, Inr s) \<Rightarrow> (r2, Inr (finish C (PlayedChannel ch) (bare_answer (Some s) None)))))"
proof -
  let ?as = "get_alternate_streams C r i (rq_current_stream q)"
  have "resolve_source C r snap i q = (case failover C r snap i (rq_exclude q) (rq_current_url q) ?as of
       (r1, Inl e) \<Rightarrow> (r1, Inl e)
     | (r1, Inr (Some s)) \<Rightarrow> (r1, Inr (finish C (PlayedChannel ch) (bare_answer (Some s) None)))
     | (r1, Inr None) \<Rightarrow> (r1, Inr (finish C (PlayedChannel ch) (bare_answer None
                (Some (Text ''No alternate stream with available connections''))))))"
    using assms(3,4) by (auto simp: resolve_source_def assms(1))
  then show ?thesis
    unfolding failover_first [OF alternates_in_channel [OF assms(1,2)]]
    by (simp add: commit_first_def split: list.split prod.split sum.split)
qed

definition demo_failover :: source_request where
  "demo_failover = \<lparr>rq_exclude = [5, 6], rq_current_url = None, rq_target = None, rq_current_stream = Some 5,
     rq_reason = ''failover'', rq_include_alternates = False\<rparr>"

lemma failover_witness:
  "resolve_source demo_playback empty_redis (Inl Misconfigured) ''uuid3'' demo_failover
    = (empty_redis, Inr (finish demo_playback (PlayedChannel demo_pair) (bare_answer None
                (Some (Text ''No alternate stream with available connections'')))))"
proof -
  have pk: "\<forall>s \<in> set (chan_streams demo_pair). stream_pk s \<noteq> 0"
    using demo_lookup(2) by (auto simp: image_iff) 
  have "\<forall>a \<in> set (get_alternate_streams demo_playback empty_redis ''uuid3'' (Some 5)). alt_stream a \<in> {5, 6}"
    by code_simp
  then have "List.map_filter (usable_info demo_playback empty_redis (Inl Misconfigured) ''uuid3'' [5, 6] None)
      (get_alternate_streams demo_playback empty_redis ''uuid3'' (Some 5)) = []"
    by (auto simp: List.map_filter_def usable_info_def filter_empty_conv)
  then show ?thesis
    using failover_takes_first_usable [OF demo_lookup(1) pk, of demo_failover empty_redis "Inl Misconfigured"]
    by (simp add: demo_failover_def is_failover_request_def)
qed

subsection \<open>A failed tune\<close>

lemma unassigned_outcome:
  assumes "slot_wf r" and "limits_ok db" and "py_int (rget r (channel_stream_key (chan_pk ch))) = None"
    and "\<forall>s \<in> set (chan_streams ch). stream_pk s \<noteq> 0" and "\<forall>p \<in> set (db_profiles db). prof_id p \<noteq> 0"
  obtains reason where "channel_get_stream L db r ch snap = (r, Inr (Refused reason))"
  | r1 s i where "channel_get_stream L db r ch snap = (r1, Inr (Assigned s i True))" "s \<noteq> 0" "i \<noteq> 0"
proof (cases "chan_streams ch = []")
  case True
  then show ?thesis using that(1) by (simp add: channel_get_stream_def)
next
  case False
  note g = unassigned_get_stream [OF assms(1,2) False assms(3), of L snap]
  show ?thesis
  proof (cases "find (free_candidate L db r) (candidates db (chan_streams ch))")
    case None
    with g that(1) show ?thesis by simp
  next
    case (Some sp)
    obtain s p where sp: "sp = (s, p)" by (cases sp)
    from find_Some_in [OF Some] sp have "s \<in> set (chan_streams ch)" "p \<in> set (db_profiles db)"
      using stream_profiles_in_db by (auto simp: candidates_def)
    with assms(4,5) have "stream_pk s \<noteq> 0" "prof_id p \<noteq> 0" by auto
    with g Some sp that(2) show ?thesis by simp
  qed
qed

text \<open>C27. A tune that ends without a source leaves every provider counter as it was: a
  refusal touches none, and when building the answer fails after a slot was reserved, be it
  a missing row, a bad server URL or no stream profile, the slot is given back. This holds
  for a channel with no assignment stored in a well-formed keyspace where no counter is negative, no
  release pointer is left over and every profile is limited or is unlimited with its own counter at
  zero; the ids of profiles and streams are not zero.\<close>

theorem failed_tune_keeps_every_counter:
  assumes wf: "slot_wf r" and nonneg: "\<And>k. is_counter_key k \<Longrightarrow> 0 \<le> slot_read r k"
    and fresh: "\<And>i. rget r (profile_credential_release_key i) = None"
    and settled: "counters_settled (pb_db C) r"
    and pid: "\<forall>p \<in> set (db_profiles (pb_db C)). prof_id p \<noteq> 0"
    and ids: "\<forall>s \<in> set (chan_streams ch). stream_pk s \<noteq> 0"
    and unassigned: "py_int (rget r (channel_stream_key (chan_pk ch))) = None"
    and found: "get_stream_object C i = Some (PlayedChannel ch)"
    and tune: "resolve_initial_source C r snap i = (r1, a)" and no_source: "ans_source a = None"
  shows "is_counter_key k \<Longrightarrow> slot_read r1 k = slot_read r k"
proof -
  assume k: "is_counter_key k"
  have lim: "limits_ok (pb_db C)" using settled by (auto simp: counters_settled_def limits_ok_def valid_limit_def)
  have res: "resolve_channel C r snap ch = (r1, a)" using tune found by (simp add: resolve_initial_source_def)
  show ?thesis
  proof (cases rule: unassigned_outcome [OF wf lim unassigned ids pid, of "pb_libs C" snap])
    case (1 reason)
    with res show ?thesis by (simp add: resolve_channel_def)
  next
    case (2 r2 s j)
    obtain e where e: "build_source C (stream_by_pk C s) j True (channel_get_stream_profile C ch) (chan_pk ch) (chan_name ch) = Inl e"
      using res no_source 2 by (auto simp: resolve_channel_def bare_answer_def split: sum.splits)
    obtain r3 where r3: "channel_release_stream r2 ch = (r3, Inr True)"
      and same: "\<forall>k. is_counter_key k \<longrightarrow> slot_read r3 k = slot_read r k"
      using tune_release [OF wf nonneg fresh settled unassigned 2(1)] by blast
    have "r1 = r3" using res 2 e r3 by (simp add: resolve_channel_def give_back_on_error_def)
    with same k show ?thesis by simp
  qed
qed

definition broken_playback :: playback where
  "broken_playback = demo_playback\<lparr>pb_stream_profiles := []\<rparr>"

lemma failed_tune_witness:
  "ans_source (snd (resolve_initial_source broken_playback empty_redis (Inl Misconfigured) ''uuid3'')) = None \<and>
   slot_read (fst (resolve_initial_source broken_playback empty_redis (Inl Misconfigured) ''uuid3'')) (profile_connections_key 11) = 0"
proof -
  obtain r1 a where res: "resolve_initial_source broken_playback empty_redis (Inl Misconfigured) ''uuid3'' = (r1, a)"
    by fastforce
  have found: "get_stream_object broken_playback ''uuid3'' = Some (PlayedChannel demo_pair)" by code_simp
  have none: "ans_source a = None"
  proof -
    have "ans_source (snd (resolve_initial_source broken_playback empty_redis (Inl Misconfigured) ''uuid3'')) = None"
      by code_simp
    with res show ?thesis by simp
  qed
  have ids: "\<forall>s \<in> set (chan_streams demo_pair). stream_pk s \<noteq> 0" using demo_lookup(2) by (auto simp: image_iff)
  have settled: "counters_settled (pb_db broken_playback) empty_redis"
    by (simp add: counters_settled_def broken_playback_def demo_playback_def demo_db_def)
  have profs: "\<forall>p \<in> set (db_profiles (pb_db broken_playback)). prof_id p \<noteq> 0"
    by (simp add: broken_playback_def demo_playback_def demo_db_def)
  have "slot_read r1 (profile_connections_key 11) = slot_read empty_redis (profile_connections_key 11)"
    by (rule failed_tune_keeps_every_counter [OF _ _ _ settled profs ids _ found res none]) simp_all
  with res none show ?thesis by simp
qed

subsection \<open>The fields of a source\<close>

definition rows_known :: "playback \<Rightarrow> bool" where
  "rows_known C \<longleftrightarrow> distinct (map sp_id (pb_stream_profiles C))
     \<and> (\<forall>i p. pb_channel_profile C i = Some p \<or> pb_stream_profile C i = Some p \<longrightarrow> p \<in> set (pb_stream_profiles C))"

definition source_agrees :: "source \<Rightarrow> bool" where
  "source_agrees s \<longleftrightarrow>
     (src_transcode s \<longleftrightarrow> ref_kind (src_stream_profile s) = KTranscode)
     \<and> (\<not> src_transcode s \<longrightarrow> ref_argv (src_stream_profile s) = Some [])"

lemma ref_agrees:
  "needs_transcode p \<longleftrightarrow> ref_kind (stream_profile_ref C p url ua pk) = KTranscode"
  "\<not> needs_transcode p \<Longrightarrow> ref_argv (stream_profile_ref C p url ua pk) = Some []"
  by (auto simp: needs_transcode_def stream_profile_ref_def profile_kind_of_def build_command_def)

lemma build_source_agrees:
  "build_source C s pid reserved sp pk name = Inr src \<Longrightarrow> source_agrees src"
  using ref_agrees by (auto simp: build_source_def Let_def source_agrees_def split: option.splits sum.splits)

lemma found_profile:
  assumes "rows_known C" and "channel_get_stream_profile C ch = Inr sp"
  shows "find (\<lambda>p. sp_id p = sp_id sp) (pb_stream_profiles C) = Some sp"
proof -
  have "sp \<in> set (pb_stream_profiles C)"
    using assms by (auto simp: channel_get_stream_profile_def or_default_profile_def rows_known_def
        dest: find_Some_in split: option.splits)
  with assms(1) have "p = sp" if "p \<in> set (pb_stream_profiles C)" "sp_id p = sp_id sp" for p
    using that by (auto simp: rows_known_def distinct_map dest: inj_onD)
  with \<open>sp \<in> _\<close> show ?thesis
    by (cases "find (\<lambda>p. sp_id p = sp_id sp) (pb_stream_profiles C)") (auto simp: find_None_iff dest: find_Some_in)
qed

lemma switch_info_profile:
  assumes "snd (get_stream_info_for_switch C r snap i t) = Inr info"
  obtains ch sp where "channel_get_stream_profile C ch = Inr sp" "info_stream_profile info = sp_id sp"
    "info_transcode info = needs_transcode sp"
proof -
  obtain ch s pid where "switch_info C ch s pid = Inr info"
    using assms
    by (auto simp: get_stream_info_for_switch_def split: option.splits sum.splits prod.splits assignment.splits if_splits)
  then show ?thesis using that by (auto simp: switch_info_def split: option.splits sum.splits)
qed

lemma info_source_agrees:
  assumes "rows_known C" and "snd (get_stream_info_for_switch C r snap i t) = Inr info"
    and "source_from_info C info reserved = Inr s"
  shows "source_agrees s"
proof -
  obtain ch sp where sp: "channel_get_stream_profile C ch = Inr sp" "info_stream_profile info = sp_id sp"
    "info_transcode info = needs_transcode sp" by (rule switch_info_profile [OF assms(2)])
  show ?thesis
    using assms(3) ref_agrees [of sp] sp(3)
    by (auto simp: source_from_info_def sp(2) found_profile [OF assms(1) sp(1)] source_agrees_def)
qed

lemma commit_agrees:
  assumes "rows_known C" and "snd (get_stream_info_for_switch C r snap i t) = Inr info"
    and "commit C r1 i info = (r2, Inr s)"
  shows "source_agrees s"
proof -
  have "\<exists>reserved. source_from_info C info reserved = Inr s"
    using assms(3) by (auto simp: commit_def split: option.splits played.splits if_splits prod.splits sum.splits)
  with info_source_agrees [OF assms(1,2)] show ?thesis by blast
qed

lemma alternates_agree:
  "rows_known C \<Longrightarrow> alternates_from C r snap i as = (r1, Inr ss) \<Longrightarrow> s \<in> set ss \<Longrightarrow> source_agrees s"
proof (induction as arbitrary: r r1 ss)
  case (Cons a as)
  obtain r' res where g: "get_stream_info_for_switch C r snap i (Some (alt_stream a)) = (r', res)" by fastforce
  show ?case
  proof (cases res)
    case (Inl e)
    then show ?thesis using Cons g by (cases e) auto
  next
    case (Inr info)
    then obtain s0 r2 ss0 where "source_from_info C info False = Inr s0"
      "alternates_from C r' snap i as = (r2, Inr ss0)" "ss = s0 # ss0"
      using Cons.prems(2) g by (auto split: sum.splits prod.splits)
    with Cons info_source_agrees [OF Cons.prems(1), of r snap i "Some (alt_stream a)" info False s0] g Inr
    show ?thesis by auto
  qed
qed simp

lemma failover_agrees:
  "rows_known C \<Longrightarrow> failover C r snap i ex url as = (r1, Inr (Some s)) \<Longrightarrow> source_agrees s"
proof (induction as arbitrary: r)
  case (Cons a as)
  obtain r' res where g: "get_stream_info_for_switch C r snap i (Some (alt_stream a)) = (r', res)" by fastforce
  show ?case
  proof (cases "alt_stream a \<in> set ex")
    case False
    show ?thesis
    proof (cases "failover_candidate ex url a res")
      case (Won info)
      then have "res = Inr info" by (auto simp: failover_candidate_def split: sum.splits answer_error.splits if_splits)
      with Cons.prems False Won g commit_agrees [OF Cons.prems(1), of r snap i "Some (alt_stream a)" info r']
      show ?thesis by (auto split: prod.splits sum.splits)
    qed (use Cons False g in auto)
  qed (use Cons in auto)
qed simp

lemma finish_sources [simp]:
  "ans_source (finish C obj a) = ans_source a" "ans_alternates (finish C obj a) = ans_alternates a"
  by (simp_all add: finish_def with_output_profiles_def with_proxy_settings_def)

lemma initial_agrees:
  assumes "resolve_initial_source C r snap i = (r1, a)"
  shows "ans_alternates a = [] \<and> (\<forall>s. ans_source a = Some s \<longrightarrow> source_agrees s)"
  using assms build_source_agrees
  by (auto simp: resolve_initial_source_def resolve_preview_def resolve_channel_def refusal_def bare_answer_def
      give_back_on_error_def split: option.splits played.splits prod.splits sum.splits assignment.splits if_splits)

text \<open>In every answer, the source and each alternate agree with themselves: the transcode
  flag says exactly that the stream profile is neither the proxy nor the redirect one, and a
  source that is not transcoded carries an empty command line, whether it came from a tune, a
  switch, a failover or the fallback list.\<close>

theorem sources_agree_on_transcoding:
  assumes "rows_known C" and "resolve_source C r snap i q = (r1, Inr a)"
    and "s \<in> set_option (ans_source a) \<union> set (ans_alternates a)"
  shows "(src_transcode s \<longleftrightarrow> ref_kind (src_stream_profile s) = KTranscode)
    \<and> (\<not> src_transcode s \<longrightarrow> ref_argv (src_stream_profile s) = Some [])"
proof -
  obtain obj where obj: "get_stream_object C i = Some obj"
    using assms(2) by (auto simp: resolve_source_def split: option.splits)
  have "source_agrees s"
  proof (cases "rq_exclude q = [] \<and> rq_target q = None \<and> \<not> is_failover_request q")
    case True
    obtain r0 a0 where init: "resolve_initial_source C r snap i = (r0, a0)" by fastforce
    note a0 = initial_agrees [OF init]
    show ?thesis
    proof (cases "\<exists>s0 ch. ans_source a0 = Some s0 \<and> obj = PlayedChannel ch \<and> rq_include_alternates q")
      case True
      with assms(2) obj init \<open>rq_exclude q = [] \<and> _\<close> obtain s0 alts where
        "resolve_alternates C r0 snap i (src_stream_id s0) = (r1, Inr alts)"
        "a = finish C obj (a0\<lparr>ans_alternates := alts\<rparr>)" "ans_source a0 = Some s0"
        by (auto simp: resolve_source_def split: sum.splits prod.splits)
      with assms(1,3) a0 alternates_agree show ?thesis by (auto simp: resolve_alternates_def)
    next
      case False
      with assms(2) obj init \<open>rq_exclude q = [] \<and> _\<close> have "a = finish C obj a0"
        by (auto simp: resolve_source_def split: option.splits played.splits if_splits)
      with assms(3) a0 show ?thesis by auto
    qed
  next
    case False
    show ?thesis
    proof (cases "rq_target q")
      case (Some t)
      obtain r0 res where g: "get_stream_info_for_switch C r snap i (Some t) = (r0, res)" by fastforce
      with assms(2,3) obj False Some obtain info r2 where "res = Inr info" "commit C r0 i info = (r2, Inr s)"
        by (cases res) (auto simp: resolve_source_def bare_answer_def split: answer_error.splits prod.splits sum.splits)
      with commit_agrees [OF assms(1), of r snap i "Some t" info] g show ?thesis by auto
    next
      case None
      with assms(2,3) obj False obtain r2 where
        "failover C r snap i (rq_exclude q) (rq_current_url q) (get_alternate_streams C r i (rq_current_stream q)) = (r2, Inr (Some s))"
        by (auto simp: resolve_source_def bare_answer_def split: prod.splits sum.splits option.splits)
      from failover_agrees [OF assms(1) this] show ?thesis .
    qed
  qed
  then show ?thesis by (simp add: source_agrees_def)
qed

definition demo_tune_request :: source_request where
  "demo_tune_request = \<lparr>rq_exclude = [], rq_current_url = None, rq_target = None, rq_current_stream = None,
     rq_reason = ''initial'', rq_include_alternates = True\<rparr>"

definition demo_answer :: answer where
  "demo_answer = (case snd (resolve_source demo_playback empty_redis (Inl Misconfigured) ''uuid3'' demo_tune_request) of
     Inr a \<Rightarrow> a | Inl e \<Rightarrow> bare_answer None None)"

lemma sources_agree_witness:
  "length (ans_alternates demo_answer) = 1 \<and>
     list_all (\<lambda>s. src_transcode s \<longleftrightarrow> ref_kind (src_stream_profile s) = KTranscode) (ans_alternates demo_answer)"
proof -
  have rows: "rows_known demo_playback" by (simp add: rows_known_def demo_playback_def proxy_row_def)
  have n: "length (ans_alternates demo_answer) = 1" by code_simp
  then obtain r1 where "resolve_source demo_playback empty_redis (Inl Misconfigured) ''uuid3'' demo_tune_request = (r1, Inr demo_answer)"
    by (cases "resolve_source demo_playback empty_redis (Inl Misconfigured) ''uuid3'' demo_tune_request")
      (auto simp: demo_answer_def bare_answer_def split: sum.splits)
  from sources_agree_on_transcoding [OF rows this] n show ?thesis unfolding list_all_iff by blast
qed

subsection \<open>Releasing by the relay's record\<close>

text \<open>The release by the relay's own ids is not limited to deleted channels: for a channel
  that still exists but has nothing to release, because its slot was already given back, it
  takes one more off the profile's counter, which is a slot some other stream holds.\<close>

theorem repeated_release_takes_another_slot:
  assumes "channel_by_uuid C i = Some ch" and "\<not> truthy (rget r (channel_stream_key (chan_pk ch)))"
    and "stream_by_hash C i = None" and "p \<noteq> 0" and "slot_wf r"
    and "rget r (profile_credential_release_key p) = None" and "0 < slot_read r (profile_connections_key p)"
  shows "snd (release_source C r i sid (Some p) pk) \<and>
    slot_read (fst (release_source C r i sid (Some p) pk)) (profile_connections_key p)
      = slot_read r (profile_connections_key p) - 1"
proof -
  let ?r3 = "case pk of Some k \<Rightarrow> rdel r (channel_stream_key k) | None \<Rightarrow> r"
  let ?r4 = "case sid of Some s \<Rightarrow> rdel ?r3 (stream_profile_key s) | None \<Rightarrow> ?r3"
  have rel: "release_source C r i sid (Some p) pk = (release_profile_slot ?r4 p, True)"
    using assms(1-4) by (simp add: release_source_def released_def channel_release_stream_def Let_def split: option.split)
  have refl: "same_slots t t" for t by (simp add: same_slots_def)
  have "same_slots r ?r3" by (cases pk) (simp_all add: refl)
  moreover have "same_slots ?r3 ?r4" by (cases sid) (simp_all add: refl)
  ultimately have same: "same_slots r ?r4" by (rule same_slots_trans)
  have "slot_read (release_profile_slot ?r4 p) (profile_connections_key p) = max 0 (slot_read ?r4 (profile_connections_key p) - 1)"
    using release_effect [OF same_slots_wf [OF same assms(5)], of "profile_connections_key p" p] by simp
  with rel assms(7) same_slots_read(3) [OF same, of "profile_connections_key p"] show ?thesis by simp
qed

lemma repeated_release_witness:
  "\<exists>r. slot_read r (profile_connections_key 11) = 1 \<and>
     slot_read (fst (release_source demo_playback r ''uuid3'' None (Some 11) None)) (profile_connections_key 11) = 0"
proof -
  let ?r = "slot_write empty_redis (profile_connections_key 11) 1"
  have c: "channel_by_uuid demo_playback ''uuid3'' = Some demo_pair" "stream_by_hash demo_playback ''uuid3'' = None"
    by code_simp+
  have r: "\<not> truthy (rget ?r (channel_stream_key (chan_pk demo_pair)))"
    "rget ?r (profile_credential_release_key 11) = None" by code_simp+
  have one: "slot_read ?r (profile_connections_key 11) = 1" by code_simp
  have "slot_wf ?r" by (rule slot_wf_write) simp_all
  from repeated_release_takes_another_slot [OF c(1) r(1) c(2) _ this r(2)] one
  show ?thesis by (intro exI [of _ ?r]) simp
qed

end
