(* ===== verification/Ip_Network.thy ===== *)
theory Ip_Network
  imports Urls "HOL-Library.Word"
begin

section \<open>Addresses and network access (dispatcharr/utils.py)\<close>

text \<open>
  Who a request comes from and whether its address may use an endpoint. Addresses are machine
  words; parsing follows the standard library's \<open>ipaddress\<close>, whose \<open>ValueError\<close> is \<open>None\<close>. A
  normalised address is a value of \<open>ip\<close> where the code passes \<open>str(ip)\<close> on and parses it
  again.
\<close>

unbundle bit_operations_syntax

subsection \<open>IPv4\<close>

text \<open>One octet: one to three digits, no leading zero, at most 255.\<close>

definition parse_octet :: "string \<Rightarrow> nat option" where
  "parse_octet s =
     (if all_digits s \<and> length s \<le> 3 \<and> (s = ''0'' \<or> hd s \<noteq> CHR ''0'') \<and> nat_of_digits s \<le> 255
      then Some (nat_of_digits s) else None)"

definition word_of_octets :: "nat \<Rightarrow> nat \<Rightarrow> nat \<Rightarrow> nat \<Rightarrow> 32 word" where
  "word_of_octets a b c d = of_nat (16777216 * a + 65536 * b + 256 * c + d)"

definition parse_ipv4 :: "string \<Rightarrow> 32 word option" where
  "parse_ipv4 s =
     (case split_on (CHR ''.'') s of
        [a, b, c, d] \<Rightarrow>
          (case (parse_octet a, parse_octet b, parse_octet c, parse_octet d) of
             (Some a, Some b, Some c, Some d) \<Rightarrow> Some (word_of_octets a b c d)
           | _ \<Rightarrow> None)
      | _ \<Rightarrow> None)"

definition show_ipv4 :: "32 word \<Rightarrow> string" where
  "show_ipv4 w =
     (let n = unat w in
      show_nat (n div 16777216) @ ''.'' @ show_nat (n div 65536 mod 256) @ ''.''
        @ show_nat (n div 256 mod 256) @ ''.'' @ show_nat (n mod 256))"

subsection \<open>IPv6\<close>

definition hex_value :: "char \<Rightarrow> nat option" where
  "hex_value c =
     (let n = (of_char c :: nat) in
      if 48 \<le> n \<and> n \<le> 57 then Some (n - 48)
      else if 65 \<le> n \<and> n \<le> 70 then Some (n - 55)
      else if 97 \<le> n \<and> n \<le> 102 then Some (n - 87)
      else None)"

text \<open>\<open>_parse_hextet\<close>: one to four hexadecimal digits.\<close>

definition parse_hextet :: "string \<Rightarrow> nat option" where
  "parse_hextet s =
     (if s \<noteq> [] \<and> length s \<le> 4 \<and> list_all (\<lambda>c. hex_value c \<noteq> None) s
      then Some (foldl (\<lambda>n c. 16 * n + the (hex_value c)) 0 s) else None)"

fun parse_hextets :: "string list \<Rightarrow> nat list option" where
  "parse_hextets [] = Some []"
| "parse_hextets (s # ss) =
     (case (parse_hextet s, parse_hextets ss) of (Some n, Some ns) \<Rightarrow> Some (n # ns) | _ \<Rightarrow> None)"

definition word_of_hextets :: "nat list \<Rightarrow> 128 word" where
  "word_of_hextets ns = of_nat (foldl (\<lambda>n h. 65536 * n + h) 0 ns)"

text \<open>An IPv4 suffix becomes two hextets, given by their values.\<close>

definition hextet_text :: "nat \<Rightarrow> string" where
  "hextet_text n =
     dropWhile (\<lambda>c. c = CHR ''0'')
       (map (\<lambda>d. ''0123456789abcdef'' ! d) [n div 4096, n div 256 mod 16, n div 16 mod 16])
     @ [''0123456789abcdef'' ! (n mod 16)]"

definition expand_suffix :: "string list \<Rightarrow> string list option" where
  "expand_suffix parts =
     (if CHR ''.'' \<in> set (last parts) then
        (case parse_ipv4 (last parts) of
           None \<Rightarrow> None
         | Some w \<Rightarrow> Some (butlast parts @ [hextet_text (unat w div 65536), hextet_text (unat w mod 65536)]))
      else Some parts)"

text \<open>The indices, ends excluded, of the empty parts: the place of \<open>::\<close>.\<close>

definition gaps :: "string list \<Rightarrow> nat list" where
  "gaps parts = filter (\<lambda>i. parts ! i = []) [1..<length parts - 1]"

definition parse_parts :: "string list \<Rightarrow> 128 word option" where
  "parse_parts parts =
     (case gaps parts of
        [] \<Rightarrow>
          if length parts = 8 \<and> hd parts \<noteq> [] \<and> last parts \<noteq> []
          then map_option word_of_hextets (parse_hextets parts) else None
      | [k] \<Rightarrow>
          let hi = (if hd parts = [] then k - 1 else k);
              lo = (if last parts = [] then length parts - k - 2 else length parts - k - 1)
          in if hd parts = [] \<and> hi \<noteq> 0 \<or> last parts = [] \<and> lo \<noteq> 0 \<or> 8 \<le> hi + lo then None
             else (case (parse_hextets (take hi parts), parse_hextets (drop (length parts - lo) parts)) of
                     (Some a, Some b) \<Rightarrow> Some (word_of_hextets (a @ replicate (8 - (hi + lo)) 0 @ b))
                   | _ \<Rightarrow> None)
      | _ \<Rightarrow> None)"

definition parse_ipv6_int :: "string \<Rightarrow> 128 word option" where
  "parse_ipv6_int s =
     (let parts = split_on (CHR '':'') s in
      if length parts < 3 then None
      else (case expand_suffix parts of
              None \<Rightarrow> None
            | Some parts \<Rightarrow> if 9 < length parts then None else parse_parts parts))"

text \<open>A scope follows a percent sign, is not empty and has no second one; a slash is refused.\<close>

definition parse_ipv6 :: "string \<Rightarrow> (128 word \<times> string option) option" where
  "parse_ipv6 s =
     (if CHR ''/'' \<in> set s then None
      else (case split_once (CHR ''%'') s of
              None \<Rightarrow> map_option (\<lambda>w. (w, None)) (parse_ipv6_int s)
            | Some (a, scope) \<Rightarrow>
                if scope = [] \<or> CHR ''%'' \<in> set scope then None
                else map_option (\<lambda>w. (w, Some scope)) (parse_ipv6_int a)))"

subsection \<open>Addresses\<close>

datatype ip = V4 "32 word" | V6 "128 word" "string option"

definition ip_address :: "string \<Rightarrow> ip option" where
  "ip_address s =
     (case parse_ipv4 s of
        Some w \<Rightarrow> Some (V4 w)
      | None \<Rightarrow> map_option (\<lambda>(w, scope). V6 w scope) (parse_ipv6 s))"

text \<open>\<open>ipv4_mapped\<close>: the address \<open>::ffff:a.b.c.d\<close> is \<open>a.b.c.d\<close>.\<close>

definition unmap :: "ip \<Rightarrow> ip" where
  "unmap a =
     (case a of
        V4 w \<Rightarrow> V4 w
      | V6 w scope \<Rightarrow> if drop_bit 32 w = 0xFFFF then V4 (ucast w) else V6 w scope)"

definition normalize_ip :: "string option \<Rightarrow> ip option" where
  "normalize_ip value =
     map_option unmap (ip_address (strip (case value of Some s \<Rightarrow> s | None \<Rightarrow> [])))"

subsection \<open>Networks\<close>

datatype network = Net4 "32 word" nat | Net6 "128 word" nat

definition netmask :: "nat \<Rightarrow> 'a::len word" where
  "netmask len = NOT (mask (LENGTH('a) - len))"

definition in_network :: "ip \<Rightarrow> network \<Rightarrow> bool" where
  "in_network a n \<longleftrightarrow>
     (case (a, n) of
        (V4 w, Net4 base len) \<Rightarrow> w AND netmask len = base
      | (V6 w _, Net6 base len) \<Rightarrow> w AND netmask len = base
      | _ \<Rightarrow> False)"

definition prefix_from_string :: "nat \<Rightarrow> string \<Rightarrow> nat option" where
  "prefix_from_string width s =
     (if all_digits s \<and> nat_of_digits s \<le> width then Some (nat_of_digits s) else None)"

text \<open>A netmask or, failing that, a host mask in dotted form.\<close>

definition prefix_of_mask :: "32 word \<Rightarrow> nat option" where
  "prefix_of_mask w = find (\<lambda>p. w = netmask p) [0..<33]"

definition prefix_from_ip_string :: "string \<Rightarrow> nat option" where
  "prefix_from_ip_string s =
     (case parse_ipv4 s of
        None \<Rightarrow> None
      | Some w \<Rightarrow> (case prefix_of_mask w of Some p \<Rightarrow> Some p | None \<Rightarrow> prefix_of_mask (NOT w)))"

definition make_network :: "bool \<Rightarrow> 'a::len word \<Rightarrow> nat \<Rightarrow> 'a word option" where
  "make_network strict w len =
     (if strict \<and> w AND netmask len \<noteq> w then None else Some (w AND netmask len))"

definition ip_network4 :: "bool \<Rightarrow> string \<Rightarrow> network option" where
  "ip_network4 strict s =
     (let parts = split_on (CHR ''/'') s in
      if 2 < length parts then None
      else (case parse_ipv4 (hd parts) of
              None \<Rightarrow> None
            | Some w \<Rightarrow>
                (case (if length parts = 1 then Some 32
                       else (case prefix_from_string 32 (parts ! 1) of
                               Some p \<Rightarrow> Some p | None \<Rightarrow> prefix_from_ip_string (parts ! 1))) of
                   None \<Rightarrow> None
                 | Some p \<Rightarrow> map_option (\<lambda>b. Net4 b p) (make_network strict w p))))"

definition ip_network6 :: "bool \<Rightarrow> string \<Rightarrow> network option" where
  "ip_network6 strict s =
     (let parts = split_on (CHR ''/'') s in
      if 2 < length parts then None
      else (case parse_ipv6 (hd parts) of
              None \<Rightarrow> None
            | Some (w, _) \<Rightarrow>
                (case (if length parts = 1 then Some 128 else prefix_from_string 128 (parts ! 1)) of
                   None \<Rightarrow> None
                 | Some p \<Rightarrow> map_option (\<lambda>b. Net6 b p) (make_network strict w p))))"

definition ip_network :: "bool \<Rightarrow> string \<Rightarrow> network option" where
  "ip_network strict s =
     (case ip_network4 strict s of Some n \<Rightarrow> Some n | None \<Rightarrow> ip_network6 strict s)"


subsection \<open>Who the client is\<close>

text \<open>The environment variable's value, \<open>None\<close> when it is not set.\<close>

record network_env =
  trusted_proxies :: "string option"
  setup_allowed_ip :: "string option"

definition LOCAL_NETWORK_CIDRS :: "string list" where
  "LOCAL_NETWORK_CIDRS = [''127.0.0.0/8'', ''10.0.0.0/8'', ''172.16.0.0/12'', ''192.168.0.0/16'',
     ''::1/128'', ''fc00::/7'', ''fe80::/10'']"

definition trusted_proxy_sources :: "network_env \<Rightarrow> string list" where
  "trusted_proxy_sources E =
     (case trusted_proxies E of
        None \<Rightarrow> [''127.0.0.0/8'', ''::1/128'']
      | Some value \<Rightarrow>
          let raw = strip value in
          if lower raw \<in> {[], ''none'', ''off'', ''false'', ''0''} then []
          else filter (\<lambda>p. p \<noteq> []) (map strip (split_on (CHR '','') raw)))"

definition trusted_proxy_networks :: "network_env \<Rightarrow> network list" where
  "trusted_proxy_networks E = List.map_filter (ip_network False) (trusted_proxy_sources E)"

definition ip_in_trusted :: "network_env \<Rightarrow> ip option \<Rightarrow> bool" where
  "ip_in_trusted E a = (case a of None \<Rightarrow> False | Some a \<Rightarrow> list_ex (in_network a) (trusted_proxy_networks E))"

record request_meta =
  remote_addr :: "string option"
  x_real_ip :: "string option"
  x_forwarded_for :: "string option"

datatype client_address = Unknown | Unparsed string | Address ip

definition forwarded_hops :: "request_meta \<Rightarrow> string list" where
  "forwarded_hops q =
     filter (\<lambda>h. h \<noteq> []) (map strip (split_on (CHR '','') (case x_forwarded_for q of Some s \<Rightarrow> s | None \<Rightarrow> [])))"

text \<open>The last hop that parses and is not itself a trusted proxy.\<close>

definition forwarded_client :: "network_env \<Rightarrow> string list \<Rightarrow> ip option" where
  "forwarded_client E hops =
     find (\<lambda>a. \<not> ip_in_trusted E (Some a)) (List.map_filter (\<lambda>h. normalize_ip (Some h)) (rev hops))"

definition get_client_ip :: "network_env \<Rightarrow> request_meta \<Rightarrow> client_address" where
  "get_client_ip E q =
     (let peer_str = (case remote_addr q of Some s \<Rightarrow> s | None \<Rightarrow> []) in
      case normalize_ip (Some peer_str) of
        None \<Rightarrow> if peer_str = [] then Unknown else Unparsed peer_str
      | Some peer \<Rightarrow>
          if \<not> ip_in_trusted E (Some peer) then Address peer
          else (case normalize_ip (x_real_ip q) of
                  Some real_ip \<Rightarrow> Address real_ip
                | None \<Rightarrow>
                    (case forwarded_client E (forwarded_hops q) of
                       Some a \<Rightarrow> Address a
                     | None \<Rightarrow> Address peer)))"

text \<open>\<open>_normalize_ip(get_client_ip(request))\<close>.\<close>

definition client_ip :: "network_env \<Rightarrow> request_meta \<Rightarrow> ip option" where
  "client_ip E q =
     (case get_client_ip E q of
        Unknown \<Rightarrow> None
      | Unparsed s \<Rightarrow> normalize_ip (Some s)
      | Address a \<Rightarrow> Some a)"

definition setup_ip_allowed :: "network_env \<Rightarrow> request_meta \<Rightarrow> bool" where
  "setup_ip_allowed E q =
     (case client_ip E q of
        None \<Rightarrow> False
      | Some a \<Rightarrow>
          let override = strip (case setup_allowed_ip E of Some s \<Rightarrow> s | None \<Rightarrow> []) in
          if override \<noteq> [] then normalize_ip (Some override) = Some a
          else list_ex (in_network a) (List.map_filter (ip_network True) LOCAL_NETWORK_CIDRS))"

subsection \<open>Network access\<close>

text \<open>
  The settings, a list of CIDRs per key, and the user's own, which may be missing. The first
  loop ends at the first network that has the address; an entry before it that does not
  parse raises \<open>ValueError\<close>, which is \<open>None\<close>.
\<close>

type_synonym access_settings = "string \<Rightarrow> string option"

fun first_network :: "ip \<Rightarrow> string list \<Rightarrow> bool option" where
  "first_network a [] = Some False"
| "first_network a (c # cs) =
     (case ip_network True c of
        None \<Rightarrow> None
      | Some n \<Rightarrow> if in_network a n then Some True else first_network a cs)"

definition access_cidrs :: "access_settings \<Rightarrow> string \<Rightarrow> string list" where
  "access_cidrs settings key =
     (case settings key of
        Some text \<Rightarrow> split_on (CHR '','') text
      | None \<Rightarrow> if key = ''M3U_EPG'' then LOCAL_NETWORK_CIDRS else [''0.0.0.0/0'', ''::/0''])"

definition user_networks_allow :: "ip \<Rightarrow> string \<Rightarrow> bool" where
  "user_networks_allow a raw \<longleftrightarrow>
     raw = [] \<or> list_ex (\<lambda>c. case ip_network False c of Some n \<Rightarrow> in_network a n | None \<Rightarrow> False)
       (filter (\<lambda>c. c \<noteq> []) (map strip (split_on (CHR '','') raw)))"

definition network_access_allowed ::
  "network_env \<Rightarrow> access_settings \<Rightarrow> request_meta \<Rightarrow> string \<Rightarrow> access_settings option \<Rightarrow> bool option" where
  "network_access_allowed E settings q key user =
     (case client_ip E q of
        None \<Rightarrow> Some False
      | Some a \<Rightarrow>
          (case first_network a (access_cidrs settings key) of
             None \<Rightarrow> None
           | Some False \<Rightarrow> Some False
           | Some True \<Rightarrow>
               (case user of
                  None \<Rightarrow> Some True
                | Some own \<Rightarrow>
                    Some (user_networks_allow a (case own key of Some raw \<Rightarrow> raw | None \<Rightarrow> [])))))"

subsection \<open>Addresses as words\<close>

lemma parse_octet_show: "n \<le> 255 \<Longrightarrow> parse_octet (show_nat n) = Some n"
proof -
  assume n: "n \<le> 255"
  have three: "length (show_nat n) \<le> 3"
  proof -
    have "n < 10 \<or> n div 10 < 10 \<or> n div 10 div 10 < 10" using n by linarith
    then show ?thesis by (auto simp: show_nat.simps [of n] show_nat.simps [of "n div 10"] show_nat.simps [of "n div 10 div 10"])
  qed
  have lead: "show_nat m = ''0'' \<or> hd (show_nat m) \<noteq> CHR ''0''" for m
  proof (induction m rule: show_nat.induct)
    case (1 m)
    show ?case
    proof (cases "m < 10")
      case True
      then show ?thesis
        by (auto simp: show_nat.simps [of m] digit_char_def elim!: less_10_cases)
    next
      case False
      then have "m div 10 \<noteq> 0" by auto
      then have "show_nat (m div 10) \<noteq> ''0''" using show_nat_inject [of "m div 10" 0]
        by (metis digit_char_def nth_Cons_0 show_nat.simps zero_less_numeral)
      with 1 False show ?thesis by (subst (2) show_nat.simps) simp
    qed
  qed
  show ?thesis using three lead [of n] n by (auto simp: parse_octet_def)
qed

lemma dot_not_in_show [simp]: "CHR ''.'' \<notin> set (show_nat n)"
  by (rule not_digit_in_show_nat) (simp add: is_digit_def)

lemma recombine:
  "n = 256 * x + d \<Longrightarrow> x = 256 * y + c \<Longrightarrow> y = 256 * z + b \<Longrightarrow> 16777216 * z + 65536 * b + 256 * c + d = (n :: nat)"
  by simp

lemma octets_of_nat:
  "16777216 * (n div 16777216) + 65536 * (n div 65536 mod 256) + 256 * (n div 256 mod 256) + n mod 256 = (n :: nat)"
proof -
  have d: "n div 65536 = n div 256 div 256" "n div 16777216 = n div 256 div 256 div 256"
    by (simp_all add: div_mult2_eq [symmetric])
  show ?thesis unfolding d
    by (rule recombine [OF mult_div_mod_eq [symmetric] mult_div_mod_eq [symmetric] mult_div_mod_eq [symmetric]])
qed

lemma octets_of_word: "word_of_octets (unat w div 16777216) (unat w div 65536 mod 256) (unat w div 256 mod 256) (unat w mod 256) = w"
  unfolding word_of_octets_def octets_of_nat by simp

lemma parse_show_ipv4: "parse_ipv4 (show_ipv4 w) = Some w"
proof -
  have "unat w < 2 ^ 32" using unsigned_less [of w] by simp
  then have "unat w div 16777216 \<le> 255" by simp
  then show ?thesis
    using octets_of_word [of w]
    by (simp add: parse_ipv4_def show_ipv4_def Let_def split_on_append split_on_none parse_octet_show)
qed

lemma netmask_eq_iff:
  fixes w b :: "'a::len word"
  shows "w AND netmask n = b AND netmask n \<longleftrightarrow> drop_bit (LENGTH('a) - n) w = drop_bit (LENGTH('a) - n) b"
proof -
  have m: "bit (v AND netmask n) i \<longleftrightarrow> bit v i \<and> LENGTH('a) - n \<le> i \<and> i < LENGTH('a)" for v :: "'a word" and i
    by (auto simp: netmask_def bit_simps)
  show ?thesis
  proof
    assume l: "w AND netmask n = b AND netmask n"
    show "drop_bit (LENGTH('a) - n) w = drop_bit (LENGTH('a) - n) b"
    proof (rule bit_word_eqI)
      fix i assume "i < LENGTH('a)"
      show "bit (drop_bit (LENGTH('a) - n) w) i = bit (drop_bit (LENGTH('a) - n) b) i"
        using m [of w "LENGTH('a) - n + i"] m [of b "LENGTH('a) - n + i"] l
        by (auto simp: bit_drop_bit_eq dest: bit_imp_le_length)
    qed
  next
    assume d: "drop_bit (LENGTH('a) - n) w = drop_bit (LENGTH('a) - n) b"
    show "w AND netmask n = b AND netmask n"
    proof (rule bit_word_eqI)
      fix i assume i: "i < LENGTH('a)"
      have "bit w i = bit b i" if "LENGTH('a) - n \<le> i"
        using arg_cong [OF d, of "\<lambda>v. bit v (i - (LENGTH('a) - n))"] that by (simp add: bit_drop_bit_eq)
      with m i show "bit (w AND netmask n) i = bit (b AND netmask n) i" by auto
    qed
  qed
qed

lemma netmask_idem: "(w AND netmask n) AND netmask n = w AND netmask n" for w :: "'a::len word"
  by (simp add: ac_simps)

lemma make_network_base:
  "make_network strict w n = Some b \<Longrightarrow> b AND netmask n = b"
  by (auto simp: make_network_def netmask_idem split: if_splits)

lemma ip_network_cases:
  assumes "ip_network strict s = Some net"
  shows "(\<exists>b n. net = Net4 b n \<and> n \<le> 32 \<and> b AND netmask n = b) \<or> (\<exists>b n. net = Net6 b n \<and> n \<le> 128 \<and> b AND netmask n = b)"
proof -
  have le: "prefix_from_string k t = Some n \<Longrightarrow> n \<le> k" for k t n
    by (auto simp: prefix_from_string_def split: if_splits)
  have "find P [0..<33] = Some n \<Longrightarrow> n \<le> 32" for P n by (auto dest!: find_Some_in)
  then have le': "prefix_from_ip_string t = Some n \<Longrightarrow> n \<le> 32" for t n
    by (auto simp: prefix_from_ip_string_def prefix_of_mask_def split: option.splits)
  show ?thesis
  proof (cases "ip_network4 strict s")
    case (Some m)
    then show ?thesis using assms le le' make_network_base
      by (fastforce simp: ip_network_def ip_network4_def Let_def split: option.splits if_splits)
  next
    case None
    then show ?thesis using assms le make_network_base
      by (fastforce simp: ip_network_def ip_network6_def Let_def split: option.splits if_splits prod.splits)
  qed
qed

lemmas ip_eval = parse_octet_def all_digits_def is_digit_def nat_of_digits_def digit_val_def parse_ipv4_def
  word_of_octets_def ip_network_def ip_network4_def prefix_from_string_def make_network_def
  netmask_def mask_eq_exp_minus_1 normalize_ip_def ip_address_def unmap_def strip_def lstrip_def is_space_def

lemma seven_zeros: "replicate 7 (0 :: nat) = [0, 0, 0, 0, 0, 0, 0]"
  by (simp add: numeral_eq_Suc)

lemma default_proxies:
  "ip_network False ''127.0.0.0/8'' = Some (Net4 0x7F000000 8)" "ip_network False ''::1/128'' = Some (Net6 1 128)"
  by (simp_all add: ip_eval)
    (simp add: ip_network6_def prefix_from_string_def all_digits_def is_digit_def nat_of_digits_def digit_val_def
      parse_ipv6_def parse_ipv6_int_def expand_suffix_def parse_parts_def gaps_def
      word_of_hextets_def parse_hextet_def hex_value_def upt_rec split_once_def make_network_def netmask_def seven_zeros)

text \<open>The demonstration: a peer that is no proxy.\<close>

lemma demo_peer:
  "normalize_ip (Some ''203.0.113.9'') = Some (V4 0xCB007109)"
  "\<not> ip_in_trusted \<lparr>trusted_proxies = None, setup_allowed_ip = None\<rparr> (Some (V4 0xCB007109))"
  by (simp add: ip_eval)
    (simp add: ip_in_trusted_def trusted_proxy_networks_def trusted_proxy_sources_def List.map_filter_simps
      default_proxies in_network_def netmask_def mask_eq_exp_minus_1)

subsection \<open>The properties\<close>

text \<open>A network that parses holds one block of consecutive addresses and no others.\<close>

lemma network_is_one_block:
  assumes "ip_network strict s = Some (Net4 base n)"
  shows "n \<le> 32 \<and> unat base + 2 ^ (32 - n) \<le> 2 ^ 32
    \<and> (in_network (V4 w) (Net4 base n) \<longleftrightarrow> unat base \<le> unat w \<and> unat w < unat base + 2 ^ (32 - n))
    \<and> \<not> in_network (V6 v scope) (Net4 base n)"
proof -
  have n: "n \<le> 32" and b: "base AND netmask n = base" using ip_network_cases [OF assms] by auto
  let ?k = "32 - n"
  have zero: "unat base mod 2 ^ ?k = 0"
  proof -
    have "take_bit ?k base = 0"
    proof (rule bit_word_eqI)
      fix i assume "i < LENGTH(32)"
      have "bit base i = bit (base AND netmask n) i" by (simp only: b)
      then show "bit (take_bit ?k base) i = bit (0 :: 32 word) i"
        by (auto simp: bit_simps netmask_def)
    qed
    then have "take_bit ?k (unat base) = 0" by (metis unsigned_take_bit_eq unsigned_0)
    then show ?thesis by (simp add: take_bit_eq_mod)
  qed
  have "in_network (V4 w) (Net4 base n) \<longleftrightarrow> w AND netmask n = base AND netmask n" by (simp add: in_network_def b)
  also have "\<dots> \<longleftrightarrow> drop_bit ?k w = drop_bit ?k base" by (simp add: netmask_eq_iff)
  also have "\<dots> \<longleftrightarrow> drop_bit ?k (unat w) = drop_bit ?k (unat base)"
    by (simp only: word_unat_eq_iff unat_drop_bit_eq)
  also have "\<dots> \<longleftrightarrow> unat w div 2 ^ ?k = unat base div 2 ^ ?k" by (simp only: drop_bit_eq_div)
  finally have iff: "in_network (V4 w) (Net4 base n) \<longleftrightarrow> unat w div 2 ^ ?k = unat base div 2 ^ ?k" .
  define K where "K = (2 :: nat) ^ ?k"
  have K: "0 < K" "K dvd 2 ^ 32" unfolding K_def by (simp, rule le_imp_power_dvd, simp)
  obtain q where q: "unat base = K * q" using zero unfolding K_def by (metis mod_0_imp_dvd dvdE)
  obtain m where m: "2 ^ 32 = K * m" using K(2) by (auto simp: dvd_def)
  have "unat base < 2 ^ 32" using unsigned_less [of base] by simp
  then have "K * q < K * m" by (simp only: q m)
  then have "q < m" by simp
  then have "K * Suc q \<le> K * m" by (intro mult_le_mono2) simp
  then have wrap: "unat base + K \<le> 2 ^ 32" using q m by simp
  have div: "unat w div K = q \<longleftrightarrow> unat base \<le> unat w \<and> unat w < unat base + K"
  proof
    assume "unat w div K = q"
    then show "unat base \<le> unat w \<and> unat w < unat base + K"
      using K(1) q div_times_less_eq_dividend [of "unat w" K] dividend_less_times_div [of K "unat w"]
      by (auto simp: mult.commute)
  next
    assume "unat base \<le> unat w \<and> unat w < unat base + K"
    then show "unat w div K = q" using q by (intro div_nat_eqI) auto
  qed
  have "unat base div K = q" using q K(1) by simp
  with iff div have "in_network (V4 w) (Net4 base n) \<longleftrightarrow> unat base \<le> unat w \<and> unat w < unat base + K"
    unfolding K_def by simp
  with n wrap show ?thesis unfolding K_def by (simp add: in_network_def)
qed

text \<open>The address the code settles on is never an IPv4-mapped IPv6 address.\<close>

lemma normalize_not_mapped: "normalize_ip t = Some (V6 v scope) \<Longrightarrow> drop_bit 32 v \<noteq> 0xFFFF"
proof -
  have "unmap a = V6 v scope \<Longrightarrow> drop_bit 32 v \<noteq> 0xFFFF" for a
    by (cases a) (auto simp: unmap_def split: if_splits)
  then show "normalize_ip t = Some (V6 v scope) \<Longrightarrow> drop_bit 32 v \<noteq> 0xFFFF" by (auto simp: normalize_ip_def)
qed

lemma client_ip_not_mapped: "client_ip E q = Some (V6 v scope) \<Longrightarrow> drop_bit 32 v \<noteq> 0xFFFF"
proof -
  have hop: "forwarded_client E hops = Some a \<Longrightarrow> \<exists>h. normalize_ip (Some h) = Some a" for hops a
    unfolding forwarded_client_def by (drule find_Some_in) (auto simp: List.map_filter_def intro: exI)
  assume "client_ip E q = Some (V6 v scope)"
  then show ?thesis
    by (auto simp: client_ip_def get_client_ip_def Let_def split: option.splits if_splits client_address.splits
      dest: normalize_not_mapped hop)
qed

text \<open>C37. An access setting of one IPv4 network lets in one block of consecutive addresses: its prefix
  length is at most 32, the block does not wrap around, and a caller is let in exactly when the address lies
  between the base and the base plus the block's size and, when the caller is a user, the user's own networks
  under the same key have the address too (an empty list has every address, an entry that does not parse none).
  The address is the one the code settles on: the peer's, or the one a trusted proxy forwards, and an
  IPv4-mapped IPv6 address (\<open>::ffff:a.b.c.d\<close>) is its IPv4 address. A caller with any other
  IPv6 address, or with none that parses, is refused.\<close>

theorem allowed_addresses_are_one_block:
  assumes net: "ip_network True cidr = Some (Net4 base n)" and set: "settings key = Some cidr" and one: "CHR '','' \<notin> set cidr"
  shows "n \<le> 32 \<and> unat base + 2 ^ (32 - n) \<le> 2 ^ 32
    \<and> (case client_ip E q of
        None \<Rightarrow> network_access_allowed E settings q key user = Some False
      | Some (V4 w) \<Rightarrow>
         network_access_allowed E settings q key user
           = Some (unat base \<le> unat w \<and> unat w < unat base + 2 ^ (32 - n)
               \<and> (case user of None \<Rightarrow> True
                   | Some own \<Rightarrow> user_networks_allow (V4 w) (case own key of Some raw \<Rightarrow> raw | None \<Rightarrow> [])))
      | Some (V6 u _) \<Rightarrow> drop_bit 32 u \<noteq> 0xFFFF \<and> network_access_allowed E settings q key user = Some False)"
proof -
  have one_net: "first_network a (access_cidrs settings key) = Some (in_network a (Net4 base n))" for a
    using net set one by (simp add: access_cidrs_def split_on_none)
  have run: "network_access_allowed E settings q key user = Some (in_network a (Net4 base n)
      \<and> (case user of None \<Rightarrow> True | Some own \<Rightarrow> user_networks_allow a (case own key of Some raw \<Rightarrow> raw | None \<Rightarrow> [])))"
    if "client_ip E q = Some a" for a
    using that by (cases "in_network a (Net4 base n)"; cases user) (simp_all add: network_access_allowed_def one_net)
  have block: "in_network (V4 w) (Net4 base n) \<longleftrightarrow> unat base \<le> unat w \<and> unat w < unat base + 2 ^ (32 - n)"
    and size: "n \<le> 32 \<and> unat base + 2 ^ (32 - n) \<le> 2 ^ 32" and six: "\<not> in_network (V6 u sc) (Net4 base n)" for w u sc
    using network_is_one_block [OF net] by blast+
  have "case client_ip E q of
        None \<Rightarrow> network_access_allowed E settings q key user = Some False
      | Some (V4 w) \<Rightarrow>
         network_access_allowed E settings q key user
           = Some (unat base \<le> unat w \<and> unat w < unat base + 2 ^ (32 - n)
               \<and> (case user of None \<Rightarrow> True
                   | Some own \<Rightarrow> user_networks_allow (V4 w) (case own key of Some raw \<Rightarrow> raw | None \<Rightarrow> [])))
      | Some (V6 u _) \<Rightarrow> drop_bit 32 u \<noteq> 0xFFFF \<and> network_access_allowed E settings q key user = Some False"
  proof (cases "client_ip E q")
    case None
    then show ?thesis by (simp add: network_access_allowed_def)
  next
    case (Some a)
    then show ?thesis
      using run [OF Some] block six client_ip_not_mapped [of E q] by (cases a; cases user) simp_all
  qed
  then show ?thesis using size by blast
qed

lemma allowed_addresses_witness:
  "network_access_allowed \<lparr>trusted_proxies = None, setup_allowed_ip = None\<rparr> (\<lambda>_. Some ''203.0.113.0/24'')
     \<lparr>remote_addr = Some ''203.0.113.9'', x_real_ip = None, x_forwarded_for = None\<rparr> ''STREAMS'' (Some (\<lambda>_. None))
   = Some (unat (0xCB007100 :: 32 word) \<le> unat (0xCB007109 :: 32 word)
       \<and> unat (0xCB007109 :: 32 word) < unat (0xCB007100 :: 32 word) + 2 ^ (32 - 24))"
proof -
  have net: "ip_network True ''203.0.113.0/24'' = Some (Net4 0xCB007100 24)" by (simp add: ip_eval)
  have addr: "client_ip \<lparr>trusted_proxies = None, setup_allowed_ip = None\<rparr>
     \<lparr>remote_addr = Some ''203.0.113.9'', x_real_ip = None, x_forwarded_for = None\<rparr> = Some (V4 0xCB007109)"
    using demo_peer(2) by (simp add: client_ip_def get_client_ip_def demo_peer(1))
  show ?thesis
    using allowed_addresses_are_one_block [OF net, of "\<lambda>_. Some ''203.0.113.0/24''" "''STREAMS''"
        "\<lparr>trusted_proxies = None, setup_allowed_ip = None\<rparr>"
        "\<lparr>remote_addr = Some ''203.0.113.9'', x_real_ip = None, x_forwarded_for = None\<rparr>" "Some (\<lambda>_. None)"]
    by (simp add: addr user_networks_allow_def)
qed

text \<open>A client behind no trusted proxy cannot choose its address: when the peer's address
  parses and is in no trusted network, the client address is the peer's own and every access
  decision is the same whatever the forwarding headers say; by default the trusted IPv4
  peers are exactly those of 127.0.0.0/8.\<close>

theorem headers_do_not_move_an_untrusted_peer:
  assumes "normalize_ip (remote_addr q) = Some peer" and "\<not> ip_in_trusted E (Some peer)"
  shows "get_client_ip E (q\<lparr>x_real_ip := rip, x_forwarded_for := xff\<rparr>) = Address peer
    \<and> network_access_allowed E S (q\<lparr>x_real_ip := rip, x_forwarded_for := xff\<rparr>) key user
        = network_access_allowed E S q key user
    \<and> setup_ip_allowed E (q\<lparr>x_real_ip := rip, x_forwarded_for := xff\<rparr>) = setup_ip_allowed E q
    \<and> (trusted_proxies E = None \<longrightarrow> (ip_in_trusted E (Some (V4 w)) \<longleftrightarrow> drop_bit 24 w = 127))"
proof -
  have addr: "normalize_ip (Some (case remote_addr q of Some s \<Rightarrow> s | None \<Rightarrow> [])) = Some peer"
    using assms(1) by (cases "remote_addr q") (auto simp: normalize_ip_def)
  have c: "get_client_ip E (q\<lparr>x_real_ip := a, x_forwarded_for := b\<rparr>) = Address peer" for a b
    using addr assms(2) by (simp add: get_client_ip_def)
  have q: "get_client_ip E q = Address peer" using addr assms(2) by (simp add: get_client_ip_def)
  have "ip_in_trusted E (Some (V4 w)) \<longleftrightarrow> drop_bit 24 w = 127" if "trusted_proxies E = None"
  proof -
    have b: "(0x7F000000 :: 32 word) AND netmask 8 = 0x7F000000" "drop_bit 24 (0x7F000000 :: 32 word) = 127"
      by (simp_all add: netmask_def mask_eq_exp_minus_1)
    have "ip_in_trusted E (Some (V4 w)) \<longleftrightarrow> w AND netmask 8 = 0x7F000000 AND netmask 8"
      using that by (simp add: ip_in_trusted_def trusted_proxy_networks_def trusted_proxy_sources_def
          List.map_filter_simps default_proxies in_network_def b(1))
    then show ?thesis by (simp add: netmask_eq_iff b(2))
  qed
  with c q show ?thesis by (simp add: network_access_allowed_def client_ip_def setup_ip_allowed_def)
qed

lemma untrusted_peer_witness:
  "get_client_ip \<lparr>trusted_proxies = None, setup_allowed_ip = None\<rparr>
     \<lparr>remote_addr = Some ''203.0.113.9'', x_real_ip = Some ''127.0.0.1'', x_forwarded_for = None\<rparr>
   = Address (V4 0xCB007109)"
proof -
  let ?q = "\<lparr>remote_addr = Some ''203.0.113.9'', x_real_ip = None, x_forwarded_for = None\<rparr>"
  have "normalize_ip (remote_addr ?q) = Some (V4 0xCB007109)" by (simp add: demo_peer)
  with demo_peer(2) show ?thesis
    using headers_do_not_move_an_untrusted_peer [of ?q "V4 0xCB007109" "\<lparr>trusted_proxies = None, setup_allowed_ip = None\<rparr>",
        where rip = "Some ''127.0.0.1''" and xff = None] by simp
qed

end
