(* ===== verification/Internal_Auth.thy ===== *)
theory Internal_Auth
  imports Ip_Network
begin

section \<open>Internal requests (apps/proxy/internal\_auth.py)\<close>

text \<open>
  The three tokens that mark a call as part of the deployment: the relay-trust marker, the
  internal principal, and the header bound to one request for two minutes. The keyed digest
  and the body digest are the arguments \<open>crypto\<close>; a byte string is its text, and a method is
  an ASCII token.
\<close>

record crypto =
  secret_key :: string
  hmac_hex :: "string \<Rightarrow> string \<Rightarrow> string"
  digest_hex :: "string \<Rightarrow> string"

definition RELAY_TRUST_CONTEXT :: string where "RELAY_TRUST_CONTEXT = ''relay-trust''"
definition INTERNAL_PRINCIPAL_CONTEXT :: string where "INTERNAL_PRINCIPAL_CONTEXT = ''internal-principal''"
definition INTERNAL_REQUEST_CONTEXT :: string where "INTERNAL_REQUEST_CONTEXT = ''internal-request''"
definition INTERNAL_REQUEST_WINDOW_SECONDS :: int where "INTERNAL_REQUEST_WINDOW_SECONDS = 120"

definition token :: "crypto \<Rightarrow> string \<Rightarrow> string" where
  "token K context_text = hmac_hex K (secret_key K) context_text"

definition relay_trust_token :: "crypto \<Rightarrow> string" where
  "relay_trust_token K = token K RELAY_TRUST_CONTEXT"

definition internal_principal_token :: "crypto \<Rightarrow> string" where
  "internal_principal_token K = token K INTERNAL_PRINCIPAL_CONTEXT"

definition is_ascii :: "string \<Rightarrow> bool" where
  "is_ascii s \<longleftrightarrow> list_all (\<lambda>c. (of_char c :: nat) < 128) s"

text \<open>A missing header is \<open>None\<close>.\<close>

definition matches :: "string option \<Rightarrow> string \<Rightarrow> bool" where
  "matches value expected \<longleftrightarrow>
     (case value of
        None \<Rightarrow> False
      | Some v \<Rightarrow> v \<noteq> [] \<and> expected \<noteq> [] \<and> is_ascii v \<and> v = expected)"

record auth_headers =
  hdr_authorized :: "string option"
  hdr_internal :: "string option"
  hdr_internal_request :: "string option"

definition request_is_relay_trusted :: "crypto \<Rightarrow> auth_headers \<Rightarrow> bool" where
  "request_is_relay_trusted K h = matches (hdr_authorized h) (relay_trust_token K)"

definition request_is_internal :: "crypto \<Rightarrow> auth_headers \<Rightarrow> bool" where
  "request_is_internal K h = matches (hdr_internal h) (internal_principal_token K)"

definition upper_char :: "char \<Rightarrow> char" where
  "upper_char c = (let n = (of_char c :: nat) in if 97 \<le> n \<and> n \<le> 122 then char_of (n - 32) else c)"

definition NEWLINE :: char where "NEWLINE = CHR 0x0A"

fun join_lines :: "string list \<Rightarrow> string" where
  "join_lines [] = []"
| "join_lines [s] = s"
| "join_lines (s # ss) = s @ NEWLINE # join_lines ss"

definition request_message :: "crypto \<Rightarrow> string \<Rightarrow> string \<Rightarrow> string \<Rightarrow> int \<Rightarrow> string" where
  "request_message K meth path body timestamp =
     join_lines [INTERNAL_REQUEST_CONTEXT, map upper_char meth, path, show_int timestamp, digest_hex K body]"

definition internal_request_token :: "crypto \<Rightarrow> string \<Rightarrow> string \<Rightarrow> string \<Rightarrow> int \<Rightarrow> string" where
  "internal_request_token K meth path body timestamp =
     hmac_hex K (secret_key K) (request_message K meth path body timestamp)"

definition build_internal_request_header :: "crypto \<Rightarrow> int \<Rightarrow> string \<Rightarrow> string \<Rightarrow> string \<Rightarrow> string" where
  "build_internal_request_header K now meth path body =
     ''v1.'' @ show_int now @ ''.'' @ internal_request_token K meth path body now"

definition request_is_internal_request ::
  "crypto \<Rightarrow> int \<Rightarrow> auth_headers \<Rightarrow> string \<Rightarrow> string \<Rightarrow> string \<Rightarrow> bool" where
  "request_is_internal_request K now h meth path body \<longleftrightarrow>
     (case hdr_internal_request h of
        None \<Rightarrow> False
      | Some raw \<Rightarrow>
          is_ascii raw \<and>
          (case split_on (CHR ''.'') raw of
             [version, stamp, signature] \<Rightarrow>
               version = ''v1'' \<and>
               (case parse_int stamp of
                  None \<Rightarrow> False
                | Some timestamp \<Rightarrow>
                    \<bar>now - timestamp\<bar> \<le> INTERNAL_REQUEST_WINDOW_SECONDS
                    \<and> matches (Some signature) (internal_request_token K meth path body timestamp))
           | _ \<Rightarrow> False))"

subsection \<open>The property\<close>

text \<open>A digest is a text of hexadecimal digits.\<close>

definition is_hex :: "string \<Rightarrow> bool" where
  "is_hex s \<longleftrightarrow> s \<noteq> [] \<and> set s \<subseteq> set ''0123456789abcdef''"

lemma is_hex_facts:
  assumes "is_hex s"
  shows "s \<noteq> []" and "is_ascii s" and "CHR ''.'' \<notin> set s" and "NEWLINE \<notin> set s"
  using assms by (auto simp: is_hex_def is_ascii_def list_all_iff NEWLINE_def)

lemma line_cancel:
  "NEWLINE \<notin> set a \<Longrightarrow> NEWLINE \<notin> set b \<Longrightarrow> a @ NEWLINE # x = b @ NEWLINE # y \<longleftrightarrow> a = b \<and> x = y"
  by (metis split_once_join option.inject prod.inject)

lemma newline_in_show_int: "NEWLINE \<notin> set (show_int t)"
  using not_digit_in_show_nat [of NEWLINE] by (simp add: show_int_def NEWLINE_def is_digit_def)

lemma request_message_eq:
  assumes "NEWLINE \<notin> set (map upper_char m)" "NEWLINE \<notin> set (map upper_char m')" "NEWLINE \<notin> set p" "NEWLINE \<notin> set p'"
  shows "request_message K m p b t = request_message K m' p' b' t
    \<longleftrightarrow> map upper_char m = map upper_char m' \<and> p = p' \<and> digest_hex K b = digest_hex K b'"
  using assms newline_in_show_int [of t] by (auto simp: request_message_def line_cancel)

lemma digit_hex: "is_digit c \<Longrightarrow> (of_char c :: nat) < 128 \<and> c \<in> set ''0123456789abcdef''"
  by (auto simp: is_digit_def)

lemma show_nat_ascii: "is_ascii (show_nat n)"
  unfolding is_ascii_def using digits_show_nat [of n] by (rule list.pred_mono_strong) (simp add: digit_hex)

lemma show_nat_hex: "is_hex (show_nat n)"
proof -
  have "c \<in> set ''0123456789abcdef''" if "c \<in> set (show_nat n)" for c
  proof (rule digit_hex [THEN conjunct2])
    show "is_digit c" using digits_show_nat [of n] that unfolding list_all_iff by (rule bspec)
  qed
  then show ?thesis unfolding is_hex_def by (intro conjI show_nat_nonempty subsetI)
qed

text \<open>C38. A signed header is good for one call and two minutes: presented with the same body
  digest, path and method, letter case aside, it is accepted exactly while the clock is
  within 120 seconds of its time; and when it is accepted for another call, the keyed
  digests of two different messages were equal.\<close>

theorem signature_binds_one_call:
  assumes hex: "\<And>m. is_hex (hmac_hex K (secret_key K) m)" and t: "0 \<le> t"
    and nl: "NEWLINE \<notin> set (map upper_char m)" "NEWLINE \<notin> set (map upper_char m')" "NEWLINE \<notin> set p" "NEWLINE \<notin> set p'"
    and h: "hdr_internal_request h = Some (build_internal_request_header K t m p b)"
    and no_collision: "hmac_hex K (secret_key K) (request_message K m p b t) = hmac_hex K (secret_key K) (request_message K m' p' b' t)
       \<Longrightarrow> request_message K m p b t = request_message K m' p' b' t"
  shows "request_is_internal_request K now h m' p' b' \<longleftrightarrow>
    \<bar>now - t\<bar> \<le> 120 \<and> map upper_char m = map upper_char m' \<and> p = p' \<and> digest_hex K b = digest_hex K b'"
proof -
  obtain n where n: "t = int n" using t by (cases t) auto
  let ?sig = "internal_request_token K m p b t"
  have sig: "is_hex ?sig" unfolding internal_request_token_def by (rule hex)
  have dots: "CHR ''.'' \<notin> set (show_nat n)" by (rule not_digit_in_show_nat) (simp add: is_digit_def)
  have parts: "split_on (CHR ''.'') (''v1.'' @ show_nat n @ ''.'' @ ?sig) = [''v1'', show_nat n, ?sig]"
    using dots is_hex_facts(3) [OF sig] by (simp add: split_on_append split_on_none)
  have ascii: "is_ascii (''v1.'' @ show_nat n @ ''.'' @ ?sig)"
    using show_nat_ascii [of n] is_hex_facts(2) [OF sig] by (simp add: is_ascii_def)
  have "request_is_internal_request K now h m' p' b' \<longleftrightarrow> \<bar>now - t\<bar> \<le> 120 \<and> ?sig = internal_request_token K m' p' b' t"
    using parts ascii is_hex_facts(1,2) [OF sig] is_hex_facts(1) [OF hex]
    by (auto simp: request_is_internal_request_def h build_internal_request_header_def n show_int_def
        INTERNAL_REQUEST_WINDOW_SECONDS_def matches_def internal_request_token_def)
  also have "\<dots> \<longleftrightarrow> \<bar>now - t\<bar> \<le> 120 \<and> request_message K m p b t = request_message K m' p' b' t"
    using no_collision by (auto simp: internal_request_token_def)
  finally show ?thesis by (simp add: request_message_eq [OF nl])
qed

definition demo_crypto :: crypto where
  "demo_crypto = \<lparr>secret_key = ''k'', hmac_hex = (\<lambda>k m. show_nat (length m)), digest_hex = (\<lambda>b. show_nat (length b))\<rparr>"

lemma signature_witness:
  "\<not> request_is_internal_request demo_crypto 1000
     \<lparr>hdr_authorized = None, hdr_internal = None,
      hdr_internal_request = Some (build_internal_request_header demo_crypto 1000 ''POST'' ''/a'' [])\<rparr> ''POST'' ''/other'' []"
proof -
  have "is_hex (hmac_hex demo_crypto (secret_key demo_crypto) m)" for m
    by (simp add: demo_crypto_def show_nat_hex)
  then show ?thesis
    by (subst signature_binds_one_call [where m = "''POST''" and p = "''/a''" and b = "[]" and t = 1000])
      (simp_all add: NEWLINE_def upper_char_def demo_crypto_def request_message_def INTERNAL_REQUEST_CONTEXT_def)
qed

end
