(* ===== verification/Stream_Limits.thy ===== *)
theory Stream_Limits
  imports Relay_Client Redis_Keys "HOL-Library.Word" "HOL-Library.Multiset"
begin

section \<open>Per-user stream limits (apps/proxy/utils.py)\<close>

text \<open>
  The connections a user has, gathered from the relay's answer and from the catch-up and VOD
  records in Redis; the check before a new stream; and the termination of an old one to make
  room. A connection's identifiers are texts, and a caught exception is the value the handler
  returns. The relay's answers are arguments.
\<close>

subsection \<open>Catch-up identifiers (apps/timeshift/redis\_keys.py)\<close>

text \<open>
  The store keeps a decimal by its value, not by its spelling; no writer stores one where an
  identifier is read, and such a reply reads here as the empty text.
\<close>

fun reply_text :: "rval option \<Rightarrow> string" where
  "reply_text (Some (RText s)) = s"
| "reply_text (Some (RInt n)) = show_int n"
| "reply_text _ = []"

text \<open>\<open>.+$\<close>: a text of one line, with or without its line break.\<close>

definition one_line :: "string \<Rightarrow> string option" where
  "one_line s =
     (let body = takeWhile (\<lambda>c. c \<noteq> CHR 0x0A) s in
      if body \<noteq> [] \<and> (drop (length body) s = [] \<or> drop (length body) s = [CHR 0x0A]) then Some body else None)"

text \<open>The digits before an underscore (\<open>^(\d+)_\<close>) and what follows it.\<close>

definition digits_before_underscore :: "string \<Rightarrow> (string \<times> string) option" where
  "digits_before_underscore s =
     (let ds = takeWhile is_digit s in
      case drop (length ds) s of
        c # rest \<Rightarrow> if ds \<noteq> [] \<and> c = CHR ''_'' then Some (ds, rest) else None
      | [] \<Rightarrow> None)"

definition parse_stats_channel_id :: "string \<Rightarrow> (nat \<times> string) option" where
  "parse_stats_channel_id i =
     (case digits_before_underscore i of
        None \<Rightarrow> None
      | Some (ds, rest) \<Rightarrow> map_option (\<lambda>session. (nat_of_digits ds, session)) (one_line rest))"

subsection \<open>The connections of a user\<close>

record limit_settings =
  terminate_on_limit_exceeded :: "bool option"
  prioritize_single_client_channels :: "bool option"
  ignore_same_channel_connections :: "bool option"
  terminate_oldest :: "bool option"

fun setting :: "bool option \<Rightarrow> bool \<Rightarrow> bool" where
  "setting (Some b) _ = b"
| "setting None dflt = dflt"

text \<open>The answers a check gets: the settings, the relay's, and whether each Redis client is there.\<close>

record limits_env =
  le_settings :: limit_settings
  le_clients :: "list_answer http_outcome"
  le_stop :: "string option \<Rightarrow> string option \<Rightarrow> string option http_outcome"
  le_redis :: bool
  le_vod_redis :: bool

text \<open>\<open>HMGET\<close> of one field: a key that is not a hash raises (\<open>None\<close>).\<close>

definition hash_at :: "redis \<Rightarrow> string \<Rightarrow> rhash option" where
  "hash_at r k = (case map_of (objs r) k of None \<Rightarrow> Some [] | Some (RHash h) \<Rightarrow> Some h | Some (RStr _) \<Rightarrow> None)"

text \<open>Whether the record's owner is the user asked for; \<open>None\<close> is \<open>int\<close> raising.\<close>

definition owned :: "int option \<Rightarrow> rval option \<Rightarrow> bool option" where
  "owned user raw =
     (case user of
        None \<Rightarrow> Some True
      | Some u \<Rightarrow> if truthy raw then map_option (\<lambda>n. n = u) (py_int raw) else Some False)"

text \<open>A row: \<open>None\<close> when the scan raises, \<open>Some None\<close> when the key is passed over.\<close>

definition timeshift_row :: "redis \<Rightarrow> int option \<Rightarrow> string \<Rightarrow> connection option option" where
  "timeshift_row r user key =
     (let parts = split_on (CHR '':'') key in
      if length parts < 5 then Some None
      else
        (case hash_at r key of
           None \<Rightarrow> None
         | Some h \<Rightarrow>
             (case owned user (map_of h ''user_id'') of
                None \<Rightarrow> None
              | Some False \<Rightarrow> Some None
              | Some True \<Rightarrow>
                  Some (map_option (\<lambda>t. \<lparr>media_id = Some (parts ! 2), client_id = Some (parts ! 4),
                                          connected_at = t, conn_type = Timeshift\<rparr>)
                          (float_or_zero (map_of h ''connected_at''))))))"

definition vod_row :: "redis \<Rightarrow> int option \<Rightarrow> string \<Rightarrow> connection option option" where
  "vod_row r user key =
     (let parts = split_on (CHR '':'') key in
      if length parts < 2 then Some None
      else
        (case hash_at r key of
           None \<Rightarrow> None
         | Some h \<Rightarrow>
             (case owned user (map_of h ''user_id'') of
                None \<Rightarrow> None
              | Some False \<Rightarrow> Some None
              | Some True \<Rightarrow>
                  let content = reply_text (map_of h ''content_uuid'') in
                  Some (map_option (\<lambda>t. \<lparr>media_id = Some (if content = [] then parts ! 1 else content),
                                          client_id = Some (parts ! 1), connected_at = t, conn_type = Vod\<rparr>)
                          (float_or_zero (map_of h ''created_at''))))))"

fun scan_rows :: "(string \<Rightarrow> connection option option) \<Rightarrow> string list \<Rightarrow> connection list option" where
  "scan_rows row [] = Some []"
| "scan_rows row (k # ks) =
     (case row k of
        None \<Rightarrow> None
      | Some None \<Rightarrow> scan_rows row ks
      | Some (Some c) \<Rightarrow> map_option ((#) c) (scan_rows row ks))"

definition contains_text :: "string \<Rightarrow> string \<Rightarrow> bool" where
  "contains_text sub s \<longleftrightarrow> list_ex (\<lambda>n. starts_with sub (drop n s)) [0..<Suc (length s)]"

text \<open>The two scans: \<open>timeshift:channel:*:clients:*\<close> and \<open>vod_persistent_connection:*\<close>.\<close>

definition timeshift_client_keys :: "redis \<Rightarrow> string list" where
  "timeshift_client_keys r =
     filter (\<lambda>k. contains_text '':clients:'' (drop (length ''timeshift:channel:'') k)) (scan_keys r ''timeshift:channel:'')"

definition vod_session_keys :: "redis \<Rightarrow> string list" where
  "vod_session_keys r = scan_keys r ''vod_persistent_connection:''"

text \<open>An exception of the two scans costs every connection, the relay's included.\<close>

definition get_user_active_connections ::
  "limits_env \<Rightarrow> redis \<Rightarrow> int option \<Rightarrow> bool \<Rightarrow> relay_error + connection list" where
  "get_user_active_connections E r user include_live =
     (case (if include_live then live_connections (le_clients E) user else Inr []) of
        Inl e \<Rightarrow> Inl e
      | Inr live \<Rightarrow>
          Inr (if \<not> le_redis E then []
               else
                 (case scan_rows (timeshift_row r user) (timeshift_client_keys r) of
                    None \<Rightarrow> []
                  | Some catchup \<Rightarrow>
                      (case scan_rows (vod_row r user) (vod_session_keys r) of
                         None \<Rightarrow> []
                       | Some vod \<Rightarrow> live @ catchup @ vod))))"

subsection \<open>Signalling a catch-up viewer\<close>

text \<open>The store, and this worker's open upstreams by \<open>_active_upstream_key\<close>.\<close>

record limits_state =
  ls_redis :: redis
  ls_upstreams :: "string list"

definition ts_stream_generation_key :: "string \<Rightarrow> string \<Rightarrow> string" where
  "ts_stream_generation_key channel cid = ''timeshift:stream_gen:'' @ channel @ '':'' @ cid"

definition timeshift_stop_channel_id :: "redis \<Rightarrow> string \<Rightarrow> string \<Rightarrow> string" where
  "timeshift_stop_channel_id r channel cid =
     (let vid = reply_text (rhget r (ts_client_metadata_key channel cid) ''programme_vid'') in
      if vid = [] then channel else vid)"

definition timeshift_generation_channel_ids :: "redis \<Rightarrow> string \<Rightarrow> string list" where
  "timeshift_generation_channel_ids r cid =
     (if cid = [] then []
      else
        let suf = '':'' @ cid; pre = ''timeshift:stream_gen:'' in
        filter (\<lambda>c. c \<noteq> [])
          (map (\<lambda>k. drop (length pre) (take (length k - length suf) k))
            (filter (ends_with suf) (scan_keys r pre))))"

fun first_seen :: "'a list \<Rightarrow> 'a list \<Rightarrow> 'a list" where
  "first_seen seen [] = []"
| "first_seen seen (x # xs) = (if x \<in> set seen then first_seen seen xs else x # first_seen (x # seen) xs)"

definition timeshift_stop_channel_ids :: "redis \<Rightarrow> string \<Rightarrow> string \<Rightarrow> string list" where
  "timeshift_stop_channel_ids r channel cid =
     first_seen [] (filter (\<lambda>c. c \<noteq> [])
       (timeshift_stop_channel_id r channel cid # timeshift_generation_channel_ids r cid))"

definition set_timeshift_stop_keys :: "redis \<Rightarrow> string \<Rightarrow> string \<Rightarrow> string \<Rightarrow> redis \<times> string list" where
  "set_timeshift_stop_keys r channel cid reason =
     (let ids = timeshift_stop_channel_ids r channel cid
      in (foldl (\<lambda>r i. rset_ex r (ts_client_stop_key i cid) (RText reason) 60) r ids, ids))"

definition close_active_upstream :: "string list \<Rightarrow> string \<Rightarrow> string \<Rightarrow> string list" where
  "close_active_upstream ups vid cid =
     (if vid = [] \<or> cid = [] then ups else filter (\<lambda>k. k \<noteq> vid @ '':'' @ cid) ups)"

subsection \<open>Making room\<close>

text \<open>The order of the candidates: shared channels last when they are not counted, then single
  viewers, then by age.\<close>

definition shared_count :: "connection list \<Rightarrow> connection \<Rightarrow> nat" where
  "shared_count conns c = length (filter (\<lambda>d. media_id d = media_id c) conns)"

definition prioritize :: "limit_settings \<Rightarrow> connection list \<Rightarrow> connection \<Rightarrow> nat \<times> nat \<times> rat" where
  "prioritize S conns c =
     (let is_multi = shared_count conns c > 1 in
      (if setting (ignore_same_channel_connections S) False \<and> is_multi then 1 else 0,
       if setting (prioritize_single_client_channels S) True \<and> \<not> is_multi then 0 else 1,
       if setting (terminate_oldest S) True then connected_at c else - connected_at c))"

definition key_le :: "nat \<times> nat \<times> rat \<Rightarrow> nat \<times> nat \<times> rat \<Rightarrow> bool" where
  "key_le a b \<longleftrightarrow> fst a < fst b \<or> fst a = fst b \<and> (fst (snd a) < fst (snd b) \<or> fst (snd a) = fst (snd b) \<and> snd (snd a) \<le> snd (snd b))"

text \<open>The head of the stably sorted candidates: the first one no other comes before.\<close>

fun best :: "(connection \<Rightarrow> nat \<times> nat \<times> rat) \<Rightarrow> connection \<Rightarrow> connection list \<Rightarrow> connection" where
  "best key c [] = c"
| "best key c (d # ds) = (if key_le (key c) (key d) then best key c ds else best key d ds)"

definition termination_targets :: "limit_settings \<Rightarrow> connection list \<Rightarrow> connection list" where
  "termination_targets S conns =
     (case conns of
        [] \<Rightarrow> []
      | c # cs \<Rightarrow>
          let target = best (prioritize S conns) c cs in
          if setting (ignore_same_channel_connections S) False
          then filter (\<lambda>d. media_id d = media_id target) conns
          else [target])"

definition id_text :: "string option \<Rightarrow> string" where
  "id_text i = (case i of Some s \<Rightarrow> s | None \<Rightarrow> ''None'')"

text \<open>One target: whether it was signalled. A VOD session whose record is gone is passed over.\<close>

definition stop_target :: "limits_env \<Rightarrow> limits_state \<Rightarrow> connection \<Rightarrow> limits_state \<times> bool" where
  "stop_target E s t =
     (case conn_type t of
        Live \<Rightarrow>
          (case request None (le_stop E (media_id t) (client_id t)) of
             Inl _ \<Rightarrow> (s, False)
           | Inr status \<Rightarrow> (s, True))
      | Timeshift \<Rightarrow>
          if \<not> le_redis E then (s, False)
          else
            (case set_timeshift_stop_keys (ls_redis s) (id_text (media_id t)) (id_text (client_id t)) ''limit'' of
               (r, ids) \<Rightarrow>
                 (\<lparr>ls_redis = r,
                   ls_upstreams = foldl (\<lambda>ups i. close_active_upstream ups i (id_text (client_id t))) (ls_upstreams s) ids\<rparr>,
                  True))
      | Vod \<Rightarrow>
          if \<not> le_vod_redis E then (s, False)
          else if rhgetall (ls_redis s) (vod_connection_key (id_text (client_id t))) = [] then (s, True)
          else (s\<lparr>ls_redis := rset_ex (ls_redis s) (get_vod_client_stop_key (id_text (client_id t))) (RText ''true'') 60\<rparr>, True))"

fun stop_targets :: "limits_env \<Rightarrow> limits_state \<Rightarrow> connection list \<Rightarrow> limits_state \<times> bool" where
  "stop_targets E s [] = (s, True)"
| "stop_targets E s (t # ts) =
     (case stop_target E s t of
        (s', True) \<Rightarrow> stop_targets E s' ts
      | (s', False) \<Rightarrow> (s', False))"

definition attempt_stream_termination :: "limits_env \<Rightarrow> limits_state \<Rightarrow> connection list \<Rightarrow> limits_state \<times> bool" where
  "attempt_stream_termination E s conns =
     (case termination_targets (le_settings E) conns of
        [] \<Rightarrow> (s, False)
      | t # ts \<Rightarrow> stop_targets E s (t # ts))"

subsection \<open>The check\<close>

definition unique_media :: "connection list \<Rightarrow> string option set" where
  "unique_media conns = set (map media_id conns)"

definition counted :: "limit_settings \<Rightarrow> connection list \<Rightarrow> nat" where
  "counted S conns =
     (if setting (ignore_same_channel_connections S) False then card (unique_media conns) else length conns)"

text \<open>The channel of a connection's media id, as a text: of a stats id the number, else the part
  before the first underscore.\<close>

definition channel_of_media :: "string \<Rightarrow> string" where
  "channel_of_media m =
     (case parse_stats_channel_id m of
        Some (n, _) \<Rightarrow> show_nat n
      | None \<Rightarrow> (case split_once (CHR ''_'') m of Some (a, _) \<Rightarrow> a | None \<Rightarrow> m))"

definition same_session :: "string \<Rightarrow> string \<Rightarrow> connection \<Rightarrow> bool" where
  "same_session cid media c \<longleftrightarrow>
     conn_type c = Timeshift \<and> client_id c = Some cid \<and>
     (let m = (case media_id c of Some m \<Rightarrow> m | None \<Rightarrow> []) in
      m = media \<or> starts_with (media @ ''_'') m
      \<or> (case digits_before_underscore media of
           Some (ds, _) \<Rightarrow> channel_of_media m = ds
         | None \<Rightarrow> False))"

definition exempt :: "limit_settings \<Rightarrow> string \<Rightarrow> string option \<Rightarrow> connection list \<Rightarrow> bool" where
  "exempt S cid media conns =
     (case media of
        None \<Rightarrow> False
      | Some m \<Rightarrow>
          m \<noteq> [] \<and>
          (setting (ignore_same_channel_connections S) False
             \<and> list_ex (\<lambda>c. conn_type c = Live \<and> id_text (media_id c) = m) conns
           \<or> cid \<noteq> [] \<and> list_ex (same_session cid m) conns))"

record limited_user =
  lu_id :: int
  lu_stream_limit :: int

definition check_user_stream_limits ::
  "limits_env \<Rightarrow> limits_state \<Rightarrow> limited_user option \<Rightarrow> string \<Rightarrow> string option \<Rightarrow>
   limits_state \<times> (relay_error + bool)" where
  "check_user_stream_limits E s user cid media =
     (case user of
        None \<Rightarrow> (s, Inr True)
      | Some u \<Rightarrow>
          if lu_stream_limit u \<le> 0 then (s, Inr True)
          else
            (case get_user_active_connections E (ls_redis s) (Some (lu_id u)) True of
               Inl e \<Rightarrow> (s, Inl e)
             | Inr conns \<Rightarrow>
                 if exempt (le_settings E) cid media conns then (s, Inr True)
                 else if int (counted (le_settings E) conns) < lu_stream_limit u then (s, Inr True)
                 else if \<not> setting (terminate_on_limit_exceeded (le_settings E)) True then (s, Inr False)
                 else (case attempt_stream_termination E s conns of (s', ok) \<Rightarrow> (s', Inr ok))))"

subsection \<open>Finding the transport stream in a response\<close>

definition TS_PACKET_SIZE :: nat where "TS_PACKET_SIZE = 188"
definition TS_SYNC_BYTE :: "8 word" where "TS_SYNC_BYTE = 0x47"

definition sync_at :: "8 word list \<Rightarrow> nat \<Rightarrow> bool" where
  "sync_at buf i \<longleftrightarrow> buf ! i = TS_SYNC_BYTE \<and> buf ! (i + TS_PACKET_SIZE) = TS_SYNC_BYTE
     \<and> buf ! (i + 2 * TS_PACKET_SIZE) = TS_SYNC_BYTE"

definition find_ts_sync :: "8 word list \<Rightarrow> int" where
  "find_ts_sync buf =
     (case find (sync_at buf) [0..<length buf - 2 * TS_PACKET_SIZE] of
        Some i \<Rightarrow> int i
      | None \<Rightarrow> -1)"

subsection \<open>Facts about the scans\<close>

lemma split_on_no_sep: "p \<in> set (split_on c s) \<Longrightarrow> c \<notin> set p"
  by (induction s arbitrary: p) (auto split: if_splits list.splits)

lemma split_on_nth: "n < length (split_on c s) \<Longrightarrow> c \<notin> set (split_on c s ! n)"
  by (rule split_on_no_sep) (rule nth_mem)

lemma split_on_length: "length (split_on c s) = Suc (length (filter (\<lambda>x. x = c) s))"
  by (induction s) (auto split: list.splits)

lemma live_connections_total: "\<exists>conns. live_connections outcome user = Inr conns"
  by (cases outcome) (auto simp: live_connections_def list_channels_def split: body.splits if_splits)

lemma scan_rows_None: "k \<in> set ks \<Longrightarrow> row k = None \<Longrightarrow> scan_rows row ks = None"
  by (induction ks) (auto split: option.splits)

lemma scan_rows_mem: "scan_rows row ks = Some cs \<Longrightarrow> c \<in> set cs \<Longrightarrow> \<exists>k \<in> set ks. row k = Some (Some c)"
  by (induction ks arbitrary: cs) (auto split: option.splits)

lemma timeshift_row_ids:
  "timeshift_row r user k = Some (Some c) \<Longrightarrow>
   conn_type c = Timeshift \<and> (\<exists>m i. media_id c = Some m \<and> client_id c = Some i \<and> CHR '':'' \<notin> set m \<and> CHR '':'' \<notin> set i)"
  by (auto simp: timeshift_row_def Let_def split_on_nth split: if_splits option.splits bool.splits)

lemma vod_row_type: "vod_row r user k = Some (Some c) \<Longrightarrow> conn_type c = Vod"
  by (auto simp: vod_row_def Let_def split: if_splits option.splits bool.splits)

lemma live_row_type: "live_row user ch c = Some d \<Longrightarrow> conn_type d = Live"
  by (auto simp: live_row_def split: if_splits option.splits)

definition plain_ids :: "connection \<Rightarrow> bool" where
  "plain_ids c \<longleftrightarrow> (conn_type c = Timeshift \<longrightarrow>
     CHR '':'' \<notin> set (id_text (media_id c)) \<and> CHR '':'' \<notin> set (id_text (client_id c)))"

lemma active_connections_plain:
  assumes "get_user_active_connections E r user live = Inr conns" and "c \<in> set conns"
  shows "plain_ids c"
proof -
  obtain lv where lv: "(if live then live_connections (le_clients E) user else Inr []) = Inr lv"
    using assms(1) by (auto simp: get_user_active_connections_def split: sum.splits)
  have l: "conn_type d = Live" if "d \<in> set lv" for d
    using lv that by (auto simp: live_connections_def set_map_filter dest!: live_row_type
        split: if_splits sum.splits relay_error.splits)
  from assms lv consider "c \<in> set lv"
    | k where "timeshift_row r user k = Some (Some c)" | k where "vod_row r user k = Some (Some c)"
    by (auto simp: get_user_active_connections_def split: if_splits option.splits dest!: scan_rows_mem)
  then show ?thesis
    by cases (auto simp: plain_ids_def id_text_def dest: l timeshift_row_ids vod_row_type)
qed

subsection \<open>Which key is whose\<close>

lemma stop_key_not_metadata:
  assumes "CHR '':'' \<notin> set m" "CHR '':'' \<notin> set i"
  shows "ts_client_metadata_key m i \<noteq> ts_client_stop_key a b"
proof -
  have n: "filter (\<lambda>x. x = CHR '':'') s = []" if "CHR '':'' \<notin> set s" for s
    using that by (auto simp: filter_empty_conv)
  have "length (filter (\<lambda>x. x = CHR '':'') (ts_client_metadata_key m i)) = 4"
    by (simp add: ts_client_metadata_key_def n assms)
  moreover have "5 \<le> length (filter (\<lambda>x. x = CHR '':'') (ts_client_stop_key a b))"
    by (simp add: ts_client_stop_key_def)
  ultimately show ?thesis by auto
qed

lemma limit_keys_apart [simp]:
  "vod_connection_key i \<noteq> ts_client_stop_key a b" "vod_connection_key i \<noteq> get_vod_client_stop_key b"
  "ts_client_stop_key a b \<noteq> get_vod_client_stop_key i" "get_vod_client_stop_key i \<noteq> ts_client_stop_key a b"
  "ts_client_metadata_key a b \<noteq> get_vod_client_stop_key i"
  by (simp_all add: vod_connection_key_def ts_client_stop_key_def get_vod_client_stop_key_def ts_client_metadata_key_def)

subsection \<open>Every target is told to stop\<close>

text \<open>What it means that a connection was told to stop, from the store before to the store after.\<close>

definition signalled :: "limits_env \<Rightarrow> redis \<Rightarrow> redis \<Rightarrow> connection \<Rightarrow> bool" where
  "signalled E before after t \<longleftrightarrow>
     (case conn_type t of
        Live \<Rightarrow> \<not> isl (request None (le_stop E (media_id t) (client_id t)))
      | Timeshift \<Rightarrow>
          (let i = timeshift_stop_channel_id before (id_text (media_id t)) (id_text (client_id t)) in
           i = [] \<or> rget after (ts_client_stop_key i (id_text (client_id t))) = Some (RText ''limit''))
      | Vod \<Rightarrow>
          rhgetall before (vod_connection_key (id_text (client_id t))) = []
          \<or> rget after (get_vod_client_stop_key (id_text (client_id t))) = Some (RText ''true''))"

text \<open>What a stop leaves alone: the records the other stops read, and the signals given.\<close>

definition keeps_signals :: "redis \<Rightarrow> redis \<Rightarrow> bool" where
  "keeps_signals r r' \<longleftrightarrow>
     (\<forall>i. rhgetall r' (vod_connection_key i) = rhgetall r (vod_connection_key i))
     \<and> (\<forall>m i. CHR '':'' \<notin> set m \<longrightarrow> CHR '':'' \<notin> set i \<longrightarrow>
          rhgetall r' (ts_client_metadata_key m i) = rhgetall r (ts_client_metadata_key m i))
     \<and> (\<forall>a b. rget r (ts_client_stop_key a b) = Some (RText ''limit'') \<longrightarrow>
          rget r' (ts_client_stop_key a b) = Some (RText ''limit''))
     \<and> (\<forall>i. rget r (get_vod_client_stop_key i) = Some (RText ''true'') \<longrightarrow>
          rget r' (get_vod_client_stop_key i) = Some (RText ''true''))"

lemma keeps_refl: "keeps_signals r r"
  by (simp add: keeps_signals_def)

lemma keeps_trans: "keeps_signals r r' \<Longrightarrow> keeps_signals r' r'' \<Longrightarrow> keeps_signals r r''"
  by (simp add: keeps_signals_def)

lemma set_stop_keys_rget:
  "rget (foldl (\<lambda>r i. rset_ex r (ts_client_stop_key i cid) v 60) r ids) k
    = (if \<exists>i \<in> set ids. k = ts_client_stop_key i cid then Some v else rget r k)"
  by (induction ids arbitrary: r) (auto simp: store_simps)

lemma set_stop_keys_rhgetall:
  "rhgetall (foldl (\<lambda>r i. rset_ex r (ts_client_stop_key i cid) v 60) r ids) k
    = (if \<exists>i \<in> set ids. k = ts_client_stop_key i cid then [] else rhgetall r k)"
  by (induction ids arbitrary: r) (auto simp: store_simps)

lemma set_first_seen: "set (first_seen seen xs) = set xs - set seen"
  by (induction seen xs rule: first_seen.induct) auto

lemma stop_target_keeps: "stop_target E s t = (s', ok) \<Longrightarrow> keeps_signals (ls_redis s) (ls_redis s')"
  by (auto simp: stop_target_def set_timeshift_stop_keys_def keeps_signals_def set_stop_keys_rget
      set_stop_keys_rhgetall stop_key_not_metadata store_simps Let_def split: conn_type.splits if_splits sum.splits)

lemma stop_target_signals:
  assumes "stop_target E s t = (s', True)" and "plain_ids t"
  shows "signalled E (ls_redis s) (ls_redis s') t"
proof (cases "conn_type t")
  case Timeshift
  let ?i = "id_text (client_id t)"
  let ?c = "timeshift_stop_channel_id (ls_redis s) (id_text (media_id t)) ?i"
  let ?ids = "timeshift_stop_channel_ids (ls_redis s) (id_text (media_id t)) ?i"
  have r: "ls_redis s' = foldl (\<lambda>r i. rset_ex r (ts_client_stop_key i ?i) (RText ''limit'') 60) (ls_redis s) ?ids"
    using Timeshift assms by (auto simp: stop_target_def set_timeshift_stop_keys_def Let_def split: if_splits)
  have "?c \<in> set ?ids" if "?c \<noteq> []" using that by (simp add: timeshift_stop_channel_ids_def set_first_seen)
  then have "rget (ls_redis s') (ts_client_stop_key ?c ?i) = Some (RText ''limit'')" if "?c \<noteq> []"
    using that unfolding r set_stop_keys_rget by auto
  then show ?thesis using Timeshift by (auto simp: signalled_def Let_def)
qed (use assms in \<open>auto simp: stop_target_def signalled_def store_simps split: if_splits sum.splits\<close>)

lemma signalled_later: "signalled E r0 r t \<Longrightarrow> keeps_signals r r' \<Longrightarrow> signalled E r0 r' t"
  by (auto simp: signalled_def keeps_signals_def Let_def split: conn_type.splits)

lemma signalled_earlier:
  "signalled E r r' t \<Longrightarrow> keeps_signals r0 r \<Longrightarrow> plain_ids t \<Longrightarrow> signalled E r0 r' t"
  by (auto simp: signalled_def keeps_signals_def plain_ids_def Let_def timeshift_stop_channel_id_def rhget_def
      split: conn_type.splits)

lemma stop_targets_signal:
  assumes "stop_targets E s ts = (s', True)" and "\<forall>t \<in> set ts. plain_ids t"
  shows "keeps_signals (ls_redis s) (ls_redis s') \<and> (\<forall>t \<in> set ts. signalled E (ls_redis s) (ls_redis s') t)"
  using assms
proof (induction ts arbitrary: s)
  case Nil
  then show ?case by (simp add: keeps_refl)
next
  case (Cons t ts)
  then obtain s1 where s1: "stop_target E s t = (s1, True)" and rest: "stop_targets E s1 ts = (s', True)"
    by (auto split: prod.splits bool.splits)
  note k = stop_target_keeps [OF s1]
  have ih: "keeps_signals (ls_redis s1) (ls_redis s')" "\<forall>u \<in> set ts. signalled E (ls_redis s1) (ls_redis s') u"
    using Cons.IH [OF rest] Cons.prems(2) by auto
  have "signalled E (ls_redis s) (ls_redis s') t"
    using stop_target_signals [OF s1] signalled_later ih(1) Cons.prems(2) by auto
  moreover have "signalled E (ls_redis s) (ls_redis s') u" if "u \<in> set ts" for u
    using that ih(2) k Cons.prems(2) by (auto intro: signalled_earlier)
  ultimately show ?case using keeps_trans [OF k ih(1)] by auto
qed

subsection \<open>Who is stopped\<close>

lemma key_le_trans: "key_le a b \<Longrightarrow> key_le b c \<Longrightarrow> key_le a c"
  by (auto simp: key_le_def)

lemma key_le_total: "key_le a b \<or> key_le b a"
  by (auto simp: key_le_def)

lemma best_in: "best key c ds \<in> set (c # ds)"
  by (induction key c ds rule: best.induct) auto

lemma best_least: "d \<in> set (c # ds) \<Longrightarrow> key_le (key (best key c ds)) (key d)"
proof (induction key c ds arbitrary: d rule: best.induct)
  case (2 key c e ds)
  show ?case
  proof (cases "key_le (key c) (key e)")
    case True
    then show ?thesis using 2(1) [OF True] 2(3) by (auto intro: key_le_trans)
  next
    case False
    then have "key_le (key e) (key c)" using key_le_total by blast
    then show ?thesis using 2(2) [OF False] 2(3) False by (auto intro: key_le_trans)
  qed
qed (auto simp: key_le_def)

lemma targets_split:
  assumes "conns \<noteq> []"
  shows "\<exists>rest. mset conns = mset (termination_targets S conns) + mset rest
    \<and> termination_targets S conns \<noteq> [] \<and> Suc (counted S rest) = counted S conns"
proof -
  obtain c cs where cs: "conns = c # cs" using assms by (cases conns) auto
  let ?t = "best (prioritize S conns) c cs"
  have t: "?t \<in> set conns" using best_in [of "prioritize S conns" c cs] cs by simp
  show ?thesis
  proof (cases "setting (ignore_same_channel_connections S) False")
    case True
    let ?rest = "filter (\<lambda>d. media_id d \<noteq> media_id ?t) conns"
    have tt: "termination_targets S conns = filter (\<lambda>d. media_id d = media_id ?t) conns"
      using True by (simp add: termination_targets_def cs)
    have "unique_media conns = insert (media_id ?t) (unique_media ?rest)"
      using t by (auto simp: unique_media_def)
    moreover have "media_id ?t \<notin> unique_media ?rest" by (auto simp: unique_media_def)
    ultimately have "card (unique_media conns) = Suc (card (unique_media ?rest))"
      by (simp add: unique_media_def)
    moreover have "filter (\<lambda>d. media_id d = media_id ?t) conns \<noteq> []" using t by (auto simp: filter_empty_conv)
    ultimately show ?thesis using True unfolding tt
      by (intro exI [of _ ?rest]) (simp add: counted_def multiset_partition [symmetric])
  next
    case False
    then have tt: "termination_targets S conns = [?t]" by (simp add: termination_targets_def cs)
    have "mset conns = mset [?t] + mset (remove1 ?t conns)" using t by simp
    moreover have "Suc (length (remove1 ?t conns)) = length conns"
      using t length_pos_if_in_set [OF t] by (simp add: length_remove1)
    ultimately show ?thesis using False unfolding tt
      by (intro exI [of _ "remove1 ?t conns"]) (simp add: counted_def)
  qed
qed

subsection \<open>The transport stream's start\<close>

lemma find_ts_sync_first:
  "find_ts_sync buf = int i \<longleftrightarrow>
     i + 2 * TS_PACKET_SIZE < length buf \<and> sync_at buf i \<and> (\<forall>j < i. \<not> sync_at buf j)"
proof -
  have "find (sync_at buf) [0..<n] = Some i \<longleftrightarrow> i < n \<and> sync_at buf i \<and> (\<forall>j < i. \<not> sync_at buf j)" for n
    by (auto simp: find_Some_iff nth_upt)
  from this [of "length buf - 2 * TS_PACKET_SIZE"] show ?thesis
    by (cases "find (sync_at buf) [0..<length buf - 2 * TS_PACKET_SIZE]") (auto simp: find_ts_sync_def)
qed

subsection \<open>The properties\<close>

text \<open>What stopping a list of connections writes: the stop keys of its catch-up viewers and VOD sessions.\<close>

definition stop_key_of :: "connection \<Rightarrow> string \<Rightarrow> bool" where
  "stop_key_of t k \<longleftrightarrow>
     (case conn_type t of
        Live \<Rightarrow> False
      | Timeshift \<Rightarrow> \<exists>c. k = ts_client_stop_key c (id_text (client_id t))
      | Vod \<Rightarrow> k = get_vod_client_stop_key (id_text (client_id t)))"

lemma objs_rset_ex: "map_of (objs (rset_ex r k v t)) k' = (if k' = k then Some (RStr v) else map_of (objs r) k')"
  by (simp add: rset_ex_def)

lemma set_stop_keys_objs:
  "map_of (objs (foldl (\<lambda>r i. rset_ex r (ts_client_stop_key i cid) v 60) r ids)) k
    = (if \<exists>i \<in> set ids. k = ts_client_stop_key i cid then Some (RStr v) else map_of (objs r) k)"
  by (induction ids arbitrary: r) (auto simp: objs_rset_ex)

lemma stop_target_frame:
  assumes "stop_target E s t = (s', ok)" and "\<not> stop_key_of t k"
  shows "map_of (objs (ls_redis s')) k = map_of (objs (ls_redis s)) k"
  using assms
  by (auto simp: stop_target_def stop_key_of_def set_timeshift_stop_keys_def Let_def set_stop_keys_objs objs_rset_ex
      split: conn_type.splits if_splits sum.splits)

lemma stop_targets_frame:
  assumes "stop_targets E s ts = (s', ok)" and "\<forall>t \<in> set ts. \<not> stop_key_of t k"
  shows "map_of (objs (ls_redis s')) k = map_of (objs (ls_redis s)) k"
  using assms
proof (induction ts arbitrary: s)
  case (Cons t ts)
  obtain s1 b where s1: "stop_target E s t = (s1, b)" by fastforce
  show ?case
    using Cons.IH [of s1] Cons.prems stop_target_frame [OF s1, of k] s1 by (cases b) auto
qed simp

text \<open>C16. A stream let through fits the user's limit: when a user who was within the limit is
  allowed another stream, and it is no continuation of one already counted, the connections
  split into those told to stop and the rest, and the rest leaves room for it. While there is room
  no connection is told to stop and the state is what it was; at the limit those told to stop are
  the termination targets, and no Redis object changes but their stop keys. Told to stop means: of
  a relay client, that the relay answered the stop request; of a catch-up viewer and a VOD session,
  that its stop key is set. A VOD session whose record is gone by then, and a viewer whose channel
  id is the empty text, count as told without a key.\<close>

theorem allowed_stream_fits_the_limit:
  assumes chk: "check_user_stream_limits E s (Some u) cid media = (s', Inr True)"
    and lim: "0 < lu_stream_limit u"
    and conns: "get_user_active_connections E (ls_redis s) (Some (lu_id u)) True = Inr conns"
    and fresh: "\<not> exempt (le_settings E) cid media conns"
    and within: "int (counted (le_settings E) conns) \<le> lu_stream_limit u"
  shows "(int (counted (le_settings E) conns) < lu_stream_limit u \<longrightarrow> s' = s)
    \<and> (\<exists>stopped rest. mset conns = mset stopped + mset rest
    \<and> int (counted (le_settings E) rest) < lu_stream_limit u
    \<and> stopped = (if int (counted (le_settings E) conns) < lu_stream_limit u then []
                  else termination_targets (le_settings E) conns)
    \<and> (\<forall>t \<in> set stopped. signalled E (ls_redis s) (ls_redis s') t)
    \<and> (\<forall>k. map_of (objs (ls_redis s')) k \<noteq> map_of (objs (ls_redis s)) k \<longrightarrow> (\<exists>t \<in> set stopped. stop_key_of t k)))"
proof (cases "int (counted (le_settings E) conns) < lu_stream_limit u")
  case True
  then have "s' = s" using chk lim fresh by (simp add: check_user_stream_limits_def conns)
  then show ?thesis using True by auto
next
  case False
  let ?ts = "termination_targets (le_settings E) conns"
  have att: "attempt_stream_termination E s conns = (s', True)"
    using chk lim fresh False by (auto simp: check_user_stream_limits_def conns split: if_splits prod.splits)
  have ne: "conns \<noteq> []" using False lim by (auto simp: counted_def unique_media_def split: if_splits)
  obtain rest where rest: "mset conns = mset ?ts + mset rest" "?ts \<noteq> []"
      "Suc (counted (le_settings E) rest) = counted (le_settings E) conns"
    using targets_split [OF ne] by blast
  have run: "stop_targets E s ?ts = (s', True)"
    using att rest(2) by (auto simp: attempt_stream_termination_def split: list.splits)
  moreover have "\<forall>t \<in> set ?ts. plain_ids t"
    using active_connections_plain [OF conns] rest(1)
    by (metis set_mset_mset union_iff)
  ultimately have "\<forall>t \<in> set ?ts. signalled E (ls_redis s) (ls_redis s') t"
    using stop_targets_signal by blast
  moreover have "int (counted (le_settings E) rest) < lu_stream_limit u" using rest(3) within by linarith
  moreover have "\<exists>t \<in> set ?ts. stop_key_of t k" if "map_of (objs (ls_redis s')) k \<noteq> map_of (objs (ls_redis s)) k" for k
    using stop_targets_frame [OF run] that by blast
  ultimately have "mset conns = mset ?ts + mset rest \<and> int (counted (le_settings E) rest) < lu_stream_limit u
      \<and> ?ts = (if int (counted (le_settings E) conns) < lu_stream_limit u then [] else ?ts)
      \<and> (\<forall>t \<in> set ?ts. signalled E (ls_redis s) (ls_redis s') t)
      \<and> (\<forall>k. map_of (objs (ls_redis s')) k \<noteq> map_of (objs (ls_redis s)) k \<longrightarrow> (\<exists>t \<in> set ?ts. stop_key_of t k))"
    using rest(1) False by simp
  then show ?thesis using False by (intro conjI) (simp, intro exI [of _ ?ts] exI [of _ rest], simp)
qed

definition demo_settings :: limit_settings where
  "demo_settings = \<lparr>terminate_on_limit_exceeded = None, prioritize_single_client_channels = None,
     ignore_same_channel_connections = None, terminate_oldest = None\<rparr>"

definition demo_limits :: limits_env where
  "demo_limits = \<lparr>le_settings = demo_settings, le_clients = Response 200 EmptyBody,
     le_stop = (\<lambda>m c. Response 200 (JsonObject (Some ''ok''))), le_redis = True, le_vod_redis = True\<rparr>"

definition demo_vod_store :: redis where
  "demo_vod_store = rhset_all empty_redis ''vod_persistent_connection:s1'' [(''user_id'', RInt 7), (''created_at'', RInt 100)]"

lemma allowed_stream_witness:
  "\<exists>stopped rest. mset [\<lparr>media_id = Some ''s1'', client_id = Some ''s1'', connected_at = 100, conn_type = Vod\<rparr>] = mset stopped + mset rest
     \<and> int (counted demo_settings rest) < 1 \<and> length stopped = 1"
proof -
  let ?c = "\<lparr>media_id = Some ''s1'', client_id = Some ''s1'', connected_at = 100, conn_type = Vod\<rparr>"
  let ?s = "\<lparr>ls_redis = demo_vod_store, ls_upstreams = []\<rparr>"
  let ?u = "\<lparr>lu_id = 7, lu_stream_limit = 1\<rparr>"
  have keys: "timeshift_client_keys demo_vod_store = []" "vod_session_keys demo_vod_store = [''vod_persistent_connection:s1'']"
    by (simp_all add: timeshift_client_keys_def vod_session_keys_def scan_keys_def demo_vod_store_def
        rhset_all_def empty_redis_def starts_with_def)
  have hash: "hash_at demo_vod_store ''vod_persistent_connection:s1'' = Some [(''user_id'', RInt 7), (''created_at'', RInt 100)]"
    by (simp add: hash_at_def demo_vod_store_def rhset_all_def empty_redis_def dict_update_def)
  have conns: "get_user_active_connections demo_limits demo_vod_store (Some 7) True = Inr [?c]"
    by (simp add: get_user_active_connections_def demo_limits_def live_connections_def list_channels_def
        empty_list_answer_def keys vod_row_def Let_def hash owned_def float_or_zero_def)
  have vals: "\<not> exempt demo_settings ''c'' None [?c]" "counted demo_settings [?c] = 1"
    "termination_targets demo_settings [?c] = [?c]" "le_settings demo_limits = demo_settings"
    by (simp_all add: exempt_def counted_def demo_settings_def termination_targets_def demo_limits_def)
  have rec: "rhgetall demo_vod_store (vod_connection_key ''s1'') \<noteq> []"
    by (simp add: demo_vod_store_def rhset_all_def empty_redis_def rhgetall_def vod_connection_key_def dict_update_def)
  have "\<exists>s'. check_user_stream_limits demo_limits ?s (Some ?u) ''c'' None = (s', Inr True)"
    using rec conns vals
    by (simp add: check_user_stream_limits_def attempt_stream_termination_def stop_target_def id_text_def)
      (simp add: demo_settings_def demo_limits_def)
  then obtain s' where chk: "check_user_stream_limits demo_limits ?s (Some ?u) ''c'' None = (s', Inr True)" by blast
  obtain stopped rest where "mset [?c] = mset stopped + mset rest" "int (counted demo_settings rest) < 1" "stopped = [?c]"
    using allowed_stream_fits_the_limit [OF chk, of "[?c]"] conns vals by auto
  then show ?thesis by (intro exI [of _ stopped] exI [of _ rest]) simp
qed

text \<open>Who gives way: one connection is chosen among the user's own; with single viewers
  first, or when shared channels are not counted, a channel someone else shares is spared
  while one watched alone is left; and of those that rank alike the oldest goes, or the
  newest if so configured. With shared channels not counted, everyone on the channel goes,
  and otherwise only the one.\<close>

theorem the_least_shared_and_oldest_gives_way:
  assumes "c \<in> set conns"
  shows "\<exists>t \<in> set conns.
      termination_targets S conns = (if setting (ignore_same_channel_connections S) False
        then filter (\<lambda>d. media_id d = media_id t) conns else [t])
    \<and> (setting (ignore_same_channel_connections S) False \<or> setting (prioritize_single_client_channels S) True
        \<longrightarrow> shared_count conns c = 1 \<longrightarrow> shared_count conns t = 1)
    \<and> ((shared_count conns t = 1 \<longleftrightarrow> shared_count conns c = 1)
        \<or> \<not> setting (ignore_same_channel_connections S) False \<and> \<not> setting (prioritize_single_client_channels S) True
        \<longrightarrow> (if setting (terminate_oldest S) True then connected_at t \<le> connected_at c
             else connected_at c \<le> connected_at t))"
proof -
  obtain d ds where d: "conns = d # ds" using assms by (cases conns) auto
  let ?t = "best (prioritize S conns) d ds"
  have t: "?t \<in> set conns" using best_in [of "prioritize S conns" d ds] d by simp
  have le: "key_le (prioritize S conns ?t) (prioritize S conns c)" using best_least assms d by metis
  have pos: "0 < shared_count conns e" if "e \<in> set conns" for e
    using that by (auto simp: shared_count_def filter_empty_conv)
  have "termination_targets S conns = (if setting (ignore_same_channel_connections S) False
        then filter (\<lambda>d. media_id d = media_id ?t) conns else [?t])"
    by (simp add: termination_targets_def d)
  then show ?thesis
    using le pos [OF t] pos [OF assms]
    by (intro bexI [OF _ t] conjI) (auto simp: prioritize_def Let_def key_le_def split: if_splits)
qed

lemma gives_way_witness:
  "\<exists>t \<in> set [\<lparr>media_id = Some ''a'', client_id = Some ''1'', connected_at = 5, conn_type = Live\<rparr>,
              \<lparr>media_id = Some ''b'', client_id = Some ''2'', connected_at = 3, conn_type = Live\<rparr>].
     termination_targets demo_settings
       [\<lparr>media_id = Some ''a'', client_id = Some ''1'', connected_at = 5, conn_type = Live\<rparr>,
        \<lparr>media_id = Some ''b'', client_id = Some ''2'', connected_at = 3, conn_type = Live\<rparr>] = [t]
     \<and> connected_at t \<le> 3"
  using the_least_shared_and_oldest_gives_way
    [of "\<lparr>media_id = Some ''b'', client_id = Some ''2'', connected_at = 3, conn_type = Live\<rparr>"
       "[\<lparr>media_id = Some ''a'', client_id = Some ''1'', connected_at = 5, conn_type = Live\<rparr>,
         \<lparr>media_id = Some ''b'', client_id = Some ''2'', connected_at = 3, conn_type = Live\<rparr>]" demo_settings]
  by (auto simp: demo_settings_def shared_count_def)

text \<open>One anonymous VOD session lifts every limit: while a session record's owner is a text
  that is no number, as the \<open>unknown\<close> a session without a user is stored with, the list of
  every user's connections is empty, and every stream of every user is allowed.\<close>

theorem anonymous_vod_lifts_every_limit:
  assumes "map_of (objs (ls_redis s)) (vod_connection_key session) = Some (RHash h)"
    and "map_of h ''user_id'' = Some (RText owner)" and "owner \<noteq> []"
  shows "get_user_active_connections E (ls_redis s) (Some u) live = Inr []
    \<and> check_user_stream_limits E s user cid media = (s, Inr True)"
proof -
  let ?r = "ls_redis s"
  have key: "vod_connection_key session \<in> set (vod_session_keys ?r)"
    using map_of_SomeD [OF assms(1)]
    by (force simp: vod_session_keys_def scan_keys_def vod_connection_key_def starts_with_def)
  have "2 \<le> length (split_on (CHR '':'') (vod_connection_key session))"
    by (simp add: split_on_length vod_connection_key_def)
  then have "vod_row ?r (Some v) (vod_connection_key session) = None" for v
    using assms by (simp add: vod_row_def Let_def hash_at_def owned_def)
  then have "scan_rows (vod_row ?r (Some v)) (vod_session_keys ?r) = None" for v
    using scan_rows_None [OF key] by blast
  then have conns: "get_user_active_connections E ?r (Some v) l = Inr []" for v l
    using live_connections_total [of "le_clients E" "Some v"]
    by (auto simp: get_user_active_connections_def split: option.splits)
  then show ?thesis
    by (auto simp: check_user_stream_limits_def exempt_def counted_def unique_media_def split: option.splits)
qed

lemma anonymous_vod_witness:
  "check_user_stream_limits demo_limits
     \<lparr>ls_redis = rhset_all empty_redis (vod_connection_key ''s1'') [(''user_id'', RText ''unknown'')], ls_upstreams = []\<rparr>
     (Some \<lparr>lu_id = 7, lu_stream_limit = 1\<rparr>) ''c'' None
   = (\<lparr>ls_redis = rhset_all empty_redis (vod_connection_key ''s1'') [(''user_id'', RText ''unknown'')], ls_upstreams = []\<rparr>, Inr True)"
  by (rule anonymous_vod_lifts_every_limit [where session = "''s1''" and h = "[(''user_id'', RText ''unknown'')]"
        and owner = "''unknown''", THEN conjunct2])
    (simp_all add: rhset_all_def empty_redis_def dict_update_def)

end
