(* ===== verification/Catchup_Sessions.thy ===== *)
theory Catchup_Sessions
  imports Stream_Limits
begin

section \<open>Catch-up playback sessions (apps/timeshift/sessions.py)\<close>

text \<open>
  The record behind a playback URL that carries no credential: minted for one user and one
  channel, kept alive by its use, and resolved to the user. The fresh session id, the clock
  and the user table are arguments; \<open>None\<close> as the store is a Redis that cannot be reached.
  A user is a row of any type; \<open>uid\<close> and \<open>enabled\<close> read its id and its active flag.
\<close>

definition HANDSHAKE_TTL_SECONDS :: int where "HANDSHAKE_TTL_SECONDS = 60"
definition SESSION_IDLE_TTL_SECONDS :: int where "SESSION_IDLE_TTL_SECONDS = 600"

record minted_session =
  ms_session_id :: string
  ms_playback_url :: string
  ms_expires_at :: int
  ms_channel_uuid :: string
  ms_start :: string
  ms_duration :: "int option"

definition create_catchup_session ::
  "redis option \<Rightarrow> string \<Rightarrow> int \<Rightarrow> int \<Rightarrow> string \<Rightarrow> int \<Rightarrow> string \<Rightarrow> int option \<Rightarrow> (redis \<times> minted_session) option" where
  "create_catchup_session r session_id now user channel_uuid channel_pk start duration =
     (case r of
        None \<Rightarrow> None
      | Some r \<Rightarrow>
          let key = ts_api_session_key session_id;
              fields = [(''user_id'', RInt user), (''channel_uuid'', RText channel_uuid),
                        (''channel_id'', RInt channel_pk), (''start'', RText start), (''created_at'', RInt now)]
                       @ (case duration of None \<Rightarrow> [] | Some d \<Rightarrow> [(''duration'', RInt d)]);
              r = rexpire (rhset_all r key fields) key HANDSHAKE_TTL_SECONDS
          in Some (r, \<lparr>ms_session_id = session_id,
                       ms_playback_url = ''/proxy/catchup/'' @ channel_uuid @ ''?session_id='' @ session_id,
                       ms_expires_at = now + HANDSHAKE_TTL_SECONDS, ms_channel_uuid = channel_uuid,
                       ms_start = start, ms_duration = duration\<rparr>))"

definition get_catchup_session :: "redis option \<Rightarrow> string \<Rightarrow> rhash option" where
  "get_catchup_session r session_id =
     (case r of
        None \<Rightarrow> None
      | Some r \<Rightarrow>
          if session_id = [] then None
          else (case hash_at r (ts_api_session_key session_id) of
                  None \<Rightarrow> None
                | Some [] \<Rightarrow> None
                | Some (f # fs) \<Rightarrow> Some (f # fs)))"

definition touch_catchup_session :: "redis option \<Rightarrow> string \<Rightarrow> redis option \<times> bool" where
  "touch_catchup_session r session_id =
     (case r of
        None \<Rightarrow> (None, False)
      | Some store \<Rightarrow>
          if session_id = [] then (Some store, False)
          else if \<not> rexists store (ts_api_session_key session_id) then (Some store, False)
          else (Some (rexpire store (ts_api_session_key session_id) SESSION_IDLE_TTL_SECONDS), True))"

definition delete_catchup_session :: "redis option \<Rightarrow> string \<Rightarrow> redis option \<times> bool" where
  "delete_catchup_session r session_id =
     (case r of
        None \<Rightarrow> (None, False)
      | Some store \<Rightarrow>
          if session_id = [] then (Some store, False)
          else (Some (rdel store (ts_api_session_key session_id)), rexists store (ts_api_session_key session_id)))"

definition catchup_session_exists :: "redis option \<Rightarrow> string \<Rightarrow> bool" where
  "catchup_session_exists r session_id \<longleftrightarrow>
     session_id \<noteq> [] \<and> (case r of None \<Rightarrow> False | Some store \<Rightarrow> rexists store (ts_api_session_key session_id))"

definition user_id_from_pool :: "redis option \<Rightarrow> string \<Rightarrow> int option" where
  "user_id_from_pool r session_id =
     (case r of
        None \<Rightarrow> None
      | Some store \<Rightarrow>
          if session_id = [] then None
          else (case hash_at store (ts_pool_key session_id) of
                  None \<Rightarrow> None
                | Some h \<Rightarrow> (let v = map_of h ''user_id'' in if truthy v then py_int v else None)))"

definition resolve_catchup_playback ::
  "('u \<Rightarrow> int) \<Rightarrow> ('u \<Rightarrow> bool) \<Rightarrow> 'u list \<Rightarrow> redis option \<Rightarrow> string \<Rightarrow> string \<Rightarrow>
   redis option \<times> ('u \<times> string \<times> rval option) option" where
  "resolve_catchup_playback uid enabled users r session_id channel_uuid =
     (case get_catchup_session r session_id of
        None \<Rightarrow> (r, None)
      | Some session_fields \<Rightarrow>
          if reply_text (map_of session_fields ''channel_uuid'') \<noteq> channel_uuid then (r, None)
          else
            let r = fst (touch_catchup_session r session_id) in
            (case (case user_id_from_pool r session_id of
                     Some u \<Rightarrow> Some u
                   | None \<Rightarrow> py_int (map_of session_fields ''user_id'')) of
               None \<Rightarrow> (r, None)
             | Some u \<Rightarrow>
                 (case find (\<lambda>x. uid x = u \<and> enabled x) users of
                    None \<Rightarrow> (r, None)
                  | Some user \<Rightarrow>
                      let start = map_of session_fields ''start'' in
                      if \<not> truthy start then (r, None)
                      else (r, Some (user, reply_text start, map_of session_fields ''duration'')))))"

definition user_owns_catchup_session :: "redis option \<Rightarrow> string \<Rightarrow> int \<Rightarrow> bool" where
  "user_owns_catchup_session r session_id user \<longleftrightarrow>
     (case get_catchup_session r session_id of
        None \<Rightarrow> False
      | Some session_fields \<Rightarrow> py_int (map_of session_fields ''user_id'') = Some user)"

subsection \<open>Facts\<close>

lemma minted_session_fields:
  assumes "create_catchup_session (Some r) sid now user uuid pk start duration = Some (r', m)"
    and "\<not> rexists r (ts_api_session_key sid)"
  shows "map_of (objs r') (ts_api_session_key sid) = Some (RHash ([(''user_id'', RInt user), (''channel_uuid'', RText uuid),
      (''channel_id'', RInt pk), (''start'', RText start), (''created_at'', RInt now)]
      @ (case duration of None \<Rightarrow> [] | Some d \<Rightarrow> [(''duration'', RInt d)])))"
  using assms by (auto simp: create_catchup_session_def Let_def rexists_def rexpire_def rhset_all_def
      dict_update_def split: option.splits)

text \<open>A session opens one channel, for an active user, and its use starts the idle time anew.\<close>

lemma resolve_catchup_playback_grants:
  assumes "resolve_catchup_playback uid enabled users (Some r) sid uuid = (r', Some (u, start, d))"
  shows "enabled u \<and> u \<in> set users
    \<and> (\<exists>h. map_of (objs r) (ts_api_session_key sid) = Some (RHash h) \<and> reply_text (map_of h ''channel_uuid'') = uuid)
    \<and> r' = Some (rexpire r (ts_api_session_key sid) SESSION_IDLE_TTL_SECONDS)"
proof -
  obtain h where h: "map_of (objs r) (ts_api_session_key sid) = Some (RHash h)" "get_catchup_session (Some r) sid = Some h"
    and c: "reply_text (map_of h ''channel_uuid'') = uuid" and sid: "sid \<noteq> []"
    using assms by (auto simp: resolve_catchup_playback_def get_catchup_session_def hash_at_def
        split: option.splits robj.splits if_splits list.splits)
  have "touch_catchup_session (Some r) sid = (Some (rexpire r (ts_api_session_key sid) SESSION_IDLE_TTL_SECONDS), True)"
    using h sid by (simp add: touch_catchup_session_def rexists_def)
  with assms h c show ?thesis
    by (auto simp: resolve_catchup_playback_def Let_def dest!: find_Some_in split: option.splits if_splits)
qed

end
