(* ===== verification/Authorize.thy ===== *)
theory Authorize
  imports Next_Source Internal_Auth Catchup_Sessions
begin

section \<open>Whether a stream may be served (apps/proxy/authorize.py)\<close>

text \<open>
  One decision for every tune: who asks, whether the network rules, the channel's flags and the
  user's rights and limit let the stream through, and what the relay is told. A refusal is
  \<open>Denied\<close> with the status the client sees; \<open>Crashed\<close> is another exception, which the server
  answers with 500. The library that checks a JSON web token and the session framework are
  arguments; the API key is the source's own. Headers and query are texts; a header the source
  decodes is ASCII.
\<close>

subsection \<open>Rows and requests\<close>

text \<open>A value of a JSON object; a number with a fraction is not among those the code reads.\<close>

datatype json = JNull | JBool bool | JInt int | JText string

fun json_true :: "json option \<Rightarrow> bool" where
  "json_true (Some (JBool b)) = b"
| "json_true (Some (JInt n)) = (n \<noteq> 0)"
| "json_true (Some (JText s)) = (s \<noteq> [])"
| "json_true _ = False"

text \<open>\<open>str(v)\<close> and \<open>int(v)\<close>.\<close>

fun json_text :: "json \<Rightarrow> string" where
  "json_text JNull = ''None''"
| "json_text (JBool b) = (if b then ''True'' else ''False'')"
| "json_text (JInt n) = show_int n"
| "json_text (JText s) = s"

fun json_int :: "json \<Rightarrow> int option" where
  "json_int JNull = None"
| "json_int (JBool b) = Some (if b then 1 else 0)"
| "json_int (JInt n) = Some n"
| "json_int (JText s) = parse_int s"

record account =
  ac_id :: int
  ac_username :: string
  ac_is_active :: bool
  ac_level :: int
  ac_stream_limit :: int
  ac_api_key :: "string option"
  ac_custom :: "(string \<times> json) list"
  ac_networks :: access_settings
  ac_channel_profiles :: "int list"

text \<open>The account levels.\<close>

definition ADMIN :: int where "ADMIN = 10"

record channel_flags =
  fl_level :: int
  fl_is_adult :: bool
  fl_hidden :: bool

record membership =
  mb_profile :: int
  mb_channel :: int
  mb_enabled :: bool

text \<open>The tables and settings of one decision; \<open>le_redis\<close> of the limits says whether Redis is
  reached.\<close>

record site =
  st_playback :: playback
  st_users :: "account list"
  st_flags :: "int \<Rightarrow> channel_flags"
  st_memberships :: "membership list"
  st_crypto :: crypto
  st_network :: network_env
  st_access :: access_settings
  st_limits :: limits_env
  st_default_format :: string
  st_relay_name :: string

text \<open>What the token library makes of a token, and of a request that carries none.\<close>

datatype token_check = NoToken | BadToken | NoSuchUser | TokenUser account

record tune_request =
  tr_meta :: request_meta
  tr_auth :: auth_headers
  tr_get :: "(string \<times> string) list"
  tr_bearer :: token_check
  tr_query_token :: "string \<Rightarrow> token_check"
  tr_x_api_key :: "string option"
  tr_authorization :: "string option"
  tr_session_user :: "account option"
  tr_clock_ms :: int
  tr_random :: int

text \<open>\<open>QueryDict.get\<close>: the last value of the key.\<close>

definition query_param :: "tune_request \<Rightarrow> string \<Rightarrow> string option" where
  "query_param q k = map_of (rev (tr_get q)) k"

definition nonempty :: "string option \<Rightarrow> string option" where
  "nonempty s = (case s of Some t \<Rightarrow> if t = [] then None else Some t | None \<Rightarrow> None)"

datatype surface = LIVE | LIVE_XC | CATCHUP | CATCHUP_XC | VOD | VOD_XC

definition XC_SURFACES :: "surface list" where "XC_SURFACES = [LIVE_XC, CATCHUP_XC, VOD_XC]"
definition CHANNEL_SURFACES :: "surface list" where "CHANNEL_SURFACES = [LIVE, LIVE_XC, CATCHUP, CATCHUP_XC]"
definition PRINCIPAL_REQUIRED :: "surface list" where
  "PRINCIPAL_REQUIRED = [LIVE_XC, CATCHUP, CATCHUP_XC, VOD_XC]"

definition acl_key :: "surface \<Rightarrow> string" where
  "acl_key sf = (if sf = CATCHUP_XC then ''XC_API'' else ''STREAMS'')"

datatype principal = Anonymous | INTERNAL_PRINCIPAL | Viewer account

datatype tune_refusal = Denied int string | Crashed

record authorize_result =
  ar_surface :: surface
  ar_channel_uuid :: string
  ar_output_profile_id :: string
  ar_client_id :: string
  ar_user_id :: string
  ar_relay_name :: string
  ar_user :: "account option"
  ar_trusted :: bool
  ar_is_internal :: bool
  ar_output_format :: string
  ar_client_ip :: string

definition mint_client_id :: "tune_request \<Rightarrow> string" where
  "mint_client_id q = ''client_'' @ show_int (tr_clock_ms q) @ ''_'' @ show_int (tr_random q)"

subsection \<open>Who asks\<close>

definition resolve_xc_user :: "site \<Rightarrow> string option \<Rightarrow> string option \<Rightarrow> account option" where
  "resolve_xc_user X user_name pass_word =
     (case nonempty user_name of
        None \<Rightarrow> None
      | Some name \<Rightarrow>
          (case find (\<lambda>u. ac_username u = name) (st_users X) of
             None \<Rightarrow> None
           | Some u \<Rightarrow>
               let expected = map_of (ac_custom u) ''xc_password'' in
               (case expected of
                  None \<Rightarrow> None
                | Some e \<Rightarrow>
                    if \<not> json_true expected then None
                    else if json_text e = (case pass_word of Some p \<Rightarrow> p | None \<Rightarrow> []) then Some u
                    else None)))"

text \<open>\<open>bytes.split()\<close>.\<close>

definition is_blank :: "char \<Rightarrow> bool" where
  "is_blank c \<longleftrightarrow> (of_char c :: nat) \<in> {9, 10, 11, 12, 13, 32}"

fun split_blank :: "string \<Rightarrow> string list" where
  "split_blank [] = [[]]"
| "split_blank (c # s) =
     (if is_blank c then [] # split_blank s
      else (case split_blank s of w # ws \<Rightarrow> (c # w) # ws | [] \<Rightarrow> [[c]]))"

definition words_of :: "string \<Rightarrow> string list" where
  "words_of s = filter (\<lambda>w. w \<noteq> []) (split_blank s)"

datatype 'a authentication = Declined | Rejected | Accepted 'a

definition api_key_of :: "tune_request \<Rightarrow> string option" where
  "api_key_of q =
     (case nonempty (tr_x_api_key q) of
        Some k \<Rightarrow> Some k
      | None \<Rightarrow>
          (case words_of (case tr_authorization q of Some a \<Rightarrow> a | None \<Rightarrow> []) of
             [scheme, key] \<Rightarrow> if lower scheme = ''apikey'' then Some key else None
           | _ \<Rightarrow> None))"

definition api_key_authenticate :: "site \<Rightarrow> tune_request \<Rightarrow> account authentication" where
  "api_key_authenticate X q =
     (case api_key_of q of
        None \<Rightarrow> Declined
      | Some key \<Rightarrow>
          (case find (\<lambda>u. ac_api_key u = Some key) (st_users X) of
             None \<Rightarrow> Rejected
           | Some u \<Rightarrow> if ac_is_active u then Accepted u else Rejected))"

fun bearer_authenticate :: "token_check \<Rightarrow> account authentication" where
  "bearer_authenticate NoToken = Declined"
| "bearer_authenticate BadToken = Rejected"
| "bearer_authenticate NoSuchUser = Rejected"
| "bearer_authenticate (TokenUser u) = Accepted u"

text \<open>The query token: one that does not verify is passed over, one of no user is refused.\<close>

definition query_token_authenticate :: "tune_request \<Rightarrow> account authentication" where
  "query_token_authenticate q =
     (case nonempty (query_param q ''token'') of
        None \<Rightarrow> Declined
      | Some raw \<Rightarrow>
          (case tr_query_token q raw of
             TokenUser u \<Rightarrow> Accepted u
           | NoSuchUser \<Rightarrow> Rejected
           | _ \<Rightarrow> Declined))"

fun first_answer :: "'a authentication list \<Rightarrow> 'a authentication" where
  "first_answer [] = Declined"
| "first_answer (Declined # as) = first_answer as"
| "first_answer (a # as) = a"

definition drf_user :: "site \<Rightarrow> tune_request \<Rightarrow> tune_refusal + account option" where
  "drf_user X q =
     (case first_answer [bearer_authenticate (tr_bearer q), api_key_authenticate X q, query_token_authenticate q] of
        Declined \<Rightarrow> Inr None
      | Rejected \<Rightarrow> Inl (Denied 401 ''Invalid credentials'')
      | Accepted u \<Rightarrow> Inr (Some u))"

definition catchup_session_user ::
  "site \<Rightarrow> limits_state \<Rightarrow> string \<Rightarrow> string \<Rightarrow> limits_state \<times> account option" where
  "catchup_session_user X s identifier session_id =
     (let (r, resolved) = resolve_catchup_playback ac_id ac_is_active (st_users X)
            (if le_redis (st_limits X) then Some (ls_redis s) else None) session_id identifier
      in ((case r of None \<Rightarrow> s | Some r \<Rightarrow> s\<lparr>ls_redis := r\<rparr>),
          (case resolved of None \<Rightarrow> None | Some (user, start, duration) \<Rightarrow> Some user)))"

definition session_user :: "site \<Rightarrow> limits_state \<Rightarrow> string \<Rightarrow> string option \<Rightarrow> limits_state \<times> account option" where
  "session_user X s identifier session_id =
     (case nonempty session_id of
        None \<Rightarrow> (s, None)
      | Some sid \<Rightarrow> catchup_session_user X s identifier sid)"

definition resolve_principal ::
  "site \<Rightarrow> limits_state \<Rightarrow> tune_request \<Rightarrow> surface \<Rightarrow> string option \<Rightarrow> string option \<Rightarrow> string \<Rightarrow>
   string option \<Rightarrow> bool \<Rightarrow> limits_state \<times> (tune_refusal + principal)" where
  "resolve_principal X s q sf user_name pass_word identifier session_id is_internal =
     (if is_internal then (s, Inr INTERNAL_PRINCIPAL)
      else if sf \<in> set XC_SURFACES then
        (case resolve_xc_user X user_name pass_word of
           None \<Rightarrow> (s, Inl (Denied 401 ''Invalid credentials''))
         | Some u \<Rightarrow> (s, Inr (Viewer u)))
      else
        (case drf_user X q of
           Inl e \<Rightarrow> (s, Inl e)
         | Inr credentialed \<Rightarrow>
             (case (case credentialed of Some u \<Rightarrow> Some u | None \<Rightarrow> tr_session_user q) of
                None \<Rightarrow>
                  (case (if sf = CATCHUP then session_user X s identifier session_id else (s, None)) of
                     (s, Some u) \<Rightarrow> (s, Inr (Viewer u))
                   | (s, None) \<Rightarrow>
                       (s, if sf \<in> set PRINCIPAL_REQUIRED then Inl (Denied 401 ''Authentication required'')
                           else Inr Anonymous))
              | Some u \<Rightarrow>
                  (case (if sf = CATCHUP then session_user X s identifier session_id else (s, None)) of
                     (s, Some v) \<Rightarrow>
                       (s, if ac_id v \<noteq> ac_id u then Inl (Denied 403 ''Access denied'') else Inr (Viewer u))
                   | (s, None) \<Rightarrow> (s, Inr (Viewer u))))))"

subsection \<open>The channel\<close>

text \<open>\<open>uuid.UUID(text)\<close>: 32 hexadecimal digits, as \<open>int(text, 16)\<close> reads them.\<close>

fun hex_underscores_ok :: "string \<Rightarrow> bool" where
  "hex_underscores_ok [] = False"
| "hex_underscores_ok [c] = (hex_value c \<noteq> None)"
| "hex_underscores_ok (c # d # s) =
     (hex_value c \<noteq> None \<and> (if d = CHR ''_'' then hex_underscores_ok s else hex_underscores_ok (d # s)))"

definition hex_digits :: "string \<Rightarrow> int option" where
  "hex_digits s =
     (if hex_underscores_ok s
      then Some (foldl (\<lambda>n d. 16 * n + int d) 0 (List.map_filter hex_value s)) else None)"

definition hex_prefixed :: "string \<Rightarrow> int option" where
  "hex_prefixed s =
     (if starts_with ''0x'' s \<or> starts_with ''0X'' s
      then hex_digits (if starts_with ''_'' (drop 2 s) then drop 3 s else drop 2 s)
      else hex_digits s)"

definition parse_hex_int :: "string \<Rightarrow> int option" where
  "parse_hex_int text =
     (case strip text of
        [] \<Rightarrow> None
      | c # s \<Rightarrow> if c = CHR ''-'' then map_option uminus (hex_prefixed s)
                 else if c = CHR ''+'' then hex_prefixed s
                 else hex_prefixed (c # s))"

text \<open>\<open>text.replace(old, '')\<close>, left to right; \<open>old\<close> is not empty.\<close>

fun remove_all :: "nat \<Rightarrow> string \<Rightarrow> string \<Rightarrow> string" where
  "remove_all skip old [] = []"
| "remove_all skip old (c # s) =
     (if 0 < skip then remove_all (skip - 1) old s
      else if starts_with old (c # s) then remove_all (length old - 1) old s
      else c # remove_all 0 old s)"

definition strip_braces :: "string \<Rightarrow> string" where
  "strip_braces s =
     (let brace = (\<lambda>c. c = CHR ''{'' \<or> c = CHR ''}'')
      in rev (dropWhile brace (rev (dropWhile brace s))))"

definition parse_uuid :: "string \<Rightarrow> int option" where
  "parse_uuid text =
     (let hex = filter (\<lambda>c. c \<noteq> CHR ''-'') (strip_braces (remove_all 0 ''uuid:'' (remove_all 0 ''urn:'' text))) in
      if length hex \<noteq> 32 then None
      else (case parse_hex_int hex of
              Some n \<Rightarrow> if 0 \<le> n \<and> n < 2 ^ 128 then Some n else None
            | None \<Rightarrow> None))"

definition channel_of_uuid :: "site \<Rightarrow> string \<Rightarrow> channel_row option" where
  "channel_of_uuid X identifier =
     find (\<lambda>ch. parse_uuid (chan_uuid ch) = parse_uuid identifier) (db_channels (pb_db (st_playback X)))"

definition resolve_channel_for :: "site \<Rightarrow> surface \<Rightarrow> string \<Rightarrow> tune_refusal + channel_row option" where
  "resolve_channel_for X sf identifier =
     (if sf = LIVE then
        (case get_stream_object (st_playback X) identifier of
           None \<Rightarrow> Inl (Denied 404 ''Not found'')
         | Some (PlayedChannel ch) \<Rightarrow> Inr (Some ch)
         | Some (PlayedStream _) \<Rightarrow> Inr None)
      else
        (case (if sf = CATCHUP then
                 (case parse_uuid identifier of None \<Rightarrow> None | Some _ \<Rightarrow> channel_of_uuid X identifier)
               else
                 (case parse_int identifier of
                    None \<Rightarrow> None
                  | Some n \<Rightarrow> find (\<lambda>ch. chan_pk ch = n) (db_channels (pb_db (st_playback X))))) of
           None \<Rightarrow> Inl (Denied 404 ''Not found'')
         | Some ch \<Rightarrow> Inr (Some ch)))"

definition user_can_access_channel :: "site \<Rightarrow> account \<Rightarrow> channel_row \<Rightarrow> bool" where
  "user_can_access_channel X u ch \<longleftrightarrow>
     \<not> ac_level u < fl_level (st_flags X (chan_pk ch))
     \<and> (ac_level u \<ge> ADMIN \<or> ac_channel_profiles u = []
        \<or> list_ex (\<lambda>mb. mb_channel mb = chan_pk ch \<and> mb_enabled mb \<and> mb_profile mb \<in> set (ac_channel_profiles u))
            (st_memberships X))"

definition apply_channel_checks :: "site \<Rightarrow> channel_row \<Rightarrow> principal \<Rightarrow> tune_refusal option" where
  "apply_channel_checks X ch p =
     (let flags = st_flags X (chan_pk ch) in
      case p of
        INTERNAL_PRINCIPAL \<Rightarrow> None
      | Anonymous \<Rightarrow> if fl_hidden flags then Some (Denied 403 ''Forbidden'') else None
      | Viewer u \<Rightarrow>
          if ac_level u \<ge> ADMIN then None
          else if fl_hidden flags then Some (Denied 403 ''Forbidden'')
          else if fl_is_adult flags \<and> json_true (map_of (ac_custom u) ''hide_adult_content'')
          then Some (Denied 403 ''Forbidden'')
          else if \<not> user_can_access_channel X u ch then Some (Denied 403 ''Forbidden'')
          else None)"

subsection \<open>What the relay is told\<close>

definition active_output_profile :: "site \<Rightarrow> int option \<Rightarrow> output_profile_row option" where
  "active_output_profile X i =
     (case i of
        None \<Rightarrow> None
      | Some n \<Rightarrow> find (\<lambda>p. op_id p = n \<and> op_is_active p \<and> op_hls_mode p = []) (pb_output_profiles (st_playback X)))"

definition resolve_output_profile :: "site \<Rightarrow> tune_request \<Rightarrow> account option \<Rightarrow> output_profile_row option" where
  "resolve_output_profile X q user =
     (case nonempty (query_param q ''output_profile'') of
        Some param \<Rightarrow> active_output_profile X (parse_int param)
      | None \<Rightarrow>
          (case user of
             None \<Rightarrow> None
           | Some u \<Rightarrow>
               (case map_of (ac_custom u) ''output_profile'' of
                  None \<Rightarrow> None
                | Some v \<Rightarrow> if json_true (Some v) then active_output_profile X (json_int v) else None)))"

definition FORMAT_ALIASES :: "(string \<times> string) list" where
  "FORMAT_ALIASES = [(''mpegts'', ''mpegts''), (''ts'', ''mpegts''), (''fmp4'', ''fmp4''), (''mp4'', ''fmp4''),
     (''hls'', ''hls''), (''m3u8'', ''hls'')]"

definition hls_only_from_the_request :: "string list" where
  "hls_only_from_the_request = [''hls'', ''m3u8'']"

definition resolve_output_format :: "site \<Rightarrow> tune_request option \<Rightarrow> account option \<Rightarrow> string option \<Rightarrow> string" where
  "resolve_output_format X req user force =
     (case nonempty force of
        Some f \<Rightarrow> f
      | None \<Rightarrow>
          (case (case req of
                   None \<Rightarrow> None
                 | Some q \<Rightarrow>
                     (case (case nonempty (query_param q ''output_format'') of
                              Some p \<Rightarrow> Some p | None \<Rightarrow> query_param q ''output'') of
                        Some p \<Rightarrow> map_of FORMAT_ALIASES p
                      | None \<Rightarrow> None)) of
             Some f \<Rightarrow> f
           | None \<Rightarrow>
               let stored = (case user of None \<Rightarrow> None | Some u \<Rightarrow> map_of (ac_custom u) ''output_format'') in
               if json_true stored \<and> json_text (the stored) \<notin> set hls_only_from_the_request
               then json_text (the stored)
               else if st_default_format X \<in> set hls_only_from_the_request then ''mpegts''
               else st_default_format X))"

text \<open>\<open>str\<close> of an address: IPv4 dotted, IPv6 with the first longest run of zeros, of two or
  more, as \<open>::\<close>.\<close>

definition hextets_of :: "128 word \<Rightarrow> nat list" where
  "hextets_of w = map (\<lambda>i. unat (drop_bit (16 * (7 - i)) w) mod 65536) [0..<8]"

definition show_hextet :: "nat \<Rightarrow> string" where
  "show_hextet n = map (\<lambda>d. ''0123456789abcdef'' ! d)
     (if n < 16 then [n] else if n < 256 then [n div 16, n mod 16]
      else if n < 4096 then [n div 256, n div 16 mod 16, n mod 16]
      else [n div 4096, n div 256 mod 16, n div 16 mod 16, n mod 16])"

definition zero_run :: "nat list \<Rightarrow> nat \<times> nat" where
  "zero_run hs =
     foldl (\<lambda>(start, len) i. let n = length (takeWhile (\<lambda>h. h = 0) (drop i hs)) in if n > len then (i, n) else (start, len))
       (0, 0) [0..<length hs]"

fun join_colons :: "string list \<Rightarrow> string" where
  "join_colons [] = []"
| "join_colons [s] = s"
| "join_colons (s # ss) = s @ '':'' @ join_colons ss"

definition show_ipv6 :: "128 word \<Rightarrow> string" where
  "show_ipv6 w =
     (let hs = hextets_of w; (start, len) = zero_run hs; texts = map show_hextet hs in
      if len \<le> 1 then join_colons texts
      else join_colons
        ((if start = 0 then [[]] else []) @ take start texts @ [[]] @ drop (start + len) texts
         @ (if start + len = length hs then [[]] else [])))"

definition address_text :: "client_address \<Rightarrow> string" where
  "address_text a =
     (case a of
        Unknown \<Rightarrow> []
      | Unparsed s \<Rightarrow> s
      | Address (V4 w) \<Rightarrow> show_ipv4 w
      | Address (V6 w scope) \<Rightarrow> show_ipv6 w @ (case scope of Some s \<Rightarrow> ''%'' @ s | None \<Rightarrow> []))"

subsection \<open>The decision\<close>

definition limited :: "account \<Rightarrow> limited_user" where
  "limited u = \<lparr>lu_id = ac_id u, lu_stream_limit = ac_stream_limit u\<rparr>"

definition viewer_of :: "principal \<Rightarrow> account option" where
  "viewer_of p = (case p of Viewer u \<Rightarrow> Some u | _ \<Rightarrow> None)"

text \<open>The channel of the tune, past its checks.\<close>

definition checked_channel :: "site \<Rightarrow> surface \<Rightarrow> string \<Rightarrow> principal \<Rightarrow> tune_refusal + channel_row option" where
  "checked_channel X sf identifier p =
     (if sf \<notin> set CHANNEL_SURFACES then Inr None
      else
        (case resolve_channel_for X sf identifier of
           Inl e \<Rightarrow> Inl e
         | Inr None \<Rightarrow> Inr None
         | Inr (Some ch) \<Rightarrow>
             (case apply_channel_checks X ch p of
                Some e \<Rightarrow> Inl e
              | None \<Rightarrow> Inr (Some ch))))"

definition limit_check ::
  "site \<Rightarrow> limits_state \<Rightarrow> surface \<Rightarrow> string \<Rightarrow> string \<Rightarrow> channel_row option \<Rightarrow> account option \<Rightarrow>
   limits_state \<times> tune_refusal option" where
  "limit_check X s sf identifier client channel user =
     (case user of
        None \<Rightarrow> (s, None)
      | Some u \<Rightarrow>
          if sf = LIVE \<or> sf = LIVE_XC then
            (case check_user_stream_limits (st_limits X) s (Some (limited u)) client
                    (Some (case channel of Some ch \<Rightarrow> chan_uuid ch | None \<Rightarrow> identifier)) of
               (s, Inl e) \<Rightarrow> (s, Some Crashed)
             | (s, Inr True) \<Rightarrow> (s, None)
             | (s, Inr False) \<Rightarrow>
                 (s, Some (Denied 429 (''Stream limit exceeded ('' @ show_int (ac_stream_limit u)
                                       @ '' concurrent streams allowed)''))))
          else (s, None))"

text \<open>\<open>sf\<close> is \<open>None\<close> for a surface the function does not know.\<close>

definition authorize_stream ::
  "site \<Rightarrow> limits_state \<Rightarrow> tune_request \<Rightarrow> surface option \<Rightarrow> string \<Rightarrow> string option \<Rightarrow> string option \<Rightarrow> string option \<Rightarrow>
   limits_state \<times> (tune_refusal + authorize_result)" where
  "authorize_stream X s q surf identifier user_name pass_word session_id =
     (case surf of
        None \<Rightarrow> (s, Inl (Denied 403 ''Forbidden''))
      | Some sf \<Rightarrow>
          let is_internal = request_is_internal (st_crypto X) (tr_auth q) in
          (case resolve_principal X s q sf user_name pass_word identifier session_id is_internal of
             (s, Inl e) \<Rightarrow> (s, Inl e)
           | (s, Inr p) \<Rightarrow>
               let user = viewer_of p in
               (case network_access_allowed (st_network X) (st_access X) (tr_meta q) (acl_key sf)
                       (map_option ac_networks user) of
                  None \<Rightarrow> (s, Inl Crashed)
                | Some False \<Rightarrow> (s, Inl (Denied 403 ''Forbidden''))
                | Some True \<Rightarrow>
                    (case checked_channel X sf identifier p of
                       Inl e \<Rightarrow> (s, Inl e)
                     | Inr channel \<Rightarrow>
                         let client = (if sf = LIVE \<or> sf = LIVE_XC then mint_client_id q else []) in
                         (case limit_check X s sf identifier client channel user of
                            (s, Some e) \<Rightarrow> (s, Inl e)
                          | (s, None) \<Rightarrow>
                              (s, Inr \<lparr>ar_surface = sf,
                                ar_channel_uuid = (case channel of Some ch \<Rightarrow> chan_uuid ch | None \<Rightarrow> []),
                                ar_output_profile_id =
                                  (case resolve_output_profile X q user of Some pr \<Rightarrow> show_int (op_id pr) | None \<Rightarrow> []),
                                ar_client_id = client,
                                ar_user_id = (case user of Some u \<Rightarrow> show_int (ac_id u) | None \<Rightarrow> []),
                                ar_relay_name = st_relay_name X, ar_user = user, ar_trusted = False,
                                ar_is_internal = is_internal,
                                ar_output_format = resolve_output_format X (Some q) user None,
                                ar_client_ip = address_text (get_client_ip (st_network X) (tr_meta q))\<rparr>))))))"

subsection \<open>What a grant implies\<close>

lemma resolve_principal_required:
  "resolve_principal X s q sf n w i sid fromus = (s', Inr p) \<Longrightarrow>
   (sf \<in> set PRINCIPAL_REQUIRED \<longrightarrow> p \<noteq> Anonymous) \<and> (p = INTERNAL_PRINCIPAL \<longleftrightarrow> fromus) \<and> (sf \<noteq> CATCHUP \<longrightarrow> s' = s)"
  by (auto simp: resolve_principal_def XC_SURFACES_def PRINCIPAL_REQUIRED_def split: if_splits option.splits sum.splits prod.splits)

lemma checked_channel_granted:
  assumes "checked_channel X sf i p = Inr channel"
  shows "sf \<in> set CHANNEL_SURFACES \<longrightarrow> resolve_channel_for X sf i = Inr channel"
    and "channel = Some ch \<Longrightarrow> apply_channel_checks X ch p = None"
    and "sf \<notin> set CHANNEL_SURFACES \<Longrightarrow> channel = None"
  using assms by (auto simp: checked_channel_def split: if_splits sum.splits option.splits)

text \<open>The rights of a viewer over a channel that every grant respects, an administrator's aside.\<close>

definition may_watch :: "site \<Rightarrow> channel_row \<Rightarrow> principal \<Rightarrow> bool" where
  "may_watch X ch p \<longleftrightarrow>
     p = INTERNAL_PRINCIPAL
     \<or> (\<exists>u. p = Viewer u \<and> ac_level u \<ge> ADMIN)
     \<or> \<not> fl_hidden (st_flags X (chan_pk ch))
       \<and> (\<forall>u. p = Viewer u \<longrightarrow>
            \<not> (fl_is_adult (st_flags X (chan_pk ch)) \<and> json_true (map_of (ac_custom u) ''hide_adult_content''))
            \<and> fl_level (st_flags X (chan_pk ch)) \<le> ac_level u
            \<and> (ac_channel_profiles u = [] \<or>
               (\<exists>mb \<in> set (st_memberships X). mb_channel mb = chan_pk ch \<and> mb_enabled mb
                  \<and> mb_profile mb \<in> set (ac_channel_profiles u))))"

lemma apply_channel_checks_iff: "apply_channel_checks X ch p = None \<longleftrightarrow> may_watch X ch p"
proof (cases p)
  case (Viewer u)
  then show ?thesis
    by (cases "ac_level u \<ge> ADMIN") (auto simp: apply_channel_checks_def may_watch_def user_can_access_channel_def list_ex_iff Let_def)
qed (auto simp: apply_channel_checks_def may_watch_def Let_def)

text \<open>A disabled account is refused by its key, and served by its Xtream login.\<close>

lemma disabled_account_by_xtream:
  assumes "find (\<lambda>v. ac_username v = n) (st_users X) = Some u" and "\<not> ac_is_active u" and "n \<noteq> []" "w \<noteq> []"
    and "map_of (ac_custom u) ''xc_password'' = Some (JText w)"
  shows "resolve_xc_user X (Some n) (Some w) = Some u"
    and "api_key_of q = Some k \<Longrightarrow> find (\<lambda>v. ac_api_key v = Some k) (st_users X) = Some u \<Longrightarrow>
      api_key_authenticate X q = Rejected"
  using assms by (simp_all add: resolve_xc_user_def nonempty_def api_key_authenticate_def)

end
