(* ===== verification/Authorize_Properties.thy ===== *)
theory Authorize_Properties
  imports Authorize Source_Properties
begin

section \<open>Properties of the authorization\<close>

text \<open>
  What a grant of \<open>authorize_stream\<close> implies, on a demonstration site with one channel and one
  user.
\<close>

text \<open>C5. A stream is served only when every check let it through: the surface is known, the
  network rules of its key and of the user allow the address, a surface that needs a
  principal has one, and only a caller with the deployment's token is the internal one; a
  channel surface names a row that exists, and its channel is one the principal may watch;
  and a viewer's live stream passed the stream limit.\<close>

theorem granted_stream_passed_every_check:
  assumes "authorize_stream X s q surf identifier user_name pass_word session_id = (s', Inr r)"
  shows "\<exists>sf p. surf = Some sf \<and> ar_surface r = sf \<and> ar_user r = viewer_of p
    \<and> network_access_allowed (st_network X) (st_access X) (tr_meta q) (acl_key sf)
        (map_option ac_networks (viewer_of p)) = Some True
    \<and> (sf \<in> set PRINCIPAL_REQUIRED \<longrightarrow> p \<noteq> Anonymous)
    \<and> (p = INTERNAL_PRINCIPAL \<longleftrightarrow> request_is_internal (st_crypto X) (tr_auth q))
    \<and> (sf \<in> set CHANNEL_SURFACES \<longrightarrow>
         (\<exists>channel. resolve_channel_for X sf identifier = Inr channel
            \<and> ar_channel_uuid r = (case channel of Some ch \<Rightarrow> chan_uuid ch | None \<Rightarrow> [])
            \<and> (\<forall>ch. channel = Some ch \<longrightarrow> may_watch X ch p)
            \<and> (\<forall>u. p = Viewer u \<longrightarrow> sf = LIVE \<or> sf = LIVE_XC \<longrightarrow>
                 check_user_stream_limits (st_limits X) s (Some (limited u)) (ar_client_id r)
                   (Some (case channel of Some ch \<Rightarrow> chan_uuid ch | None \<Rightarrow> identifier)) = (s', Inr True))))"
proof -
  obtain sf where sf: "surf = Some sf" using assms by (auto simp: authorize_stream_def split: option.splits)
  obtain s1 p where p: "resolve_principal X s q sf user_name pass_word identifier session_id
      (request_is_internal (st_crypto X) (tr_auth q)) = (s1, Inr p)"
    using assms sf by (auto simp: authorize_stream_def Let_def split: prod.splits sum.splits)
  have acl: "network_access_allowed (st_network X) (st_access X) (tr_meta q) (acl_key sf)
        (map_option ac_networks (viewer_of p)) = Some True"
    using assms sf p by (auto simp: authorize_stream_def Let_def split: prod.splits sum.splits option.splits bool.splits)
  obtain channel where ch: "checked_channel X sf identifier p = Inr channel"
    using assms sf p acl by (auto simp: authorize_stream_def Let_def split: prod.splits sum.splits)
  let ?client = "if sf = LIVE \<or> sf = LIVE_XC then mint_client_id q else []"
  have lim: "limit_check X s1 sf identifier ?client channel (viewer_of p) = (s', None)"
    and r: "ar_surface r = sf" "ar_user r = viewer_of p" "ar_client_id r = ?client"
      "ar_channel_uuid r = (case channel of Some ch \<Rightarrow> chan_uuid ch | None \<Rightarrow> [])"
    using assms sf p acl ch by (auto simp: authorize_stream_def Let_def split: prod.splits option.splits)
  have "check_user_stream_limits (st_limits X) s (Some (limited u)) ?client
      (Some (case channel of Some ch \<Rightarrow> chan_uuid ch | None \<Rightarrow> identifier)) = (s', Inr True)"
    if "p = Viewer u" "sf = LIVE \<or> sf = LIVE_XC" for u
    using lim that resolve_principal_required [OF p]
    by (auto simp: limit_check_def viewer_of_def split: prod.splits sum.splits bool.splits)
  then show ?thesis
    using sf r acl resolve_principal_required [OF p] checked_channel_granted [OF ch]
    by (intro exI [of _ sf] exI [of _ p]) (auto simp: apply_channel_checks_iff)
qed

definition demo_user :: account where
  "demo_user = \<lparr>ac_id = 7, ac_username = ''ann'', ac_is_active = True, ac_level = 1, ac_stream_limit = 1,
     ac_api_key = None, ac_custom = [(''hide_adult_content'', JBool True)], ac_networks = (\<lambda>_. None),
     ac_channel_profiles = []\<rparr>"

definition demo_site :: site where
  "demo_site = \<lparr>st_playback = demo_playback, st_users = [demo_user],
     st_flags = (\<lambda>_. \<lparr>fl_level = 0, fl_is_adult = False, fl_hidden = False\<rparr>), st_memberships = [],
     st_crypto = demo_crypto, st_network = \<lparr>trusted_proxies = None, setup_allowed_ip = None\<rparr>,
     st_access = (\<lambda>_. None), st_limits = demo_limits, st_default_format = ''mpegts'', st_relay_name = ''relay''\<rparr>"

definition demo_tune :: tune_request where
  "demo_tune = \<lparr>tr_meta = \<lparr>remote_addr = Some ''203.0.113.9'', x_real_ip = None, x_forwarded_for = None\<rparr>,
     tr_auth = \<lparr>hdr_authorized = None, hdr_internal = None, hdr_internal_request = None\<rparr>,
     tr_get = [(''output_format'', ''mp4'')], tr_bearer = TokenUser demo_user, tr_query_token = (\<lambda>_. BadToken),
     tr_x_api_key = None, tr_authorization = None, tr_session_user = None, tr_clock_ms = 1000, tr_random = 4242\<rparr>"

lemma demo_network: "network_access_allowed (st_network demo_site) (st_access demo_site) (tr_meta demo_tune) ''STREAMS'' (Some (\<lambda>_. None)) = Some True"
proof -
  have addr: "client_ip (st_network demo_site) (tr_meta demo_tune) = Some (V4 0xCB007109)"
    using demo_peer(2) by (simp add: client_ip_def get_client_ip_def demo_site_def demo_tune_def demo_peer(1))
  have "ip_network True ''0.0.0.0/0'' = Some (Net4 0 0)"
    by (simp add: ip_eval)
  then have "first_network (V4 0xCB007109) (access_cidrs (st_access demo_site) ''STREAMS'') = Some True"
    by (simp add: access_cidrs_def demo_site_def in_network_def netmask_def mask_eq_exp_minus_1)
  then show ?thesis by (simp add: network_access_allowed_def addr user_networks_allow_def)
qed

lemma demo_granted:
  "\<exists>s' r. authorize_stream demo_site \<lparr>ls_redis = empty_redis, ls_upstreams = []\<rparr> demo_tune (Some LIVE) ''uuid3'' None None None = (s', Inr r)
     \<and> ar_user r = Some demo_user \<and> ar_output_format r = ''fmp4'' \<and> ar_channel_uuid r = ''uuid3''
     \<and> ar_client_id r = mint_client_id demo_tune \<and> ar_client_ip r = show_ipv4 0xCB007109"
proof -
  let ?s = "\<lparr>ls_redis = empty_redis, ls_upstreams = []\<rparr>"
  have internal: "\<not> request_is_internal (st_crypto demo_site) (tr_auth demo_tune)"
    by (simp add: request_is_internal_def matches_def demo_tune_def)
  have p: "resolve_principal demo_site ?s demo_tune LIVE None None ''uuid3'' None False = (?s, Inr (Viewer demo_user))"
    by (simp add: resolve_principal_def XC_SURFACES_def drf_user_def demo_tune_def)
  have ch: "checked_channel demo_site LIVE ''uuid3'' (Viewer demo_user) = Inr (Some demo_pair)"
    by (simp add: checked_channel_def CHANNEL_SURFACES_def resolve_channel_for_def apply_channel_checks_def
        user_can_access_channel_def demo_site_def demo_lookup(1) demo_user_def ADMIN_def)
  have conns: "get_user_active_connections demo_limits empty_redis (Some 7) True = Inr []"
    by (simp add: get_user_active_connections_def demo_limits_def live_connections_def list_channels_def
        empty_list_answer_def timeshift_client_keys_def vod_session_keys_def scan_keys_def empty_redis_def)
  have lim: "limit_check demo_site ?s LIVE ''uuid3'' c (Some demo_pair) (Some demo_user) = (?s, None)" for c
    by (simp add: limit_check_def check_user_stream_limits_def limited_def demo_user_def demo_site_def conns
        exempt_def counted_def unique_media_def)
  have uuid: "chan_uuid demo_pair = ''uuid3''"
    by (simp add: demo_pair_def demo_channel_def)
  have ip: "address_text (get_client_ip (st_network demo_site) (tr_meta demo_tune)) = show_ipv4 0xCB007109"
    using demo_peer(2) by (simp add: get_client_ip_def demo_site_def demo_tune_def demo_peer(1) address_text_def)
  have fmt: "resolve_output_format demo_site (Some demo_tune) u None = ''fmp4''" for u
    by (simp add: resolve_output_format_def nonempty_def query_param_def demo_tune_def FORMAT_ALIASES_def)
  have net: "network_access_allowed (st_network demo_site) (st_access demo_site) (tr_meta demo_tune) (acl_key LIVE)
      (map_option ac_networks (viewer_of (Viewer demo_user))) = Some True"
    using demo_network by (simp add: acl_key_def viewer_of_def demo_user_def)
  show ?thesis
    using internal p ch net lim by (simp add: authorize_stream_def Let_def fmt ip uuid viewer_of_def)
qed

lemma granted_stream_witness:
  "\<exists>s' r. authorize_stream demo_site \<lparr>ls_redis = empty_redis, ls_upstreams = []\<rparr> demo_tune (Some LIVE) ''uuid3'' None None None = (s', Inr r)
     \<and> (\<exists>p. viewer_of p = Some demo_user \<and> may_watch demo_site demo_pair p)"
proof -
  obtain s' r where a: "authorize_stream demo_site \<lparr>ls_redis = empty_redis, ls_upstreams = []\<rparr> demo_tune (Some LIVE) ''uuid3'' None None None = (s', Inr r)"
    and u: "ar_user r = Some demo_user"
    using demo_granted by blast
  have "resolve_channel_for demo_site LIVE ''uuid3'' = Inr (Some demo_pair)"
    by (simp add: resolve_channel_for_def demo_site_def demo_lookup(1))
  then show ?thesis
    using granted_stream_passed_every_check [OF a] a u by (auto simp: CHANNEL_SURFACES_def)
qed

end
