(* ===== verification/Authorize_Hop.thy ===== *)
theory Authorize_Hop
  imports Authorize_Properties
begin

section \<open>How the decision reaches a view (apps/proxy/authorize\_views.py)\<close>

text \<open>
  The two ways to \<open>authorize_stream\<close>: the subrequest nginx makes, whose answer travels in
  response headers and is rebuilt by the view from the request headers nginx set, and the call
  a view makes itself when nginx's marker is absent. The URL resolver (on the decoded path),
  the query parser, the token library and the session framework are the record
  \<open>framework\<close>. A header value is one line, so that the response can carry it.
\<close>

type_synonym kwargs = "(string \<times> string) list"

record framework =
  fw_route :: "string \<Rightarrow> (string \<times> kwargs) option"
  fw_query :: "string \<Rightarrow> (string \<times> string) list"
  fw_bearer :: "string option \<Rightarrow> token_check"
  fw_query_token :: "string \<Rightarrow> token_check"
  fw_session :: "string \<Rightarrow> account option"

subsection \<open>The headers\<close>

record relay_headers =
  rh_channel :: "string option"
  rh_output :: "string option"
  rh_client :: "string option"
  rh_user :: "string option"
  rh_name :: "string option"
  rh_output_format :: "string option"
  rh_client_ip :: "string option"

definition response_headers :: "authorize_result \<Rightarrow> relay_headers" where
  "response_headers a =
     \<lparr>rh_channel = Some (ar_channel_uuid a), rh_output = Some (ar_output_profile_id a),
      rh_client = Some (ar_client_id a), rh_user = Some (ar_user_id a), rh_name = Some (ar_relay_name a),
      rh_output_format = Some (ar_output_format a), rh_client_ip = Some (ar_client_ip a)\<rparr>"

text \<open>\<open>str.isdigit()\<close> on the Latin-1 range: the digits and the superscripts, which \<open>int\<close> refuses.\<close>

definition py_isdigit :: "string \<Rightarrow> bool" where
  "py_isdigit s \<longleftrightarrow> s \<noteq> [] \<and> list_all (\<lambda>c. is_digit c \<or> (of_char c :: nat) \<in> {178, 179, 185}) s"

definition header_text :: "string option \<Rightarrow> string" where
  "header_text h = strip (case h of Some s \<Rightarrow> s | None \<Rightarrow> [])"

definition result_from_headers ::
  "site \<Rightarrow> auth_headers \<Rightarrow> relay_headers \<Rightarrow> surface \<Rightarrow> tune_refusal + authorize_result" where
  "result_from_headers X h rh sf =
     (let sent = header_text (rh_user rh) in
      case (if sf = LIVE \<or> sf = LIVE_XC then Inr (if py_isdigit sent then sent else [], None)
            else if py_isdigit sent then
              (case parse_int sent of
                 None \<Rightarrow> Inl Crashed
               | Some n \<Rightarrow>
                   (case find (\<lambda>u. ac_id u = n) (st_users X) of
                      None \<Rightarrow> Inr ([], None)
                    | Some u \<Rightarrow> Inr (show_int (ac_id u), Some u)))
            else Inr ([], None)) of
        Inl e \<Rightarrow> Inl e
      | Inr (user_id, user) \<Rightarrow>
          let output = header_text (rh_output rh) in
          if output \<noteq> [] \<and> \<not> py_isdigit output then Inl (Denied 403 ''Forbidden'')
          else Inr \<lparr>ar_surface = sf, ar_channel_uuid = header_text (rh_channel rh), ar_output_profile_id = output,
            ar_client_id = header_text (rh_client rh), ar_user_id = user_id, ar_relay_name = st_relay_name X,
            ar_user = user, ar_trusted = True, ar_is_internal = request_is_internal (st_crypto X) h,
            ar_output_format = header_text (rh_output_format rh), ar_client_ip = header_text (rh_client_ip rh)\<rparr>)"

definition resolve_authorization ::
  "site \<Rightarrow> limits_state \<Rightarrow> tune_request \<Rightarrow> relay_headers \<Rightarrow> surface \<Rightarrow> string \<Rightarrow> string option \<Rightarrow> string option \<Rightarrow>
   string option \<Rightarrow> limits_state \<times> (tune_refusal + authorize_result)" where
  "resolve_authorization X s q rh sf identifier user_name pass_word session_id =
     (if request_is_relay_trusted (st_crypto X) (tr_auth q) then (s, result_from_headers X (tr_auth q) rh sf)
      else authorize_stream X s q (Some sf) identifier user_name pass_word session_id)"

subsection \<open>The surface of a URL\<close>

record identity =
  id_identifier :: string
  id_username :: "string option"
  id_password :: "string option"
  id_session :: "string option"

definition kwarg :: "kwargs \<Rightarrow> string \<Rightarrow> string" where
  "kwarg kw k = (case map_of kw k of Some s \<Rightarrow> s | None \<Rightarrow> [])"

definition stem :: "string \<Rightarrow> string" where
  "stem raw = (case rsplit_once (CHR ''.'') raw of Some (a, _) \<Rightarrow> a | None \<Rightarrow> raw)"

definition without_ts :: "string \<Rightarrow> string" where
  "without_ts raw = (if ends_with ''.ts'' raw then take (length raw - 3) raw else raw)"

definition xc_identity :: "kwargs \<Rightarrow> string \<Rightarrow> identity" where
  "xc_identity kw identifier =
     \<lparr>id_identifier = identifier, id_username = map_of kw ''username'', id_password = map_of kw ''password'', id_session = None\<rparr>"

text \<open>The view's name and arguments give the surface and what identifies the stream; the query
  gives what the catch-up layouts keep there.\<close>

definition surface_for :: "string \<times> kwargs \<Rightarrow> tune_request \<Rightarrow> (surface \<times> identity) option" where
  "surface_for match q =
     (case match of (name, kw) \<Rightarrow>
      if name = ''stream_ts'' then
        Some (LIVE, \<lparr>id_identifier = kwarg kw ''channel_id'', id_username = None, id_password = None, id_session = None\<rparr>)
      else if name = ''stream_xc'' then Some (LIVE_XC, xc_identity kw (stem (kwarg kw ''channel_id'')))
      else if name = ''catchup_proxy'' then
        Some (CATCHUP, \<lparr>id_identifier = kwarg kw ''channel_id'', id_username = None, id_password = None,
                        id_session = query_param q ''session_id''\<rparr>)
      else if name = ''timeshift_proxy'' then Some (CATCHUP_XC, xc_identity kw (without_ts (kwarg kw ''channel_id'')))
      else if name = ''timeshift_proxy_query'' then
        Some (CATCHUP_XC, \<lparr>id_identifier = without_ts (case query_param q ''stream'' of Some t \<Rightarrow> t | None \<Rightarrow> []),
                           id_username = query_param q ''username'', id_password = query_param q ''password'', id_session = None\<rparr>)
      else if name = ''stream_vod'' then
        Some (VOD, \<lparr>id_identifier = kwarg kw ''content_id'', id_username = None, id_password = None,
                    id_session = map_of kw ''session_id''\<rparr>)
      else if name = ''stream_xc_movie'' \<or> name = ''stream_xc_episode'' then
        Some (VOD_XC, xc_identity kw (kwarg kw ''stream_id''))
      else None)"

subsection \<open>The subrequest and the internal call\<close>

text \<open>An answer: 200 with the decision, a refusal with the status sent, the true status in its
  header if there is one, and the detail; or the server's 500.\<close>

datatype hop_answer = Granted relay_headers | Refuse int "int option" string | ServerError

fun authorize_error_response :: "tune_refusal \<Rightarrow> hop_answer" where
  "authorize_error_response (Denied status detail) = Refuse status None detail"
| "authorize_error_response Crashed = ServerError"

fun subrequest_error_response :: "tune_refusal \<Rightarrow> hop_answer" where
  "subrequest_error_response (Denied status detail) = Refuse (if status = 401 then status else 403) (Some status) detail"
| "subrequest_error_response Crashed = ServerError"

definition answer_for ::
  "(tune_refusal \<Rightarrow> hop_answer) \<Rightarrow> framework \<Rightarrow> site \<Rightarrow> limits_state \<Rightarrow> tune_request \<Rightarrow> string \<Rightarrow> limits_state \<times> hop_answer" where
  "answer_for refuse F X s q uri =
     (case fw_route F uri of
        None \<Rightarrow> (s, refuse (Denied 404 ''Not found''))
      | Some match \<Rightarrow>
          (case surface_for match q of
             None \<Rightarrow> (s, refuse (Denied 403 ''Forbidden''))
           | Some (sf, i) \<Rightarrow>
               (case authorize_stream X s q (Some sf) (id_identifier i) (id_username i) (id_password i) (id_session i) of
                  (s, Inl e) \<Rightarrow> (s, refuse e)
                | (s, Inr a) \<Rightarrow> (s, Granted (response_headers a)))))"

definition authorize_view ::
  "framework \<Rightarrow> site \<Rightarrow> limits_state \<Rightarrow> tune_request \<Rightarrow> string option \<Rightarrow> limits_state \<times> hop_answer" where
  "authorize_view F X s q original =
     (case nonempty original of
        None \<Rightarrow> (s, subrequest_error_response (Denied 403 ''Forbidden''))
      | Some uri \<Rightarrow> answer_for subrequest_error_response F X s (q\<lparr>tr_get := fw_query F uri\<rparr>) uri)"

record internal_body =
  ib_uri :: string
  ib_client_ip :: string
  ib_internal :: bool
  ib_authorization :: "string option"
  ib_cookie :: "string option"
  ib_x_api_key :: "string option"

text \<open>The request authorized is built from the body alone; the clock and the random number are the
  server's.\<close>

definition synthetic_request :: "framework \<Rightarrow> site \<Rightarrow> int \<Rightarrow> int \<Rightarrow> internal_body \<Rightarrow> tune_request" where
  "synthetic_request F X clock_ms random b =
     \<lparr>tr_meta = \<lparr>remote_addr = Some (ib_client_ip b), x_real_ip = None, x_forwarded_for = None\<rparr>,
      tr_auth = \<lparr>hdr_authorized = None,
                 hdr_internal = (if ib_internal b then Some (internal_principal_token (st_crypto X)) else None),
                 hdr_internal_request = None\<rparr>,
      tr_get = fw_query F (ib_uri b), tr_bearer = fw_bearer F (nonempty (ib_authorization b)),
      tr_query_token = fw_query_token F, tr_x_api_key = nonempty (ib_x_api_key b),
      tr_authorization = nonempty (ib_authorization b),
      tr_session_user = fw_session F (case ib_cookie b of Some c \<Rightarrow> c | None \<Rightarrow> []),
      tr_clock_ms = clock_ms, tr_random = random\<rparr>"

definition authorize_internal_view ::
  "framework \<Rightarrow> site \<Rightarrow> limits_state \<Rightarrow> int \<Rightarrow> int \<Rightarrow> internal_body \<Rightarrow> limits_state \<times> hop_answer" where
  "authorize_internal_view F X s clock_ms random b =
     answer_for authorize_error_response F X s (synthetic_request F X clock_ms random b) (ib_uri b)"

text \<open>Every refusal of the subrequest is a status nginx carries, and its header is the status a
  view answers with when it authorizes inline.\<close>

lemma subrequest_statuses:
  assumes "authorize_view F X s q original = (s', Refuse status true_status detail)"
  shows "status \<in> {401, 403} \<and> true_status \<noteq> None \<and> (status = 401 \<longleftrightarrow> true_status = Some 401)"
proof -
  have r: "subrequest_error_response e = Refuse status true_status detail \<Longrightarrow>
      status \<in> {401, 403} \<and> true_status \<noteq> None \<and> (status = 401 \<longleftrightarrow> true_status = Some 401)" for e
    by (cases e) (auto split: if_splits)
  show ?thesis
    using assms by (auto simp: authorize_view_def answer_for_def dest!: r split: option.splits prod.splits sum.splits if_splits)
qed

subsection \<open>Numbers in headers\<close>

lemma header_text_strip: "strip v = v \<Longrightarrow> header_text (Some v) = v"
  by (simp add: header_text_def)

lemma strip_empty: "strip [] = []"
  by (simp add: strip_id)

lemma number_header:
  assumes "0 \<le> i"
  shows "header_text (Some (show_int i)) = show_int i" "py_isdigit (show_int i)" "parse_int (show_int i) = Some i" "show_int i \<noteq> []"
proof -
  obtain n where n: "i = int n" using assms by (cases i) auto
  have "strip (show_nat n) = show_nat n" by (rule strip_id) simp
  moreover have "py_isdigit (show_nat n)"
    using digits_show_nat [of n] by (auto simp: py_isdigit_def list_all_iff)
  ultimately show "header_text (Some (show_int i)) = show_int i" "py_isdigit (show_int i)" "parse_int (show_int i) = Some i"
      "show_int i \<noteq> []"
    by (simp_all add: n show_int_def header_text_def)
qed

lemma py_isdigit_empty [simp]: "\<not> py_isdigit []"
  by (simp add: py_isdigit_def)

lemma find_by_id: "distinct (map ac_id us) \<Longrightarrow> u \<in> set us \<Longrightarrow> find (\<lambda>v. ac_id v = ac_id u) us = Some u"
  by (induction us) (auto simp: rev_image_eqI)

lemma granted_fields:
  assumes "authorize_stream X s q (Some sf) identifier user_name pass_word session_id = (s', Inr a)"
  shows "ar_surface a = sf" "\<not> ar_trusted a" "ar_relay_name a = st_relay_name X"
    "ar_is_internal a = request_is_internal (st_crypto X) (tr_auth q)"
    "ar_user_id a = (case ar_user a of Some u \<Rightarrow> show_int (ac_id u) | None \<Rightarrow> [])"
    "ar_output_profile_id a = [] \<or> (\<exists>pr \<in> set (pb_output_profiles (st_playback X)). ar_output_profile_id a = show_int (op_id pr))"
proof -
  have "ar_surface a = sf \<and> \<not> ar_trusted a \<and> ar_relay_name a = st_relay_name X
      \<and> ar_is_internal a = request_is_internal (st_crypto X) (tr_auth q)
      \<and> ar_user_id a = (case ar_user a of Some u \<Rightarrow> show_int (ac_id u) | None \<Rightarrow> [])
      \<and> ar_output_profile_id a = (case resolve_output_profile X q (ar_user a) of Some pr \<Rightarrow> show_int (op_id pr) | None \<Rightarrow> [])"
    using assms by (auto simp: authorize_stream_def Let_def split: prod.splits sum.splits option.splits bool.splits)
  moreover have "resolve_output_profile X q u = Some pr \<Longrightarrow> pr \<in> set (pb_output_profiles (st_playback X))" for u pr
    by (auto simp: resolve_output_profile_def active_output_profile_def dest!: find_Some_in split: option.splits if_splits)
  ultimately show "ar_surface a = sf" "\<not> ar_trusted a" "ar_relay_name a = st_relay_name X"
    "ar_is_internal a = request_is_internal (st_crypto X) (tr_auth q)"
    "ar_user_id a = (case ar_user a of Some u \<Rightarrow> show_int (ac_id u) | None \<Rightarrow> [])"
    "ar_output_profile_id a = [] \<or> (\<exists>pr \<in> set (pb_output_profiles (st_playback X)). ar_output_profile_id a = show_int (op_id pr))"
    by (auto split: option.splits)
qed

text \<open>C36. The relay acts on the decision the hop made: when nginx copies the response headers of
  a grant onto the request that carries its marker, the view gets the granted result back,
  field by field, trusted now, with the user's row on every surface but the live ones, which
  do without it. The header texts have no space around them, row ids are not negative, and
  the granted user is a row of the table.\<close>

theorem hop_round_trip:
  assumes g: "authorize_stream X s q (Some sf) identifier user_name pass_word session_id = (s', Inr a)"
    and trusted: "request_is_relay_trusted (st_crypto X) (tr_auth q')" and same: "hdr_internal (tr_auth q') = hdr_internal (tr_auth q)"
    and strips: "strip (ar_channel_uuid a) = ar_channel_uuid a" "strip (ar_client_id a) = ar_client_id a"
      "strip (ar_output_format a) = ar_output_format a" "strip (ar_client_ip a) = ar_client_ip a"
    and ids: "\<forall>pr \<in> set (pb_output_profiles (st_playback X)). 0 \<le> op_id pr"
    and users: "\<forall>u. ar_user a = Some u \<longrightarrow> u \<in> set (st_users X) \<and> 0 \<le> ac_id u" "distinct (map ac_id (st_users X))"
  shows "resolve_authorization X t q' (response_headers a) sf identifier' user_name' pass_word' session_id'
    = (t, Inr (a\<lparr>ar_trusted := True, ar_user := if sf = LIVE \<or> sf = LIVE_XC then None else ar_user a\<rparr>))"
proof -
  note f = granted_fields [OF g]
  have out: "header_text (Some (ar_output_profile_id a)) = ar_output_profile_id a
      \<and> (ar_output_profile_id a = [] \<or> py_isdigit (ar_output_profile_id a))"
    using f(6) ids number_header by (auto simp: header_text_def strip_empty)
  have int: "request_is_internal (st_crypto X) (tr_auth q') = ar_is_internal a"
    using same f(4) by (simp add: request_is_internal_def)
  have name: "ar_relay_name a = st_relay_name X" by (rule f(3))
  show ?thesis
  proof (cases "ar_user a")
    case None
    then have "ar_user_id a = []" using f(5) by simp
    with None out int f(1) name show ?thesis
      by (auto simp: resolve_authorization_def trusted result_from_headers_def response_headers_def Let_def
          header_text_strip strips header_text_def strip_empty)
  next
    case (Some u)
    have u: "find (\<lambda>v. ac_id v = ac_id u) (st_users X) = Some u" "0 \<le> ac_id u"
      using users Some find_by_id by auto
    have "ar_user_id a = show_int (ac_id u)" using f(5) Some by simp
    with Some u out int f(1) name number_header [OF u(2)] show ?thesis
      by (auto simp: resolve_authorization_def trusted result_from_headers_def response_headers_def Let_def
          header_text_strip strips)
  qed
qed

lemma demo_strips:
  "strip ''uuid3'' = ''uuid3''" "strip ''fmp4'' = ''fmp4''"
  "strip (mint_client_id demo_tune) = mint_client_id demo_tune" "strip (show_ipv4 0xCB007109) = show_ipv4 0xCB007109"
proof -
  have "\<not> is_space (last (show_int 4242))" "show_int 4242 \<noteq> []" by (simp_all add: show_int_def)
  then show "strip (mint_client_id demo_tune) = mint_client_id demo_tune"
    by (intro strip_id) (simp add: mint_client_id_def demo_tune_def is_space_def)
  show "strip (show_ipv4 0xCB007109) = show_ipv4 0xCB007109"
    by (intro strip_id) (simp add: show_ipv4_def Let_def)
qed (simp_all add: strip_def lstrip_def is_space_def)

lemma hop_round_trip_witness:
  "\<exists>s' a. authorize_stream demo_site \<lparr>ls_redis = empty_redis, ls_upstreams = []\<rparr> demo_tune (Some LIVE) ''uuid3'' None None None = (s', Inr a)
     \<and> resolve_authorization demo_site \<lparr>ls_redis = empty_redis, ls_upstreams = []\<rparr>
         (demo_tune\<lparr>tr_auth := \<lparr>hdr_authorized = Some (relay_trust_token demo_crypto), hdr_internal = None, hdr_internal_request = None\<rparr>\<rparr>)
         (response_headers a) LIVE ''uuid3'' None None None
       = (\<lparr>ls_redis = empty_redis, ls_upstreams = []\<rparr>, Inr (a\<lparr>ar_trusted := True, ar_user := None\<rparr>))"
proof -
  let ?s = "\<lparr>ls_redis = empty_redis, ls_upstreams = []\<rparr>"
  obtain s' a where a: "authorize_stream demo_site ?s demo_tune (Some LIVE) ''uuid3'' None None None = (s', Inr a)"
    "ar_user a = Some demo_user" "ar_output_format a = ''fmp4''" "ar_channel_uuid a = ''uuid3''"
    "ar_client_id a = mint_client_id demo_tune" "ar_client_ip a = show_ipv4 0xCB007109"
    using demo_granted by blast
  have "request_is_relay_trusted (st_crypto demo_site)
      \<lparr>hdr_authorized = Some (relay_trust_token demo_crypto), hdr_internal = None, hdr_internal_request = None\<rparr>"
    by (simp add: request_is_relay_trusted_def relay_trust_token_def token_def demo_crypto_def demo_site_def
        matches_def show_nat_ascii)
  moreover have "0 \<le> ac_id demo_user" "st_users demo_site = [demo_user]" "pb_output_profiles (st_playback demo_site) = []"
    by (simp_all add: demo_user_def demo_site_def demo_playback_def)
  ultimately show ?thesis
    using hop_round_trip [OF a(1), of "demo_tune\<lparr>tr_auth := \<lparr>hdr_authorized = Some (relay_trust_token demo_crypto),
        hdr_internal = None, hdr_internal_request = None\<rparr>\<rparr>" ?s "''uuid3''" None None None] a demo_strips
    by (auto simp: demo_tune_def)
qed

end
