(* ===== verification/Json_Text.thy ===== *)
theory Json_Text
  imports Py_Text
begin

section \<open>JSON objects of texts\<close>

text \<open>
  \<open>json.dumps\<close> and \<open>json.loads\<close> on what the code keeps as JSON in Redis: an object from texts to
  texts. Every character outside printable ASCII is escaped, as the encoder does by default;
  the decoder reads what the encoder writes, and a text it did not write is \<open>None\<close>. A key
  given twice keeps its place and its last value.
\<close>

definition QUOTE :: char where "QUOTE = CHR 0x22"
definition BACKSLASH :: char where "BACKSLASH = CHR 0x5C"

definition hex_of :: "nat \<Rightarrow> char" where "hex_of d = ''0123456789abcdef'' ! d"

definition escapes :: "(nat \<times> char) list" where
  "escapes = [(0x22, CHR 0x22), (0x5C, CHR 0x5C), (10, CHR ''n''), (13, CHR ''r''), (9, CHR ''t''),
     (8, CHR ''b''), (12, CHR ''f'')]"

definition escape_char :: "char \<Rightarrow> string" where
  "escape_char c =
     (let n = (of_char c :: nat) in
      case map_of escapes n of
        Some e \<Rightarrow> [BACKSLASH, e]
      | None \<Rightarrow>
          if 32 \<le> n \<and> n < 127 then [c]
          else [BACKSLASH, CHR ''u'', CHR ''0'', CHR ''0'', hex_of (n div 16), hex_of (n mod 16)])"

definition json_string :: "string \<Rightarrow> string" where
  "json_string s = QUOTE # concat (map escape_char s) @ [QUOTE]"

fun json_members :: "(string \<times> string) list \<Rightarrow> string" where
  "json_members [] = []"
| "json_members [(k, v)] = json_string k @ '': '' @ json_string v"
| "json_members ((k, v) # kvs) = json_string k @ '': '' @ json_string v @ '', '' @ json_members kvs"

definition json_dumps :: "(string \<times> string) list \<Rightarrow> string" where
  "json_dumps d = ''{'' @ json_members d @ ''}''"

definition hex_at :: "char \<Rightarrow> nat option" where
  "hex_at c = find (\<lambda>d. hex_of d = c) [0..<16]"

text \<open>The rest of a string after its opening quote: its text, and what follows the closing one.\<close>

fun read_string :: "string \<Rightarrow> (string \<times> string) option" where
  "read_string [] = None"
| "read_string [c] = (if c = QUOTE then Some ([], []) else None)"
| "read_string (c # d # s) =
     (if c = QUOTE then Some ([], d # s)
      else if c \<noteq> BACKSLASH then
        (if 32 \<le> (of_char c :: nat) then map_option (\<lambda>(t, rest). (c # t, rest)) (read_string (d # s)) else None)
      else if d = CHR ''u'' then
        (case s of
           z1 # z2 # a # b # s' \<Rightarrow>
             (case (hex_at a, hex_at b) of
                (Some x, Some y) \<Rightarrow>
                  if z1 = CHR ''0'' \<and> z2 = CHR ''0''
                  then map_option (\<lambda>(t, rest). (char_of (16 * x + y) # t, rest)) (read_string s') else None
              | _ \<Rightarrow> None)
         | _ \<Rightarrow> None)
      else
        (case find (\<lambda>(n, e). e = d) escapes of
           Some (n, _) \<Rightarrow> map_option (\<lambda>(t, rest). (char_of n # t, rest)) (read_string s)
         | None \<Rightarrow> None))"

text \<open>The members after the opening brace, one per fuel step; a text has no more than its length.\<close>

fun read_members :: "nat \<Rightarrow> (string \<times> string) list \<Rightarrow> string \<Rightarrow> (string \<times> string) list option" where
  "read_members 0 acc s = None"
| "read_members (Suc fuel) acc s =
     (case s of
        q # s1 \<Rightarrow>
          if q \<noteq> QUOTE then None
          else
            (case read_string s1 of
               Some (k, s2) \<Rightarrow>
                 if \<not> starts_with '': '' s2 \<or> \<not> starts_with [QUOTE] (drop 2 s2) then None
                 else
                   (case read_string (drop 3 s2) of
                      Some (v, s3) \<Rightarrow>
                        if s3 = ''}'' then Some (dict_set acc k v)
                        else if starts_with '', '' s3 then read_members fuel (dict_set acc k v) (drop 2 s3)
                        else None
                    | None \<Rightarrow> None)
             | None \<Rightarrow> None)
      | [] \<Rightarrow> None)"

definition json_loads :: "string \<Rightarrow> (string \<times> string) list option" where
  "json_loads s =
     (if s = ''{}'' then Some []
      else if starts_with ''{'' s then read_members (length s) [] (drop 1 s)
      else None)"

subsection \<open>The round trip\<close>

lemma hex_at_of: "d < 16 \<Longrightarrow> hex_at (hex_of d) = Some d"
proof -
  assume "d < 16"
  then have "d \<in> set [0..<16]" by simp
  then show ?thesis
    by (simp add: upt_rec hex_at_def hex_of_def) (elim disjE; simp)
qed

lemma char_bytes: "char_of (16 * ((of_char c :: nat) div 16) + of_char c mod 16) = c"
  by (simp only: mult_div_mod_eq) simp

lemma read_escape:
  assumes "rest \<noteq> []"
  shows "read_string (escape_char c @ rest) = map_option (\<lambda>(t, s). (c # t, s)) (read_string rest)"
proof -
  obtain r rs where rest: "rest = r # rs" using assms by (cases rest) auto
  let ?n = "of_char c :: nat"
  have ne: "QUOTE \<noteq> BACKSLASH" by (simp add: QUOTE_def BACKSLASH_def)
  show ?thesis
  proof (cases "map_of escapes ?n")
    case (Some e)
    then have "(?n, e) \<in> set escapes" by (rule map_of_SomeD)
    then have "find (\<lambda>(m, f). f = e) escapes = Some (?n, e) \<and> e \<noteq> CHR ''u''"
      by (auto simp: escapes_def)
    then show ?thesis using Some ne by (simp add: escape_char_def Let_def)
  next
    case None
    have plain: "c \<noteq> QUOTE \<and> c \<noteq> BACKSLASH"
      using None by (auto simp: escapes_def QUOTE_def BACKSLASH_def split: if_splits)
    show ?thesis
    proof (cases "32 \<le> ?n \<and> ?n < 127")
      case True
      then show ?thesis using None plain rest by (simp add: escape_char_def Let_def)
    next
      case False
      have "?n div 16 < 16" using nat_of_char_less_256 [of c] by linarith
      then have "hex_at (hex_of (?n div 16)) = Some (?n div 16)" "hex_at (hex_of (?n mod 16)) = Some (?n mod 16)"
        by (simp_all add: hex_at_of)
      moreover have "escape_char c = [BACKSLASH, CHR ''u'', CHR ''0'', CHR ''0'', hex_of (?n div 16), hex_of (?n mod 16)]"
        unfolding escape_char_def Let_def None using False by simp
      ultimately show ?thesis using ne by (simp add: char_bytes)
    qed
  qed
qed

lemma read_string_json: "read_string (concat (map escape_char s) @ QUOTE # rest) = Some (s, rest)"
proof (induction s)
  case Nil
  show ?case by (cases rest) (simp_all add: QUOTE_def)
next
  case (Cons c s)
  then show ?case by (simp add: read_escape)
qed

lemma json_members_length: "d \<noteq> [] \<Longrightarrow> length d < length (json_members d @ ''}'')"
proof (induction d rule: json_members.induct)
  case (3 k v kv kvs)
  then show ?case by simp
qed simp_all

lemma read_members_json:
  assumes "d \<noteq> []" and "length d \<le> fuel"
  shows "read_members fuel acc (json_members d @ ''}'') = Some (dict_update acc d)"
  using assms
proof (induction d arbitrary: acc fuel rule: json_members.induct)
  case (2 k v)
  then obtain n where "fuel = Suc n" by (cases fuel) auto
  then show ?case
    by (simp add: json_string_def read_string_json dict_update_def starts_with_def)
next
  case (3 k v kv kvs)
  then obtain n where n: "fuel = Suc n" "length (kv # kvs) \<le> n" by (cases fuel) auto
  have "read_members n (dict_set acc k v) (json_members (kv # kvs) @ ''}'') = Some (dict_update (dict_set acc k v) (kv # kvs))"
    using 3 n by simp
  then show ?case
    by (simp add: n json_string_def read_string_json dict_update_def starts_with_def)
qed simp

lemma json_members_start: "d \<noteq> [] \<Longrightarrow> json_members d @ ''}'' \<noteq> ''}''"
  by (induction d rule: json_members.induct) (simp_all add: json_string_def)

lemma json_round_trip: "distinct (map fst d) \<Longrightarrow> json_loads (json_dumps d) = Some d"
proof (cases "d = []")
  case False
  assume "distinct (map fst d)"
  then have "dict_update [] d = d"
  proof (induction d rule: rev_induct)
    case (snoc x xs)
    then show ?case
      by (auto simp: dict_update_def dict_set_fresh rev_image_eqI)
  qed (simp add: dict_update_def)
  moreover have "length d \<le> length (json_dumps d)"
    using json_members_length [OF False] by (simp add: json_dumps_def)
  ultimately show ?thesis
    using read_members_json [OF False, of "length (json_dumps d)" "[]"] json_members_start [OF False]
    by (simp add: json_loads_def json_dumps_def starts_with_def del: read_members.simps)
qed (simp add: json_dumps_def json_loads_def)

end
