(* ===== verification/VOD_Sessions.thy ===== *)
theory VOD_Sessions
  imports Stream_Limits Connection_Pool Byte_Range Json_Text Next_Source
    "HOL-Library.Monad_Syntax"
begin

section \<open>VOD sessions in Redis (apps/proxy/vod\_proxy/multi\_worker\_connection\_manager.py)\<close>

text \<open>
  A VOD session is one Redis hash that every worker reads and writes, and a lock key beside it.
  This theory has the state a session keeps and its two conversions, the four Lua scripts, and
  the operations of \<open>RedisBackedVODConnection\<close> that do not ask the provider. Each function is
  given the store of the client; the branches for a missing client and for a lost connection to
  Redis are not modelled. One operation reads the clock once. Python's floats are rationals.
\<close>

definition SESSION_TTL_SECONDS :: int where "SESSION_TTL_SECONDS = 3600"

subsection \<open>The state of a session\<close>

text \<open>The user id: a number when the session is created for a user, a text when it is read back or there is
  no user.\<close>

datatype session_user = User_Id int | User_Text string

fun user_text :: "session_user \<Rightarrow> string" where
  "user_text (User_Id i) = show_int i"
| "user_text (User_Text s) = s"

record vod_state =
  vs_session :: string
  vs_url :: string
  vs_headers :: "(string \<times> string) list"
  vs_length :: "string option"
  vs_type :: "string option"
  vs_final_url :: "string option"
  vs_profile :: "int option"
  vs_last_activity :: rat
  vs_request_count :: int
  vs_active_streams :: int
  vs_user :: session_user
  vs_obj_type :: "string option"
  vs_uuid :: "string option"
  vs_name :: "string option"
  vs_ip :: "string option"
  vs_agent :: "string option"
  vs_utc_start :: string
  vs_utc_end :: string
  vs_offset :: string
  vs_worker :: "string option"
  vs_conn_type :: string
  vs_created_at :: rat
  vs_bytes_sent :: int
  vs_position :: int
  vs_seek_byte :: int
  vs_seek_percentage :: rat
  vs_total_size :: int
  vs_seek_timestamp :: rat

text \<open>A text as the store keeps it: one that spells an integer is that integer.\<close>

definition stored_text :: "string \<Rightarrow> rval" where
  "stored_text s =
     (case parse_int s of Some n \<Rightarrow> if show_int n = s then RInt n else RText s | None \<Rightarrow> RText s)"

text \<open>\<open>str\<close> of a number: an integer's digits; of a float, the text that reads back as the same float, which the
  store keeps by its value.\<close>

definition stored_int :: "int \<Rightarrow> rval" where
  "stored_int n = stored_text (show_int n)"

definition or_blank :: "string option \<Rightarrow> rval" where
  "or_blank v = stored_text (case v of Some s \<Rightarrow> s | None \<Rightarrow> [])"

definition to_dict :: "vod_state \<Rightarrow> rhash" where
  "to_dict s =
     [(''session_id'', stored_text (vs_session s)),
      (''stream_url'', stored_text (vs_url s)),
      (''headers'', stored_text (json_dumps (vs_headers s))),
      (''content_length'', or_blank (vs_length s)),
      (''content_type'', or_blank (vs_type s)),
      (''final_url'', or_blank (vs_final_url s)),
      (''m3u_profile_id'', (case vs_profile s of Some i \<Rightarrow> stored_int i | None \<Rightarrow> RText [])),
      (''last_activity'', RDec (vs_last_activity s)),
      (''request_count'', stored_int (vs_request_count s)),
      (''active_streams'', stored_int (vs_active_streams s)),
      (''content_obj_type'', or_blank (vs_obj_type s)),
      (''content_uuid'', or_blank (vs_uuid s)),
      (''content_name'', or_blank (vs_name s)),
      (''client_ip'', or_blank (vs_ip s)),
      (''client_user_agent'', or_blank (vs_agent s)),
      (''utc_start'', stored_text (vs_utc_start s)),
      (''utc_end'', stored_text (vs_utc_end s)),
      (''offset'', stored_text (vs_offset s)),
      (''worker_id'', or_blank (vs_worker s)),
      (''connection_type'', stored_text (if vs_conn_type s = [] then ''redis_backed'' else vs_conn_type s)),
      (''created_at'', RDec (vs_created_at s)),
      (''bytes_sent'', stored_int (vs_bytes_sent s)),
      (''position_seconds'', stored_int (vs_position s)),
      (''last_seek_byte'', stored_int (vs_seek_byte s)),
      (''last_seek_percentage'', RDec (vs_seek_percentage s)),
      (''total_content_size'', stored_int (vs_total_size s)),
      (''last_seek_timestamp'', RDec (vs_seek_timestamp s)),
      (''user_id'', stored_text (user_text (vs_user s)))]"

text \<open>
  Reading a field: a text with the empty one for a missing field, a text or nothing, an integer
  and a float with a value for a missing field. \<open>None\<close> is the conversion raising.
\<close>

definition text_field :: "rhash \<Rightarrow> string \<Rightarrow> string" where
  "text_field h f = reply_text (map_of h f)"

definition some_text :: "string \<Rightarrow> string option" where
  "some_text s = (if s = [] then None else Some s)"

text \<open>Python's \<open>int\<close> of the text.\<close>

definition int_of_reply :: "rval option \<Rightarrow> int option" where
  "int_of_reply v = parse_int (reply_text v)"

definition int_field :: "rhash \<Rightarrow> string \<Rightarrow> int option" where
  "int_field h f = (case map_of h f of None \<Rightarrow> Some 0 | v \<Rightarrow> int_of_reply v)"

definition float_field :: "rhash \<Rightarrow> string \<Rightarrow> rat \<Rightarrow> rat option" where
  "float_field h f dflt = (case map_of h f of None \<Rightarrow> Some dflt | v \<Rightarrow> py_float v)"

definition profile_field :: "rhash \<Rightarrow> int option option" where
  "profile_field h =
     (let v = map_of h ''m3u_profile_id'' in if truthy v then map_option Some (int_of_reply v) else Some None)"

definition headers_field :: "rhash \<Rightarrow> (string \<times> string) list option" where
  "headers_field h =
     (case map_of h ''headers'' of
        None \<Rightarrow> None
      | v \<Rightarrow> if truthy v then json_loads (reply_text v) else Some [])"

text \<open>\<open>from_dict\<close>; \<open>now\<close> stands for a missing time.\<close>

definition from_dict :: "rat \<Rightarrow> rhash \<Rightarrow> vod_state option" where
  "from_dict now h = do {
     sid \<leftarrow> map_of h ''session_id'';
     url \<leftarrow> map_of h ''stream_url'';
     hdrs \<leftarrow> headers_field h;
     prof \<leftarrow> profile_field h;
     activity \<leftarrow> float_field h ''last_activity'' now;
     requests \<leftarrow> int_field h ''request_count'';
     streams \<leftarrow> int_field h ''active_streams'';
     created \<leftarrow> float_field h ''created_at'' now;
     sent \<leftarrow> int_field h ''bytes_sent'';
     position \<leftarrow> int_field h ''position_seconds'';
     seek \<leftarrow> int_field h ''last_seek_byte'';
     percentage \<leftarrow> float_field h ''last_seek_percentage'' 0;
     size \<leftarrow> int_field h ''total_content_size'';
     seek_at \<leftarrow> float_field h ''last_seek_timestamp'' 0;
     Some \<lparr>vs_session = reply_text (Some sid), vs_url = reply_text (Some url), vs_headers = hdrs,
           vs_length = some_text (text_field h ''content_length''),
           vs_type = some_text (text_field h ''content_type''),
           vs_final_url = some_text (text_field h ''final_url''),
           vs_profile = prof, vs_last_activity = activity, vs_request_count = requests,
           vs_active_streams = streams,
           vs_user = User_Text (if map_of h ''user_id'' = None then ''unknown'' else text_field h ''user_id''),
           vs_obj_type = some_text (text_field h ''content_obj_type''),
           vs_uuid = some_text (text_field h ''content_uuid''),
           vs_name = some_text (text_field h ''content_name''),
           vs_ip = some_text (text_field h ''client_ip''),
           vs_agent = (if text_field h ''client_user_agent'' = [] then some_text (text_field h ''user_agent'')
                       else some_text (text_field h ''client_user_agent'')),
           vs_utc_start = text_field h ''utc_start'', vs_utc_end = text_field h ''utc_end'',
           vs_offset = text_field h ''offset'', vs_worker = some_text (text_field h ''worker_id''),
           vs_conn_type = (if map_of h ''connection_type'' = None then ''redis_backed''
                           else text_field h ''connection_type''),
           vs_created_at = created, vs_bytes_sent = sent, vs_position = position,
           vs_seek_byte = seek, vs_seek_percentage = percentage, vs_total_size = size,
           vs_seek_timestamp = seek_at\<rparr>
   }"

text \<open>What the fields keep of a state: an attribute that is the empty text is none, the connection type has a
  value, and the user id is its text.\<close>

definition non_blank :: "string option \<Rightarrow> string option" where
  "non_blank v = (if v = Some [] then None else v)"

definition saved_state :: "vod_state \<Rightarrow> vod_state" where
  "saved_state s = s\<lparr>
     vs_length := non_blank (vs_length s), vs_type := non_blank (vs_type s), vs_final_url := non_blank (vs_final_url s),
     vs_user := User_Text (user_text (vs_user s)),
     vs_obj_type := non_blank (vs_obj_type s), vs_uuid := non_blank (vs_uuid s), vs_name := non_blank (vs_name s),
     vs_ip := non_blank (vs_ip s), vs_agent := non_blank (vs_agent s), vs_worker := non_blank (vs_worker s),
     vs_conn_type := if vs_conn_type s = [] then ''redis_backed'' else vs_conn_type s\<rparr>"

lemma parse_int_show_int [simp]: "parse_int (show_int i) = Some i"
proof (cases "i < 0")
  case True
  obtain n where n: "nat (- i) = n" by simp
  have "\<not> is_space (CHR ''-'')" by (simp add: is_space_def)
  then have "strip (CHR ''-'' # show_nat n) = CHR ''-'' # show_nat n"
    by (intro strip_id) simp
  moreover have "filter is_digit (show_nat n) = show_nat n"
    using digits_show_nat [of n] by (simp add: list_all_iff filter_id_conv)
  moreover have "underscores_ok (show_nat n)" using digits_show_nat [of n] underscores_digits by simp
  ultimately show ?thesis using True n by (simp add: parse_int_def show_int_def parse_unsigned_def)
qed (simp add: show_int_def)

lemma stored_int [simp]: "stored_int n = RInt n"
  by (simp add: stored_int_def stored_text_def)

lemma int_of_reply [simp]: "int_of_reply (Some (RInt n)) = Some n"
  by (simp add: int_of_reply_def)

lemma reply_stored [simp]: "reply_text (Some (stored_text s)) = s"
  by (auto simp: stored_text_def split: option.splits)

lemma stored_text_truthy [simp]: "truthy (Some (stored_text s)) \<longleftrightarrow> s \<noteq> []"
  by (cases "s = []") (auto simp: stored_text_def parse_int_def strip_def lstrip_def split: option.splits)

lemma some_text_blank [simp]: "some_text (reply_text (Some (or_blank v))) = non_blank v"
  by (cases v) (simp_all add: or_blank_def some_text_def non_blank_def)

lemma blank_reply [simp]: "reply_text (Some (or_blank v)) = [] \<longleftrightarrow> non_blank v = None"
  by (cases v) (simp_all add: or_blank_def non_blank_def)

lemma json_dumps_nonempty [simp]: "json_dumps d \<noteq> []"
  by (simp add: json_dumps_def)

lemma from_dict_to_dict:
  assumes "distinct (map fst (vs_headers s))"
  shows "from_dict now (to_dict s) = Some (saved_state s)"
proof -
  have f: "profile_field (to_dict s) = Some (vs_profile s)"
    "headers_field (to_dict s) = Some (vs_headers s)"
    using assms by (auto simp: profile_field_def headers_field_def to_dict_def json_round_trip
        split: option.splits)
  show ?thesis
    unfolding from_dict_def f
    by (simp add: to_dict_def saved_state_def int_field_def float_field_def text_field_def)
      (simp add: some_text_def)
qed

subsection \<open>The Lua scripts\<close>

text \<open>
  A field read as a number: a missing one is zero, and \<open>None\<close> is the script failing. No writer
  stores a decimal in a counter, and one fails here.
\<close>

definition script_count :: "rhash \<Rightarrow> int option" where
  "script_count h = (case map_of h ''active_streams'' of None \<Rightarrow> Some 0 | v \<Rightarrow> py_int v)"

text \<open>\<open>_LUA_INCR_ACTIVE_STREAMS\<close>; \<open>None\<close> is the script failing, before it writes.\<close>

definition script_incr :: "redis \<Rightarrow> string \<Rightarrow> rat \<Rightarrow> redis \<times> int option" where
  "script_incr r key now =
     (case map_of (objs r) key of
        None \<Rightarrow> (r, Some 0)
      | Some (RStr _) \<Rightarrow> (r, None)
      | Some (RHash h) \<Rightarrow>
          (case script_count h of
             None \<Rightarrow> (r, None)
           | Some n \<Rightarrow>
               (rhset_all r key [(''active_streams'', RInt (n + 1)), (''last_activity'', RDec now)], Some (n + 1))))"

text \<open>\<open>_LUA_DECR_ACTIVE_STREAMS\<close>: the success flag and the count.\<close>

definition script_decr :: "redis \<Rightarrow> string \<Rightarrow> rat \<Rightarrow> redis \<times> (int \<times> int) option" where
  "script_decr r key now =
     (case map_of (objs r) key of
        None \<Rightarrow> (r, Some (-1, 0))
      | Some (RStr _) \<Rightarrow> (r, None)
      | Some (RHash h) \<Rightarrow>
          (case script_count h of
             None \<Rightarrow> (r, None)
           | Some n \<Rightarrow>
               if n \<le> 0 then (r, Some (0, 0))
               else (rhset_all r key [(''active_streams'', RInt (n - 1)), (''last_activity'', RDec now)],
                     Some (1, n - 1))))"

text \<open>\<open>_LUA_CLEANUP_IF_IDLE\<close>.\<close>

definition script_cleanup :: "redis \<Rightarrow> string \<Rightarrow> redis \<times> int option" where
  "script_cleanup r key =
     (case map_of (objs r) key of
        None \<Rightarrow> (r, Some 1)
      | Some (RStr _) \<Rightarrow> (r, None)
      | Some (RHash h) \<Rightarrow>
          (case script_count h of
             None \<Rightarrow> (r, None)
           | Some n \<Rightarrow> if n > 0 then (r, Some 0) else (rdel r key, Some 1)))"

text \<open>\<open>_LUA_META_SAVE_IF_EXISTS\<close>.\<close>

definition script_meta_save :: "redis \<Rightarrow> string \<Rightarrow> int \<Rightarrow> rhash \<Rightarrow> redis \<times> int option" where
  "script_meta_save r key ttl kvs =
     (case map_of (objs r) key of
        None \<Rightarrow> (r, Some 0)
      | Some (RStr _) \<Rightarrow> (r, None)
      | Some (RHash h) \<Rightarrow>
          let r = rhset_all r key kvs in (if ttl > 0 then rexpire r key ttl else r, Some 1))"

subsection \<open>One session's connection (RedisBackedVODConnection)\<close>

definition get_connection_state :: "redis \<Rightarrow> string \<Rightarrow> rat \<Rightarrow> vod_state option" where
  "get_connection_state r sid now =
     (let h = rhgetall r (vod_connection_key sid) in if h = [] then None else from_dict now h)"

text \<open>\<open>HSET\<close> on a key that holds a plain value raises.\<close>

definition save_connection_state :: "redis \<Rightarrow> string \<Rightarrow> vod_state \<Rightarrow> bool \<Rightarrow> redis \<times> bool" where
  "save_connection_state r sid s include_active_streams =
     (let key = vod_connection_key sid in
      if include_active_streams then
        (case map_of (objs r) key of
           Some (RStr _) \<Rightarrow> (r, False)
         | _ \<Rightarrow> (rexpire (rhset_all r key (to_dict s)) key SESSION_TTL_SECONDS, True))
      else
        (case script_meta_save r key SESSION_TTL_SECONDS (dict_del (to_dict s) ''active_streams'') of
           (r, saved) \<Rightarrow> (r, saved = Some 1)))"

definition acquire_lock :: "redis \<Rightarrow> string \<Rightarrow> redis \<times> bool" where
  "acquire_lock r sid = rset_nx_ex r (vod_lock_key sid) (RText ''locked'') 10"

definition release_lock :: "redis \<Rightarrow> string \<Rightarrow> redis" where
  "release_lock r sid = rdel r (vod_lock_key sid)"

definition create_connection :: "redis \<Rightarrow> string \<Rightarrow> rat \<Rightarrow> vod_state \<Rightarrow> redis \<times> bool" where
  "create_connection r sid now s =
     (case acquire_lock r sid of
        (r, False) \<Rightarrow> (r, False)
      | (r, True) \<Rightarrow>
          (case (if get_connection_state r sid now \<noteq> None then (r, True) else save_connection_state r sid s True) of
             (r, ok) \<Rightarrow> (release_lock r sid, ok)))"

text \<open>A metadata change under the lock, skipped when the lock is taken or the session is gone.\<close>

definition update_locked :: "redis \<Rightarrow> string \<Rightarrow> rat \<Rightarrow> (vod_state \<Rightarrow> vod_state) \<Rightarrow> redis" where
  "update_locked r sid now f =
     (case acquire_lock r sid of
        (r, False) \<Rightarrow> r
      | (r, True) \<Rightarrow>
          (case get_connection_state r sid now of
             None \<Rightarrow> release_lock r sid
           | Some s \<Rightarrow> release_lock (fst (save_connection_state r sid (f s) False)) sid))"

definition increment_active_streams :: "redis \<Rightarrow> string \<Rightarrow> rat \<Rightarrow> redis \<times> int" where
  "increment_active_streams r sid now =
     (case script_incr r (vod_connection_key sid) now of
        (r, Some n) \<Rightarrow> (r, if n \<le> 0 then 0 else n)
      | (r, None) \<Rightarrow> (r, 0))"

definition decrement_active_streams_and_check :: "redis \<Rightarrow> string \<Rightarrow> rat \<Rightarrow> redis \<times> bool \<times> bool" where
  "decrement_active_streams_and_check r sid now =
     (case script_decr r (vod_connection_key sid) now of
        (r, Some (flag, n)) \<Rightarrow> if flag \<le> 0 then (r, False, False) else (r, True, n > 0)
      | (r, None) \<Rightarrow> (r, False, True))"

definition decrement_active_streams :: "redis \<Rightarrow> string \<Rightarrow> rat \<Rightarrow> redis \<times> bool" where
  "decrement_active_streams r sid now =
     (case decrement_active_streams_and_check r sid now of (r, ok, _) \<Rightarrow> (r, ok))"

text \<open>\<open>int(val or 0)\<close>, and zero where it raises.\<close>

definition get_active_streams_count :: "redis \<Rightarrow> string \<Rightarrow> int" where
  "get_active_streams_count r sid =
     (case py_int (rhget r (vod_connection_key sid) ''active_streams'') of Some n \<Rightarrow> n | None \<Rightarrow> 0)"

definition has_active_streams :: "redis \<Rightarrow> string \<Rightarrow> bool" where
  "has_active_streams r sid \<longleftrightarrow> get_active_streams_count r sid > 0"

text \<open>\<open>get_headers\<close>: the length and the type; an absent session has neither.\<close>

definition get_headers :: "redis \<Rightarrow> string \<Rightarrow> rat \<Rightarrow> (string option \<times> string) option" where
  "get_headers r sid now =
     map_option (\<lambda>s. (vs_length s, case vs_type s of Some t \<Rightarrow> t | None \<Rightarrow> ''video/mp4''))
       (get_connection_state r sid now)"

text \<open>\<open>cleanup\<close>; \<open>manager\<close> says whether a connection manager is given.\<close>

definition vod_cleanup :: "redis \<Rightarrow> string \<Rightarrow> rat \<Rightarrow> bool \<Rightarrow> redis" where
  "vod_cleanup r sid now manager =
     (case get_connection_state r sid now of
        None \<Rightarrow> r
      | Some s \<Rightarrow>
          if vs_active_streams s > 0 then r
          else
            (case script_cleanup r (vod_connection_key sid) of
               (r, deleted) \<Rightarrow>
                 if deleted \<noteq> Some 1 then r
                 else
                   (case vs_profile s of
                      Some i \<Rightarrow> if manager \<and> i \<noteq> 0 then release_profile_slot r i else r
                    | None \<Rightarrow> r)))"


subsection \<open>What the operations leave alone\<close>

text \<open>The slot operations keep every key outside their own families.\<close>

lemma rincr_other: "k \<noteq> c \<Longrightarrow> map_of (objs (rincr r c)) k = map_of (objs r) k"
  by (auto simp: rincr_def split: option.splits robj.splits rval.splits)

lemma slot_write_other:
  "k \<noteq> c \<Longrightarrow> k \<noteq> slot_version_key c \<Longrightarrow> map_of (objs (slot_write r c v)) k = map_of (objs r) k"
  by (simp add: slot_write_def rincr_other) (simp add: rset_def)

lemma slot_keys_not:
  assumes "\<not> is_slot_key k"
  shows "is_counter_key c \<Longrightarrow> k \<noteq> c" "k \<noteq> slot_version_key l" "k \<noteq> profile_credential_release_key i"
  using assms by (auto simp: is_slot_key_def)

lemma rset_other: "k \<noteq> c \<Longrightarrow> map_of (objs (rset r c v)) k = map_of (objs r) k"
  by (simp add: rset_def)

lemma rdel_other: "k \<noteq> c \<Longrightarrow> map_of (objs (rdel r c)) k = map_of (objs r) k"
  by (simp add: rdel_def)

lemma reserve_keeps:
  assumes "\<not> is_slot_key k"
  shows "map_of (objs (fst (reserve_profile_slot L db r p))) k = map_of (objs r) k"
  using slot_keys_not [OF assms]
  by (cases rule: reservation_cases [of L db p])
    (auto simp: reserve_profile_slot_def script_reserve_def Let_def slot_write_other rset_other)

lemma release_keeps:
  assumes "\<not> is_slot_key k" and "slot_wf r"
  shows "map_of (objs (release_profile_slot r i)) k = map_of (objs r) k"
proof -
  have g: "map_of (objs (give_back r c)) k = map_of (objs r) k" if "is_counter_key c" for r c
    using slot_keys_not [OF assms(1)] that by (simp add: give_back_def Let_def slot_write_other)
  show ?thesis
    using key_of_pointer [OF assms(2), of i] slot_keys_not [OF assms(1)]
    by (auto simp: release_profile_slot_def script_release_def g rdel_other split: option.splits)
qed

text \<open>The session operations touch the two keys of their session.\<close>

definition session_keys :: "string \<Rightarrow> string set" where
  "session_keys sid = {vod_connection_key sid, vod_lock_key sid}"

definition only_session :: "string \<Rightarrow> redis \<Rightarrow> redis \<Rightarrow> bool" where
  "only_session sid r t \<longleftrightarrow> (\<forall>k. k \<notin> session_keys sid \<longrightarrow> map_of (objs t) k = map_of (objs r) k)"

lemma only_session_refl [simp]: "only_session sid r r"
  by (simp add: only_session_def)

lemma only_session_trans: "only_session sid r s \<Longrightarrow> only_session sid s t \<Longrightarrow> only_session sid r t"
  by (simp add: only_session_def)

lemma only_session_slots: "only_session sid r t \<Longrightarrow> same_slots r t"
  unfolding only_session_def same_slots_def session_keys_def by (metis insertE not_slot_key(3,4) singletonD)

lemma only_session_write [simp]:
  "k \<in> session_keys sid \<Longrightarrow> only_session sid r (rset r k v)"
  "k \<in> session_keys sid \<Longrightarrow> only_session sid r (rset_ex r k v t)"
  "k \<in> session_keys sid \<Longrightarrow> only_session sid r (rdel r k)"
  "k \<in> session_keys sid \<Longrightarrow> only_session sid r (rhset_all r k m)"
  "only_session sid r (rexpire r l t)"
  by (auto simp: only_session_def rset_def rset_ex_def rdel_def rhset_all_def rexpire_def
      split: option.splits robj.splits)

lemma session_keys_simps [simp]: "vod_connection_key sid \<in> session_keys sid" "vod_lock_key sid \<in> session_keys sid"
  by (simp_all add: session_keys_def)

lemma only_session_hset_expire: "only_session sid r (rexpire (rhset_all r (vod_connection_key sid) m) l t)"
  by (rule only_session_trans [of _ _ "rhset_all r (vod_connection_key sid) m"]) simp_all

lemma only_session_save: "only_session sid r (fst (save_connection_state r sid s b))"
  by (simp add: save_connection_state_def script_meta_save_def Let_def only_session_hset_expire
      split: option.split robj.split)

lemma only_session_acquire: "only_session sid r (fst (acquire_lock r sid))"
  by (simp add: acquire_lock_def rset_nx_ex_def)

lemma only_session_release: "only_session sid r (release_lock r sid)"
  by (simp add: release_lock_def)

lemma only_session_create: "only_session sid r (fst (create_connection r sid now s))"
proof -
  obtain r1 b where a: "acquire_lock r sid = (r1, b)" by (rule prod.exhaust)
  have 1: "only_session sid r r1" using only_session_acquire [of sid r] by (simp add: a)
  have "only_session sid r1 (release_lock (fst (save_connection_state r1 sid s True)) sid)"
    by (rule only_session_trans [OF only_session_save only_session_release])
  with 1 have "only_session sid r (release_lock (fst (save_connection_state r1 sid s True)) sid)"
    by (rule only_session_trans)
  moreover have "only_session sid r (release_lock r1 sid)" by (rule only_session_trans [OF 1 only_session_release])
  ultimately show ?thesis using 1 by (auto simp: create_connection_def a split: bool.splits prod.splits)
qed

lemma only_session_update: "only_session sid r (update_locked r sid now f)"
proof -
  obtain r1 b where a: "acquire_lock r sid = (r1, b)" by (rule prod.exhaust)
  have 1: "only_session sid r r1" using only_session_acquire [of sid r] by (simp add: a)
  have "only_session sid r1 (release_lock (fst (save_connection_state r1 sid s False)) sid)" for s
    by (rule only_session_trans [OF only_session_save only_session_release])
  with 1 have "only_session sid r (release_lock (fst (save_connection_state r1 sid s False)) sid)" for s
    by (rule only_session_trans)
  moreover have "only_session sid r (release_lock r1 sid)" by (rule only_session_trans [OF 1 only_session_release])
  ultimately show ?thesis using 1 by (auto simp: update_locked_def a split: bool.splits option.splits)
qed

lemma only_session_incr: "only_session sid r (fst (increment_active_streams r sid now))"
  by (auto simp: increment_active_streams_def script_incr_def split: option.splits robj.splits)

lemma only_session_decr: "only_session sid r (fst (decrement_active_streams_and_check r sid now))"
  by (auto simp: decrement_active_streams_and_check_def script_decr_def split: option.splits robj.splits)

lemma only_session_cleanup: "only_session sid r (vod_cleanup r sid now False)"
  by (auto simp: vod_cleanup_def script_cleanup_def split: option.splits robj.splits)

subsection \<open>A session with a count\<close>

text \<open>
  The session is there with \<open>n\<close> active streams and a state that reads, which names the profile
  \<open>i\<close>.
\<close>

definition readable :: "rhash \<Rightarrow> int \<Rightarrow> bool" where
  "readable h i \<longleftrightarrow>
     (\<forall>now. \<exists>s. from_dict now h = Some s \<and> vs_profile s = Some i \<and> distinct (map fst (vs_headers s)))"

definition session_live :: "redis \<Rightarrow> string \<Rightarrow> int \<Rightarrow> int \<Rightarrow> bool" where
  "session_live r sid n i \<longleftrightarrow>
     (\<exists>h. map_of (objs r) (vod_connection_key sid) = Some (RHash h) \<and>
          map_of h ''active_streams'' = Some (RInt n) \<and> readable h i)"

lemma from_dict_count:
  assumes "from_dict now h = Some s"
  shows "from_dict now (dict_update h [(''active_streams'', RInt n), (''last_activity'', RDec t)])
    = Some (s\<lparr>vs_active_streams := n, vs_last_activity := t\<rparr>)"
  using assms
  by (auto simp: from_dict_def Option.bind_eq_Some_conv dict_update_def int_field_def float_field_def text_field_def
      profile_field_def headers_field_def)

lemma from_dict_active: "from_dict now h = Some s \<Longrightarrow> map_of h ''active_streams'' = Some (RInt n) \<Longrightarrow> vs_active_streams s = n"
  by (auto simp: from_dict_def Option.bind_eq_Some_conv int_field_def)

lemma to_dict_keys: "distinct (map fst (to_dict s))"
  by (simp add: to_dict_def)

lemma to_dict_count: "map_of (to_dict s) ''active_streams'' = Some (RInt (vs_active_streams s))"
  by (simp add: to_dict_def)

lemma from_dict_meta:
  assumes "distinct (map fst (vs_headers s))" and "map_of h ''active_streams'' = Some (RInt n)"
  shows "\<exists>t. from_dict now (dict_update h (dict_del (to_dict s) ''active_streams'')) = Some t \<and>
    vs_profile t = vs_profile s \<and> vs_headers t = vs_headers s"
proof -
  let ?g = "dict_update h (dict_del (to_dict s) ''active_streams'')"
  have g: "map_of ?g f = (if f = ''active_streams'' then Some (RInt n)
      else case map_of (to_dict s) f of None \<Rightarrow> map_of h f | Some v \<Rightarrow> Some v)" for f
    using assms(2) by (subst map_of_dict_update_distinct) (simp_all add: distinct_dict_del to_dict_keys)
  have texts: "map_of ?g ''session_id'' = Some (stored_text (vs_session s))"
    "map_of ?g ''stream_url'' = Some (stored_text (vs_url s))"
    unfolding g by (simp_all add: to_dict_def)
  have parsed: "profile_field ?g = Some (vs_profile s)" "headers_field ?g = Some (vs_headers s)"
    unfolding profile_field_def headers_field_def g
    using assms(1) by (auto simp: to_dict_def json_round_trip split: option.splits)
  have numbers: "float_field ?g ''last_activity'' now = Some (vs_last_activity s)"
    "int_field ?g ''request_count'' = Some (vs_request_count s)" "int_field ?g ''active_streams'' = Some n"
    "float_field ?g ''created_at'' now = Some (vs_created_at s)" "int_field ?g ''bytes_sent'' = Some (vs_bytes_sent s)"
    "int_field ?g ''position_seconds'' = Some (vs_position s)" "int_field ?g ''last_seek_byte'' = Some (vs_seek_byte s)"
    "float_field ?g ''last_seek_percentage'' 0 = Some (vs_seek_percentage s)"
    "int_field ?g ''total_content_size'' = Some (vs_total_size s)"
    "float_field ?g ''last_seek_timestamp'' 0 = Some (vs_seek_timestamp s)"
    unfolding int_field_def float_field_def g by (simp_all add: to_dict_def)
  show ?thesis unfolding from_dict_def texts parsed numbers by simp
qed

lemma from_dict_cong:
  assumes "map_of g = map_of h"
  shows "from_dict now g = from_dict now h"
proof -
  have "text_field g = text_field h" "int_field g = int_field h" "float_field g = float_field h"
    "profile_field g = profile_field h" "headers_field g = headers_field h"
    by (simp_all add: fun_eq_iff text_field_def int_field_def float_field_def profile_field_def headers_field_def assms)
  then show ?thesis unfolding from_dict_def assms by simp
qed

lemma readable_count:
  assumes "readable h i"
  shows "readable (dict_update h [(''active_streams'', RInt n), (''last_activity'', RDec t)]) i"
  unfolding readable_def
proof
  fix now
  obtain s where "from_dict now h = Some s" "vs_profile s = Some i" "distinct (map fst (vs_headers s))"
    using assms by (auto simp: readable_def)
  then show "\<exists>s. from_dict now (dict_update h [(''active_streams'', RInt n), (''last_activity'', RDec t)]) = Some s \<and>
      vs_profile s = Some i \<and> distinct (map fst (vs_headers s))"
    by (simp add: from_dict_count)
qed

lemma live_incr:
  assumes "session_live r sid n i" and "0 \<le> n"
  shows "snd (increment_active_streams r sid now) = n + 1"
    and "session_live (fst (increment_active_streams r sid now)) sid (n + 1) i"
proof -
  obtain h where h: "map_of (objs r) (vod_connection_key sid) = Some (RHash h)"
    "map_of h ''active_streams'' = Some (RInt n)" "readable h i"
    using assms(1) by (auto simp: session_live_def)
  then show "snd (increment_active_streams r sid now) = n + 1"
    and "session_live (fst (increment_active_streams r sid now)) sid (n + 1) i"
    using assms(2)
    by (simp_all add: increment_active_streams_def script_incr_def script_count_def session_live_def rhset_all_def
        readable_count) (simp add: dict_update_def)
qed

lemma live_decr:
  assumes "session_live r sid n i" and "0 < n"
  shows "snd (decrement_active_streams_and_check r sid now) = (True, 0 < n - 1)"
    and "session_live (fst (decrement_active_streams_and_check r sid now)) sid (n - 1) i"
proof -
  obtain h where h: "map_of (objs r) (vod_connection_key sid) = Some (RHash h)"
    "map_of h ''active_streams'' = Some (RInt n)" "readable h i"
    using assms(1) by (auto simp: session_live_def)
  then show "snd (decrement_active_streams_and_check r sid now) = (True, 0 < n - 1)"
    and "session_live (fst (decrement_active_streams_and_check r sid now)) sid (n - 1) i"
    using assms(2)
    by (simp_all add: decrement_active_streams_and_check_def script_decr_def script_count_def session_live_def
        rhset_all_def readable_count) (simp add: dict_update_def)
qed

lemma live_state:
  assumes "session_live r sid n i"
  shows "\<exists>s. get_connection_state r sid now = Some s \<and> vs_profile s = Some i \<and> vs_active_streams s = n \<and>
    distinct (map fst (vs_headers s))"
proof -
  obtain h where h: "map_of (objs r) (vod_connection_key sid) = Some (RHash h)"
    "map_of h ''active_streams'' = Some (RInt n)" "readable h i"
    using assms by (auto simp: session_live_def)
  from h(3) obtain s where s: "from_dict now h = Some s" "vs_profile s = Some i" "distinct (map fst (vs_headers s))"
    by (auto simp: readable_def)
  have "h \<noteq> []" using h(2) by auto
  with h s from_dict_active [OF s(1) h(2)] show ?thesis
    by (simp add: get_connection_state_def rhgetall_def Let_def)
qed

lemma live_count: "session_live r sid n i \<Longrightarrow> get_active_streams_count r sid = n"
  by (auto simp: session_live_def get_active_streams_count_def rhget_def rhgetall_def)

lemma live_frame:
  "session_live r sid n i \<Longrightarrow> map_of (objs t) (vod_connection_key sid) = map_of (objs r) (vod_connection_key sid) \<Longrightarrow>
   session_live t sid n i"
  by (simp add: session_live_def)

lemma live_save:
  assumes "session_live r sid n i" and "vs_profile s = Some i" and "distinct (map fst (vs_headers s))"
  shows "session_live (fst (save_connection_state r sid s False)) sid n i"
proof -
  obtain h where h: "map_of (objs r) (vod_connection_key sid) = Some (RHash h)"
    "map_of h ''active_streams'' = Some (RInt n)" "readable h i"
    using assms(1) by (auto simp: session_live_def)
  let ?g = "dict_update h (dict_del (to_dict s) ''active_streams'')"
  have count: "map_of ?g ''active_streams'' = Some (RInt n)"
    using h(2) by (subst map_of_dict_update_distinct) (simp_all add: distinct_dict_del to_dict_keys)
  have "readable ?g i"
    unfolding readable_def
  proof
    fix now
    from from_dict_meta [OF assms(3) h(2), of now] assms(2,3)
    show "\<exists>t. from_dict now ?g = Some t \<and> vs_profile t = Some i \<and> distinct (map fst (vs_headers t))" by auto
  qed
  with h(1) count show ?thesis
    by (simp add: save_connection_state_def script_meta_save_def session_live_def rhset_all_def rexpire_def
        SESSION_TTL_SECONDS_def Let_def)
qed

lemma live_lock:
  "session_live r sid n i \<Longrightarrow> session_live (fst (acquire_lock r sid)) sid n i"
  "session_live r sid n i \<Longrightarrow> session_live (release_lock r sid) sid n i"
  by (auto simp: session_live_def acquire_lock_def release_lock_def rset_nx_ex_def rset_ex_def rdel_def)

lemma live_update:
  assumes live: "session_live r sid n i"
    and keep: "\<And>s. vs_profile (f s) = vs_profile s \<and> vs_headers (f s) = vs_headers s"
  shows "session_live (update_locked r sid now f) sid n i"
proof -
  obtain r1 b where a: "acquire_lock r sid = (r1, b)" by (rule prod.exhaust)
  have 1: "session_live r1 sid n i" using live_lock(1) [OF live] by (simp add: a)
  obtain s where s: "get_connection_state r1 sid now = Some s" "vs_profile s = Some i"
    "distinct (map fst (vs_headers s))"
    using live_state [OF 1] by blast
  have "session_live (fst (save_connection_state r1 sid (f s) False)) sid n i"
    using s keep [of s] by (intro live_save [OF 1]) simp_all
  then show ?thesis using 1 s(1) by (auto simp: update_locked_def a live_lock split: bool.splits)
qed

lemma live_cleanup: "session_live r sid n i \<Longrightarrow> 0 < n \<Longrightarrow> vod_cleanup r sid now m = r"
  using live_state [of r sid n i now] by (auto simp: vod_cleanup_def)

lemma idle_cleanup:
  assumes "session_live r sid n i" and "n \<le> 0"
  shows "vod_cleanup r sid now False = rdel r (vod_connection_key sid)"
proof -
  obtain s where s: "get_connection_state r sid now = Some s" "vs_active_streams s = n"
    using live_state [OF assms(1)] by blast
  obtain h where h: "map_of (objs r) (vod_connection_key sid) = Some (RHash h)"
    "map_of h ''active_streams'' = Some (RInt n)"
    using assms(1) by (auto simp: session_live_def)
  show ?thesis
    using s h assms(2) by (auto simp: vod_cleanup_def script_cleanup_def script_count_def split: option.splits)
qed

lemma live_create:
  assumes "\<not> rexists r (vod_connection_key sid)" and "\<not> rexists r (vod_lock_key sid)"
    and "vs_profile s = Some i" and "distinct (map fst (vs_headers s))"
  shows "snd (create_connection r sid now s)"
    and "session_live (fst (create_connection r sid now s)) sid (vs_active_streams s) i"
proof -
  let ?key = "vod_connection_key sid"
  let ?r = "rset_ex r (vod_lock_key sid) (RText ''locked'') 10"
  have none: "map_of (objs ?r) ?key = None" using assms(1) by (simp add: rset_ex_def rexists_def)
  then have state: "get_connection_state ?r sid now = None"
    by (simp add: get_connection_state_def rhgetall_def)
  have acq: "acquire_lock r sid = (?r, True)" using assms(2) by (simp add: acquire_lock_def rset_nx_ex_def)
  let ?g = "dict_update [] (to_dict s)" and ?n = "vs_active_streams s"
  let ?h = "[(''active_streams'', RInt ?n)]"
  have g: "map_of ?g = map_of (to_dict s)"
    by (rule ext) (simp add: map_of_dict_update_distinct to_dict_keys split: option.split)
  have "map_of (dict_update ?h (dict_del (to_dict s) ''active_streams'')) f = map_of (to_dict s) f" for f
    by (subst map_of_dict_update_distinct) (auto simp: distinct_dict_del to_dict_keys to_dict_count split: option.split)
  then have same: "map_of (dict_update ?h (dict_del (to_dict s) ''active_streams'')) = map_of ?g"
    unfolding g by (rule ext)
  have "readable ?g i"
    unfolding readable_def
  proof
    fix now
    from from_dict_meta [OF assms(4), of ?h ?n now] assms(3,4)
    show "\<exists>t. from_dict now ?g = Some t \<and> vs_profile t = Some i \<and> distinct (map fst (vs_headers t))"
      unfolding from_dict_cong [OF same] by auto
  qed
  moreover have "map_of ?g ''active_streams'' = Some (RInt ?n)" by (simp only: g to_dict_count)
  ultimately show "snd (create_connection r sid now s)"
    and "session_live (fst (create_connection r sid now s)) sid ?n i"
    using none
    by (simp_all add: create_connection_def acq state save_connection_state_def session_live_def
        release_lock_def rdel_def rexpire_def rhset_all_def rexists_def Let_def)
qed

text \<open>C34. What a new session saves is what every worker reads back, field by field: the headers through
  JSON, the counts through their digits, the times by their value, a missing attribute through the
  empty text. Three things change on the way, and nothing else: an attribute that was the empty text (the User-Agent of a
  request that sends an empty one) reads back as none, a connection type that was empty as
  \<open>redis_backed\<close>, and a user id that was a number as its text. The record expires after an
  hour. The key is free before, and the headers are a dictionary, each name once; a utc time or offset that
  is missing is the empty text from the constructor on.\<close>

theorem vod_session_round_trip:
  assumes "distinct (map fst (vs_headers s))" and "\<not> rexists r (vod_connection_key sid)"
  shows "\<exists>t. save_connection_state r sid s True = (t, True) \<and>
    get_connection_state t sid now = Some (s\<lparr>
     vs_length := non_blank (vs_length s), vs_type := non_blank (vs_type s), vs_final_url := non_blank (vs_final_url s),
     vs_user := User_Text (user_text (vs_user s)),
     vs_obj_type := non_blank (vs_obj_type s), vs_uuid := non_blank (vs_uuid s), vs_name := non_blank (vs_name s),
     vs_ip := non_blank (vs_ip s), vs_agent := non_blank (vs_agent s), vs_worker := non_blank (vs_worker s),
     vs_conn_type := if vs_conn_type s = [] then ''redis_backed'' else vs_conn_type s\<rparr>) \<and>
    rttl t (vod_connection_key sid) = Some 3600"
proof -
  let ?g = "dict_update [] (to_dict s)"
  have g: "map_of ?g = map_of (to_dict s)"
    by (rule ext) (simp add: map_of_dict_update_distinct to_dict_keys split: option.split)
  have "?g \<noteq> []"
  proof
    assume "?g = []"
    with to_dict_count [of s] show False unfolding g [symmetric] by simp
  qed
  with assms(2) from_dict_to_dict [OF assms(1), of now, unfolded saved_state_def] show ?thesis
    by (simp add: save_connection_state_def rhset_all_def rexists_def rexpire_def get_connection_state_def
        rhgetall_def rttl_def SESSION_TTL_SECONDS_def Let_def from_dict_cong [OF g])
qed

definition demo_vod_state :: vod_state where
  "demo_vod_state = \<lparr>vs_session = ''42'', vs_url = ''http://p/movie/1.mkv'', vs_headers = [(''User-Agent'', ''VLC'')],
     vs_length = Some ''1000'', vs_type = None, vs_final_url = None, vs_profile = Some 11, vs_last_activity = 5 / 2,
     vs_request_count = 1, vs_active_streams = 0, vs_user = User_Id 7, vs_obj_type = Some ''movie'',
     vs_uuid = Some ''u'', vs_name = Some ''n'', vs_ip = Some ''10.0.0.1'', vs_agent = Some [], vs_utc_start = [],
     vs_utc_end = [], vs_offset = ''60'', vs_worker = Some ''w'', vs_conn_type = ''redis_backed'', vs_created_at = 2,
     vs_bytes_sent = 0, vs_position = 0, vs_seek_byte = 0, vs_seek_percentage = 0, vs_total_size = 0,
     vs_seek_timestamp = 0\<rparr>"

lemma vod_session_round_trip_witness:
  "\<exists>t. save_connection_state empty_redis ''42'' demo_vod_state True = (t, True) \<and>
    get_connection_state t ''42'' 7 = Some (demo_vod_state\<lparr>vs_user := User_Text ''7'', vs_agent := None\<rparr>) \<and>
    rttl t (vod_connection_key ''42'') = Some 3600"
proof -
  have seven: "show_int 7 = ''7''" by code_simp
  have "distinct (map fst (vs_headers demo_vod_state))" "\<not> rexists empty_redis (vod_connection_key ''42'')"
    by (simp_all add: demo_vod_state_def rexists_def empty_redis_def)
  from vod_session_round_trip [OF this, of 7] show ?thesis
    by (simp add: demo_vod_state_def non_blank_def seven)
qed

end
