(* ===== verification/VOD_Manager.thy ===== *)
theory VOD_Manager
  imports VOD_Sessions
begin

section \<open>The VOD connection manager (apps/proxy/vod\_proxy/multi\_worker\_connection\_manager.py)\<close>

text \<open>
  One request of a VOD viewer, from the choice of its session to the end of its generator. The
  handler \<open>stream_content_with_session\<close> is \<open>open_stream\<close>; the generator it returns is
  \<open>start_stream\<close>, \<open>send_chunks\<close> and \<open>end_stream\<close>, and the thread it leaves behind
  \<open>delayed_cleanup\<close>. The provider, the clock and the type a file name suggests are arguments;
  log lines, events and the statistics message are not modelled.
\<close>

subsection \<open>Asking the provider\<close>

record vod_response =
  vr_status :: int
  vr_content_range :: "string option"
  vr_content_length :: "string option"
  vr_content_type :: "string option"
  vr_url :: string
  vr_chunks :: "string list"

text \<open>
  The provider's answer to the first or second GET of a request, by URL, headers and whether
  redirects are followed; \<open>None\<close> is an exception.
\<close>

record vod_env =
  ve_worker :: string
  ve_now :: rat
  ve_play :: playback
  ve_guess_type :: "string \<Rightarrow> string option"
  ve_provider :: "nat \<Rightarrow> string \<Rightarrow> (string \<times> string) list \<Rightarrow> bool \<Rightarrow> vod_response option"

definition video_mime_types :: "(string \<times> string) list" where
  "video_mime_types =
     [(''.mp4'', ''video/mp4''), (''.mkv'', ''video/x-matroska''), (''.avi'', ''video/x-msvideo''),
      (''.mov'', ''video/quicktime''), (''.wmv'', ''video/x-ms-wmv''), (''.flv'', ''video/x-flv''),
      (''.webm'', ''video/webm''), (''.m4v'', ''video/x-m4v''), (''.3gp'', ''video/3gpp''),
      (''.ts'', ''video/mp2t''), (''.m3u8'', ''application/x-mpegURL''), (''.mpg'', ''video/mpeg''),
      (''.mpeg'', ''video/mpeg'')]"

text \<open>\<open>os.path.splitext\<close>: the last dot of the last segment, unless only dots precede it.\<close>

definition path_extension :: "string \<Rightarrow> string" where
  "path_extension path =
     (let segment = (case rsplit_once (CHR ''/'') path of Some (_, b) \<Rightarrow> b | None \<Rightarrow> path) in
      case rsplit_once (CHR ''.'') segment of
        Some (stem, ext) \<Rightarrow> if list_all (\<lambda>c. c = CHR ''.'') stem then [] else ''.'' @ ext
      | None \<Rightarrow> [])"

definition infer_content_type_from_url :: "(string \<Rightarrow> string option) \<Rightarrow> string \<Rightarrow> string option" where
  "infer_content_type_from_url guess url =
     (case urlparse url of
        None \<Rightarrow> None
      | Some u \<Rightarrow>
          (case map_of video_mime_types (lower (path_extension (u_path u))) of
             Some t \<Rightarrow> Some t
           | None \<Rightarrow>
               (case guess (u_path u) of
                  Some t \<Rightarrow> if starts_with ''video/'' t then Some t else None
                | None \<Rightarrow> None)))"

text \<open>\<open>str.isdigit\<close> on Latin-1: the superscripts two, three and one are digits to it.\<close>

definition py_isdigit :: "string \<Rightarrow> bool" where
  "py_isdigit s \<longleftrightarrow> s \<noteq> [] \<and> list_all (\<lambda>c. is_digit c \<or> (of_char c :: nat) \<in> {178, 179, 185}) s"

text \<open>The file's size as the first answer tells it.\<close>

definition announced_length :: "vod_response \<Rightarrow> string option" where
  "announced_length resp =
     (case rsplit_once (CHR ''/'') (opt_text (vr_content_range resp)) of
        Some (_, tot) \<Rightarrow> if py_isdigit tot then Some tot else vr_content_length resp
      | None \<Rightarrow> vr_content_length resp)"

definition announced_type :: "vod_env \<Rightarrow> string \<Rightarrow> vod_response \<Rightarrow> string" where
  "announced_type E url resp =
     (if opt_text (vr_content_type resp) \<noteq> [] then opt_text (vr_content_type resp)
      else (case infer_content_type_from_url (ve_guess_type E) url of Some t \<Rightarrow> t | None \<Rightarrow> ''video/mp4''))"

definition first_response :: "vod_env \<Rightarrow> vod_state \<Rightarrow> vod_response \<Rightarrow> vod_state" where
  "first_response E s resp =
     s\<lparr>vs_length := (if opt_text (vs_length s) = [] then announced_length resp else vs_length s),
       vs_type := (if opt_text (vs_type s) = [] then Some (announced_type E (vs_url s) resp) else vs_type s),
       vs_final_url := (if opt_text (vs_final_url s) = [] then Some (vr_url resp) else vs_final_url s)\<rparr>"

text \<open>
  The Range to ask for: resolved to absolute bytes when the size is known. The outer \<open>None\<close> is a
  range that selects nothing.
\<close>

definition provider_range :: "string option \<Rightarrow> string option \<Rightarrow> string option option" where
  "provider_range content_length range_header =
     (case parse_length content_length of
        None \<Rightarrow> Some range_header
      | Some n \<Rightarrow>
          if opt_text range_header = [] then Some range_header
          else
            (case resolve_range range_header n of
               Unsatisfiable \<Rightarrow> None
             | Satisfiable a b \<Rightarrow> Some (Some (''bytes='' @ show_int a @ ''-'' @ show_int b))
             | Ignored \<Rightarrow> Some None))"

text \<open>The GET, and a second one from the original URL when a cached one answers an error.\<close>

definition ask_provider ::
  "vod_env \<Rightarrow> vod_state \<Rightarrow> (string \<times> string) list \<Rightarrow> (vod_state \<times> vod_response) option" where
  "ask_provider E s headers =
     (let cached = opt_text (vs_final_url s) \<noteq> [];
          target = (if cached then opt_text (vs_final_url s) else vs_url s)
      in case ve_provider E 0 target headers (\<not> cached) of
           None \<Rightarrow> None
         | Some resp \<Rightarrow>
             if vr_status resp \<ge> 400 \<and> cached
             then map_option (Pair (s\<lparr>vs_final_url := None\<rparr>)) (ve_provider E 1 (vs_url s) headers True)
             else Some (s, resp))"

datatype upstream = GotStream vod_response | NoStream | StreamFailed

definition save_under_lock :: "redis \<Rightarrow> string \<Rightarrow> vod_state \<Rightarrow> redis" where
  "save_under_lock r sid s =
     (case acquire_lock r sid of
        (r, True) \<Rightarrow> release_lock (fst (save_connection_state r sid s False)) sid
      | (r, False) \<Rightarrow> fst (save_connection_state r sid s False))"

definition get_stream :: "vod_env \<Rightarrow> redis \<Rightarrow> string \<Rightarrow> string option \<Rightarrow> redis \<times> upstream" where
  "get_stream E r sid range_header =
     (case get_connection_state r sid (ve_now E) of
        None \<Rightarrow> (r, NoStream)
      | Some s \<Rightarrow>
          let s = s\<lparr>vs_last_activity := ve_now E, vs_request_count := vs_request_count s + 1\<rparr> in
          (case provider_range (vs_length s) range_header of
             None \<Rightarrow> (r, NoStream)
           | Some rng \<Rightarrow>
               let headers = (if opt_text rng = [] then vs_headers s else dict_set (vs_headers s) ''Range'' (opt_text rng)) in
               (case ask_provider E s headers of
                  None \<Rightarrow> (vod_cleanup r sid (ve_now E) False, StreamFailed)
                | Some (s, resp) \<Rightarrow>
                    if vr_status resp = 416 then (r, NoStream)
                    else if 400 \<le> vr_status resp \<and> vr_status resp < 600
                    then (vod_cleanup r sid (ve_now E) False, StreamFailed)
                    else
                      (save_under_lock r sid (if vs_request_count s = 1 then first_response E s resp else s),
                       GotStream resp))))"

subsection \<open>A request and the session it uses\<close>

record vod_request =
  rq_session :: string
  rq_type :: string
  rq_uuid :: string
  rq_name :: string
  rq_url :: string
  rq_profile :: m3u_profile
  rq_ip :: string
  rq_agent :: string
  rq_utc_start :: "string option"
  rq_utc_end :: "string option"
  rq_offset :: "string option"
  rq_meta :: "(string \<times> string) list"
  rq_range :: "string option"
  rq_user :: "int option"

text \<open>
  How well a session of the store fits the request: its identifier, the score and its last
  activity, or nothing when it is busy, of other content, or fits too little.
\<close>

definition idle_match :: "redis \<Rightarrow> vod_request \<Rightarrow> string \<Rightarrow> (string \<times> nat \<times> rat) option" where
  "idle_match r rq key =
     (let h = rhgetall r key in
      if h = [] then None
      else if text_field h ''content_obj_type'' \<noteq> rq_type rq \<or> text_field h ''content_uuid'' \<noteq> rq_uuid rq then None
      else
        let sid = replace_all ''vod_persistent_connection:'' [] key in
        if has_active_streams r sid then None
        else
          let ip = text_field h ''client_ip'';
              agent = (if text_field h ''client_user_agent'' = [] then text_field h ''user_agent''
                       else text_field h ''client_user_agent'');
              same_time = (text_field h ''utc_start'' = opt_text (rq_utc_start rq)
                \<and> text_field h ''utc_end'' = opt_text (rq_utc_end rq) \<and> text_field h ''offset'' = opt_text (rq_offset rq));
              score = 10 + (if ip \<noteq> [] \<and> ip = rq_ip rq then 5 else 0)
                + (if agent \<noteq> [] \<and> agent = rq_agent rq then 3 else 0) + (if same_time then 7 else 0)
          in if score < 13 then None
             else map_option (\<lambda>t. (sid, score, t)) (float_field h ''last_activity'' 0))"

text \<open>The highest score, then the latest activity; the first of equals.\<close>

fun best_match :: "(string \<times> nat \<times> rat) list \<Rightarrow> (string \<times> nat \<times> rat) option" where
  "best_match [] = None"
| "best_match (m # ms) =
     (case best_match ms of
        None \<Rightarrow> Some m
      | Some m' \<Rightarrow>
          if fst (snd m) < fst (snd m') \<or> fst (snd m) = fst (snd m') \<and> snd (snd m) < snd (snd m')
          then Some m' else Some m)"

definition find_matching_idle_session :: "redis \<Rightarrow> vod_request \<Rightarrow> string option" where
  "find_matching_idle_session r rq =
     map_option fst (best_match (List.map_filter (idle_match r rq) (vod_session_keys r)))"

text \<open>
  The choice of the session: the store, the session used, the name the client is known by, and
  whether an idle session was adopted. A failed adoption keeps the other session's name.
\<close>

definition choose_session :: "vod_env \<Rightarrow> redis \<Rightarrow> vod_request \<Rightarrow> redis \<times> string \<times> string \<times> bool" where
  "choose_session E r rq =
     (case find_matching_idle_session r rq of
        None \<Rightarrow> (r, rq_session rq, rq_session rq, False)
      | Some m \<Rightarrow>
          (case increment_active_streams r m (ve_now E) of
             (r, n) \<Rightarrow> if n \<noteq> 0 then (r, m, m, True) else (r, rq_session rq, m, False)))"

definition forwarded_headers :: "(string \<times> string) list" where
  "forwarded_headers =
     [(''authorization'', ''HTTP_AUTHORIZATION''), (''referer'', ''HTTP_REFERER''), (''origin'', ''HTTP_ORIGIN''),
      (''accept'', ''HTTP_ACCEPT'')]"

definition provider_headers :: "vod_env \<Rightarrow> vod_request \<Rightarrow> (string \<times> string) list" where
  "provider_headers E rq =
     (''User-Agent'', get_user_agent_string (ve_play E) (prof_account (rq_profile rq)))
     # List.map_filter (\<lambda>(name, meta). map_option (Pair name) (map_of (rq_meta rq) meta)) forwarded_headers"

text \<open>
  The state of a new session. The URL the request carries is the one with the catch-up parameters
  applied (\<open>_apply_timeshift_parameters\<close>).
\<close>

definition new_vod_state :: "vod_env \<Rightarrow> vod_request \<Rightarrow> string \<Rightarrow> vod_state" where
  "new_vod_state E rq sid =
     \<lparr>vs_session = sid, vs_url = rq_url rq, vs_headers = provider_headers E rq, vs_length = None, vs_type = None,
      vs_final_url = None, vs_profile = Some (prof_id (rq_profile rq)), vs_last_activity = ve_now E,
      vs_request_count = 0, vs_active_streams = 0,
      vs_user = (case rq_user rq of Some u \<Rightarrow> User_Id u | None \<Rightarrow> User_Text ''unknown''),
      vs_obj_type = Some (rq_type rq), vs_uuid = Some (rq_uuid rq), vs_name = Some (rq_name rq),
      vs_ip = Some (rq_ip rq), vs_agent = Some (rq_agent rq), vs_utc_start = opt_text (rq_utc_start rq),
      vs_utc_end = opt_text (rq_utc_end rq), vs_offset = opt_text (rq_offset rq), vs_worker = Some (ve_worker E),
      vs_conn_type = ''redis_backed'', vs_created_at = ve_now E, vs_bytes_sent = 0, vs_position = 0,
      vs_seek_byte = 0, vs_seek_percentage = 0, vs_total_size = 0, vs_seek_timestamp = 0\<rparr>"

definition check_and_reserve_profile_slot :: "vod_env \<Rightarrow> redis \<Rightarrow> m3u_profile \<Rightarrow> redis \<times> bool" where
  "check_and_reserve_profile_slot E r p =
     (case reserve_profile_slot (pb_libs (ve_play E)) (pb_db (ve_play E)) r p of (r, ok, _) \<Rightarrow> (r, ok))"

definition decrement_profile_connections :: "redis \<Rightarrow> int \<Rightarrow> redis" where
  "decrement_profile_connections r i = release_profile_slot r i"

text \<open>The new session's branch: the status of a refusal, or whether a slot was taken.\<close>

definition enter_new :: "vod_env \<Rightarrow> redis \<Rightarrow> string \<Rightarrow> vod_request \<Rightarrow> redis \<times> (int + bool)" where
  "enter_new E r sid rq =
     (case check_and_reserve_profile_slot E r (rq_profile rq) of
        (r, False) \<Rightarrow> (r, Inl 429)
      | (r, True) \<Rightarrow>
          (case create_connection r sid (ve_now E) (new_vod_state E rq sid) of
             (r, True) \<Rightarrow> (r, Inr True)
           | (r, False) \<Rightarrow> (decrement_profile_connections r (prof_id (rq_profile rq)), Inl 500)))"

definition take_ownership :: "vod_env \<Rightarrow> redis \<Rightarrow> string \<Rightarrow> redis" where
  "take_ownership E r sid =
     update_locked r sid (ve_now E) (\<lambda>s. s\<lparr>vs_last_activity := ve_now E, vs_worker := Some (ve_worker E)\<rparr>)"

text \<open>A session with no other stream gave its slot back, so the request takes one.\<close>

definition reserve_again :: "vod_env \<Rightarrow> redis \<Rightarrow> string \<Rightarrow> vod_request \<Rightarrow> redis \<times> (int + bool)" where
  "reserve_again E r sid rq =
     (case check_and_reserve_profile_slot E r (rq_profile rq) of
        (r, False) \<Rightarrow> (fst (decrement_active_streams r sid (ve_now E)), Inl 429)
      | (r, True) \<Rightarrow> (take_ownership E r sid, Inr True))"

definition enter_existing :: "vod_env \<Rightarrow> redis \<Rightarrow> string \<Rightarrow> bool \<Rightarrow> vod_request \<Rightarrow> redis \<times> (int + bool)" where
  "enter_existing E r sid adopted rq =
     (if adopted then reserve_again E r sid rq
      else
        (case increment_active_streams r sid (ve_now E) of
           (r, n) \<Rightarrow>
             if n = 1 then reserve_again E r sid rq
             else if n = 0 then (r, Inl 500)
             else (take_ownership E r sid, Inr False)))"

subsection \<open>The handler\<close>

record vod_ticket =
  tk_session :: string
  tk_client :: string
  tk_existing :: bool
  tk_profile :: int
  tk_plan :: downstream_plan
  tk_type :: string
  tk_accept_ranges :: bool
  tk_chunks :: "string list"

datatype vod_answer = VodRefused int | VodStreaming vod_ticket

definition give_slot_back :: "redis \<Rightarrow> bool \<Rightarrow> vod_request \<Rightarrow> redis" where
  "give_slot_back r incremented rq =
     (if incremented then decrement_profile_connections r (prof_id (rq_profile rq)) else r)"

definition refuse_unsatisfiable :: "vod_env \<Rightarrow> redis \<Rightarrow> string \<Rightarrow> bool \<Rightarrow> bool \<Rightarrow> vod_request \<Rightarrow> redis" where
  "refuse_unsatisfiable E r sid existing incremented rq =
     give_slot_back
       (if existing then fst (decrement_active_streams r sid (ve_now E)) else vod_cleanup r sid (ve_now E) False)
       incremented rq"

definition roll_back :: "vod_env \<Rightarrow> redis \<Rightarrow> string \<Rightarrow> bool \<Rightarrow> bool \<Rightarrow> vod_request \<Rightarrow> redis" where
  "roll_back E r sid existing incremented rq =
     (let r = (if existing then fst (decrement_active_streams r sid (ve_now E)) else r)
      in if incremented
         then vod_cleanup (decrement_profile_connections r (prof_id (rq_profile rq))) sid (ve_now E) False else r)"

definition is_suffix_range :: "string option \<Rightarrow> bool" where
  "is_suffix_range range_header \<longleftrightarrow>
     starts_with ''bytes='' (opt_text range_header) \<and> starts_with ''-'' (strip (drop 6 (opt_text range_header)))"

definition store_seek :: "vod_env \<Rightarrow> redis \<Rightarrow> string \<Rightarrow> string option \<Rightarrow> downstream_plan \<Rightarrow> redis" where
  "store_seek E r sid range_header plan =
     (case (dp_start plan, dp_total plan) of
        (Some start, Some tot) \<Rightarrow>
          if is_suffix_range range_header \<or> start = 0 \<or> tot = 0 then r
          else
            update_locked r sid (ve_now E)
              (\<lambda>s. s\<lparr>vs_seek_byte := start, vs_seek_percentage := of_int start / of_int tot * 100,
                     vs_total_size := tot, vs_seek_timestamp := ve_now E, vs_last_activity := ve_now E\<rparr>)
      | _ \<Rightarrow> r)"

definition make_ticket ::
  "vod_env \<Rightarrow> redis \<Rightarrow> string \<Rightarrow> string \<Rightarrow> bool \<Rightarrow> vod_request \<Rightarrow> downstream_plan \<Rightarrow> vod_response \<Rightarrow> vod_ticket" where
  "make_ticket E r sid client existing rq plan resp =
     (case get_headers r sid (ve_now E) of
        Some (len, typ) \<Rightarrow>
          \<lparr>tk_session = sid, tk_client = client, tk_existing = existing, tk_profile = prof_id (rq_profile rq),
           tk_plan = plan, tk_type = typ, tk_accept_ranges = (opt_text len \<noteq> []), tk_chunks = vr_chunks resp\<rparr>
      | None \<Rightarrow>
          \<lparr>tk_session = sid, tk_client = client, tk_existing = existing, tk_profile = prof_id (rq_profile rq),
           tk_plan = plan, tk_type = ''video/mp4'', tk_accept_ranges = False, tk_chunks = vr_chunks resp\<rparr>)"

definition serve ::
  "vod_env \<Rightarrow> redis \<Rightarrow> string \<Rightarrow> string \<Rightarrow> bool \<Rightarrow> bool \<Rightarrow> vod_request \<Rightarrow> redis \<times> vod_answer" where
  "serve E r sid client existing incremented rq =
     (case get_stream E r sid (rq_range rq) of
        (r, StreamFailed) \<Rightarrow> (roll_back E r sid existing incremented rq, VodRefused 500)
      | (r, NoStream) \<Rightarrow> (refuse_unsatisfiable E r sid existing incremented rq, VodRefused 416)
      | (r, GotStream resp) \<Rightarrow>
          let known = (case get_connection_state r sid (ve_now E) of Some s \<Rightarrow> parse_length (vs_length s) | None \<Rightarrow> None);
              plan = plan_downstream (rq_range rq) (vr_status resp) (vr_content_range resp) (vr_content_length resp) known
          in if dp_unsatisfiable plan
             then (refuse_unsatisfiable E r sid existing incremented rq, VodRefused 416)
             else (store_seek E r sid (rq_range rq) plan,
                   VodStreaming (make_ticket E r sid client existing rq plan resp)))"

definition open_stream :: "vod_env \<Rightarrow> redis \<Rightarrow> vod_request \<Rightarrow> redis \<times> vod_answer" where
  "open_stream E r rq =
     (case choose_session E r rq of
        (r, sid, client, adopted) \<Rightarrow>
          let existing = (get_connection_state r sid (ve_now E) \<noteq> None) in
          (case (if existing then enter_existing E r sid adopted rq else enter_new E r sid rq) of
             (r, Inl status) \<Rightarrow> (r, VodRefused status)
           | (r, Inr incremented) \<Rightarrow> serve E r sid client existing incremented rq))"

subsection \<open>The generator\<close>

definition start_stream :: "vod_env \<Rightarrow> redis \<Rightarrow> vod_ticket \<Rightarrow> redis" where
  "start_stream E r tk =
     (if tk_existing tk then r else fst (increment_active_streams r (tk_session tk) (ve_now E)))"

text \<open>After every hundredth chunk: the stop signal, or the bytes sent so far.\<close>

definition after_chunk :: "vod_env \<Rightarrow> redis \<Rightarrow> vod_ticket \<Rightarrow> int \<Rightarrow> int \<Rightarrow> redis \<times> bool" where
  "after_chunk E r tk sent sent_chunks =
     (if sent_chunks mod 100 \<noteq> 0 then (r, False)
      else if rexists r (get_vod_client_stop_key (tk_client tk))
      then (rdel r (get_vod_client_stop_key (tk_client tk)), True)
      else (update_locked r (tk_session tk) (ve_now E)
              (\<lambda>s. s\<lparr>vs_last_activity := ve_now E, vs_bytes_sent := sent\<rparr>), False))"

text \<open>The chunks yielded, when no other process acts in between, and whether a signal stopped them.\<close>

fun send_chunks ::
  "vod_env \<Rightarrow> redis \<Rightarrow> vod_ticket \<Rightarrow> int \<Rightarrow> int \<Rightarrow> string list \<Rightarrow> redis \<times> string list \<times> bool" where
  "send_chunks E r tk sent sent_chunks [] = (r, [], False)"
| "send_chunks E r tk sent sent_chunks (c # cs) =
     (if c = [] then send_chunks E r tk sent sent_chunks cs
      else
        (case after_chunk E r tk (sent + int (length c)) (sent_chunks + 1) of
           (r, True) \<Rightarrow> (r, [c], True)
         | (r, False) \<Rightarrow>
             (case send_chunks E r tk (sent + int (length c)) (sent_chunks + 1) cs of
                (r, out, stopped) \<Rightarrow> (r, c # out, stopped))))"

definition planned_chunks :: "vod_ticket \<Rightarrow> string list" where
  "planned_chunks tk =
     slice_chunks (tk_chunks tk) (nat (dp_skip (tk_plan tk))) (map_option nat (dp_limit (tk_plan tk)))"

definition settle_slot :: "vod_env \<Rightarrow> redis \<Rightarrow> vod_ticket \<Rightarrow> redis" where
  "settle_slot E r tk =
     (case (case get_connection_state r (tk_session tk) (ve_now E) of
              Some s \<Rightarrow> vs_profile s | None \<Rightarrow> Some (tk_profile tk)) of
        Some i \<Rightarrow> if i \<noteq> 0 then decrement_profile_connections r i else r
      | None \<Rightarrow> r)"

text \<open>
  The generator's end: the body is done or stopped, the client is gone, or the upstream broke. The
  second value is whether a delayed cleanup is left behind.
\<close>

datatype vod_ending = Completed | ClientGone | Broken

definition end_stream :: "vod_env \<Rightarrow> redis \<Rightarrow> vod_ticket \<Rightarrow> vod_ending \<Rightarrow> redis \<times> bool" where
  "end_stream E r tk ending =
     (case decrement_active_streams_and_check r (tk_session tk) (ve_now E) of
        (r, True, True) \<Rightarrow> (r, False)
      | (r, True, False) \<Rightarrow>
          (if ending = Broken then (vod_cleanup (settle_slot E r tk) (tk_session tk) (ve_now E) False, False)
           else (settle_slot E r tk, True))
      | (r, False, _) \<Rightarrow>
          (case decrement_active_streams_and_check r (tk_session tk) (ve_now E) of
             (r, True, False) \<Rightarrow> (settle_slot E r tk, True)
           | (r, _, _) \<Rightarrow> (r, False)))"

definition delayed_cleanup :: "vod_env \<Rightarrow> redis \<Rightarrow> vod_ticket \<Rightarrow> redis" where
  "delayed_cleanup E r tk = vod_cleanup r (tk_session tk) (ve_now E) False"

subsection \<open>Removing sessions\<close>

definition cleanup_persistent_connection :: "vod_env \<Rightarrow> redis \<Rightarrow> string \<Rightarrow> redis" where
  "cleanup_persistent_connection E r sid = vod_cleanup r sid (ve_now E) True"

definition cleanup_stale_key :: "vod_env \<Rightarrow> rat \<Rightarrow> redis \<Rightarrow> string \<Rightarrow> redis" where
  "cleanup_stale_key E max_age_seconds r key =
     (let h = rhgetall r key in
      if h = [] then r
      else
        (case (float_field h ''last_activity'' 0, int_field h ''active_streams'') of
           (Some activity, Some streams) \<Rightarrow>
             if ve_now E - activity > max_age_seconds \<and> streams = 0
             then vod_cleanup r (replace_all ''vod_persistent_connection:'' [] key) (ve_now E) True else r
         | _ \<Rightarrow> r))"

definition cleanup_stale_persistent_connections :: "vod_env \<Rightarrow> rat \<Rightarrow> redis \<Rightarrow> redis" where
  "cleanup_stale_persistent_connections E max_age_seconds r =
     foldl (cleanup_stale_key E max_age_seconds) r (vod_session_keys r)"

end
