(* ===== verification/Slot_Balance.thy ===== *)
theory Slot_Balance
  imports VOD_Sessions
begin

section \<open>A provider slot taken and given back\<close>

text \<open>
  The VOD proxy and catch-up reserve a slot through a helper of their own and both return it with
  \<open>release_profile_slot\<close>. The locale \<open>slot_taker\<close> is what they rely on: the helper is a reserve of
  the connection pool. Its lemmas say what a reserve and the release that follows leave of the
  counters, whatever else is written in between.
\<close>

text \<open>
  The counters as the reserve and the release need them: none is negative, the profile has no release
  pointer left over, and an unlimited profile, against which nothing is counted, has its own counter
  at zero.
\<close>

definition slots_at_rest :: "redis \<Rightarrow> m3u_profile \<Rightarrow> bool" where
  "slots_at_rest r p \<longleftrightarrow>
     slot_wf r \<and> (\<forall>k. is_counter_key k \<longrightarrow> 0 \<le> slot_read r k) \<and>
     rget r (profile_credential_release_key (prof_id p)) = None \<and>
     (0 < max_streams p \<or> slot_read r (profile_connections_key (prof_id p)) = 0)"

lemma released_profile_count:
  assumes "slot_wf r"
  shows "slot_read (release_profile_slot r i) (profile_connections_key j) =
    (if j = i then max 0 (slot_read r (profile_connections_key j) - 1) else slot_read r (profile_connections_key j))"
proof -
  have "rget r (profile_credential_release_key i) \<noteq> Some (RText (profile_connections_key j))"
    using slot_wf_pointer [OF assms, of i] by auto
  then show ?thesis using release_effect [OF assms, of "profile_connections_key j" i] by simp
qed

text \<open>\<open>slot_taken grab p r t\<close>: from \<open>r\<close> to \<open>t\<close> one slot of \<open>p\<close> was taken with \<open>grab\<close> and nothing else
  happened to the slots.\<close>

definition slot_taken :: "(redis \<Rightarrow> m3u_profile \<Rightarrow> redis \<times> bool) \<Rightarrow> m3u_profile \<Rightarrow> redis \<Rightarrow> redis \<Rightarrow> bool" where
  "slot_taken grab p r t \<longleftrightarrow> (\<exists>r1 rA. same_slots r r1 \<and> grab r1 p = (rA, True) \<and> same_slots rA t)"

lemma taken_trans: "slot_taken grab p r s \<Longrightarrow> same_slots s t \<Longrightarrow> slot_taken grab p r t"
  unfolding slot_taken_def by (blast intro: same_slots_trans)

locale slot_taker =
  fixes L :: libs and db :: database and grab :: "redis \<Rightarrow> m3u_profile \<Rightarrow> redis \<times> bool"
  assumes grabs: "grab r p = (case reserve_profile_slot L db r p of (t, ok, _) \<Rightarrow> (t, ok))"
begin

lemma grab_reserves:
  assumes "grab r p = (t, ok)"
  obtains n w where "reserve_profile_slot L db r p = (t, ok, n, w)"
  using assms by (auto simp: grabs split: prod.splits)

lemma grab_facts:
  assumes "grab r p = (t, ok)"
  shows "\<not> ok \<Longrightarrow> t = r"
    and "ok \<Longrightarrow> \<exists>n w. reserve_profile_slot L db r p = (t, True, n, w)"
    and "\<not> is_slot_key k \<Longrightarrow> map_of (objs t) k = map_of (objs r) k"
    and "slot_wf r \<Longrightarrow> slot_wf t"
proof -
  obtain n w where res: "reserve_profile_slot L db r p = (t, ok, n, w)" using assms by (rule grab_reserves)
  then show "\<not> ok \<Longrightarrow> t = r" by (auto dest: reserve_refused)
  show "ok \<Longrightarrow> \<exists>n w. reserve_profile_slot L db r p = (t, True, n, w)" using res by simp
  show "\<not> is_slot_key k \<Longrightarrow> map_of (objs t) k = map_of (objs r) k"
    using reserve_keeps [of k L db r p] by (simp add: res)
  show "slot_wf r \<Longrightarrow> slot_wf t" using reserve_wf [of r L db p] by (simp add: res)
qed

lemma taken_intro: "grab r p = (t, True) \<Longrightarrow> slot_taken grab p r t"
  unfolding slot_taken_def using same_slots_refl by blast

lemma taken_wf: "slot_taken grab p r t \<Longrightarrow> slot_wf r \<Longrightarrow> slot_wf t"
  unfolding slot_taken_def using same_slots_wf grab_facts(4) by blast

lemma taken_counts:
  assumes "slot_taken grab p r t" and "0 \<le> slot_read r k" and "is_counter_key k"
  shows "slot_read t k = slot_read r k + (if counts_against L db p k then 1 else 0)"
proof -
  obtain r1 rA where s: "same_slots r r1" "grab r1 p = (rA, True)" "same_slots rA t"
    using assms(1) by (auto simp: slot_taken_def)
  obtain n w where "reserve_profile_slot L db r1 p = (rA, True, n, w)" using s(2) by (rule grab_reserves)
  from reserve_effect [OF this assms(3)] show ?thesis
    using same_slots_read(3) [OF s(1) assms(3)] same_slots_read(3) [OF s(3) assms(3)] assms(2) by simp
qed

lemma taken_pointer:
  assumes "slot_taken grab p r t"
  shows "rget t (profile_credential_release_key i) =
    (if i = prof_id p \<and> max_streams p > 0 \<and> fst (credential_reservation L db p) \<noteq> None
     then map_option RText (fst (credential_reservation L db p))
     else rget r (profile_credential_release_key i))"
proof -
  obtain r1 rA where s: "same_slots r r1" "grab r1 p = (rA, True)" "same_slots rA t"
    using assms by (auto simp: slot_taken_def)
  obtain n w where "reserve_profile_slot L db r1 p = (rA, True, n, w)" using s(2) by (rule grab_reserves)
  from reserve_pointer [OF this, of i] show ?thesis
    using same_slots_read(1) [OF s(1), of "profile_credential_release_key i"]
      same_slots_read(1) [OF s(3), of "profile_credential_release_key i"] by (auto split: if_splits)
qed

lemma taken_then_released:
  assumes rest: "slots_at_rest r p" and taken: "slot_taken grab p r t" and k: "is_counter_key k"
  shows "slot_read (release_profile_slot t (prof_id p)) k = slot_read r k"
proof -
  have wf: "slot_wf t" using taken_wf [OF taken] rest by (simp add: slots_at_rest_def)
  have nonneg: "0 \<le> slot_read r k" using rest k by (simp add: slots_at_rest_def)
  note released = release_effect [OF wf k, of "prof_id p"] taken_counts [OF taken nonneg k]
  show ?thesis
  proof (cases "0 < max_streams p")
    case True
    then have "counts_against L db p k \<longleftrightarrow> k = profile_connections_key (prof_id p) \<or>
        rget t (profile_credential_release_key (prof_id p)) = Some (RText k)"
      using rest taken_pointer [OF taken, of "prof_id p"] by (auto simp: counts_against_def slots_at_rest_def)
    then show ?thesis using released nonneg by simp
  next
    case False
    then have "\<not> counts_against L db p k" "rget t (profile_credential_release_key (prof_id p)) = None"
      using rest taken_pointer [OF taken, of "prof_id p"] by (auto simp: counts_against_def slots_at_rest_def)
    then show ?thesis using released nonneg rest False by (auto simp: slots_at_rest_def)
  qed
qed

lemma taken_profile_count:
  assumes "slot_taken grab p r t" and "0 < max_streams p" and "0 \<le> slot_read r (profile_connections_key j)"
  shows "slot_read t (profile_connections_key j) = slot_read r (profile_connections_key j) + (if j = prof_id p then 1 else 0)"
proof -
  have "counts_against L db p (profile_connections_key j) \<longleftrightarrow> j = prof_id p"
    using assms(2) by (cases rule: reservation_cases [of L db p]) (auto simp: counts_against_def)
  then show ?thesis using taken_counts [OF assms(1,3)] by simp
qed

end

end
