(* ===== verification/VOD_Properties.thy ===== *)
theory VOD_Properties
  imports VOD_Manager Source_Properties Slot_Balance
begin

section \<open>What the VOD proxy keeps of the provider slots\<close>

text \<open>
  A request and the slot it holds: the frame of every step, the balance of a viewer alone, the two
  ways two requests unbalance the counters, and the invariant of an established session over any
  interleaving.
\<close>

subsection \<open>What the parts keep\<close>

interpretation vod: slot_taker "pb_libs (ve_play E)" "pb_db (ve_play E)" "check_and_reserve_profile_slot E" for E
  by unfold_locales (rule check_and_reserve_profile_slot_def)

abbreviation vod_taken :: "vod_env \<Rightarrow> m3u_profile \<Rightarrow> redis \<Rightarrow> redis \<Rightarrow> bool" where
  "vod_taken E \<equiv> slot_taken (check_and_reserve_profile_slot E)"

lemma live_same:
  "session_live r sid n i \<Longrightarrow> (\<And>k. \<not> is_slot_key k \<Longrightarrow> map_of (objs t) k = map_of (objs r) k) \<Longrightarrow> session_live t sid n i"
  by (rule live_frame) simp_all

lemma live_give_back:
  "session_live r sid n i \<Longrightarrow> slot_wf r \<Longrightarrow> session_live (decrement_profile_connections r j) sid n i"
  by (rule live_same) (simp_all add: decrement_profile_connections_def release_keeps)

lemma give_back_wf: "slot_wf r \<Longrightarrow> slot_wf (decrement_profile_connections r j)"
  by (simp add: decrement_profile_connections_def release_wf)

lemma only_session_save_lock: "only_session sid r (save_under_lock r sid s)"
proof -
  obtain r1 b where a: "acquire_lock r sid = (r1, b)" by (rule prod.exhaust)
  have 1: "only_session sid r r1" using only_session_acquire [of sid r] by (simp add: a)
  have 2: "only_session sid r (fst (save_connection_state r1 sid s False))"
    by (rule only_session_trans [OF 1 only_session_save])
  have "only_session sid r (release_lock (fst (save_connection_state r1 sid s False)) sid)"
    by (rule only_session_trans [OF 2 only_session_release])
  with 2 show ?thesis by (simp add: save_under_lock_def a split: bool.split)
qed

lemma live_save_lock:
  assumes "session_live r sid n i" and "vs_profile s = Some i" and "distinct (map fst (vs_headers s))"
  shows "session_live (save_under_lock r sid s) sid n i"
proof -
  obtain r1 b where a: "acquire_lock r sid = (r1, b)" by (rule prod.exhaust)
  have "session_live r1 sid n i" using live_lock(1) [OF assms(1)] by (simp add: a)
  from live_save [OF this assms(2,3)] show ?thesis
    by (simp add: save_under_lock_def a live_lock(2) split: bool.split)
qed

lemma ask_provider_keeps:
  "ask_provider E s headers = Some (s', resp) \<Longrightarrow> vs_profile s' = vs_profile s \<and> vs_headers s' = vs_headers s"
  by (auto simp: ask_provider_def Let_def split: option.splits if_splits)

lemma get_stream_live:
  assumes live: "session_live r sid n i" and get: "get_stream E r sid rng = (t, u)"
  shows "only_session sid r t"
    and "u = StreamFailed \<Longrightarrow> t = vod_cleanup r sid (ve_now E) False"
    and "u = NoStream \<Longrightarrow> t = r"
    and "u = GotStream resp \<Longrightarrow> session_live t sid n i"
proof -
  obtain s where s: "get_connection_state r sid (ve_now E) = Some s" "vs_profile s = Some i"
    "distinct (map fst (vs_headers s))"
    using live_state [OF live] by blast
  let ?s = "s\<lparr>vs_last_activity := ve_now E, vs_request_count := vs_request_count s + 1\<rparr>"
  consider (none) "t = r" "u = NoStream" | (failed) "t = vod_cleanup r sid (ve_now E) False" "u = StreamFailed"
    | (got) s' where "t = save_under_lock r sid s'" "\<exists>resp. u = GotStream resp" "vs_profile s' = Some i"
        "vs_headers s' = vs_headers s"
  proof (cases "provider_range (vs_length ?s) rng")
    case None
    then show ?thesis using get s that by (simp add: get_stream_def Let_def)
  next
    case (Some rg)
    let ?h = "if opt_text rg = [] then vs_headers ?s else dict_set (vs_headers ?s) ''Range'' (opt_text rg)"
    show ?thesis
    proof (cases "ask_provider E ?s ?h")
      case None
      then show ?thesis using get s Some that by (simp add: get_stream_def Let_def)
    next
      case (Some p)
      obtain s' resp where p: "p = (s', resp)" by (rule prod.exhaust)
      have keep: "vs_profile s' = Some i" "vs_headers s' = vs_headers s"
        using ask_provider_keeps [OF Some [unfolded p]] s(2) by simp_all
      have keep': "vs_profile (first_response E s' resp) = Some i" "vs_headers (first_response E s' resp) = vs_headers s"
        using keep by (simp_all add: first_response_def)
      show ?thesis
        using get s \<open>provider_range _ _ = Some rg\<close> Some p that keep keep'
        by (auto simp: get_stream_def Let_def split: if_splits)
    qed
  qed
  note cases = this
  show "only_session sid r t"
    by (rule cases) (auto intro: only_session_cleanup only_session_save_lock)
  show "u = StreamFailed \<Longrightarrow> t = vod_cleanup r sid (ve_now E) False" by (rule cases) auto
  show "u = NoStream \<Longrightarrow> t = r" by (rule cases) auto
  show "u = GotStream resp \<Longrightarrow> session_live t sid n i"
    by (rule cases) (auto intro: live_save_lock [OF live] simp: s(3))
qed

lemma store_seek_keeps:
  "session_live r sid n i \<Longrightarrow> session_live (store_seek E r sid rng plan) sid n i"
  "only_session sid r (store_seek E r sid rng plan)"
  by (auto simp: store_seek_def only_session_update split: option.split intro: live_update)

lemma take_ownership_keeps:
  "session_live r sid n i \<Longrightarrow> session_live (take_ownership E r sid) sid n i"
  "only_session sid r (take_ownership E r sid)"
  by (auto simp: take_ownership_def only_session_update intro: live_update)

lemma stop_key_facts [simp]:
  "\<not> is_slot_key (get_vod_client_stop_key c)"
  "vod_connection_key sid \<noteq> get_vod_client_stop_key c"
  by (auto simp: is_slot_key_def is_counter_key_def all_key_defs)

lemma send_chunks_keep:
  assumes "session_live r (tk_session tk) n i" and "send_chunks E r tk sent cnt cs = (t, out, stopped)"
  shows "session_live t (tk_session tk) n i \<and> same_slots r t"
  using assms
proof (induction E r tk sent cnt cs arbitrary: t out stopped rule: send_chunks.induct)
  case (2 E r tk sent cnt c cs)
  obtain r1 b where a: "after_chunk E r tk (sent + int (length c)) (cnt + 1) = (r1, b)" by (rule prod.exhaust)
  have upd: "session_live (update_locked r (tk_session tk) (ve_now E) (\<lambda>s. s\<lparr>vs_last_activity := ve_now E, vs_bytes_sent := m\<rparr>))
      (tk_session tk) n i" for m
    by (rule live_update [OF 2(3)]) simp
  have "session_live (rdel r (get_vod_client_stop_key (tk_client tk))) (tk_session tk) n i"
    by (rule live_frame [OF 2(3)]) (simp add: rdel_other)
  with upd have 1: "session_live r1 (tk_session tk) n i"
    using a 2(3) by (auto simp: after_chunk_def split: if_splits)
  have 3: "same_slots r r1"
    using a by (auto simp: after_chunk_def split: if_splits intro: only_session_slots only_session_update)
  show ?case
  proof (cases "c = []")
    case True
    then show ?thesis using 2 by simp
  next
    case False
    show ?thesis
    proof (cases b)
      case True
      then show ?thesis using 2(4) a 1 3 False by simp
    next
      case no: False
      obtain t' out' st where rest: "send_chunks E r1 tk (sent + int (length c)) (cnt + 1) cs = (t', out', st)"
        by (metis prod.exhaust)
      then have "session_live t' (tk_session tk) n i \<and> same_slots r1 t'"
        using 2(2) [OF False a [symmetric]] no 1 by blast
      moreover have "t = t'" using 2(4) a no False rest by simp
      ultimately show ?thesis using same_slots_trans [OF 3] by simp
    qed
  qed
qed simp

subsection \<open>A slot taken and given back\<close>

lemma reserve_then_give_back:
  assumes rest: "slots_at_rest r p"
    and res: "check_and_reserve_profile_slot E r p = (rA, True)" and same: "same_slots rA t"
  shows "is_counter_key k \<Longrightarrow> slot_read (decrement_profile_connections t (prof_id p)) k = slot_read r k"
    and "slot_wf t"
proof -
  have taken: "vod_taken E p r t" by (rule taken_trans [OF vod.taken_intro [OF res] same])
  then show "slot_wf t" using rest vod.taken_wf by (simp add: slots_at_rest_def)
  show "slot_read (decrement_profile_connections t (prof_id p)) k = slot_read r k" if "is_counter_key k"
    using vod.taken_then_released [OF rest taken that] by (simp add: decrement_profile_connections_def)
qed

text \<open>The session is gone and every counter is where it was.\<close>

definition all_returned :: "redis \<Rightarrow> string \<Rightarrow> redis \<Rightarrow> bool" where
  "all_returned r sid t \<longleftrightarrow>
     (\<forall>k. is_counter_key k \<longrightarrow> slot_read t k = slot_read r k) \<and> \<not> rexists t (vod_connection_key sid)"

lemma returned_drop:
  assumes rest: "slots_at_rest r p" and res: "check_and_reserve_profile_slot E r p = (rA, True)"
    and same: "same_slots rA t" and live: "session_live t sid 0 (prof_id p)"
  shows "all_returned r sid (decrement_profile_connections (vod_cleanup t sid now False) (prof_id p))"
    and "all_returned r sid (vod_cleanup (decrement_profile_connections t (prof_id p)) sid now False)"
proof -
  let ?key = "vod_connection_key sid"
  have drop: "vod_cleanup t sid now False = rdel t ?key" using idle_cleanup [OF live] by simp
  have same': "same_slots rA (rdel t ?key)" by (rule same_slots_trans [OF same]) simp
  have "\<not> rexists (decrement_profile_connections (rdel t ?key) (prof_id p)) ?key"
    using release_keeps [of ?key "rdel t ?key"] reserve_then_give_back(2) [OF rest res same']
    by (simp add: rexists_def decrement_profile_connections_def rdel_def)
  then show "all_returned r sid (decrement_profile_connections (vod_cleanup t sid now False) (prof_id p))"
    using reserve_then_give_back(1) [OF rest res same'] by (simp add: all_returned_def drop)
  have wf: "slot_wf t" by (rule reserve_then_give_back(2) [OF rest res same])
  let ?t = "decrement_profile_connections t (prof_id p)"
  have "vod_cleanup ?t sid now False = rdel ?t ?key" using idle_cleanup [OF live_give_back [OF live wf]] by simp
  then show "all_returned r sid (vod_cleanup ?t sid now False)"
    using reserve_then_give_back(1) [OF rest res same] same_slots_read(3) [of ?t "rdel ?t ?key"]
    by (simp add: all_returned_def rexists_rdel)
qed

subsection \<open>Choosing a session\<close>

lemma best_match_in: "best_match ms = Some m \<Longrightarrow> m \<in> set ms"
  by (induction ms arbitrary: m) (auto split: option.splits if_splits)

lemma idle_match_idle: "idle_match r rq key = Some (sid, score, t) \<Longrightarrow> \<not> has_active_streams r sid"
  by (auto simp: idle_match_def Let_def split: if_splits)

lemma matching_is_idle: "find_matching_idle_session r rq = Some m \<Longrightarrow> \<not> has_active_streams r m"
  by (auto simp: find_matching_idle_session_def set_map_filter dest!: best_match_in idle_match_idle)

lemma choose_facts:
  assumes ch: "choose_session E r rq = (r', sid, client, adopted)" and live: "session_live r sid n i" and "0 \<le> n"
  shows "same_slots r r'" and "adopted \<Longrightarrow> n = 0 \<and> session_live r' sid 1 i" and "\<not> adopted \<Longrightarrow> session_live r' sid n i"
proof -
  have same: "same_slots r r' \<and> (adopted \<longrightarrow> n = 0 \<and> session_live r' sid 1 i) \<and> (\<not> adopted \<longrightarrow> session_live r' sid n i)"
  proof (cases "find_matching_idle_session r rq")
    case None
    then show ?thesis using ch live by (simp add: choose_session_def)
  next
    case (Some m)
    obtain r1 c where inc: "increment_active_streams r m (ve_now E) = (r1, c)" by (rule prod.exhaust)
    have only: "only_session m r r1" using only_session_incr [of m r "ve_now E"] by (simp add: inc)
    show ?thesis
    proof (cases "c = 0")
      case False
      then have eq: "r' = r1" "sid = m" "adopted" using ch Some inc by (simp_all add: choose_session_def)
      have "n = 0"
        using matching_is_idle [OF Some] live_count [OF live] \<open>0 \<le> n\<close> by (simp add: has_active_streams_def eq(2))
      then show ?thesis
        using live_incr(2) [OF live \<open>0 \<le> n\<close>, of "ve_now E"] only_session_slots [OF only] eq inc by simp
    next
      case True
      then have eq: "r' = r1" "\<not> adopted" using ch Some inc by (simp_all add: choose_session_def)
      have "m \<noteq> sid"
        using live_incr(1) [OF live \<open>0 \<le> n\<close>, of "ve_now E"] True inc \<open>0 \<le> n\<close> by auto
      then have "vod_connection_key sid \<notin> session_keys m" by (simp add: session_keys_def)
      then have "session_live r1 sid n i" using only by (intro live_frame [OF live]) (simp add: only_session_def)
      then show ?thesis using only_session_slots [OF only] eq by simp
    qed
  qed
  show "same_slots r r'" and "adopted \<Longrightarrow> n = 0 \<and> session_live r' sid 1 i" and "\<not> adopted \<Longrightarrow> session_live r' sid n i"
    using same by simp_all
qed

subsection \<open>A new session\<close>

lemma provider_headers_distinct: "distinct (map fst (provider_headers E rq))"
  by (auto simp: provider_headers_def forwarded_headers_def List.map_filter_simps split: option.split)

lemma serve_live:
  assumes live: "session_live r sid n i" and sv: "serve E r sid client existing incremented rq = (t, ans)"
  obtains (streams) resp plan r1 where "ans = VodStreaming (make_ticket E r1 sid client existing rq plan resp)"
      "session_live t sid n i" "same_slots r t"
  | (unsatisfiable) r1 where "ans = VodRefused 416" "session_live r1 sid n i" "same_slots r r1"
      "t = refuse_unsatisfiable E r1 sid existing incremented rq"
  | (failed) "ans = VodRefused 500" "t = roll_back E (vod_cleanup r sid (ve_now E) False) sid existing incremented rq"
proof -
  obtain r1 u where get: "get_stream E r sid (rq_range rq) = (r1, u)" by (rule prod.exhaust)
  note g = get_stream_live [OF live get]
  show ?thesis
  proof (cases u)
    case NoStream
    then show ?thesis using that(2) [of r] sv get g(3) live by (simp add: serve_def)
  next
    case StreamFailed
    then show ?thesis using that(3) sv get g(2) by (simp add: serve_def)
  next
    case (GotStream resp)
    have l: "session_live r1 sid n i" by (rule g(4) [OF GotStream])
    have s: "same_slots r r1" by (rule only_session_slots [OF g(1)])
    define plan where "plan = plan_downstream (rq_range rq) (vr_status resp) (vr_content_range resp) (vr_content_length resp)
      (case get_connection_state r1 sid (ve_now E) of Some s \<Rightarrow> parse_length (vs_length s) | None \<Rightarrow> None)"
    show ?thesis
    proof (cases "dp_unsatisfiable plan")
      case True
      then show ?thesis using that(2) [OF _ l s] sv get GotStream by (simp add: serve_def Let_def plan_def)
    next
      case False
      have "same_slots r (store_seek E r1 sid (rq_range rq) plan)"
        by (rule same_slots_trans [OF s only_session_slots [OF store_seek_keeps(2)]])
      then show ?thesis
        using False that(1) [of r1 plan resp] store_seek_keeps(1) [OF l, of E "rq_range rq" plan] sv get GotStream
        by (simp add: serve_def Let_def plan_def)
    qed
  qed
qed

lemma ticket_simps [simp]:
  "tk_session (make_ticket E r sid client existing rq plan resp) = sid"
  "tk_existing (make_ticket E r sid client existing rq plan resp) = existing"
  "tk_profile (make_ticket E r sid client existing rq plan resp) = prof_id (rq_profile rq)"
  by (simp_all add: make_ticket_def split: option.split)

definition no_session :: "redis \<Rightarrow> vod_request \<Rightarrow> bool" where
  "no_session r rq \<longleftrightarrow>
     find_matching_idle_session r rq = None \<and> \<not> rexists r (vod_connection_key (rq_session rq)) \<and>
     \<not> rexists r (vod_lock_key (rq_session rq))"

lemma open_new:
  assumes rest: "slots_at_rest r (rq_profile rq)" and none: "no_session r rq"
    and op: "open_stream E r rq = (t, ans)"
  obtains (refused) status where "ans = VodRefused status" "all_returned r (rq_session rq) t"
  | (streams) rA tk where "ans = VodStreaming tk" "tk_session tk = rq_session rq" "\<not> tk_existing tk"
      "check_and_reserve_profile_slot E r (rq_profile rq) = (rA, True)" "same_slots rA t"
      "session_live t (rq_session rq) 0 (prof_id (rq_profile rq))"
proof -
  let ?sid = "rq_session rq" and ?p = "rq_profile rq"
  let ?key = "vod_connection_key ?sid"
  have fresh: "get_connection_state r ?sid (ve_now E) = None"
    using none by (simp add: no_session_def get_connection_state_def rhgetall_def rexists_def)
  obtain rA ok where res: "check_and_reserve_profile_slot E r ?p = (rA, ok)" by (rule prod.exhaust)
  have opened: "open_stream E r rq =
      (case enter_new E r ?sid rq of
         (r, Inl status) \<Rightarrow> (r, VodRefused status)
       | (r, Inr incremented) \<Rightarrow> serve E r ?sid ?sid False incremented rq)"
    using none fresh by (simp add: open_stream_def choose_session_def no_session_def)
  show ?thesis
  proof (cases ok)
    case False
    then have "ans = VodRefused 429" "t = r"
      using op opened res vod.grab_facts(1) [OF res] by (simp_all add: enter_new_def)
    then show ?thesis using none refused by (simp add: all_returned_def no_session_def)
  next
    case True
    then have res: "check_and_reserve_profile_slot E r ?p = (rA, True)" using res by simp
    let ?s = "new_vod_state E rq ?sid"
    have made: "vs_profile ?s = Some (prof_id ?p)" "distinct (map fst (vs_headers ?s))" "vs_active_streams ?s = 0"
      using provider_headers_distinct [of E rq] by (simp_all add: new_vod_state_def)
    have absent: "\<not> rexists rA ?key" "\<not> rexists rA (vod_lock_key ?sid)"
      using none vod.grab_facts(3) [OF res] by (simp_all add: no_session_def rexists_def)
    obtain rB where cr: "create_connection rA ?sid (ve_now E) ?s = (rB, True)"
      using live_create(1) [OF absent made(1,2), of "ve_now E"] that
      by (cases "create_connection rA ?sid (ve_now E) ?s") simp
    have live: "session_live rB ?sid 0 (prof_id ?p)"
      using live_create(2) [OF absent made(1,2), of "ve_now E"] by (simp add: cr made(3))
    have sameB: "same_slots rA rB"
      using only_session_slots [OF only_session_create [of ?sid rA "ve_now E" ?s]] by (simp add: cr)
    have sv: "serve E rB ?sid ?sid False True rq = (t, ans)"
      using op opened res cr by (simp add: enter_new_def)
    show ?thesis
      using live sv
    proof (cases rule: serve_live)
      case (streams resp plan r1)
      then show ?thesis using that(2) res same_slots_trans [OF sameB] by simp
    next
      case (unsatisfiable r1)
      then show ?thesis
        using refused [of 416] returned_drop(1) [OF rest res same_slots_trans [OF sameB unsatisfiable(3)] unsatisfiable(2)]
        by (simp add: refuse_unsatisfiable_def give_slot_back_def)
    next
      case failed
      let ?d = "vod_cleanup rB ?sid (ve_now E) False"
      have "all_returned r ?sid (decrement_profile_connections ?d (prof_id ?p))"
        by (rule returned_drop(1) [OF rest res sameB live])
      moreover from this have "vod_cleanup (decrement_profile_connections ?d (prof_id ?p)) ?sid (ve_now E) False
          = decrement_profile_connections ?d (prof_id ?p)"
        by (simp add: vod_cleanup_def get_connection_state_def rhgetall_def all_returned_def rexists_def)
      ultimately show ?thesis using failed refused by (simp add: roll_back_def)
    qed
  qed
qed

lemma end_last_stream:
  assumes live: "session_live r (tk_session tk) 1 i" and "i \<noteq> 0"
  shows "\<exists>t. session_live t (tk_session tk) 0 i \<and> same_slots r t \<and>
    end_stream E r tk ending =
      (if ending = Broken then (vod_cleanup (decrement_profile_connections t i) (tk_session tk) (ve_now E) False, False)
       else (decrement_profile_connections t i, True))"
proof -
  let ?sid = "tk_session tk"
  obtain t b where d: "decrement_active_streams_and_check r ?sid (ve_now E) = (t, b)" by (rule prod.exhaust)
  have b: "b = (True, False)" using live_decr(1) [OF live, of "ve_now E"] by (simp add: d)
  have l: "session_live t ?sid 0 i" using live_decr(2) [OF live, of "ve_now E"] by (simp add: d)
  have s: "same_slots r t" using only_session_slots [OF only_session_decr [of ?sid r "ve_now E"]] by (simp add: d)
  obtain st where "get_connection_state t ?sid (ve_now E) = Some st" "vs_profile st = Some i"
    using live_state [OF l] by blast
  then have "settle_slot E t tk = decrement_profile_connections t i" using \<open>i \<noteq> 0\<close> by (simp add: settle_slot_def)
  then have "end_stream E r tk ending =
      (if ending = Broken then (vod_cleanup (decrement_profile_connections t i) ?sid (ve_now E) False, False)
       else (decrement_profile_connections t i, True))"
    by (simp add: end_stream_def d b)
  with l s show ?thesis by blast
qed

lemma end_one_of_many:
  assumes live: "session_live r (tk_session tk) n i" and "1 < n"
  shows "\<exists>t. session_live t (tk_session tk) (n - 1) i \<and> same_slots r t \<and> end_stream E r tk ending = (t, False)"
proof -
  let ?sid = "tk_session tk"
  obtain t b where d: "decrement_active_streams_and_check r ?sid (ve_now E) = (t, b)" by (rule prod.exhaust)
  have b: "b = (True, True)" using live_decr(1) [OF live, of "ve_now E"] assms(2) by (simp add: d)
  have "session_live t ?sid (n - 1) i" using live_decr(2) [OF live, of "ve_now E"] assms(2) by (simp add: d)
  moreover have "same_slots r t"
    using only_session_slots [OF only_session_decr [of ?sid r "ve_now E"]] by (simp add: d)
  ultimately show ?thesis by (simp add: end_stream_def d b)
qed

subsection \<open>An existing session\<close>

text \<open>The slot part of a request that joins: one reserve, when no other stream was running.\<close>

text \<open>What a request leaves on a session that had \<open>n\<close> streams.\<close>

definition joined :: "vod_env \<Rightarrow> m3u_profile \<Rightarrow> redis \<Rightarrow> int \<Rightarrow> redis \<Rightarrow> bool" where
  "joined E p r n t \<longleftrightarrow> (if n = 0 then vod_taken E p r t else same_slots r t)"

definition undone :: "vod_env \<Rightarrow> m3u_profile \<Rightarrow> redis \<Rightarrow> int \<Rightarrow> redis \<Rightarrow> bool" where
  "undone E p r n t \<longleftrightarrow> same_slots r t \<or>
     (n = 0 \<and> (\<exists>s. vod_taken E p r s \<and> same_slots (decrement_profile_connections s (prof_id p)) t))"

lemma enter_existing_live:
  assumes wf: "slot_wf r" and same: "same_slots r r1" and n: "0 \<le> n"
    and entry: "(adopted \<longrightarrow> n = 0 \<and> session_live r1 sid 1 i) \<and> (\<not> adopted \<longrightarrow> session_live r1 sid n i)"
    and en: "enter_existing E r1 sid adopted rq = (t, e)"
  obtains (enters) "e = Inr (n = 0)" "session_live t sid (n + 1) i" "joined E (rq_profile rq) r n t"
  | (turned) status where "e = Inl status" "session_live t sid n i" "same_slots r t"
proof -
  let ?p = "rq_profile rq"
  have again: thesis if l: "session_live r2 sid 1 i" and s: "same_slots r r2" and z: "n = 0"
    and ra: "reserve_again E r2 sid rq = (t, e)" for r2
  proof -
    obtain rA ok where res: "check_and_reserve_profile_slot E r2 ?p = (rA, ok)" by (rule prod.exhaust)
    show thesis
    proof (cases ok)
      case True
      then have res: "check_and_reserve_profile_slot E r2 ?p = (rA, True)" using res by simp
      have l2: "session_live rA sid 1 i" by (rule live_same [OF l vod.grab_facts(3) [OF res]])
      have "vod_taken E ?p r (take_ownership E rA sid)"
        unfolding slot_taken_def using s res only_session_slots [OF take_ownership_keeps(2)] by blast
      then show thesis
        using ra res z enters take_ownership_keeps(1) [OF l2, of E] by (simp add: reserve_again_def joined_def)
    next
      case False
      then have "rA = r2" using vod.grab_facts(1) [OF res] by simp
      then have t: "t = fst (decrement_active_streams r2 sid (ve_now E))" "e = Inl 429"
        using ra res False by (simp_all add: reserve_again_def)
      have d: "fst (decrement_active_streams r2 sid (ve_now E)) = fst (decrement_active_streams_and_check r2 sid (ve_now E))"
        by (simp add: decrement_active_streams_def split: prod.split)
      have "session_live t sid 0 i" using live_decr(2) [OF l, of "ve_now E"] by (simp add: t d)
      moreover have "same_slots r t"
        unfolding t d by (rule same_slots_trans [OF s only_session_slots [OF only_session_decr]])
      ultimately show thesis using turned [OF t(2)] z by simp
    qed
  qed
  show thesis
  proof (cases adopted)
    case True
    then show thesis using entry en by (intro again [OF _ same]) (simp_all add: enter_existing_def)
  next
    case False
    have l: "session_live r1 sid n i" using entry False by simp
    obtain r2 c where inc: "increment_active_streams r1 sid (ve_now E) = (r2, c)" by (rule prod.exhaust)
    have c: "c = n + 1" and l2: "session_live r2 sid (n + 1) i"
      using live_incr [OF l n, of "ve_now E"] by (simp_all add: inc)
    have s2: "same_slots r r2"
      using same_slots_trans [OF same only_session_slots [OF only_session_incr [of sid r1 "ve_now E"]]] by (simp add: inc)
    show thesis
    proof (cases "n = 0")
      case True
      then show thesis
        using l2 s2 en False inc c by (intro again [of r2]) (simp_all add: enter_existing_def)
    next
      case many: False
      then have "t = take_ownership E r2 sid" "e = Inr False" using en False inc c n by (simp_all add: enter_existing_def)
      then show thesis
        using many enters take_ownership_keeps(1) [OF l2, of E]
          same_slots_trans [OF s2 only_session_slots [OF take_ownership_keeps(2) [of sid r2 E]]]
        by (simp add: joined_def)
    qed
  qed
qed

lemma joined_wf: "joined E p r n t \<Longrightarrow> slot_wf r \<Longrightarrow> slot_wf t"
  unfolding joined_def using vod.taken_wf same_slots_wf by (metis (full_types))

lemma joined_trans: "joined E p r n s \<Longrightarrow> same_slots s t \<Longrightarrow> joined E p r n t"
  unfolding joined_def using taken_trans same_slots_trans by (metis (full_types))

lemma joined_undone:
  assumes "joined E p r n s"
  shows "undone E p r n (if n = 0 then decrement_profile_connections s (prof_id p) else s)"
  using assms by (auto simp: joined_def undone_def)

lemma undone_trans: "undone E p r n s \<Longrightarrow> same_slots s t \<Longrightarrow> undone E p r n t"
  unfolding undone_def by (blast intro: same_slots_trans)

lemma live_back:
  assumes "session_live s sid (n + 1) i" and "0 \<le> n"
  shows "session_live (fst (decrement_active_streams s sid now)) sid n i"
    and "same_slots s (fst (decrement_active_streams s sid now))"
proof -
  have d: "fst (decrement_active_streams s sid now) = fst (decrement_active_streams_and_check s sid now)"
    by (simp add: decrement_active_streams_def split: prod.split)
  show "session_live (fst (decrement_active_streams s sid now)) sid n i"
    using live_decr(2) [OF assms(1), of now] assms(2) by (simp add: d)
  show "same_slots s (fst (decrement_active_streams s sid now))"
    unfolding d by (rule only_session_slots [OF only_session_decr])
qed

lemma open_existing:
  assumes wf: "slot_wf r" and live: "session_live r sid n i" and n: "0 \<le> n"
    and ch: "choose_session E r rq = (r1, sid, client, adopted)" and op: "open_stream E r rq = (t, ans)"
  obtains (enters) tk where "ans = VodStreaming tk" "tk_session tk = sid" "tk_existing tk"
      "session_live t sid (n + 1) i" "joined E (rq_profile rq) r n t"
  | (turned) status where "ans = VodRefused status" "undone E (rq_profile rq) r n t"
      "session_live t sid n i \<or> n = 0 \<and> \<not> rexists t (vod_connection_key sid)"
proof -
  let ?p = "rq_profile rq"
  note cf = choose_facts [OF ch live n]
  have exists: "get_connection_state r1 sid (ve_now E) \<noteq> None"
    using cf(2,3) live_state [of r1 sid _ i "ve_now E"] by (cases adopted) force+
  have entry: "(adopted \<longrightarrow> n = 0 \<and> session_live r1 sid 1 i) \<and> (\<not> adopted \<longrightarrow> session_live r1 sid n i)"
    using cf(2,3) by blast
  obtain r2 e where en: "enter_existing E r1 sid adopted rq = (r2, e)" by (rule prod.exhaust)
  have opened: "(t, ans) = (case (r2, e) of
      (r, Inl status) \<Rightarrow> (r, VodRefused status)
    | (r, Inr incremented) \<Rightarrow> serve E r sid client True incremented rq)"
    using op exists by (simp add: open_stream_def ch en)
  show thesis
    using wf cf(1) n entry en
  proof (cases rule: enter_existing_live)
    case (turned status)
    then show thesis using opened that(2) by (simp add: undone_def)
  next
    case enters
    have sv: "serve E r2 sid client True (n = 0) rq = (t, ans)" using opened enters(1) by simp
    have wf2: "slot_wf r2" by (rule joined_wf [OF enters(3) wf])
    let ?gb = "\<lambda>s. if n = 0 then decrement_profile_connections s (prof_id ?p) else s"
    show thesis
      using enters(2) sv
    proof (cases rule: serve_live)
      case (streams resp plan r3)
      then show thesis using that(1) joined_trans [OF enters(3)] by simp
    next
      case (unsatisfiable r3)
      let ?d = "fst (decrement_active_streams r3 sid (ve_now E))"
      note b = live_back [OF unsatisfiable(2) n, of "ve_now E"]
      have j: "joined E ?p r n ?d" by (rule joined_trans [OF enters(3) same_slots_trans [OF unsatisfiable(3) b(2)]])
      have t: "t = ?gb ?d" using unsatisfiable(4) by (simp add: refuse_unsatisfiable_def give_slot_back_def)
      have "session_live (?gb ?d) sid n i"
        using b(1) live_give_back [OF b(1) joined_wf [OF j wf]] by presburger
      then have "session_live t sid n i" by (simp only: t)
      then show thesis using that(2) unsatisfiable(1) joined_undone [OF j] t by simp
    next
      case failed
      have same: "vod_cleanup r2 sid (ve_now E) False = r2" using live_cleanup [OF enters(2)] n by simp
      let ?d = "fst (decrement_active_streams r2 sid (ve_now E))"
      note b = live_back [OF enters(2) n, of "ve_now E"]
      have j: "joined E ?p r n ?d" by (rule joined_trans [OF enters(3) b(2)])
      show thesis
      proof (cases "n = 0")
        case False
        then have "t = ?d" using failed(2) by (simp add: roll_back_def same)
        then show thesis using that(2) failed(1) joined_undone [OF j] b(1) False by simp
      next
        case True
        let ?g = "decrement_profile_connections ?d (prof_id ?p)"
        have l: "session_live ?g sid 0 i" using live_give_back [OF b(1) joined_wf [OF j wf]] True by simp
        have t: "t = rdel ?g (vod_connection_key sid)"
          using failed(2) True idle_cleanup [OF l] by (simp add: roll_back_def same)
        have "undone E ?p r n ?g" using joined_undone [OF j] True by simp
        then have "undone E ?p r n t" unfolding t by (rule undone_trans) simp
        then show thesis using that(2) failed(1) True t by (simp add: rexists_rdel)
      qed
    qed
  qed
qed

subsection \<open>One viewer\<close>

text \<open>
  A request, the first \<open>m\<close> chunks of its body, the end of its generator and the cleanup it leaves
  behind, with no other request in between.
\<close>

definition watch :: "vod_env \<Rightarrow> redis \<Rightarrow> vod_request \<Rightarrow> nat \<Rightarrow> vod_ending \<Rightarrow> redis" where
  "watch E r rq m ending =
     (case open_stream E r rq of
        (r, VodRefused _) \<Rightarrow> r
      | (r, VodStreaming tk) \<Rightarrow>
          (case send_chunks E (start_stream E r tk) tk 0 0 (take m (planned_chunks tk)) of
             (r, _) \<Rightarrow>
               (case end_stream E r tk ending of
                  (r, scheduled) \<Rightarrow> if scheduled then delayed_cleanup E r tk else r)))"

lemma start_new:
  assumes "session_live r (tk_session tk) n i" and "0 \<le> n" and "\<not> tk_existing tk"
  shows "session_live (start_stream E r tk) (tk_session tk) (n + 1) i" and "same_slots r (start_stream E r tk)"
  using live_incr(2) [OF assms(1,2), of "ve_now E"] assms(3) only_session_slots [OF only_session_incr]
  by (simp_all add: start_stream_def)

text \<open>C11. A viewer alone on a new session costs nothing in the end: whatever the provider answers,
  wherever in the body the stream completes, breaks or is left, and whether it was refused, every
  counter of the profile and of its shared login is back at its value and the session is gone. This is
  for a well-formed keyspace in which no counter is negative, the profile has no release pointer left
  over and, if it is unlimited, its own counter is at zero; and its id is not zero.\<close>

theorem lone_viewer_returns_every_slot:
  assumes "slots_at_rest r (rq_profile rq)" and "no_session r rq" and "prof_id (rq_profile rq) \<noteq> 0"
  shows "all_returned r (rq_session rq) (watch E r rq m ending)"
proof -
  let ?i = "prof_id (rq_profile rq)"
  obtain t ans where op: "open_stream E r rq = (t, ans)" by (rule prod.exhaust)
  show ?thesis
    using assms(1,2) op
  proof (cases rule: open_new)
    case (refused status)
    then show ?thesis by (simp add: watch_def op)
  next
    case (streams rA tk)
    note st = start_new [of t tk 0 ?i E, unfolded streams(2), OF streams(6) _ streams(3)]
    let ?s = "start_stream E t tk"
    obtain r2 out stop where send: "send_chunks E ?s tk 0 0 (take m (planned_chunks tk)) = (r2, out, stop)"
      by (metis prod.exhaust)
    have keep: "session_live r2 (tk_session tk) 1 ?i \<and> same_slots ?s r2"
      using send_chunks_keep [OF _ send, of 1 ?i] st(1) by (simp add: streams(2))
    then obtain r3 where r3: "session_live r3 (tk_session tk) 0 ?i" "same_slots r2 r3"
      "end_stream E r2 tk ending =
        (if ending = Broken then (vod_cleanup (decrement_profile_connections r3 ?i) (tk_session tk) (ve_now E) False, False)
         else (decrement_profile_connections r3 ?i, True))"
      using end_last_stream [of r2 tk ?i E ending] assms(3) by blast
    have "same_slots rA r3"
      using streams(5) st(2) keep r3(2) by (blast intro: same_slots_trans)
    then have "all_returned r (rq_session rq) (vod_cleanup (decrement_profile_connections r3 ?i) (rq_session rq) (ve_now E) False)"
      using r3(1) by (intro returned_drop(2) [OF assms(1) streams(4)]) (simp_all add: streams(2))
    then show ?thesis
      by (simp add: watch_def op streams(1,2) send r3(3) delayed_cleanup_def)
  qed
qed

subsection \<open>Two requests before the first byte\<close>

text \<open>A second request that reaches a session before the first one's generator starts takes a
  second slot of the same profile, because it still sees no active stream; the session gives back
  one when its last stream ends. After both viewers are gone and the session is deleted, the
  profile's counter and that of its shared login are one too high.\<close>

theorem early_second_request_leaks_a_slot:
  assumes rest: "slots_at_rest r p" and none: "no_session r first" and "prof_id p \<noteq> 0"
    and "rq_profile first = p" and "rq_profile second = p"
    and openA: "open_stream E r first = (r1, VodStreaming a)"
    and same_session: "choose_session E r1 second = (r1', rq_session first, client, adopted)"
    and openB: "open_stream E r1 second = (r2, VodStreaming b)"
    and endA: "end_stream E (start_stream E (start_stream E r2 a) b) a ending = (r3, s)"
    and endB: "end_stream E r3 b ending' = (r4, s')" and k: "is_counter_key k" and limited: "0 < max_streams p"
  shows "slot_read (delayed_cleanup E r4 b) k =
      slot_read r k + (if counts_against (pb_libs (ve_play E)) (pb_db (ve_play E)) p k then 1 else 0) \<and>
    \<not> rexists (delayed_cleanup E r4 b) (vod_connection_key (rq_session first))"
proof -
  let ?sid = "rq_session first" and ?i = "prof_id p"
  let ?c = "counts_against (pb_libs (ve_play E)) (pb_db (ve_play E)) p"
  have rest1: "slots_at_rest r (rq_profile first)" using rest by (simp only: assms(4))
  obtain rA where A: "tk_session a = ?sid" "\<not> tk_existing a" "check_and_reserve_profile_slot E r p = (rA, True)"
    "same_slots rA r1" "session_live r1 ?sid 0 ?i"
    by (rule open_new [OF rest1 none openA]) (auto simp: assms(4))
  have takenA: "vod_taken E p r r1" unfolding slot_taken_def using A(3,4) same_slots_refl by blast
  have wf: "slot_wf r" and nonneg: "\<And>l. is_counter_key l \<Longrightarrow> 0 \<le> slot_read r l"
    using rest by (auto simp: slots_at_rest_def)
  have wf1: "slot_wf r1" by (rule vod.taken_wf [OF takenA wf])
  have B: "tk_session b = ?sid" "tk_existing b" "session_live r2 ?sid 1 ?i" "vod_taken E p r1 r2"
    by (rule open_existing [OF wf1 A(5) order.refl same_session openB]; simp add: assms(5) joined_def)+
  note st = start_new [of r2 a 1 ?i E, unfolded A(1), OF B(3) _ A(2)]
  have start: "start_stream E (start_stream E r2 a) b = start_stream E r2 a" using B(2) by (simp add: start_stream_def)
  obtain x where x: "session_live x ?sid 1 ?i" "same_slots (start_stream E r2 a) x" "r3 = x"
    using end_one_of_many [of "start_stream E r2 a" a 2 ?i E ending] st(1) endA by (auto simp: A(1) start)
  obtain y where y: "session_live y ?sid 0 ?i" "same_slots r3 y"
      "r4 = (if ending' = Broken then vod_cleanup (decrement_profile_connections y ?i) ?sid (ve_now E) False
             else decrement_profile_connections y ?i)"
    using end_last_stream [of r3 b ?i E ending'] x endB assms(3) by (auto simp: B(1) split: if_splits)
  have taken: "vod_taken E p r1 y"
    using taken_trans [OF taken_trans [OF taken_trans [OF B(4) st(2)] x(2)]] x(3) y(2) by simp
  have wfy: "slot_wf y" by (rule vod.taken_wf [OF taken wf1])
  have lg: "session_live (decrement_profile_connections y ?i) ?sid 0 ?i" by (rule live_give_back [OF y(1) wfy])
  have fin: "delayed_cleanup E r4 b = rdel (decrement_profile_connections y ?i) (vod_connection_key ?sid)"
    using y(3) idle_cleanup [OF lg, of "ve_now E"]
    by (auto simp: delayed_cleanup_def B(1) vod_cleanup_def get_connection_state_def rhgetall_rdel Let_def)
  then have gone: "\<not> rexists (delayed_cleanup E r4 b) (vod_connection_key ?sid)" by (simp add: rexists_rdel)
  have count: "slot_read y k = slot_read r k + (if ?c k then 2 else 0)"
    using vod.taken_counts [OF takenA nonneg [OF k] k] vod.taken_counts [OF taken _ k] nonneg [OF k] by simp
  have "?c k \<longleftrightarrow> k = profile_connections_key ?i \<or> rget y (profile_credential_release_key ?i) = Some (RText k)"
    using rest vod.taken_pointer [OF taken, of ?i] vod.taken_pointer [OF takenA, of ?i] limited
    by (auto simp: counts_against_def slots_at_rest_def)
  then have "slot_read (decrement_profile_connections y ?i) k = (if ?c k then max 0 (slot_read y k - 1) else slot_read y k)"
    unfolding decrement_profile_connections_def release_effect [OF wfy k] by simp
  with count nonneg [OF k] have "slot_read (decrement_profile_connections y ?i) k = slot_read r k + (if ?c k then 1 else 0)"
    by simp
  moreover have "same_slots (decrement_profile_connections y ?i) (delayed_cleanup E r4 b)" unfolding fin by simp
  ultimately show ?thesis using same_slots_read(3) [OF _ k] gone by simp
qed

subsection \<open>An adopted session of another profile\<close>

lemma given_back_profile_count:
  assumes "slot_wf r"
  shows "slot_read (decrement_profile_connections r i) (profile_connections_key j) =
    (if j = i then max 0 (slot_read r (profile_connections_key j) - 1) else slot_read r (profile_connections_key j))"
  using released_profile_count [OF assms] by (simp add: decrement_profile_connections_def)

text \<open>A request adopts an idle session of its viewer whatever profile that session streams
  from. The request's own profile is charged for the stream and the session's profile is credited
  at its end: the first counter stays one too high, the second falls below the streams it has.\<close>

theorem adopted_session_credits_another_profile:
  assumes wf: "slot_wf r" and nonneg: "\<And>j. 0 \<le> slot_read r (profile_connections_key j)"
    and live: "session_live r sid 0 i" and "i \<noteq> 0" and "prof_id (rq_profile rq) \<noteq> i" and "0 < max_streams (rq_profile rq)"
    and ch: "choose_session E r rq = (r', sid, client, adopted)" and op: "open_stream E r rq = (t, VodStreaming tk)"
    and en: "end_stream E (start_stream E t tk) tk ending = (u, scheduled)"
  shows "slot_read u (profile_connections_key (prof_id (rq_profile rq))) =
      slot_read r (profile_connections_key (prof_id (rq_profile rq))) + 1 \<and>
    slot_read u (profile_connections_key i) = max 0 (slot_read r (profile_connections_key i) - 1)"
proof -
  let ?p = "rq_profile rq"
  have B: "tk_session tk = sid" "tk_existing tk" "session_live t sid 1 i" "vod_taken E ?p r t"
    by (rule open_existing [OF wf live order.refl ch op]; simp add: joined_def)+
  have start: "start_stream E t tk = t" using B(2) by (simp add: start_stream_def)
  obtain y where y: "session_live y sid 0 i" "same_slots t y"
      "u = (if ending = Broken then vod_cleanup (decrement_profile_connections y i) sid (ve_now E) False
            else decrement_profile_connections y i)"
    using end_last_stream [of t tk i E ending] B(1,3) en start \<open>i \<noteq> 0\<close> by (auto split: if_splits)
  have taken: "vod_taken E ?p r y" by (rule taken_trans [OF B(4) y(2)])
  have wfy: "slot_wf y" by (rule vod.taken_wf [OF taken wf])
  have same: "same_slots (decrement_profile_connections y i) u"
    unfolding y(3) by (simp add: only_session_slots [OF only_session_cleanup])
  have "slot_read u (profile_connections_key j) = (if j = i then max 0 (slot_read y (profile_connections_key j) - 1)
      else slot_read y (profile_connections_key j))" for j
    using same_slots_read(3) [OF same, of "profile_connections_key j"] given_back_profile_count [OF wfy, of i j] by simp
  then show ?thesis
    using vod.taken_profile_count [OF taken assms(6) nonneg] assms(5) by simp_all
qed

subsection \<open>The demonstrations\<close>

definition demo_vod_env :: vod_env where
  "demo_vod_env = \<lparr>ve_worker = ''w1'', ve_now = 0, ve_play = demo_playback, ve_guess_type = (\<lambda>_. None),
     ve_provider = (\<lambda>n url headers redirects. Some \<lparr>vr_status = 200, vr_content_range = None,
       vr_content_length = Some ''10'', vr_content_type = Some ''video/mp4'', vr_url = url, vr_chunks = [''0123456789'']\<rparr>)\<rparr>"

definition demo_vod_request :: vod_request where
  "demo_vod_request = \<lparr>rq_session = ''s1'', rq_type = ''movie'', rq_uuid = ''u'', rq_name = ''n'',
     rq_url = ''http://p/m.mkv'', rq_profile = solo_profile, rq_ip = ''10.0.0.1'', rq_agent = ''VLC'',
     rq_utc_start = None, rq_utc_end = None, rq_offset = None, rq_meta = [], rq_range = None, rq_user = None\<rparr>"

lemma demo_rq [simp]: "rq_profile demo_vod_request = solo_profile" "rq_session demo_vod_request = ''s1''"
  by (simp_all add: demo_vod_request_def)

lemma demo_at_rest: "slots_at_rest empty_redis solo_profile"
  by (simp add: slots_at_rest_def)

lemma demo_no_session: "no_session empty_redis demo_vod_request" by code_simp

lemma lone_viewer_witness: "all_returned empty_redis ''s1'' (watch demo_vod_env empty_redis demo_vod_request 1 ClientGone)"
  using lone_viewer_returns_every_slot [of empty_redis demo_vod_request demo_vod_env 1 ClientGone] demo_at_rest demo_no_session
  by simp

lemma demo_two_requests:
  "case open_stream demo_vod_env empty_redis demo_vod_request of
     (r1, VodStreaming a) \<Rightarrow>
       fst (snd (choose_session demo_vod_env r1 demo_vod_request)) = ''s1'' \<and>
       (case open_stream demo_vod_env r1 demo_vod_request of (r2, VodStreaming b) \<Rightarrow> True | _ \<Rightarrow> False)
   | _ \<Rightarrow> False"
  by code_simp

lemma early_second_request_witness:
  "\<exists>r1 a r2 b r3 s r4 s'. open_stream demo_vod_env empty_redis demo_vod_request = (r1, VodStreaming a) \<and>
    open_stream demo_vod_env r1 demo_vod_request = (r2, VodStreaming b) \<and>
    end_stream demo_vod_env (start_stream demo_vod_env (start_stream demo_vod_env r2 a) b) a Completed = (r3, s) \<and>
    end_stream demo_vod_env r3 b Completed = (r4, s') \<and>
    slot_read (delayed_cleanup demo_vod_env r4 b) (profile_connections_key 21) = 1"
proof -
  obtain r1 a where A: "open_stream demo_vod_env empty_redis demo_vod_request = (r1, VodStreaming a)"
    and same: "fst (snd (choose_session demo_vod_env r1 demo_vod_request)) = ''s1''"
    and B': "case open_stream demo_vod_env r1 demo_vod_request of (r2, VodStreaming b) \<Rightarrow> True | _ \<Rightarrow> False"
    using demo_two_requests by (auto split: prod.splits vod_answer.splits)
  obtain r2 b where B: "open_stream demo_vod_env r1 demo_vod_request = (r2, VodStreaming b)"
    using B' by (auto split: prod.splits vod_answer.splits)
  obtain r1' client adopted where ch: "choose_session demo_vod_env r1 demo_vod_request = (r1', ''s1'', client, adopted)"
    using same by (metis fst_conv prod.collapse snd_conv)
  obtain r3 s where C: "end_stream demo_vod_env (start_stream demo_vod_env (start_stream demo_vod_env r2 a) b) a Completed = (r3, s)"
    by (rule prod.exhaust)
  obtain r4 s' where D: "end_stream demo_vod_env r3 b Completed = (r4, s')" by (rule prod.exhaust)
  have "counts_against (pb_libs (ve_play demo_vod_env)) (pb_db (ve_play demo_vod_env)) solo_profile (profile_connections_key 21)"
    by (simp add: counts_against_def)
  then have "slot_read (delayed_cleanup demo_vod_env r4 b) (profile_connections_key 21) = 1"
    using early_second_request_leaks_a_slot [OF demo_at_rest demo_no_session _ _ _ A _ B C D, of r1' client adopted
        "profile_connections_key 21"] ch by simp
  with A B C D show ?thesis by blast
qed

text \<open>An idle session of the first profile, whose only slot another viewer holds.\<close>

definition idle_state :: vod_state where
  "idle_state = new_vod_state demo_vod_env (demo_vod_request\<lparr>rq_profile := demo_profile\<rparr>) ''s0''"

lemma idle_live:
  assumes "\<not> rexists r (vod_connection_key ''s0'')" and "\<not> rexists r (vod_lock_key ''s0'')"
  shows "session_live (fst (create_connection r ''s0'' 0 idle_state)) ''s0'' 0 11"
proof -
  have "vs_profile idle_state = Some 11" "distinct (map fst (vs_headers idle_state))" "vs_active_streams idle_state = 0"
    using provider_headers_distinct by (simp_all add: idle_state_def new_vod_state_def)
  then show ?thesis using live_create(2) [OF assms, of idle_state 11 0] by simp
qed

definition one_taken :: redis where
  "one_taken = fst (create_connection (fst (check_and_reserve_profile_slot demo_vod_env empty_redis demo_profile)) ''s0'' 0 idle_state)"

lemma one_taken_facts:
  "session_live one_taken ''s0'' 0 11" "slot_wf one_taken" "slot_read one_taken (profile_connections_key j) = (if j = 11 then 1 else 0)"
proof -
  obtain r ok where res: "check_and_reserve_profile_slot demo_vod_env empty_redis demo_profile = (r, ok)" by (rule prod.exhaust)
  have "snd (check_and_reserve_profile_slot demo_vod_env empty_redis demo_profile)" by code_simp
  then have ok: ok by (simp add: res)
  have taken: "vod_taken demo_vod_env demo_profile empty_redis r"
    unfolding slot_taken_def using res [unfolded eqTrueI [OF ok]] same_slots_refl by blast
  have same: "same_slots r one_taken"
    by (simp add: one_taken_def res only_session_slots [OF only_session_create])
  show "session_live one_taken ''s0'' 0 11"
    unfolding one_taken_def res fst_conv by (rule idle_live) (simp_all add: rexists_def vod.grab_facts(3) [OF res] empty_redis_def)
  show "slot_wf one_taken" by (rule same_slots_wf [OF same vod.taken_wf [OF taken]]) simp
  show "slot_read one_taken (profile_connections_key j) = (if j = 11 then 1 else 0)"
    using same_slots_read(3) [OF same, of "profile_connections_key j"] vod.taken_profile_count [OF taken, of j] by simp
qed

lemma demo_adopts:
  "fst (snd (choose_session demo_vod_env one_taken demo_vod_request)) = ''s0''"
  "case open_stream demo_vod_env one_taken demo_vod_request of (r, VodStreaming tk) \<Rightarrow> True | _ \<Rightarrow> False"
  by code_simp+

lemma adopted_session_witness:
  "\<exists>t tk u s. open_stream demo_vod_env one_taken demo_vod_request = (t, VodStreaming tk) \<and>
    end_stream demo_vod_env (start_stream demo_vod_env t tk) tk Completed = (u, s) \<and>
    slot_read u (profile_connections_key 21) = 1 \<and> slot_read u (profile_connections_key 11) = 0"
proof -
  obtain t tk where op: "open_stream demo_vod_env one_taken demo_vod_request = (t, VodStreaming tk)"
    using demo_adopts(2) by (auto split: prod.splits vod_answer.splits)
  obtain r' client adopted where ch: "choose_session demo_vod_env one_taken demo_vod_request = (r', ''s0'', client, adopted)"
    using demo_adopts(1) by (metis fst_conv prod.collapse snd_conv)
  obtain u s where en: "end_stream demo_vod_env (start_stream demo_vod_env t tk) tk Completed = (u, s)" by (rule prod.exhaust)
  from adopted_session_credits_another_profile [OF one_taken_facts(2) _ one_taken_facts(1) _ _ _ ch op en] op en
  show ?thesis by (auto simp: one_taken_facts(3))
qed

end
