(* ===== verification/Chunk_Cache.thy ===== *)
theory Chunk_Cache
  imports Prelude
begin

section \<open>The chunk cache of large responses\<close>

text \<open>
  \<open>src/apps/output/streaming_chunk_cache.py\<close>: a guide or playlist is rendered once, by the
  request that takes the lock of its cache key, and every other request of the same key replays
  the chunks the leader appends to a Redis list. The four keys of one cache key are the record
  \<open>chunk_keys\<close>; a value carries the expiry its last write gave it. A request is a \<open>client\<close>: where
  it stands (\<open>phase\<close>, one for each Redis command, with the local variables that are live there)
  and the chunks it has sent, whose number is the \<open>offset\<close> of the code. \<open>client_step\<close> is one
  command of one request; \<open>cache_step\<close> interleaves the requests with the passing of time, clients
  that go away, expiring keys and \<open>invalidate_epg_chunk_cache\<close>. A generator runs nothing before
  its first chunk is asked for: \<open>Lead_Open\<close> and \<open>Follow_Open\<close> are generators not yet started.
\<close>

type_synonym 'a timed = "('a \<times> secs option) option"

datatype build_status = BUILDING | READY | FAILED

record chunk_keys =
  ck_chunks :: "string list timed"
  ck_status :: "build_status timed"
  ck_ready :: "unit timed"
  ck_lock :: "unit timed"

record cache_settings =
  cache_ttl :: secs
  lock_ttl :: int
  poll_interval :: secs
  max_follower_wait :: secs

definition default_cache_settings :: cache_settings where
  "default_cache_settings = \<lparr>cache_ttl = 300, lock_ttl = 120, poll_interval = 1 / 20, max_follower_wait = 600\<rparr>"

subsection \<open>Redis commands on the four keys\<close>

definition held :: "'a timed \<Rightarrow> 'a option" where
  "held v = map_option fst v"

definition expire_in :: "secs \<Rightarrow> 'a timed \<Rightarrow> 'a timed" where
  "expire_in ttl v = map_option (\<lambda>(x, _). (x, Some ttl)) v"

text \<open>\<open>RPUSH\<close> creates the list without an expiry and keeps the expiry it has; \<open>LINDEX\<close> past the
  end, or on an absent key, is \<open>nil\<close>.\<close>

definition push_chunk :: "string \<Rightarrow> string list timed \<Rightarrow> string list timed" where
  "push_chunk c v = (case v of None \<Rightarrow> Some ([c], None) | Some (xs, e) \<Rightarrow> Some (xs @ [c], e))"

definition cached :: "chunk_keys \<Rightarrow> string list" where
  "cached k = (case held (ck_chunks k) of None \<Rightarrow> [] | Some xs \<Rightarrow> xs)"

definition chunk_at :: "chunk_keys \<Rightarrow> nat \<Rightarrow> string option" where
  "chunk_at k n = (if n < length (cached k) then Some (cached k ! n) else None)"

definition get_status :: "chunk_keys \<Rightarrow> build_status option" where
  "get_status k = held (ck_status k)"

definition clear_build_keys :: "chunk_keys \<Rightarrow> chunk_keys" where
  "clear_build_keys k = k\<lparr>ck_chunks := None, ck_status := None, ck_ready := None, ck_lock := None\<rparr>"

definition try_acquire_lock :: "int \<Rightarrow> chunk_keys \<Rightarrow> chunk_keys \<times> bool" where
  "try_acquire_lock ttl k =
     (if ck_lock k = None then (k\<lparr>ck_lock := Some ((), Some (of_int ttl))\<rparr>, True) else (k, False))"

subsection \<open>One request\<close>

datatype outcome = Finished | Raised | Closed

text \<open>Arguments: the rest of the source and \<open>last_refresh\<close> for a leader (during a refresh the chunk
  in hand first); the deadline and \<open>idle_polls\<close> for a follower, and the status it read.\<close>

datatype phase =
    Check_Ready | Check_Status | Clear_Failed | Take_Lock
  | Replay
  | Lead_Open | Build_Reset | Build_Mark
  | Build_Next "string list" secs
  | Refresh_Lock string "string list" secs
  | Refresh_Status string "string list" secs
  | Refresh_Chunks string "string list" secs
  | Build_Paused "string list" secs
  | Publish_Ready | Expire_Chunks | Expire_Status | Expire_Ready
  | Fail_Drop | Fail_Mark
  | Unlock outcome
  | Follow_Open
  | Follow_Read secs int
  | Follow_Status secs int
  | Follow_Clear | Follow_Failed_Lock | Follow_Late_Lock
  | Follow_Alive "build_status option" secs int
  | Follow_Lost_Lock secs int
  | Ended outcome

record client =
  phase :: phase
  sent :: "string list"

definition arrived :: client where
  "arrived = \<lparr>phase = Check_Ready, sent = []\<rparr>"

text \<open>A run of \<open>source()\<close>: the chunks it yields and whether it raises after them.\<close>

type_synonym source_run = "string list \<times> bool"

definition refresh_interval :: "cache_settings \<Rightarrow> secs" where
  "refresh_interval S = of_int (max 1 (lock_ttl S div 4))"

definition idle_limit :: "cache_settings \<Rightarrow> int" where
  "idle_limit S = max 1 \<lfloor>1 / poll_interval S\<rfloor>"

text \<open>\<open>stream_cached_response\<close>, up to the choice of its generator.\<close>

definition respond_step :: "cache_settings \<Rightarrow> chunk_keys \<Rightarrow> phase \<Rightarrow> chunk_keys \<times> phase" where
  "respond_step S k p =
     (case p of
        Check_Ready \<Rightarrow> (k, if held (ck_ready k) \<noteq> None then Replay else Check_Status)
      | Check_Status \<Rightarrow> (k, if get_status k = Some FAILED then Clear_Failed else Take_Lock)
      | Clear_Failed \<Rightarrow> (clear_build_keys k, Take_Lock)
      | Take_Lock \<Rightarrow>
          (case try_acquire_lock (lock_ttl S) k of (k, won) \<Rightarrow> (k, if won then Lead_Open else Follow_Open))
      | _ \<Rightarrow> (k, p))"

text \<open>\<open>_stream_ready\<close>.\<close>

definition stream_ready_step :: "chunk_keys \<Rightarrow> client \<Rightarrow> client" where
  "stream_ready_step k c =
     (case chunk_at k (length (sent c)) of
        None \<Rightarrow> c\<lparr>phase := Ended Finished\<rparr>
      | Some x \<Rightarrow> c\<lparr>sent := sent c @ [x]\<rparr>)"

text \<open>\<open>_stream_build\<close>: \<open>pause\<close> is the \<open>yield\<close> of the chunk in hand.\<close>

definition pause :: "client \<Rightarrow> string \<Rightarrow> string list \<Rightarrow> secs \<Rightarrow> client" where
  "pause c x rest refreshed = c\<lparr>sent := sent c @ [x], phase := Build_Paused rest refreshed\<rparr>"

definition stream_build_step ::
    "cache_settings \<Rightarrow> source_run \<Rightarrow> secs \<Rightarrow> chunk_keys \<Rightarrow> client \<Rightarrow> chunk_keys \<times> client" where
  "stream_build_step S src now k c =
     (let ttl = of_int (lock_ttl S) in
      case phase c of
        Lead_Open \<Rightarrow> (k, c\<lparr>phase := Build_Reset\<rparr>)
      | Build_Reset \<Rightarrow> (k\<lparr>ck_chunks := None, ck_ready := None\<rparr>, c\<lparr>phase := Build_Mark\<rparr>)
      | Build_Mark \<Rightarrow> (k\<lparr>ck_status := Some (BUILDING, Some ttl)\<rparr>, c\<lparr>phase := Build_Next (fst src) 0\<rparr>)
      | Build_Paused rest refreshed \<Rightarrow> (k, c\<lparr>phase := Build_Next rest refreshed\<rparr>)
      | Build_Next (x # rest) refreshed \<Rightarrow>
          (k\<lparr>ck_chunks := push_chunk x (ck_chunks k)\<rparr>,
           if refresh_interval S \<le> now - refreshed then c\<lparr>phase := Refresh_Lock x rest now\<rparr>
           else pause c x rest refreshed)
      | Refresh_Lock x rest t \<Rightarrow> (k\<lparr>ck_lock := expire_in ttl (ck_lock k)\<rparr>, c\<lparr>phase := Refresh_Status x rest t\<rparr>)
      | Refresh_Status x rest t \<Rightarrow> (k\<lparr>ck_status := expire_in ttl (ck_status k)\<rparr>, c\<lparr>phase := Refresh_Chunks x rest t\<rparr>)
      | Refresh_Chunks x rest t \<Rightarrow> (k\<lparr>ck_chunks := expire_in ttl (ck_chunks k)\<rparr>, pause c x rest t)
      | Build_Next [] refreshed \<Rightarrow>
          if snd src then (k, c\<lparr>phase := Fail_Drop\<rparr>)
          else (k\<lparr>ck_status := Some (READY, None)\<rparr>, c\<lparr>phase := Publish_Ready\<rparr>)
      | Publish_Ready \<Rightarrow> (k\<lparr>ck_ready := Some ((), None)\<rparr>, c\<lparr>phase := Expire_Chunks\<rparr>)
      | Expire_Chunks \<Rightarrow> (k\<lparr>ck_chunks := expire_in (cache_ttl S) (ck_chunks k)\<rparr>, c\<lparr>phase := Expire_Status\<rparr>)
      | Expire_Status \<Rightarrow> (k\<lparr>ck_status := expire_in (cache_ttl S) (ck_status k)\<rparr>, c\<lparr>phase := Expire_Ready\<rparr>)
      | Expire_Ready \<Rightarrow> (k\<lparr>ck_ready := expire_in (cache_ttl S) (ck_ready k)\<rparr>, c\<lparr>phase := Unlock Finished\<rparr>)
      | Fail_Drop \<Rightarrow> (k\<lparr>ck_chunks := None\<rparr>, c\<lparr>phase := Fail_Mark\<rparr>)
      | Fail_Mark \<Rightarrow> (k\<lparr>ck_status := Some (FAILED, Some 60)\<rparr>, c\<lparr>phase := Unlock Raised\<rparr>)
      | Unlock end \<Rightarrow> (k\<lparr>ck_lock := None\<rparr>, c\<lparr>phase := Ended end\<rparr>)
      | _ \<Rightarrow> (k, c))"

text \<open>\<open>_stream_follow\<close>. A follower that becomes the leader has sent nothing; it goes on with
  \<open>_stream_build\<close> at once.\<close>

definition stream_follow_step ::
    "cache_settings \<Rightarrow> secs \<Rightarrow> chunk_keys \<Rightarrow> client \<Rightarrow> chunk_keys \<times> client" where
  "stream_follow_step S now k c =
     (let fresh = (sent c = []);
          lock_or = (\<lambda>p. case try_acquire_lock (lock_ttl S) k of (k, won) \<Rightarrow>
                       (k, c\<lparr>phase := if won then Build_Reset else p\<rparr>)) in
      case phase c of
        Follow_Open \<Rightarrow> (k, c\<lparr>phase := Follow_Read (now + max_follower_wait S) 0\<rparr>)
      | Follow_Read deadline idle \<Rightarrow>
          (case chunk_at k (length (sent c)) of
             Some x \<Rightarrow> (k, c\<lparr>sent := sent c @ [x], phase := Follow_Read deadline 0\<rparr>)
           | None \<Rightarrow> (k, c\<lparr>phase := Follow_Status deadline idle\<rparr>))
      | Follow_Status deadline idle \<Rightarrow>
          (k, c\<lparr>phase :=
             (case get_status k of
                Some READY \<Rightarrow> Ended Finished
              | Some FAILED \<Rightarrow> Follow_Clear
              | status \<Rightarrow>
                  if deadline \<le> now then (if fresh then Follow_Late_Lock else Ended Finished)
                  else Follow_Alive status deadline idle)\<rparr>)
      | Follow_Clear \<Rightarrow> (clear_build_keys k, c\<lparr>phase := if fresh then Follow_Failed_Lock else Ended Raised\<rparr>)
      | Follow_Failed_Lock \<Rightarrow> lock_or (Ended Raised)
      | Follow_Late_Lock \<Rightarrow> lock_or (Ended Finished)
      | Follow_Alive status deadline idle \<Rightarrow>
          (k, c\<lparr>phase :=
             (if status \<noteq> Some BUILDING \<and> held (ck_lock k) = None
              then if fresh \<and> idle_limit S \<le> idle + 1 then Follow_Lost_Lock deadline (idle + 1)
                   else Follow_Read deadline (idle + 1)
              else Follow_Read deadline 0)\<rparr>)
      | Follow_Lost_Lock deadline idle \<Rightarrow> lock_or (Follow_Read deadline idle)
      | _ \<Rightarrow> (k, c))"

fun builds :: "phase \<Rightarrow> bool" where
  "builds Build_Reset = True" | "builds Build_Mark = True" | "builds (Build_Next _ _) = True"
| "builds (Refresh_Lock _ _ _) = True" | "builds (Refresh_Status _ _ _) = True"
| "builds (Refresh_Chunks _ _ _) = True" | "builds (Build_Paused _ _) = True"
| "builds Publish_Ready = True" | "builds Expire_Chunks = True" | "builds Expire_Status = True"
| "builds Expire_Ready = True" | "builds Fail_Drop = True" | "builds Fail_Mark = True"
| "builds (Unlock _) = True" | "builds _ = False"

fun follows :: "phase \<Rightarrow> bool" where
  "follows Follow_Open = True" | "follows (Follow_Read _ _) = True" | "follows (Follow_Status _ _) = True"
| "follows Follow_Clear = True" | "follows Follow_Failed_Lock = True" | "follows Follow_Late_Lock = True"
| "follows (Follow_Alive _ _ _) = True" | "follows (Follow_Lost_Lock _ _) = True" | "follows _ = False"

definition client_step ::
    "cache_settings \<Rightarrow> source_run \<Rightarrow> secs \<Rightarrow> chunk_keys \<Rightarrow> client \<Rightarrow> chunk_keys \<times> client" where
  "client_step S src now k c =
     (if phase c = Replay then (k, stream_ready_step k c)
      else if phase c = Lead_Open \<or> builds (phase c) then stream_build_step S src now k c
      else if follows (phase c) then stream_follow_step S now k c
      else case respond_step S k (phase c) of (k, p) \<Rightarrow> (k, c\<lparr>phase := p\<rparr>))"

text \<open>The client goes away. A generator that waits at a \<open>yield\<close> is closed there: \<open>GeneratorExit\<close> is
  not an \<open>Exception\<close>, so a leader runs only its \<open>finally\<close>. One that never started runs nothing.\<close>

definition close_client :: "client \<Rightarrow> client" where
  "close_client c =
     (case phase c of
        Build_Paused _ _ \<Rightarrow> c\<lparr>phase := Unlock Closed\<rparr>
      | Lead_Open \<Rightarrow> c\<lparr>phase := Ended Closed\<rparr>
      | Follow_Open \<Rightarrow> c\<lparr>phase := Ended Closed\<rparr>
      | Follow_Read _ _ \<Rightarrow> c\<lparr>phase := Ended Closed\<rparr>
      | Replay \<Rightarrow> c\<lparr>phase := Ended Closed\<rparr>
      | _ \<Rightarrow> c)"

end
