(* ===== verification/Chunk_Properties.thy ===== *)
theory Chunk_Properties
  imports Chunk_Cache
begin

section \<open>The chunk cache: what its readers get\<close>

text \<open>
  \<open>cache_step\<close> interleaves any number of requests of one cache key. With \<open>calm\<close> no key expires
  under a leader and nobody invalidates the cache. While no build fails there is then one leader
  at a time and every client receives a beginning of the document (\<open>calm_inv\<close>). After a failed
  build two requests can both lead, and the cache publishes the document twice.
\<close>

subsection \<open>Interleavings\<close>

datatype cache_key = Chunks_Key | Status_Key | Ready_Key | Lock_Key

fun drop_key :: "cache_key \<Rightarrow> chunk_keys \<Rightarrow> chunk_keys" where
  "drop_key Chunks_Key k = k\<lparr>ck_chunks := None\<rparr>"
| "drop_key Status_Key k = k\<lparr>ck_status := None\<rparr>"
| "drop_key Ready_Key k = k\<lparr>ck_ready := None\<rparr>"
| "drop_key Lock_Key k = k\<lparr>ck_lock := None\<rparr>"

text \<open>\<open>invalidate_epg_chunk_cache\<close> deletes the keys its scan returns, one command for each.\<close>

definition invalidate_epg_chunk_cache :: "cache_key list \<Rightarrow> chunk_keys \<Rightarrow> chunk_keys" where
  "invalidate_epg_chunk_cache keys k = fold drop_key keys k"

definition has_expiry :: "'a timed \<Rightarrow> bool" where
  "has_expiry v = (case v of Some (_, Some _) \<Rightarrow> True | _ \<Rightarrow> False)"

fun can_expire :: "cache_key \<Rightarrow> chunk_keys \<Rightarrow> bool" where
  "can_expire Chunks_Key k = has_expiry (ck_chunks k)"
| "can_expire Status_Key k = has_expiry (ck_status k)"
| "can_expire Ready_Key k = has_expiry (ck_ready k)"
| "can_expire Lock_Key k = has_expiry (ck_lock k)"

definition leads :: "phase \<Rightarrow> bool" where
  "leads p \<longleftrightarrow> p = Lead_Open \<or> builds p"

type_synonym cache_world = "secs \<times> chunk_keys \<times> (nat \<Rightarrow> client)"

inductive cache_step :: "cache_settings \<Rightarrow> (nat \<Rightarrow> source_run) \<Rightarrow> bool \<Rightarrow> cache_world \<Rightarrow> cache_world \<Rightarrow> bool"
  for S src calm where
  turn [step_intros]: "client_step S (src i) t k (cl i) = (k', c) \<Longrightarrow>
    cache_step S src calm (t, k, cl) (t, k', cl(i := c))"
| goes_away [step_intros]: "cache_step S src calm (t, k, cl) (t, k, cl(i := close_client (cl i)))"
| time [step_intros]: "t \<le> t' \<Longrightarrow> cache_step S src calm (t, k, cl) (t', k, cl)"
| expiry [step_intros]: "can_expire key k \<Longrightarrow> calm \<longrightarrow> (\<forall>i. \<not> leads (phase (cl i))) \<Longrightarrow>
    cache_step S src calm (t, k, cl) (t, drop_key key k, cl)"
| invalidation [step_intros]: "\<not> calm \<Longrightarrow>
    cache_step S src calm (t, k, cl) (t, invalidate_epg_chunk_cache [key] k, cl)"

abbreviation cache_run :: "cache_settings \<Rightarrow> (nat \<Rightarrow> source_run) \<Rightarrow> bool \<Rightarrow> cache_world \<Rightarrow> cache_world \<Rightarrow> bool" where
  "cache_run S src calm \<equiv> (cache_step S src calm)\<^sup>*\<^sup>*"

lemmas client_defs = client_step_def respond_step_def stream_build_step_def stream_follow_step_def
  stream_ready_step_def pause_def try_acquire_lock_def clear_build_keys_def leads_def

subsection \<open>One leader, one document\<close>

text \<open>What a request knows, when every run of the source yields \<open>doc\<close> and none fails.\<close>

definition own :: "string list \<Rightarrow> string list \<Rightarrow> client \<Rightarrow> bool" where
  "own doc xs c \<longleftrightarrow> prefix (sent c) doc \<and>
     (case phase c of
        Build_Next rest _ \<Rightarrow> xs = sent c \<and> sent c @ rest = doc
      | Build_Paused rest _ \<Rightarrow> xs = sent c \<and> sent c @ rest = doc
      | Refresh_Lock x rest _ \<Rightarrow> xs = sent c @ [x] \<and> sent c @ x # rest = doc
      | Refresh_Status x rest _ \<Rightarrow> xs = sent c @ [x] \<and> sent c @ x # rest = doc
      | Refresh_Chunks x rest _ \<Rightarrow> xs = sent c @ [x] \<and> sent c @ x # rest = doc
      | Build_Mark \<Rightarrow> xs = [] \<and> sent c = []
      | Publish_Ready \<Rightarrow> xs = doc \<and> sent c = doc
      | Expire_Chunks \<Rightarrow> xs = doc \<and> sent c = doc
      | Expire_Status \<Rightarrow> xs = doc \<and> sent c = doc
      | Expire_Ready \<Rightarrow> xs = doc \<and> sent c = doc
      | Unlock end \<Rightarrow> end \<noteq> Raised \<and> (end = Finished \<longrightarrow> xs = doc \<and> sent c = doc)
      | Follow_Read _ _ \<Rightarrow> True | Follow_Status _ _ \<Rightarrow> True | Follow_Alive _ _ _ \<Rightarrow> True
      | Replay \<Rightarrow> True | Ended _ \<Rightarrow> True
      | Clear_Failed \<Rightarrow> False | Fail_Drop \<Rightarrow> False | Fail_Mark \<Rightarrow> False
      | Follow_Clear \<Rightarrow> False | Follow_Failed_Lock \<Rightarrow> False
      | _ \<Rightarrow> sent c = [])"

lemma cached_simps [simp]:
  "cached (k\<lparr>ck_chunks := None\<rparr>) = []"
  "cached (k\<lparr>ck_chunks := push_chunk x v\<rparr>) = cached (k\<lparr>ck_chunks := v\<rparr>) @ [x]"
  "cached (k\<lparr>ck_chunks := expire_in e v\<rparr>) = cached (k\<lparr>ck_chunks := v\<rparr>)"
  "cached (k\<lparr>ck_status := s\<rparr>) = cached k" "cached (k\<lparr>ck_ready := r\<rparr>) = cached k"
  "cached (k\<lparr>ck_lock := l\<rparr>) = cached k"
  by (auto simp: cached_def held_def push_chunk_def expire_in_def split: option.splits)

lemma held_expire_in [simp]: "held (expire_in e v) = held v"
  by (cases v) (auto simp: held_def expire_in_def)

lemma expire_in_None [simp]: "expire_in e v = None \<longleftrightarrow> v = None"
  by (simp add: expire_in_def)

lemma held_Some [simp]: "held (Some (x, e)) = Some x"
  by (simp add: held_def)

lemma status_simps [simp]:
  "get_status (k\<lparr>ck_chunks := v\<rparr>) = get_status k" "get_status (k\<lparr>ck_ready := r\<rparr>) = get_status k"
  "get_status (k\<lparr>ck_lock := l\<rparr>) = get_status k"
  "get_status (k\<lparr>ck_status := s\<rparr>) = held s" "get_status (k\<lparr>ck_status := expire_in e (ck_status k)\<rparr>) = get_status k"
  by (auto simp: get_status_def)

lemma cached_None [simp]: "k\<lparr>ck_chunks := ck_chunks k\<rparr> = k"
  by simp

lemma chunk_at_extends:
  assumes "chunk_at k (length (sent c)) = Some x" and "prefix (cached k) doc" and "prefix (sent c) doc"
  shows "prefix (sent c @ [x]) doc"
proof -
  obtain ys where ys: "doc = cached k @ ys" using assms(2) by (rule prefixE)
  obtain zs where zs: "doc = sent c @ zs" using assms(3) by (rule prefixE)
  have n: "length (sent c) < length (cached k)" and x: "x = cached k ! length (sent c)"
    using assms(1) by (auto simp: chunk_at_def split: if_splits)
  have "doc ! length (sent c) = x" using n x by (simp add: ys nth_append)
  moreover have "zs \<noteq> []" using n arg_cong [OF ys, of length] zs by auto
  ultimately show ?thesis using zs by (cases zs) auto
qed

lemma own_frame: "own doc xs c \<Longrightarrow> \<not> builds (phase c) \<Longrightarrow> own doc ys c"
  by (auto simp: own_def split: phase.splits)

lemma step_own:
  assumes st: "client_step S (doc, False) t k c = (k', c')" and ow: "own doc (cached k) c"
    and pf: "prefix (cached k) doc" and ok: "get_status k \<noteq> Some FAILED"
  shows "own doc (cached k') c'"
proof (cases "phase c")
  case (Build_Next rest r)
  then show ?thesis using st ow
    by (cases rest) (auto simp: client_defs own_def Let_def split: if_splits)
next
  case Replay
  then show ?thesis using st ow chunk_at_extends [OF _ pf]
    by (auto simp: client_defs own_def Let_def split: option.splits)
next
  case (Follow_Read d i)
  then show ?thesis using st ow chunk_at_extends [OF _ pf]
    by (auto simp: client_defs own_def Let_def split: option.splits)
next
  case (Follow_Status d i)
  then show ?thesis using st ow ok
    by (auto simp: client_defs own_def Let_def split: option.splits build_status.splits if_splits)
qed (use st ow ok in \<open>auto simp: client_defs own_def Let_def split: if_splits\<close>)

lemma step_keys:
  assumes st: "client_step S (doc, False) t k c = (k', c')" and ow: "own doc (cached k) c"
    and pf: "prefix (cached k) doc" and ok: "get_status k \<noteq> Some FAILED"
  shows "prefix (cached k') doc" and "get_status k' \<noteq> Some FAILED"
proof -
  have "prefix (cached k') doc \<and> get_status k' \<noteq> Some FAILED"
  proof (cases "phase c")
    case (Build_Next rest r)
    then show ?thesis using st ow ok
      by (cases rest) (auto simp: client_defs own_def Let_def split: if_splits)
  next
    case (Follow_Read d i)
    then show ?thesis using st pf ok by (auto simp: client_defs Let_def split: option.splits)
  qed (use st ow ok pf in \<open>auto simp: client_defs own_def Let_def get_status_def split: if_splits\<close>)
  then show "prefix (cached k') doc" and "get_status k' \<noteq> Some FAILED" by simp_all
qed

lemma step_foreign:
  assumes "client_step S src t k c = (k', c')" and "own doc (cached k) c" and "\<not> builds (phase c)"
  shows "cached k' = cached k \<and> (ck_lock k \<noteq> None \<longrightarrow> ck_lock k' = ck_lock k)"
  using assms
  by (cases "phase c")
    (auto simp: client_defs own_def Let_def split: if_splits option.splits)

lemma step_leads:
  assumes "client_step S src t k c = (k', c')" and "leads (phase c')" and "leads (phase c) \<longrightarrow> ck_lock k \<noteq> None"
  shows "ck_lock k' \<noteq> None \<and> (leads (phase c) \<or> ck_lock k = None)"
proof (cases "phase c")
  case (Build_Next rest r)
  then show ?thesis using assms
    by (cases rest) (auto simp: client_defs Let_def split: if_splits)
next
  case (Follow_Read d i)
  then show ?thesis using assms by (auto simp: client_defs Let_def split: option.splits)
next
  case (Follow_Status d i)
  then show ?thesis using assms
    by (auto simp: client_defs Let_def split: option.splits build_status.splits if_splits)
qed (use assms in \<open>auto simp: client_defs Let_def expire_in_def split: if_splits option.splits\<close>)

lemma close_facts:
  assumes "own doc xs c"
  shows "own doc xs (close_client c)" and "leads (phase (close_client c)) \<Longrightarrow> leads (phase c)"
  using assms by (auto simp: own_def close_client_def leads_def split: phase.splits)

fun calm_inv :: "string list \<Rightarrow> cache_world \<Rightarrow> bool" where
  "calm_inv doc (t, k, cl) \<longleftrightarrow>
     prefix (cached k) doc \<and> get_status k \<noteq> Some FAILED \<and> (\<forall>i. own doc (cached k) (cl i)) \<and>
     (\<forall>i. leads (phase (cl i)) \<longrightarrow> ck_lock k \<noteq> None) \<and>
     (\<forall>i j. leads (phase (cl i)) \<longrightarrow> leads (phase (cl j)) \<longrightarrow> i = j)"

lemma drop_key_facts:
  "prefix (cached k) doc \<Longrightarrow> prefix (cached (drop_key key k)) doc"
  "get_status k \<noteq> Some FAILED \<Longrightarrow> get_status (drop_key key k) \<noteq> Some FAILED"
  by (cases key; simp add: get_status_def held_def)+

lemma calm_inv_turn:
  assumes inv: "calm_inv doc (t, k, cl)" and st: "client_step S (doc, False) t k (cl i) = (k', c)"
  shows "calm_inv doc (t, k', cl(i := c))"
proof -
  have own: "own doc (cached k) (cl i)" and pf: "prefix (cached k) doc" and ok: "get_status k \<noteq> Some FAILED"
    and lock: "leads (phase (cl j)) \<Longrightarrow> ck_lock k \<noteq> None"
    and one: "leads (phase (cl i)) \<Longrightarrow> leads (phase (cl j)) \<Longrightarrow> i = j" for j
    using inv by auto
  have others: "own doc (cached k') (cl j) \<and> (leads (phase (cl j)) \<longrightarrow> ck_lock k' \<noteq> None \<and> \<not> leads (phase c))"
    if "j \<noteq> i" for j
  proof (cases "leads (phase (cl j))")
    case True
    then have "\<not> leads (phase (cl i))" using one that by blast
    then have "cached k' = cached k \<and> ck_lock k' = ck_lock k \<and> \<not> leads (phase c)"
      using step_foreign [OF st own] step_leads [OF st] lock [OF True] by (auto simp: leads_def)
    then show ?thesis using inv lock [OF True] by simp
  next
    case False
    then show ?thesis using inv own_frame [of doc "cached k" "cl j"] by (auto simp: leads_def)
  qed
  moreover have "own doc (cached k') c" by (rule step_own [OF st own pf ok])
  moreover have "leads (phase c) \<Longrightarrow> ck_lock k' \<noteq> None"
    using step_leads [OF st] lock by blast
  moreover have "j = l" if "leads (phase (cl j))" "leads (phase (cl l))" for j l
    using inv that by auto
  ultimately show ?thesis using step_keys [OF st own pf ok] by auto
qed

lemma calm_inv_step:
  assumes "cache_step S src True w w'" and "\<And>i. src i = (doc, False)" and "calm_inv doc w"
  shows "calm_inv doc w'"
  using assms
proof (cases rule: cache_step.cases)
  case (turn i t k cl k' c)
  have "client_step S (doc, False) t k (cl i) = (k', c)" using turn(3) by (simp only: assms(2))
  from calm_inv_turn [OF assms(3) [unfolded turn(1)] this] show ?thesis by (simp only: turn(2))
next
  case (goes_away t k cl i)
  then show ?thesis using assms(3) close_facts [of doc "cached k" "cl i"] by auto
next
  case (expiry key k cl t)
  have "own doc (cached (drop_key key k)) (cl i)" for i
    using assms(3) expiry(1,4) own_frame [of doc "cached k" "cl i"] by (simp add: leads_def)
  moreover have "\<not> leads (phase (cl i))" for i using expiry(4) by simp
  ultimately show ?thesis
    using assms(3) expiry(1,2) drop_key_facts by simp
qed auto

fun turns :: "cache_settings \<Rightarrow> (nat \<Rightarrow> source_run) \<Rightarrow> nat list \<Rightarrow> cache_world \<Rightarrow> cache_world" where
  "turns S src [] w = w"
| "turns S src (i # is) (t, k, cl) =
     (case client_step S (src i) t k (cl i) of (k', c) \<Rightarrow> turns S src is (t, k', cl(i := c)))"

lemma turns_run: "cache_run S src calm w (turns S src is w)"
proof (induction "is" arbitrary: w)
  case (Cons i js)
  obtain t k cl where w: "w = (t, k, cl)" by (cases w) auto
  obtain k' c where st: "client_step S (src i) t k (cl i) = (k', c)" by (rule prod.exhaust)
  have "cache_step S src calm w (t, k', cl(i := c))" unfolding w by (rule cache_step.turn [where i = i and cl = cl and src = src, OF st])
  then show ?case using Cons [of "(t, k', cl(i := c))"] by (simp add: w st converse_rtranclp_into_rtranclp)
qed simp

text \<open>C29. While no build fails, no key expires under a leader and nobody invalidates the cache: among
  any number of requests, which arrive, wait, leave and take over in any order, at most one renders
  the document at a time, every client receives a beginning of the document, and a request that
  publishes it has sent all of it and has put exactly it into the cache.\<close>

theorem one_leader_one_document:
  assumes src: "\<forall>i. src i = (doc, False)"
    and "prefix (cached k) doc" and "get_status k \<noteq> Some FAILED"
    and "cache_run S src True (t, k, \<lambda>_. arrived) (t', k', cl)"
  shows "(leads (phase (cl i)) \<and> leads (phase (cl j)) \<longrightarrow> i = j) \<and> prefix (sent (cl i)) doc \<and>
    (phase (cl i) = Unlock Finished \<longrightarrow> sent (cl i) = doc \<and> cached k' = doc)"
proof -
  have "calm_inv doc w" if "cache_run S src True (t, k, \<lambda>_. arrived) w" for w
    using that
  proof (induction rule: rtranclp_induct)
    case base
    then show ?case using assms(2,3) by (auto simp: own_def arrived_def leads_def)
  next
    case (step w w')
    then show ?case using calm_inv_step [OF step(2)] src by blast
  qed
  then have inv: "calm_inv doc (t', k', cl)" using assms(4) by blast
  then have "own doc (cached k') (cl i)" by simp
  then have "prefix (sent (cl i)) doc \<and> (phase (cl i) = Unlock Finished \<longrightarrow> sent (cl i) = doc \<and> cached k' = doc)"
    by (auto simp: own_def)
  moreover have "leads (phase (cl i)) \<and> leads (phase (cl j)) \<longrightarrow> i = j" using inv by simp
  ultimately show ?thesis by simp
qed

definition no_keys :: chunk_keys where
  "no_keys = \<lparr>ck_chunks = None, ck_status = None, ck_ready = None, ck_lock = None\<rparr>"

definition demo_turns :: "nat list" where
  "demo_turns = replicate 3 0 @ replicate 3 1 @ replicate 4 0 @ replicate 2 1 @ replicate 11 0"

definition demo_cache_end :: cache_world where
  "demo_cache_end = turns default_cache_settings (\<lambda>_. ([''one'', ''two''], False)) demo_turns (1000, no_keys, \<lambda>_. arrived)"

lemma demo_cache_clients:
  "(phase (snd (snd demo_cache_end) 0), sent (snd (snd demo_cache_end) 0), sent (snd (snd demo_cache_end) 1)) =
     (Unlock Finished, [''one'', ''two''], [''one''])"
  by code_simp


theorem one_leader_one_document_witness:
  "sent (snd (snd demo_cache_end) 0) = [''one'', ''two''] \<and>
   sent (snd (snd demo_cache_end) 1) = [''one''] \<and> prefix (sent (snd (snd demo_cache_end) 1)) [''one'', ''two'']"
proof -
  obtain t k cl where w: "demo_cache_end = (t, k, cl)" by (rule prod_cases3)
  have "cache_run default_cache_settings (\<lambda>_. ([''one'', ''two''], False)) True (1000, no_keys, \<lambda>_. arrived) (t, k, cl)"
    unfolding w [symmetric] demo_cache_end_def by (rule turns_run)
  from one_leader_one_document [OF _ _ _ this, of "[''one'', ''two'']" 0 0]
    one_leader_one_document [OF _ _ _ this, of "[''one'', ''two'']" 1 1]
  show ?thesis using demo_cache_clients by (simp add: w no_keys_def cached_def get_status_def held_def)
qed

subsection \<open>After a failed build\<close>

lemma push_one:
  assumes "phase (cl i) = Build_Next (x # rest) r"
  obtains k' cl' r' where "cache_run S src calm (t, k, cl) (t, k', cl')" and "phase (cl' i) = Build_Next rest r'"
    and "cached k' = cached k @ [x]" and "sent (cl' i) = sent (cl i) @ [x]" and "\<forall>j. j \<noteq> i \<longrightarrow> cl' j = cl j"
proof (cases "refresh_interval S \<le> t - r")
  case True
  obtain k' cl' where "turns S src [i, i, i, i, i] (t, k, cl) = (t, k', cl')" "phase (cl' i) = Build_Next rest t"
    "cached k' = cached k @ [x]" "sent (cl' i) = sent (cl i) @ [x]" "\<forall>j. j \<noteq> i \<longrightarrow> cl' j = cl j"
    using assms True by (simp add: client_defs Let_def)
  then show ?thesis using that [of k' cl' t] turns_run [of S src calm "(t, k, cl)" "[i, i, i, i, i]"] by simp
next
  case False
  obtain k' cl' where "turns S src [i, i] (t, k, cl) = (t, k', cl')" "phase (cl' i) = Build_Next rest r"
    "cached k' = cached k @ [x]" "sent (cl' i) = sent (cl i) @ [x]" "\<forall>j. j \<noteq> i \<longrightarrow> cl' j = cl j"
    using assms False by (simp add: client_defs Let_def)
  then show ?thesis using that [of k' cl' r] turns_run [of S src calm "(t, k, cl)" "[i, i]"] by simp
qed

lemma push_all:
  assumes "phase (cl i) = Build_Next xs r"
  shows "\<exists>k' cl' r'. cache_run S src calm (t, k, cl) (t, k', cl') \<and> phase (cl' i) = Build_Next [] r' \<and>
    cached k' = cached k @ xs \<and> sent (cl' i) = sent (cl i) @ xs \<and> (\<forall>j. j \<noteq> i \<longrightarrow> cl' j = cl j)"
  using assms
proof (induction xs arbitrary: k cl r)
  case (Cons x xs)
  obtain k1 cl1 r1 where 1: "cache_run S src calm (t, k, cl) (t, k1, cl1)" "phase (cl1 i) = Build_Next xs r1"
    "cached k1 = cached k @ [x]" "sent (cl1 i) = sent (cl i) @ [x]" "\<forall>j. j \<noteq> i \<longrightarrow> cl1 j = cl j"
    using push_one [where cl = cl and i = i, OF Cons.prems] by blast
  obtain k2 cl2 r2 where 2: "cache_run S src calm (t, k1, cl1) (t, k2, cl2)" "phase (cl2 i) = Build_Next [] r2"
    "cached k2 = cached k1 @ xs" "sent (cl2 i) = sent (cl1 i) @ xs" "\<forall>j. j \<noteq> i \<longrightarrow> cl2 j = cl1 j"
    using Cons.IH [of cl1, OF 1(2)] by blast
  show ?case
    by (rule exI [of _ k2], rule exI [of _ cl2], rule exI [of _ r2])
      (use 1 2 in \<open>auto intro: rtranclp_trans\<close>)
qed blast

text \<open>The follower looks for the next chunk and for the status in two commands: a leader that pushes
  its last chunk and publishes in between leaves that follower without the last chunk, and its
  response ends as if it were whole.\<close>

lemma follower_misses_last_chunk:
  assumes "i \<noteq> j" and "phase (cl i) = Follow_Read d n" and "sent (cl i) = cached k"
    and "phase (cl j) = Build_Next [x] r" and "t - r < refresh_interval S" and "\<not> snd (src j)"
  shows "\<exists>k' cl'. cache_run S src True (t, k, cl) (t, k', cl') \<and> phase (cl' i) = Ended Finished \<and>
    cached k' = sent (cl' i) @ [x]"
proof -
  have "chunk_at k (length (sent (cl i))) = None" using assms(3) by (simp add: chunk_at_def)
  then obtain k' cl' where "turns S src [i, j, j, j, i] (t, k, cl) = (t, k', cl')" "phase (cl' i) = Ended Finished"
    "cached k' = sent (cl' i) @ [x]"
    using assms by (simp add: client_defs Let_def)
  then show ?thesis using turns_run [of S src True "(t, k, cl)" "[i, j, j, j, i]"] by auto
qed

text \<open>An invalidation in the middle of a build deletes the chunks pushed so far; the leader goes on
  and publishes the rest as the whole document.\<close>

lemma invalidated_build_is_published_cut:
  assumes "phase (cl j) = Build_Next rest r" and "\<not> snd (src j)"
  shows "\<exists>k' cl'. cache_run S src False (t, k, cl) (t, k', cl') \<and> held (ck_ready k') = Some () \<and>
    get_status k' = Some READY \<and> cached k' = rest \<and> sent (cl' j) = sent (cl j) @ rest"
proof -
  have "cache_step S src False (t, k, cl) (t, drop_key Chunks_Key k, cl)"
    using invalidation [of False S src t k cl Chunks_Key] by (simp add: invalidate_epg_chunk_cache_def)
  then have 1: "cache_run S src False (t, k, cl) (t, drop_key Chunks_Key k, cl)" by blast
  obtain k2 cl2 r2 where 2: "cache_run S src False (t, drop_key Chunks_Key k, cl) (t, k2, cl2)"
    "phase (cl2 j) = Build_Next [] r2" "cached k2 = rest" "sent (cl2 j) = sent (cl j) @ rest"
    using push_all [where cl = cl and i = j and k = "drop_key Chunks_Key k", OF assms(1)] by fastforce
  obtain k3 cl3 where 3: "turns S src [j, j] (t, k2, cl2) = (t, k3, cl3)" "held (ck_ready k3) = Some ()"
    "get_status k3 = Some READY" "cached k3 = cached k2" "sent (cl3 j) = sent (cl2 j)"
    using 2(2) assms(2) by (simp add: client_defs Let_def)
  have "cache_run S src False (t, k2, cl2) (t, k3, cl3)"
    using turns_run [of S src False "(t, k2, cl2)" "[j, j]"] by (simp only: 3(1))
  then have "cache_run S src False (t, k, cl) (t, k3, cl3)"
    using 1 2(1) by (blast intro: rtranclp_trans)
  then show ?thesis using 2 3 by auto
qed

text \<open>After a failed build two requests can both lead: each reads the failed status, the first
  clears the keys and takes the lock, the second clears them again, the lock with them, and takes it
  too. Both append to the one list, and what is published as ready is the document twice.\<close>

theorem failed_build_is_led_twice:
  assumes "get_status k = Some FAILED" and "ck_ready k = None" and "i \<noteq> j"
    and "cl i = arrived" and "cl j = arrived" and "src i = (xs, False)" and "src j = (ys, False)"
  shows "\<exists>k' cl'. cache_run S src True (t, k, cl) (t, k', cl') \<and> held (ck_ready k') = Some () \<and>
    get_status k' = Some READY \<and> cached k' = xs @ ys \<and> sent (cl' i) = xs \<and> sent (cl' j) = ys"
proof -
  let ?is = "[i, j, i, j, i, i, j, j, i, i, i, j, j, j]"
  obtain k1 cl1 where 1: "turns S src ?is (t, k, cl) = (t, k1, cl1)" "phase (cl1 i) = Build_Next xs 0"
    "phase (cl1 j) = Build_Next ys 0" "sent (cl1 i) = []" "sent (cl1 j) = []" "cached k1 = []"
    using assms by (simp add: client_defs Let_def arrived_def held_def get_status_def)
  have run1: "cache_run S src True (t, k, cl) (t, k1, cl1)"
    using turns_run [of S src True "(t, k, cl)" ?is] by (simp only: 1(1))
  obtain k2 cl2 r2 where 2: "cache_run S src True (t, k1, cl1) (t, k2, cl2)" "phase (cl2 i) = Build_Next [] r2"
    "cached k2 = cached k1 @ xs" "sent (cl2 i) = sent (cl1 i) @ xs" "\<forall>l. l \<noteq> i \<longrightarrow> cl2 l = cl1 l"
    using push_all [where cl = cl1 and i = i, OF 1(2)] by blast
  have "phase (cl2 j) = Build_Next ys 0" using 1(3) 2(5) assms(3) by simp
  then obtain k3 cl3 r3 where 3: "cache_run S src True (t, k2, cl2) (t, k3, cl3)" "phase (cl3 j) = Build_Next [] r3"
    "cached k3 = cached k2 @ ys" "sent (cl3 j) = sent (cl2 j) @ ys" "\<forall>l. l \<noteq> j \<longrightarrow> cl3 l = cl2 l"
    using push_all [of cl2 j ys 0 S src True t k2] by blast
  obtain k4 cl4 where 4: "turns S src [j, j] (t, k3, cl3) = (t, k4, cl4)" "held (ck_ready k4) = Some ()"
    "get_status k4 = Some READY" "cached k4 = cached k3" "sent (cl4 i) = sent (cl3 i)" "sent (cl4 j) = sent (cl3 j)"
    using 3(2) assms(7) by (simp add: client_defs Let_def)
  have run4: "cache_run S src True (t, k3, cl3) (t, k4, cl4)"
    using turns_run [of S src True "(t, k3, cl3)" "[j, j]"] by (simp only: 4(1))
  have "cache_run S src True (t, k, cl) (t, k4, cl4)"
    using run1 2(1) 3(1) run4 by (blast intro: rtranclp_trans)
  then show ?thesis using 1 2 3 4 assms(3) by auto
qed

definition failed_keys :: chunk_keys where
  "failed_keys = no_keys\<lparr>ck_status := Some (FAILED, Some 60)\<rparr>"

theorem failed_build_witness:
  "\<exists>k' cl'. cache_run default_cache_settings (\<lambda>_. ([''one'', ''two''], False)) True (1000, failed_keys, \<lambda>_. arrived) (1000, k', cl') \<and>
    held (ck_ready k') = Some () \<and> cached k' = [''one'', ''two'', ''one'', ''two'']"
  using failed_build_is_led_twice [of failed_keys 0 1 "\<lambda>_. arrived" "\<lambda>_. ([''one'', ''two''], False)"
      "[''one'', ''two'']" "[''one'', ''two'']" default_cache_settings 1000]
  by (auto simp: failed_keys_def no_keys_def get_status_def)

end
