(* ===== verification/Catchup_Ranges.thy ===== *)
theory Catchup_Ranges
  imports Byte_Range
begin

section \<open>Byte ranges and lengths of catch-up playback (apps/timeshift/views.py)\<close>

text \<open>
  The catch-up proxy answers from an archive file of the provider. A client that seeks by asking for
  a later programme start is shown the rest of the file as if it were a file of its own, the
  \<^emph>\<open>presentation\<close>; its ranges are mapped into the archive and the provider's answers back. Headers
  are Latin-1 text. The code computes the offset of a seek with floating point; here it is exact.
  The wall clock times \<open>parse_catchup_timestamp\<close> reads are arguments, in seconds.
\<close>

subsection \<open>Parsing\<close>

definition parse_client_range :: "string option \<Rightarrow> (int \<times> int option) option" where
  "parse_client_range range_header =
     (case range_header of
        None \<Rightarrow> None
      | Some h \<Rightarrow>
          if \<not> starts_with ''bytes='' h then None
          else
            (case split_once (CHR ''-'') (drop 6 h) of
               None \<Rightarrow> None
             | Some (start_str, end_str) \<Rightarrow>
                 if \<not> all_digits start_str then None
                 else if end_str = [] then Some (num start_str, None)
                 else if \<not> all_digits end_str then None
                 else if num end_str < num start_str then None
                 else Some (num start_str, Some (num end_str))))"

definition parse_range_start :: "string option \<Rightarrow> int option" where
  "parse_range_start range_header = map_option fst (parse_client_range range_header)"

definition is_final_bytes_range :: "string option \<Rightarrow> bool" where
  "is_final_bytes_range range_header =
     (case range_header of
        None \<Rightarrow> False
      | Some h \<Rightarrow>
          starts_with ''bytes='' h \<and>
          (case drop 6 h of
             [] \<Rightarrow> False
           | c # n \<Rightarrow> c = CHR ''-'' \<and> all_digits n \<and> 0 < num n))"

definition parse_content_range_header :: "string option \<Rightarrow> (int \<times> int \<times> int option) option" where
  "parse_content_range_header content_range =
     (case content_range of
        None \<Rightarrow> None
      | Some h \<Rightarrow>
          if \<not> starts_with ''bytes '' h then None
          else
            (case rsplit_once (CHR ''/'') (drop 6 h) of
               None \<Rightarrow> None
             | Some (range_part, total_part) \<Rightarrow>
                 (case split_once (CHR ''-'') range_part of
                    None \<Rightarrow> None
                  | Some (start_str, end_str) \<Rightarrow>
                      if \<not> (all_digits start_str \<and> all_digits end_str) then None
                      else if total_part \<noteq> ''*'' \<and> \<not> all_digits total_part then None
                      else
                        let tot = (if total_part = ''*'' then None else Some (num total_part))
                        in if num end_str < num start_str \<or>
                              (case tot of Some t \<Rightarrow> t \<le> num end_str | None \<Rightarrow> False) then None
                           else Some (num start_str, num end_str, tot))))"

definition sanitized_content_length :: "string option \<Rightarrow> int option" where
  "sanitized_content_length value =
     (case value of
        None \<Rightarrow> None
      | Some text \<Rightarrow> if \<not> all_digits text then None else Some (num text))"

definition pool_int_field :: "string option \<Rightarrow> int option" where
  "pool_int_field value = (case value of None \<Rightarrow> None | Some s \<Rightarrow> if s = [] then None else parse_int s)"

record upstream_head =
  up_status :: int
  up_content_range :: "string option"
  up_content_length :: "string option"

definition nonzero :: "int option \<Rightarrow> int option" where
  "nonzero n = (if n = Some 0 then None else n)"

definition extract_representation_length :: "upstream_head \<Rightarrow> int option" where
  "extract_representation_length up =
     (case parse_content_range_header (up_content_range up) of
        Some (_, _, Some t) \<Rightarrow> Some t
      | _ \<Rightarrow> nonzero (sanitized_content_length (up_content_length up)))"

subsection \<open>The headers the client gets\<close>

text \<open>\<open>Accept-Ranges: bytes\<close> is always there.\<close>

record length_headers =
  lh_content_range :: "string option"
  lh_content_length :: "int option"

definition synthesized_range :: "string option \<Rightarrow> int \<Rightarrow> string option" where
  "synthesized_range range_header representation_length =
     (case parse_client_range range_header of
        None \<Rightarrow> None
      | Some (start, last') \<Rightarrow>
          let end' = (case last' of None \<Rightarrow> representation_length - 1
                                  | Some e \<Rightarrow> min e (representation_length - 1))
          in if start \<le> end' then Some (show_range start end' (Some representation_length)) else None)"

definition build_downstream_length_headers ::
    "string option \<Rightarrow> int \<Rightarrow> int option \<Rightarrow> string option \<Rightarrow> string option \<Rightarrow> bool \<Rightarrow> length_headers" where
  "build_downstream_length_headers range_header status_code representation_length
     upstream_content_range upstream_content_length streaming =
     (let parsed = parse_content_range_header upstream_content_range;
          asked = (range_header \<noteq> None \<and> range_header \<noteq> Some []);
          len = (case (representation_length, parsed) of (None, Some (_, _, t)) \<Rightarrow> t | (l, _) \<Rightarrow> l);
          len = (case len of
                   Some n \<Rightarrow> if n < 0 \<or> n = 0 \<and> streaming then None else Some n
                 | None \<Rightarrow> None);
          sanitized = sanitized_content_length upstream_content_length
      in if status_code = 206 then
           \<lparr>lh_content_range =
              (case parsed of
                 Some _ \<Rightarrow> upstream_content_range
               | None \<Rightarrow> if asked then Option.bind len (synthesized_range range_header) else None),
            lh_content_length =
              (case nonzero sanitized of
                 Some n \<Rightarrow> Some n
               | None \<Rightarrow> map_option (\<lambda>(start, end', _). end' - start + 1) parsed)\<rparr>
         else if streaming \<and> status_code = 200 \<and> \<not> asked then
           \<lparr>lh_content_range = None, lh_content_length = (if len \<noteq> None then len else nonzero sanitized)\<rparr>
         else if \<not> streaming then
           \<lparr>lh_content_range = None, lh_content_length = (if len \<noteq> None then len else sanitized)\<rparr>
         else \<lparr>lh_content_range = None, lh_content_length = None\<rparr>)"

subsection \<open>Probes, scrubs and restarts\<close>

definition EOF_PROBE_TAIL_BYTES :: int where
  "EOF_PROBE_TAIL_BYTES = 2097152"

definition EOF_PROBE_UNKNOWN_LENGTH_MIN :: int where
  "EOF_PROBE_UNKNOWN_LENGTH_MIN = 100000000"

definition is_near_eof_offset :: "int \<Rightarrow> int \<Rightarrow> bool" where
  "is_near_eof_offset start tot \<longleftrightarrow> EOF_PROBE_TAIL_BYTES < tot \<and> tot - EOF_PROBE_TAIL_BYTES \<le> start"

definition is_near_eof_probe :: "string option \<Rightarrow> string option \<Rightarrow> bool" where
  "is_near_eof_probe range_header content_length =
     (if is_final_bytes_range range_header then True
      else
        case parse_range_start range_header of
          None \<Rightarrow> False
        | Some start \<Rightarrow>
            (case Option.bind content_length parse_int of
               Some tot \<Rightarrow> is_near_eof_offset start tot
             | None \<Rightarrow> EOF_PROBE_UNKNOWN_LENGTH_MIN \<le> start))"

definition should_displace_busy_playback :: "string option \<Rightarrow> string option \<Rightarrow> string option \<Rightarrow> bool" where
  "should_displace_busy_playback range_header content_length busy_serving_range =
     (case parse_range_start range_header of
        None \<Rightarrow> False
      | Some start \<Rightarrow>
          if is_near_eof_probe range_header content_length then False
          else if start = 0 then busy_serving_range = Some ''none'' else True)"

definition should_displace_busy_pool ::
    "string option \<Rightarrow> string option \<Rightarrow> string option \<Rightarrow> string option \<Rightarrow> string \<Rightarrow> bool" where
  "should_displace_busy_pool range_header content_length busy_serving_range pool_media_id media_id =
     (if pool_media_id \<noteq> None \<and> pool_media_id \<noteq> Some media_id then False
      else should_displace_busy_playback range_header content_length busy_serving_range)"

definition is_full_restart_range :: "string option \<Rightarrow> bool" where
  "is_full_restart_range range_header =
     (if range_header = None \<or> range_header = Some [] then True
      else parse_client_range range_header = Some (0, None))"

definition should_preempt_plain_reconnect ::
    "string option \<Rightarrow> bool \<Rightarrow> bool \<Rightarrow> string option \<Rightarrow> string \<Rightarrow> bool" where
  "should_preempt_plain_reconnect range_header pool_exists pool_busy pool_media_id media_id =
     (is_full_restart_range range_header \<and> pool_exists \<and> pool_busy \<and>
      \<not> (pool_media_id \<noteq> None \<and> pool_media_id \<noteq> Some media_id))"

definition show_client_range :: "int \<Rightarrow> int option \<Rightarrow> string" where
  "show_client_range start last' =
     ''bytes='' @ show_int start @ ''-'' @ (case last' of None \<Rightarrow> [] | Some e \<Rightarrow> show_int e)"

definition cap_open_ended_range :: "string option \<Rightarrow> int option \<Rightarrow> string option" where
  "cap_open_ended_range range_header max_span_bytes =
     (case (parse_client_range range_header, max_span_bytes) of
        (Some (start, None), Some n) \<Rightarrow>
          if n \<le> 0 then range_header else Some (show_client_range start (Some (start + n - 1)))
      | _ \<Rightarrow> range_header)"

subsection \<open>The presentation\<close>

definition map_client_range_through_presentation :: "string option \<Rightarrow> int option \<Rightarrow> string option" where
  "map_client_range_through_presentation range_header presentation_byte_base =
     (case (presentation_byte_base, parse_client_range range_header) of
        (Some base, Some (start, last')) \<Rightarrow>
          Some (show_client_range (base + start) (map_option ((+) base) last'))
      | _ \<Rightarrow> range_header)"

definition presentation_relative_content_range :: "string option \<Rightarrow> int option \<Rightarrow> int option \<Rightarrow> string option" where
  "presentation_relative_content_range upstream_content_range presentation_byte_base presentation_length =
     (case (upstream_content_range, presentation_byte_base, presentation_length) of
        (Some h, Some base, Some len) \<Rightarrow>
          if h = [] then Some h
          else
            (case parse_content_range_header (Some h) of
               None \<Rightarrow> None
             | Some (start, end', _) \<Rightarrow>
                 if start - base < 0 \<or> len \<le> end' - base then None
                 else Some (show_range (start - base) (end' - base) (Some len)))
      | _ \<Rightarrow> upstream_content_range)"

record archive_scrub =
  sc_same :: bool
  sc_byte_offset :: int
  sc_remaining :: int

text \<open>\<open>_resolve_session_archive_scrub\<close> on the fields of the session's entry: the cached URL, the
  file_size and duration of the opened archive, and the two times, each absent when it does not parse.\<close>

definition resolve_session_archive_scrub ::
    "string option \<Rightarrow> int option \<Rightarrow> secs option \<Rightarrow> secs option \<Rightarrow> secs option \<Rightarrow> archive_scrub option" where
  "resolve_session_archive_scrub final_url content_length archive_duration_secs anchor requested =
     (case (final_url, content_length, archive_duration_secs, requested, anchor) of
        (Some url, Some file_size, Some duration, Some t, Some t0) \<Rightarrow>
          if url = [] \<or> file_size \<le> 0 \<or> duration \<le> 0 then None
          else if \<bar>t - t0\<bar> < 1 then Some \<lparr>sc_same = True, sc_byte_offset = 0, sc_remaining = file_size\<rparr>
          else if t - t0 < 0 \<or> duration \<le> t - t0 then None
          else
            let packet = (\<lfloor>((t - t0) / duration) * of_int file_size\<rfloor> div 188) * 188
            in if file_size - packet \<le> 0 then None
               else Some \<lparr>sc_same = False, sc_byte_offset = packet, sc_remaining = file_size - packet\<rparr>
      | _ \<Rightarrow> None)"

subsection \<open>Facts\<close>

lemma show_int_nonneg: "0 \<le> i \<Longrightarrow> show_int i = show_nat (nat i)"
  by (simp add: show_int_def)

lemma digits_show_int [simp]: "0 \<le> i \<Longrightarrow> all_digits (show_int i)"
  by (simp add: show_int_nonneg)

lemma num_show_int [simp]: "0 \<le> i \<Longrightarrow> num (show_int i) = i"
  by (simp add: show_int_nonneg num_def)

lemma minus_not_in_show_int [simp]: "0 \<le> i \<Longrightarrow> CHR ''-'' \<notin> set (show_int i)"
  using not_digit_in_show_nat [of "CHR ''-''"] by (simp add: show_int_nonneg is_digit_def)

lemma slash_not_in_show_int [simp]: "0 \<le> i \<Longrightarrow> CHR ''/'' \<notin> set (show_int i)"
  using not_digit_in_show_nat [of "CHR ''/''"] by (simp add: show_int_nonneg is_digit_def)

lemma show_int_not_Nil [simp]: "0 \<le> i \<Longrightarrow> show_int i \<noteq> []"
  by (simp add: show_int_nonneg)

lemma show_int_not_star [simp]: "0 \<le> i \<Longrightarrow> show_int i \<noteq> ''*''"
  using digits_show_int [of i] by (auto simp: all_digits_def is_digit_def)

lemma parse_shown_client_range [simp]:
  assumes "0 \<le> a" and "e = None \<or> a \<le> the e"
  shows "parse_client_range (Some (show_client_range a e)) = Some (a, e)"
proof (cases e)
  case None
  have "split_once (CHR ''-'') (show_int a @ CHR ''-'' # []) = Some (show_int a, [])"
    using assms(1) by (intro split_once_join) simp
  then show ?thesis using assms(1)
    by (simp add: None parse_client_range_def show_client_range_def starts_with_def)
next
  case (Some b)
  have b: "a \<le> b" using assms(2) by (simp add: Some)
  have "split_once (CHR ''-'') (show_int a @ CHR ''-'' # show_int b) = Some (show_int a, show_int b)"
    using assms(1) by (intro split_once_join) simp
  then show ?thesis using assms(1) b
    by (simp add: Some parse_client_range_def show_client_range_def starts_with_def)
qed

lemma parse_shown_content_range [simp]:
  assumes "0 \<le> a" and "a \<le> b" and "b < t"
  shows "parse_content_range_header (Some (show_range a b (Some t))) = Some (a, b, Some t)"
proof -
  have "split_once (CHR ''-'') (show_int a @ CHR ''-'' # show_int b) = Some (show_int a, show_int b)"
    using assms by (intro split_once_join) simp
  moreover have "rsplit_once (CHR ''/'') ((show_int a @ CHR ''-'' # show_int b) @ CHR ''/'' # show_int t) =
      Some (show_int a @ CHR ''-'' # show_int b, show_int t)"
    using assms by (intro rsplit_once_join) simp
  ultimately show ?thesis using assms
    by (simp add: parse_content_range_header_def show_range_def starts_with_def)
qed

lemma parsed_client_range_bounds:
  assumes "parse_client_range h = Some (a, e)"
  shows "0 \<le> a" and "e = Some b \<Longrightarrow> a \<le> b"
  using assms by (auto simp: parse_client_range_def split: option.splits prod.splits if_splits)

lemma parsed_content_range_bounds:
  assumes "parse_content_range_header h = Some (a, b, t)"
  shows "0 \<le> a" and "a \<le> b" and "t = Some n \<Longrightarrow> b < n"
  using assms
  by (auto simp: parse_content_range_header_def Let_def split: option.splits prod.splits if_splits)

text \<open>A seek inside the opened archive lands on a packet of it, at or before the asked time, and the
  later the time the later the packet.\<close>

lemma scrub_bounds:
  assumes "resolve_session_archive_scrub url (Some file_size) (Some duration) (Some t0) (Some t) = Some s"
  shows "0 \<le> sc_byte_offset s" and "188 dvd sc_byte_offset s" and "sc_byte_offset s < file_size"
    and "sc_byte_offset s + sc_remaining s = file_size"
    and "\<not> sc_same s \<Longrightarrow> of_int (sc_byte_offset s) * duration \<le> (t - t0) * of_int file_size"
proof -
  let ?x = "((t - t0) / duration) * of_int file_size"
  let ?p = "(\<lfloor>?x\<rfloor> div 188) * 188"
  have "(sc_same s \<and> s = \<lparr>sc_same = True, sc_byte_offset = 0, sc_remaining = file_size\<rparr> \<and> 0 < file_size) \<or>
    (0 < duration \<and> 0 < file_size \<and> 0 \<le> t - t0 \<and> 0 < file_size - ?p \<and>
      s = \<lparr>sc_same = False, sc_byte_offset = ?p, sc_remaining = file_size - ?p\<rparr>)"
    using assms by (auto simp: resolve_session_archive_scrub_def Let_def split: option.splits if_splits)
  then consider (same) "s = \<lparr>sc_same = True, sc_byte_offset = 0, sc_remaining = file_size\<rparr>" "0 < file_size"
    | (scrub) "0 < duration" "0 < file_size" "0 \<le> t - t0" "0 < file_size - ?p"
      "s = \<lparr>sc_same = False, sc_byte_offset = ?p, sc_remaining = file_size - ?p\<rparr>"
    by blast
  then have "0 \<le> sc_byte_offset s \<and> 188 dvd sc_byte_offset s \<and> sc_byte_offset s < file_size \<and>
    sc_byte_offset s + sc_remaining s = file_size \<and>
    (\<not> sc_same s \<longrightarrow> of_int (sc_byte_offset s) * duration \<le> (t - t0) * of_int file_size)"
  proof cases
    case scrub
    have "0 \<le> ?x" using scrub(1-3) by (simp add: divide_nonneg_pos)
    then have p: "0 \<le> ?p" "?p \<le> \<lfloor>?x\<rfloor>"
      by (simp_all add: pos_imp_zdiv_nonneg_iff)
    have "of_int ?p \<le> ?x" using p(2) by (simp only: le_floor_iff)
    then have "of_int ?p * duration \<le> ?x * duration" using scrub(1) by (intro mult_right_mono) simp_all
    also have "?x * duration = (t - t0) * of_int file_size" using scrub(1) by simp
    finally show ?thesis using scrub p by simp
  qed simp
  then show "0 \<le> sc_byte_offset s" and "188 dvd sc_byte_offset s" and "sc_byte_offset s < file_size"
    and "sc_byte_offset s + sc_remaining s = file_size"
    and "\<not> sc_same s \<Longrightarrow> of_int (sc_byte_offset s) * duration \<le> (t - t0) * of_int file_size"
    by simp_all
qed

text \<open>The last byte a range with the given end selects of a file.\<close>

definition last_selected :: "int option \<Rightarrow> int \<Rightarrow> int" where
  "last_selected e len = (case e of None \<Rightarrow> len - 1 | Some b \<Rightarrow> min b (len - 1))"

text \<open>C39. What a client asks of a presentation is what it is told it gets. A range it asks for, closed or
  open-ended (\<open>bytes=a-\<close>), is sent into the archive moved by the base; and the provider's answer for what
  that range selects comes back as the range the client asked for, cut at the presentation's end, in a file of the
  presentation's length. The length header is the length of that range when the provider sends no length of
  its own. The range starts inside the presentation; where it is open-ended or ends beyond the presentation, the
  presentation is the rest of the archive, as a seek makes it, and otherwise it may end earlier.\<close>

theorem presentation_range_round_trip:
  assumes "0 \<le> base" and "0 \<le> a" and "a < len" and "base + len \<le> archive"
    and "case e of None \<Rightarrow> base + len = archive | Some b \<Rightarrow> a \<le> b \<and> (b < len \<or> base + len = archive)"
  shows "let sent = map_client_range_through_presentation (Some (show_client_range a e)) (Some base);
             last_byte = last_selected (map_option ((+) base) e) archive;
             told = presentation_relative_content_range (Some (show_range (base + a) last_byte (Some archive)))
                      (Some base) (Some len);
             headers = build_downstream_length_headers range_header 206 (Some len) told None True
         in parse_client_range sent = Some (base + a, map_option ((+) base) e) \<and>
            told = Some (show_range a (last_selected e len) (Some len)) \<and>
            headers = \<lparr>lh_content_range = Some (show_range a (last_selected e len) (Some len)),
                       lh_content_length = Some (last_selected e len - a + 1)\<rparr>"
proof -
  let ?b = "last_selected e len"
  have last: "last_selected (map_option ((+) base) e) archive = base + ?b" "a \<le> ?b" "?b < len"
    using assms by (auto simp: last_selected_def min_def split: option.splits)
  have told: "presentation_relative_content_range (Some (show_range (base + a) (base + ?b) (Some archive)))
      (Some base) (Some len) = Some (show_range a ?b (Some len))"
    using assms(1-4) last(2,3) by (simp add: presentation_relative_content_range_def) (simp add: show_range_def)
  have sent: "map_client_range_through_presentation (Some (show_client_range a e)) (Some base) =
      Some (show_client_range (base + a) (map_option ((+) base) e))"
    using assms by (cases e) (simp_all add: map_client_range_through_presentation_def)
  show ?thesis
    using assms last(2,3) unfolding Let_def last(1) told sent
    by (cases e) (simp_all add: build_downstream_length_headers_def Let_def nonzero_def sanitized_content_length_def)
qed

theorem presentation_range_witness:
  "presentation_relative_content_range
     (Some (show_range (1880 + 100) 9999 (Some 10000))) (Some 1880) (Some 8120) = Some (show_range 100 8119 (Some 8120))"
  using presentation_range_round_trip [of 1880 100 8120 10000 None] by (simp add: Let_def last_selected_def)

lemma synthesized_is_a_range:
  assumes "synthesized_range h l = Some r"
  shows "\<exists>a b. parse_content_range_header (Some r) = Some (a, b, Some l)"
proof -
  obtain a e where p: "parse_client_range h = Some (a, e)" using assms by (auto simp: synthesized_range_def split: option.splits)
  let ?b = "case e of None \<Rightarrow> l - 1 | Some e \<Rightarrow> min e (l - 1)"
  have "a \<le> ?b" and r: "r = show_range a ?b (Some l)"
    using assms p by (auto simp: synthesized_range_def Let_def split: if_splits)
  moreover have "?b < l" by (auto split: option.splits)
  ultimately show ?thesis using parsed_client_range_bounds(1) [OF p] by auto
qed

text \<open>A stream never announces a length that is not there: whatever lengths and ranges the
  provider sends and whatever sizes the session has cached, a length header of a streamed response
  is at least one byte, and a range header is sent only with a 206 and names a range with a first
  byte, a last byte not before it and, when a file_size is given, inside that file_size.\<close>

theorem streamed_length_headers_are_sound:
  assumes "build_downstream_length_headers range_header status rep ucr ucl True = h"
  shows "(lh_content_length h \<noteq> None \<longrightarrow> 0 < the (lh_content_length h)) \<and>
    (lh_content_range h \<noteq> None \<longrightarrow> status = 206 \<and>
       (\<exists>start end' t. parse_content_range_header (lh_content_range h) = Some (start, end', t) \<and>
          0 \<le> start \<and> start \<le> end' \<and> (t \<noteq> None \<longrightarrow> end' < the t)))"
proof -
  have ok: "0 < n" if "nonzero (sanitized_content_length ucl) = Some n" for n
    using that by (auto simp: nonzero_def sanitized_content_length_def order_less_le split: option.splits if_splits)
  have "0 < n" if "lh_content_length h = Some n" for n
    using that assms ok parsed_content_range_bounds(2) [of ucr]
    by (fastforce simp: build_downstream_length_headers_def Let_def split: if_splits option.splits prod.splits)
  moreover have "status = 206 \<and> (\<exists>start end' t. parse_content_range_header (Some r) = Some (start, end', t))"
    if "lh_content_range h = Some r" for r
  proof -
    have "status = 206 \<and> (parse_content_range_header ucr \<noteq> None \<and> ucr = Some r \<or> (\<exists>l. synthesized_range range_header l = Some r))"
      using that assms
      by (auto simp: build_downstream_length_headers_def Let_def bind_eq_Some_conv split: if_splits option.splits)
    then show ?thesis using synthesized_is_a_range [of range_header _ r] by (auto simp del: not_None_eq) (metis not_None_eq surj_pair)+
  qed
  moreover have "0 \<le> start \<and> start \<le> end' \<and> (t \<noteq> None \<longrightarrow> end' < the t)"
    if "parse_content_range_header x = Some (start, end', t)" for x start end' t
    using parsed_content_range_bounds [OF that] by (cases t) auto
  ultimately show ?thesis by (cases "lh_content_length h"; cases "lh_content_range h") (fastforce+)
qed

lemma demo_length_headers:
  "build_downstream_length_headers (Some ''bytes=5-'') 206 (Some 0) (Some ''bytes 5-9/10'') (Some ''-1'') True =
     \<lparr>lh_content_range = Some ''bytes 5-9/10'', lh_content_length = Some 5\<rparr>"
  by code_simp

theorem streamed_length_headers_witness:
  "0 < (5 :: int) \<and>
   (\<exists>start end' t. parse_content_range_header (Some ''bytes 5-9/10'') = Some (start, end', t) \<and> start \<le> end')"
  using streamed_length_headers_are_sound [OF demo_length_headers] by auto

end
