(* ===== verification/Catchup_Pool.thy ===== *)
theory Catchup_Pool
  imports VOD_Sessions Catchup_Ranges
begin

section \<open>The provider pool of catch-up playback (apps/timeshift/views.py)\<close>

text \<open>
  A catch-up viewer streams through a pool entry, one Redis hash for each session: the profile whose
  slot the session holds, whether it is busy, the programme and the opened archive. This theory has
  the operations on the entry, the signals that stop a displaced stream, and the walk over a
  channel's archive streams. The entry lock is \<open>redis.lock.Lock\<close>: \<open>pe_locked\<close> says whether a request
  gets it in time, and a function that does not takes the branch of its exception. Failing Redis
  commands and a missing client are not modelled. One operation reads the clock once.
\<close>

definition POOL_ENTRY_TTL :: int where "POOL_ENTRY_TTL = 600"
definition POOL_IDLE_TTL :: int where "POOL_IDLE_TTL = 60"
definition MATCH_SCORE_THRESHOLD :: nat where "MATCH_SCORE_THRESHOLD = 8"

record pool_env =
  pe_libs :: libs
  pe_db :: database
  pe_now :: rat
  pe_worker :: string
  pe_locked :: bool

subsection \<open>Fields of an entry\<close>

definition ts_busy :: "rhash \<Rightarrow> bool" where
  "ts_busy h \<longleftrightarrow> map_of h ''busy'' = Some (RInt 1)"

definition pool_entry :: "redis \<Rightarrow> string \<Rightarrow> rhash" where
  "pool_entry r sid = (if sid = [] then [] else rhgetall r (ts_pool_key sid))"

definition rhdel :: "redis \<Rightarrow> string \<Rightarrow> string list \<Rightarrow> redis" where
  "rhdel r k names =
     (case map_of (objs r) k of
        Some (RHash h) \<Rightarrow>
          (case filter (\<lambda>(f, _). f \<notin> set names) h of
             [] \<Rightarrow> rdel r k
           | h' \<Rightarrow> r\<lparr>objs := dict_set (objs r) k (RHash h')\<rparr>)
      | _ \<Rightarrow> r)"

text \<open>An entry without a profile is unclaimed; one without an owner is nobody's.\<close>

definition pool_entry_owned_by_user :: "rhash \<Rightarrow> int \<Rightarrow> bool" where
  "pool_entry_owned_by_user h user =
     (if h = [] \<or> \<not> truthy (map_of h ''profile_id'') then True
      else
        let owner = reply_text (map_of h ''user_id'')
        in if owner = [] then False else owner = show_int user)"

definition score_pool_fingerprint :: "rhash \<Rightarrow> string \<Rightarrow> string \<Rightarrow> nat" where
  "score_pool_fingerprint h client_ip client_user_agent =
     (let same = (\<lambda>f v. reply_text (map_of h f) \<noteq> [] \<and> reply_text (map_of h f) = v) in
      (if same ''client_ip'' client_ip then 5 else 0)
      + (if same ''client_user_agent'' client_user_agent then 3 else 0))"

subsection \<open>Finding the viewer's session\<close>

record pool_query =
  pq_media :: string
  pq_channel :: "int option"
  pq_user :: int
  pq_ip :: string
  pq_agent :: string
  pq_include_busy :: bool
  pq_fresh :: bool

type_synonym pool_match = "string \<times> nat \<times> rat \<times> bool"

definition media_match :: "pool_query \<Rightarrow> string \<Rightarrow> bool option" where
  "media_match q stored =
     (if stored = pq_media q then Some True
      else (case pq_channel q of
              Some c \<Rightarrow> if starts_with (show_int c @ ''_'') stored then Some False else None
            | None \<Rightarrow> None))"

definition session_of_key :: "string \<Rightarrow> string" where
  "session_of_key key = (case rsplit_once (CHR '':'') key of Some (_, s) \<Rightarrow> s | None \<Rightarrow> key)"

definition pool_candidate :: "redis \<Rightarrow> pool_query \<Rightarrow> string \<Rightarrow> pool_match option" where
  "pool_candidate r q key =
     (let h = rhgetall r key in
      if h = [] then None
      else if \<not> pq_include_busy q \<and> ts_busy h then None
      else if reply_text (map_of h ''user_id'') \<noteq> show_int (pq_user q) then None
      else
        (case media_match q (reply_text (map_of h ''media_id'')) of
           None \<Rightarrow> None
         | Some exact \<Rightarrow>
             if pq_fresh q \<and> exact \<and> \<not> ts_busy h then None
             else
               let score = score_pool_fingerprint h (pq_ip q) (pq_agent q) in
               if score < MATCH_SCORE_THRESHOLD then None
               else map_option (\<lambda>t. (session_of_key key, score, t, exact))
                      (if truthy (map_of h ''last_activity'') then py_float (map_of h ''last_activity'') else Some 0)))"

text \<open>The order of the sort: an exact programme, then the score, then the activity; of equal ones
  the first stays first.\<close>

definition better_match :: "pool_match \<Rightarrow> pool_match \<Rightarrow> bool" where
  "better_match a b =
     (case (a, b) of ((_, s, t, e), (_, s', t', e')) \<Rightarrow>
        (e \<and> \<not> e') \<or> (e = e' \<and> (s' < s \<or> (s = s' \<and> t' < t))))"

fun best_pool_match :: "pool_match list \<Rightarrow> pool_match option" where
  "best_pool_match [] = None"
| "best_pool_match (m # ms) =
     (case best_pool_match ms of
        Some n \<Rightarrow> if better_match n m then Some n else Some m
      | None \<Rightarrow> Some m)"

definition find_matching_pool_session :: "redis \<Rightarrow> pool_query \<Rightarrow> string option" where
  "find_matching_pool_session r q =
     map_option fst (best_pool_match (List.map_filter (pool_candidate r q) (scan_keys r ''timeshift:pool:'')))"

record pool_view =
  pv_entry :: rhash
  pv_busy :: bool
  pv_serving_range :: "string option"
  pv_content_length :: "string option"

definition text_or_none :: "rhash \<Rightarrow> string \<Rightarrow> string option" where
  "text_or_none h f = map_option (\<lambda>v. reply_text (Some v)) (map_of h f)"

definition snapshot_from_entry :: "rhash \<Rightarrow> pool_view option" where
  "snapshot_from_entry h =
     (if h = [] then None
      else Some \<lparr>pv_entry = h, pv_busy = ts_busy h,
             pv_serving_range =
               (if ts_busy h
                then Some (if reply_text (map_of h ''serving_range'') = [] then ''none''
                           else reply_text (map_of h ''serving_range''))
                else None),
             pv_content_length = text_or_none h ''content_length''\<rparr>)"

definition pool_snapshot :: "redis \<Rightarrow> string \<Rightarrow> pool_view option" where
  "pool_snapshot r sid = snapshot_from_entry (pool_entry r sid)"

subsection \<open>What an entry remembers of the opened archive\<close>

definition pool_put :: "redis \<Rightarrow> string \<Rightarrow> rhash \<Rightarrow> redis" where
  "pool_put r sid h = (if sid = [] then r else rhset_all r (ts_pool_key sid) h)"

definition store_pool_serving_range :: "redis \<Rightarrow> string \<Rightarrow> string option \<Rightarrow> redis" where
  "store_pool_serving_range r sid range_header =
     pool_put r sid
       [(''serving_range'',
         RText (if range_header = None \<or> range_header = Some [] then ''none''
                else if parse_range_start range_header = Some 0 then ''start'' else ''range''))]"

definition archive_fields :: "string list" where
  "archive_fields = [''content_length'', ''serving_range'', ''final_url'', ''archive_anchor_ts'',
     ''archive_duration_secs'', ''presentation_length'', ''presentation_byte_base'']"

definition update_pool_position :: "pool_env \<Rightarrow> redis \<Rightarrow> string \<Rightarrow> string \<Rightarrow> string \<Rightarrow> bool \<Rightarrow> redis" where
  "update_pool_position E r sid media prov_ts keep_archive =
     (let h = pool_entry r sid in
      if sid = [] \<or> \<not> pe_locked E \<or> h = [] then r
      else
        let moved = (text_or_none h ''media_id'' \<noteq> Some media);
            r = pool_put r sid [(''media_id'', stored_text media), (''provider_timestamp'', stored_text prov_ts)]
        in if moved \<and> \<not> keep_archive then rhdel r (ts_pool_key sid) archive_fields else r)"

definition store_pool_content_length :: "redis \<Rightarrow> string \<Rightarrow> upstream_head \<Rightarrow> redis" where
  "store_pool_content_length r sid up =
     (case extract_representation_length up of
        None \<Rightarrow> r
      | Some n \<Rightarrow> pool_put r sid [(''content_length'', RInt n)])"

definition store_pool_final_url :: "redis \<Rightarrow> string \<Rightarrow> string \<Rightarrow> redis" where
  "store_pool_final_url r sid final_url =
     (if final_url = [] then r else pool_put r sid [(''final_url'', stored_text final_url)])"

definition store_pool_provider_user_agent :: "redis \<Rightarrow> string \<Rightarrow> string \<Rightarrow> redis" where
  "store_pool_provider_user_agent r sid user_agent =
     (if sid = [] \<or> \<not> rexists r (ts_pool_key sid) then r
      else pool_put r sid [(''provider_user_agent'', stored_text user_agent)])"

definition clear_pool_final_url :: "redis \<Rightarrow> string \<Rightarrow> redis" where
  "clear_pool_final_url r sid = (if sid = [] then r else rhdel r (ts_pool_key sid) [''final_url''])"

definition store_pool_presentation_window :: "redis \<Rightarrow> string \<Rightarrow> int \<Rightarrow> int \<Rightarrow> redis" where
  "store_pool_presentation_window r sid len byte_base =
     pool_put r sid [(''presentation_length'', RInt len), (''presentation_byte_base'', RInt byte_base)]"

definition ensure_pool_archive_anchor :: "redis \<Rightarrow> string \<Rightarrow> string \<Rightarrow> int \<Rightarrow> bool \<Rightarrow> redis" where
  "ensure_pool_archive_anchor r sid timestamp duration_minutes force =
     (if timestamp = [] \<or> (\<not> force \<and> truthy (map_of (pool_entry r sid) ''archive_anchor_ts'')) then r
      else pool_put r sid [(''archive_anchor_ts'', stored_text timestamp),
                           (''archive_duration_secs'', RInt (max (duration_minutes * 60) 60))])"

subsection \<open>Taking and leaving the entry\<close>

definition find_profile :: "pool_env \<Rightarrow> int \<Rightarrow> m3u_profile option" where
  "find_profile E i = find (\<lambda>p. prof_id p = i) (db_profiles (pe_db E))"

definition pool_reserve :: "pool_env \<Rightarrow> redis \<Rightarrow> m3u_profile \<Rightarrow> redis \<times> bool" where
  "pool_reserve E r p = (case reserve_profile_slot (pe_libs E) (pe_db E) r p of (r, ok, _) \<Rightarrow> (r, ok))"

definition mark_busy :: "pool_env \<Rightarrow> redis \<Rightarrow> string \<Rightarrow> redis" where
  "mark_busy E r sid =
     rexpire (rhset_all r (ts_pool_key sid)
         [(''busy'', RInt 1), (''last_activity'', RDec (pe_now E)), (''worker_id'', stored_text (pe_worker E))])
       (ts_pool_key sid) POOL_ENTRY_TTL"

definition acquire_idle_pool_session ::
    "pool_env \<Rightarrow> redis \<Rightarrow> string \<Rightarrow> int option \<Rightarrow> bool \<Rightarrow> redis \<times> (rhash \<times> m3u_profile) option" where
  "acquire_idle_pool_session E r sid user handoff =
     (let h = pool_entry r sid in
      if sid = [] \<or> \<not> pe_locked E then (r, None)
      else if h = [] \<or> \<not> truthy (map_of h ''profile_id'') then (r, None)
      else if (case user of Some u \<Rightarrow> \<not> pool_entry_owned_by_user h u | None \<Rightarrow> False) then (r, None)
      else if ts_busy h \<and> \<not> handoff then (r, None)
      else
        (case py_int (map_of h ''profile_id'') of
           None \<Rightarrow> (r, None)
         | Some i \<Rightarrow>
             (case find_profile E i of
                None \<Rightarrow> (rdel r (ts_pool_key sid), None)
              | Some p \<Rightarrow>
                  (case (if handoff then (r, True) else pool_reserve E r p) of
                     (r, False) \<Rightarrow> (r, None)
                   | (r, True) \<Rightarrow> (mark_busy E r sid, Some (h, p))))))"

record pool_request =
  pr_session :: string
  pr_media :: string
  pr_user :: int
  pr_ip :: string
  pr_agent :: string

record catchup_target =
  ct_stream :: int
  ct_account :: m3u_account
  ct_profile :: m3u_profile
  ct_stream_id :: string
  ct_tz_name :: "string option"
  ct_timestamp :: string

definition create_pool_session :: "pool_env \<Rightarrow> redis \<Rightarrow> pool_request \<Rightarrow> catchup_target \<Rightarrow> redis \<times> bool" where
  "create_pool_session E r q t =
     (let sid = pr_session q; key = ts_pool_key sid in
      if sid = [] \<or> \<not> pe_locked E \<or> rexists r key then (r, False)
      else
        (rdel (rexpire (rhset_all r key
             [(''media_id'', stored_text (pr_media q)), (''user_id'', RInt (pr_user q)),
              (''client_ip'', stored_text (pr_ip q)), (''client_user_agent'', stored_text (pr_agent q)),
              (''account_id'', RInt (acc_id (ct_account t))), (''profile_id'', RInt (prof_id (ct_profile t))),
              (''stream_id'', stored_text (ct_stream_id t)), (''dispatcharr_stream_id'', RInt (ct_stream t)),
              (''provider_timestamp'', stored_text (ct_timestamp t)), (''provider_tz_name'', or_blank (ct_tz_name t)),
              (''busy'', RInt 1), (''last_activity'', RDec (pe_now E)), (''worker_id'', stored_text (pe_worker E))])
           key POOL_ENTRY_TTL) (ts_pool_superseded_key sid), True))"

definition discard_pool_session :: "pool_env \<Rightarrow> redis \<Rightarrow> string \<Rightarrow> int option \<Rightarrow> redis" where
  "discard_pool_session E r sid profile_id =
     (let r = (case profile_id of Some i \<Rightarrow> release_profile_slot r i | None \<Rightarrow> r)
      in if sid = [] \<or> \<not> pe_locked E then r else rdel r (ts_pool_key sid))"

definition force_abandon_busy_pool :: "pool_env \<Rightarrow> redis \<Rightarrow> string \<Rightarrow> int option \<Rightarrow> redis" where
  "force_abandon_busy_pool E r sid profile_id =
     (if sid = [] then r
      else discard_pool_session E (rset_ex r (ts_pool_superseded_key sid) (RInt 1) 120) sid profile_id)"

definition mark_idle :: "pool_env \<Rightarrow> redis \<Rightarrow> string \<Rightarrow> redis" where
  "mark_idle E r sid =
     (if sid = [] \<or> \<not> pe_locked E \<or> \<not> rexists r (ts_pool_key sid) then r
      else rexpire (rhset_all r (ts_pool_key sid) [(''busy'', RInt 0), (''last_activity'', RDec (pe_now E))])
             (ts_pool_key sid) POOL_IDLE_TTL)"

definition release_pool_session ::
    "pool_env \<Rightarrow> redis \<Rightarrow> string \<Rightarrow> int option \<Rightarrow> bool \<Rightarrow> bool \<Rightarrow> redis" where
  "release_pool_session E r sid profile_id mark_pool_idle release_profile =
     (let superseded = rexists r (ts_pool_superseded_key sid) in
      if superseded \<and> \<not> release_profile then r
      else
        let r = (if superseded then rdel r (ts_pool_superseded_key sid) else r);
            r = (if release_profile
                 then (case profile_id of Some i \<Rightarrow> release_profile_slot r i | None \<Rightarrow> r) else r)
        in if mark_pool_idle then mark_idle E r sid else r)"

text \<open>\<open>_make_release_once\<close>: the callback with its flag.\<close>

definition release_once ::
    "pool_env \<Rightarrow> string \<Rightarrow> int \<Rightarrow> redis \<times> bool \<Rightarrow> bool \<Rightarrow> bool \<Rightarrow> redis \<times> bool" where
  "release_once E sid profile_id s mark_pool_idle release_profile =
     (case s of (r, done') \<Rightarrow>
        if done' then (r, True)
        else (release_pool_session E r sid (Some profile_id) mark_pool_idle release_profile, True))"

definition refresh_pool_session_ttl :: "pool_env \<Rightarrow> redis \<Rightarrow> string \<Rightarrow> redis" where
  "refresh_pool_session_ttl E r sid =
     (let key = ts_pool_key sid in
      if sid = [] \<or> \<not> rexists r key then r
      else rexpire (rhset_all r key [(''last_activity'', RDec (pe_now E))]) key
             (if rhget r key ''busy'' = Some (RInt 1) then POOL_ENTRY_TTL else POOL_IDLE_TTL))"

subsection \<open>Generations and stop signals\<close>

text \<open>Each stream of a viewer on a programme has a number, from a counter in Redis. A stop for reuse
  names the last number it stops.\<close>

definition current_stream_generation :: "redis \<Rightarrow> string \<Rightarrow> string \<Rightarrow> int" where
  "current_stream_generation r vid cid =
     (case py_int (rget r (ts_stream_generation_key vid cid)) of Some n \<Rightarrow> n | None \<Rightarrow> 0)"

definition allocate_stream_generation :: "redis \<Rightarrow> string \<Rightarrow> string \<Rightarrow> redis \<times> int" where
  "allocate_stream_generation r vid cid =
     (let key = ts_stream_generation_key vid cid in
      if rget r key = None \<and> rexists r key \<or> rget r key \<noteq> None \<and> py_int (rget r key) = None then (r, 1)
      else
        let r = rexpire (rincr r key) key POOL_ENTRY_TTL;
            n = (case py_int (rget r key) of Some n \<Rightarrow> n | None \<Rightarrow> 1)
        in (rdel (rdel r (ts_client_stop_key vid cid)) (ts_pool_superseded_key cid), n))"

definition cleanup_stream_generation :: "redis \<Rightarrow> string \<Rightarrow> string \<Rightarrow> redis" where
  "cleanup_stream_generation r vid cid =
     (if vid = [] \<or> cid = [] then r else rdel r (ts_stream_generation_key vid cid))"

definition cleanup_all_stream_generations :: "redis \<Rightarrow> string \<Rightarrow> redis" where
  "cleanup_all_stream_generations r cid =
     (if cid = [] then r
      else foldl rdel r (filter (ends_with (CHR '':'' # cid)) (scan_keys r ''timeshift:stream_gen:'')))"

datatype stop_reason = Reuse | Hop | Admin | Limit

fun reason_text :: "stop_reason \<Rightarrow> string" where
  "reason_text Reuse = ''reuse''" | "reason_text Hop = ''hop''"
| "reason_text Admin = ''admin''" | "reason_text Limit = ''limit''"

definition set_client_stop :: "redis \<Rightarrow> string \<Rightarrow> string \<Rightarrow> stop_reason \<Rightarrow> redis" where
  "set_client_stop r vid cid reason =
     (let key = ts_client_stop_key vid cid in
      if reason = Reuse then
        let gen = rget r (ts_stream_generation_key vid cid);
            cancel_through = (if truthy gen then (case py_int gen of Some n \<Rightarrow> n | None \<Rightarrow> 1) else 1)
        in rset_ex r key (RInt cancel_through) 60
      else rset_ex r key (RText (reason_text reason)) 60)"

definition should_poll_stop_key :: "rat option \<Rightarrow> rat \<Rightarrow> bool \<times> rat option" where
  "should_poll_stop_key last_poll now =
     (case last_poll of
        Some t \<Rightarrow> if 0 \<le> now - t \<and> now - t < 1 then (False, last_poll) else (True, Some now)
      | None \<Rightarrow> (True, Some now))"

text \<open>\<open>(should_stop, stopped_for_reuse)\<close>.\<close>

definition stream_stop_requested :: "redis \<Rightarrow> string \<Rightarrow> int \<Rightarrow> bool \<times> bool" where
  "stream_stop_requested r stop_key generation =
     (if stop_key = [] then (False, False)
      else
        case rget r stop_key of
          None \<Rightarrow> (False, False)
        | Some v \<Rightarrow>
            let value = reply_text (Some v) in
            if value = ''reuse'' then (True, True)
            else if all_digits value then (generation \<le> num value, True)
            else if value \<in> set (map reason_text [Hop, Admin, Limit]) then (True, False)
            else (False, False))"

text \<open>The end of a stream's generator: whether it gives way to a replacement.\<close>

definition stopped_for_reuse :: "redis \<Rightarrow> string \<Rightarrow> string \<Rightarrow> int \<Rightarrow> bool \<Rightarrow> redis \<times> bool" where
  "stopped_for_reuse r vid cid generation seen =
     (let key = ts_client_stop_key vid cid;
          stop = (if rexists r key then stream_stop_requested r key generation else (False, False));
          reuse = (seen \<or> fst stop \<and> snd stop);
          r = (if fst stop \<and> \<not> snd stop then rdel r key else r)
      in (r, reuse \<or> generation < current_stream_generation r vid cid))"

text \<open>The provider's side of that end: the entry and the slot. \<open>probe\<close> is a stream that died at
  once.\<close>

definition finish_stream ::
    "pool_env \<Rightarrow> redis \<Rightarrow> string \<Rightarrow> int \<Rightarrow> string \<Rightarrow> string \<Rightarrow> int \<Rightarrow> bool \<Rightarrow> bool \<Rightarrow> redis" where
  "finish_stream E r sid profile_id vid cid generation seen probe =
     (case stopped_for_reuse r vid cid generation seen of
        (r, True) \<Rightarrow> fst (release_once E sid profile_id (r, False) False False)
      | (r, False) \<Rightarrow>
          let r = (if probe then r else cleanup_stream_generation r vid cid)
          in fst (release_once E sid profile_id (r, False) True True))"

subsection \<open>Walking the archive streams of a channel\<close>

text \<open>A row: the stream's account and provider id, the timezone of the account's server and the
  programme start in it.\<close>

record catchup_row =
  cu_stream :: int
  cu_account :: "m3u_account option"
  cu_stream_id :: "string option"
  cu_tz_name :: "string option"
  cu_timestamp :: string

datatype prepared = Prepared catchup_target | At_Capacity | Skipped

fun walk_profiles :: "pool_env \<Rightarrow> redis \<Rightarrow> bool \<Rightarrow> m3u_profile list \<Rightarrow> redis \<times> m3u_profile option" where
  "walk_profiles E r reserve [] = (r, None)"
| "walk_profiles E r reserve (p # ps) =
     (if reserve then
        (case pool_reserve E r p of
           (r, True) \<Rightarrow> (r, Some p)
         | (r, False) \<Rightarrow> walk_profiles E r reserve ps)
      else if pool_has_capacity_for_profile (pe_libs E) (pe_db E) p r then (r, Some p)
      else walk_profiles E r reserve ps)"

definition prepare_catchup_stream_attempt :: "pool_env \<Rightarrow> redis \<Rightarrow> bool \<Rightarrow> catchup_row \<Rightarrow> redis \<times> prepared" where
  "prepare_catchup_stream_attempt E r reserve c =
     (case (cu_account c, cu_stream_id c) of
        (Some a, Some stream_id) \<Rightarrow>
          if account_type a \<noteq> XC then (r, Skipped)
          else
            (case default_first (filter prof_is_active (account_profiles (pe_db E) a)) of
               None \<Rightarrow> (r, Skipped)
             | Some walk \<Rightarrow>
                 (case walk_profiles E r reserve walk of
                    (r, None) \<Rightarrow> (r, At_Capacity)
                  | (r, Some p) \<Rightarrow>
                      (r, Prepared \<lparr>ct_stream = cu_stream c, ct_account = a, ct_profile = p,
                             ct_stream_id = stream_id, ct_tz_name = cu_tz_name c, ct_timestamp = cu_timestamp c\<rparr>)))
      | _ \<Rightarrow> (r, Skipped))"

text \<open>What the provider answers to one attempt: a stream, an answer handed to the client as it is
  (416), a refusal and whether it bars the account's other streams, or an exception.\<close>

datatype attempt = Streams upstream_head string | Passed int | Refused int bool | Raises

text \<open>What the session keeps of an opened stream.\<close>

definition remember_upstream ::
    "redis \<Rightarrow> string \<Rightarrow> string option \<Rightarrow> string \<Rightarrow> int \<Rightarrow> upstream_head \<Rightarrow> string \<Rightarrow> redis" where
  "remember_upstream r sid range_header timestamp duration_minutes up resolved_url =
     ensure_pool_archive_anchor
       (store_pool_final_url
          (store_pool_serving_range (store_pool_content_length r sid up) sid range_header) sid resolved_url)
       sid timestamp duration_minutes False"

datatype catchup_answer = Catchup_Streams catchup_target | Catchup_Status int | Catchup_Raises

record catchup_play =
  cp_agent :: "m3u_account \<Rightarrow> string"
  cp_answer :: "catchup_target \<Rightarrow> attempt"
  cp_range :: "string option"
  cp_timestamp :: string
  cp_duration :: int

definition give_up :: "int option \<Rightarrow> bool \<Rightarrow> int" where
  "give_up last_status capacity_blocked =
     (case last_status of Some s \<Rightarrow> s | None \<Rightarrow> if capacity_blocked then 503 else 400)"

fun try_streams ::
    "pool_env \<Rightarrow> catchup_play \<Rightarrow> pool_request \<Rightarrow> redis \<Rightarrow> int option \<Rightarrow> int list \<Rightarrow> bool \<Rightarrow> catchup_row list
     \<Rightarrow> redis \<times> catchup_answer" where
  "try_streams E P q r last_status decisive blocked [] = (r, Catchup_Status (give_up last_status blocked))"
| "try_streams E P q r last_status decisive blocked (c # cs) =
     (if (case cu_account c of Some a \<Rightarrow> acc_id a \<in> set decisive | None \<Rightarrow> False)
      then try_streams E P q r last_status decisive blocked cs
      else
        (case prepare_catchup_stream_attempt E r True c of
           (r, At_Capacity) \<Rightarrow> try_streams E P q r last_status decisive True cs
         | (r, Skipped) \<Rightarrow> try_streams E P q r last_status decisive blocked cs
         | (r, Prepared t) \<Rightarrow>
             let i = prof_id (ct_profile t); sid = pr_session q in
             (case create_pool_session E r q t of
                (r, False) \<Rightarrow> (release_profile_slot r i, Catchup_Status 503)
              | (r, True) \<Rightarrow>
                  let r = store_pool_provider_user_agent r sid (cp_agent P (ct_account t)) in
                  (case cp_answer P t of
                     Raises \<Rightarrow> (discard_pool_session E r sid (Some i), Catchup_Raises)
                   | Streams up url \<Rightarrow>
                       (remember_upstream r sid (cp_range P) (cp_timestamp P) (cp_duration P) up url, Catchup_Streams t)
                   | Passed status \<Rightarrow> (fst (release_once E sid i (r, False) True True), Catchup_Status status)
                   | Refused status decides \<Rightarrow>
                       try_streams E P q (discard_pool_session E r sid (Some i)) (Some status)
                         (if decides then acc_id (ct_account t) # decisive else decisive) blocked cs))))"

end
