(* ===== verification/Catchup_Properties.thy ===== *)
theory Catchup_Properties
  imports Catchup_Pool Slot_Balance Example_Data
begin

section \<open>What catch-up keeps of the provider slots\<close>

text \<open>
  A catch-up request and the slot it holds: the frame of every operation on the pool entry, the walk
  over a channel's archive streams, the handing over of a slot at a seek, and the takeover that
  comes too late. \<open>entry_of\<close> names the fields of a session's entry, \<open>claimed\<close> whose it is.
\<close>


subsection \<open>Keys\<close>

lemma ts_keys_not_slots [simp]:
  "\<not> is_slot_key (ts_pool_key s)" "\<not> is_slot_key (ts_pool_superseded_key s)"
  "\<not> is_slot_key (ts_client_stop_key v c)" "\<not> is_slot_key (ts_stream_generation_key v c)"
  by (auto simp: is_slot_key_def is_counter_key_def all_key_defs ts_stream_generation_key_def)

lemma ts_keys_distinct [simp]:
  "ts_pool_key s \<noteq> ts_pool_superseded_key s" "ts_pool_key s \<noteq> ts_client_stop_key v c"
  "ts_pool_key s \<noteq> ts_stream_generation_key v c" "ts_pool_superseded_key s \<noteq> ts_client_stop_key v c"
  "ts_pool_superseded_key s \<noteq> ts_stream_generation_key v c" "ts_client_stop_key v c \<noteq> ts_stream_generation_key v' c'"
  "profile_connections_key i \<noteq> ts_pool_key s" "profile_connections_key i \<noteq> ts_stream_generation_key v c"
  by (simp_all add: all_key_defs ts_stream_generation_key_def)

lemmas ts_keys_distinct_sym [simp] = ts_keys_distinct [symmetric]

subsection \<open>What the operations leave of the slots\<close>

lemma same_slots_rhdel [simp]: "\<not> is_slot_key k \<Longrightarrow> same_slots r (rhdel r k fs)"
  by (auto simp: rhdel_def same_slots_def rdel_def split: option.split robj.split list.split)

lemma same_slots_put [simp]: "same_slots r (pool_put r sid h)"
  by (simp add: pool_put_def)

lemma same_slots_hset_expire [simp]: "\<not> is_slot_key k \<Longrightarrow> same_slots r (rexpire (rhset_all r k m) k t)"
  by (rule same_slots_trans [of _ "rhset_all r k m"]) simp_all

lemma same_slots_marks [simp]:
  "same_slots r (mark_idle E r sid)" "same_slots r (mark_busy E r sid)"
  by (simp_all add: mark_idle_def mark_busy_def)

lemma same_slots_cleanup [simp]: "same_slots r (cleanup_stream_generation r v c)"
  by (simp add: cleanup_stream_generation_def)

lemma same_slots_stores [simp]:
  "same_slots r (store_pool_provider_user_agent r sid ua)" "same_slots r (store_pool_content_length r sid up)"
  "same_slots r (store_pool_serving_range r sid rng)" "same_slots r (store_pool_final_url r sid u)"
  "same_slots r (ensure_pool_archive_anchor r sid ts d b)"
  by (simp_all add: store_pool_provider_user_agent_def store_pool_content_length_def store_pool_serving_range_def
      store_pool_final_url_def ensure_pool_archive_anchor_def split: option.split)

lemma same_slots_remember: "same_slots r (remember_upstream r sid rng ts d up u)"
  unfolding remember_upstream_def
  by (rule same_slots_trans [OF same_slots_trans [OF same_slots_trans [OF same_slots_stores(2,3)] same_slots_stores(4)] same_slots_stores(5)])

lemma same_slots_create:
  assumes "create_pool_session E r q t = (s, ok)"
  shows "same_slots r s"
proof -
  have "same_slots r (rdel (rexpire (rhset_all r (ts_pool_key (pr_session q)) m) (ts_pool_key (pr_session q)) n)
      (ts_pool_superseded_key (pr_session q)))" for m n
    by (rule same_slots_trans [where s = "rexpire (rhset_all r (ts_pool_key (pr_session q)) m) (ts_pool_key (pr_session q)) n"])
      simp_all
  then show ?thesis using assms by (auto simp: create_pool_session_def Let_def split: if_splits)
qed

lemma same_slots_discard: "same_slots (release_profile_slot r i) (discard_pool_session E r sid (Some i))"
  by (simp add: discard_pool_session_def Let_def)

lemma cleared_pointer_released:
  assumes "slot_wf r"
  shows "rget (release_profile_slot r i) (profile_credential_release_key j) =
    (if j = i then None else rget r (profile_credential_release_key j))"
proof -
  have g: "rget (give_back r c) (profile_credential_release_key j) = rget r (profile_credential_release_key j)"
    if "is_counter_key c" for r c
    using that by (auto simp: give_back_def Let_def rget_slot_write_other is_counter_key_def)
  show ?thesis
    using key_of_pointer [OF assms, of i]
    by (auto simp: release_profile_slot_def script_release_def g store_simps split: option.splits)
qed

subsection \<open>A walk over the archive streams\<close>

interpretation cpool: slot_taker "pe_libs E" "pe_db E" "pool_reserve E" for E
  by unfold_locales (simp add: pool_reserve_def)

definition all_at_rest :: "database \<Rightarrow> redis \<Rightarrow> bool" where
  "all_at_rest db r \<longleftrightarrow> (\<forall>p\<in>set (db_profiles db). slots_at_rest r p)"

definition same_counts :: "redis \<Rightarrow> redis \<Rightarrow> bool" where
  "same_counts r t \<longleftrightarrow> (\<forall>k. is_counter_key k \<longrightarrow> slot_read t k = slot_read r k)"

lemma at_rest_frame: "same_slots r t \<Longrightarrow> slots_at_rest r p \<Longrightarrow> slots_at_rest t p"
  using same_slots_wf [of r t] same_slots_read(1,3) [of r t] by (simp add: slots_at_rest_def)

lemma returned_at_rest:
  assumes rest: "all_at_rest (pe_db E) r" and p: "p \<in> set (db_profiles (pe_db E))"
    and taken: "slot_taken (pool_reserve E) p r t" and same: "same_slots (release_profile_slot t (prof_id p)) u"
  shows "all_at_rest (pe_db E) u \<and> same_counts r u"
proof -
  have pr: "slots_at_rest r p" using rest p by (simp add: all_at_rest_def)
  then have wf: "slot_wf t" using cpool.taken_wf [OF taken] by (simp add: slots_at_rest_def)
  have counts: "slot_read u k = slot_read r k" if "is_counter_key k" for k
    using cpool.taken_then_released [OF pr taken that] same_slots_read(3) [OF same that] by simp
  have "rget u (profile_credential_release_key (prof_id q)) = None" if "slots_at_rest r q" for q
    using that cleared_pointer_released [OF wf, of "prof_id p" "prof_id q"] cpool.taken_pointer [OF taken, of "prof_id q"]
      same_slots_read(1) [OF same, of "profile_credential_release_key (prof_id q)"]
    by (auto simp: slots_at_rest_def split: if_splits)
  then have "slots_at_rest u q" if "slots_at_rest r q" for q
    using that counts same_slots_wf [OF same release_wf [OF wf]] by (simp add: slots_at_rest_def)
  then show ?thesis using rest counts by (simp add: all_at_rest_def same_counts_def)
qed

lemma walk_profiles_takes:
  "walk_profiles E r True ps = (t, res) \<Longrightarrow>
   (case res of None \<Rightarrow> t = r | Some p \<Rightarrow> p \<in> set ps \<and> slot_taken (pool_reserve E) p r t)"
proof (induction ps)
  case (Cons p ps)
  obtain s ok where g: "pool_reserve E r p = (s, ok)" by (rule prod.exhaust)
  show ?case
  proof (cases ok)
    case True
    then show ?thesis using Cons.prems g cpool.taken_intro [of E r p s] by auto
  next
    case False
    then have "s = r" using cpool.grab_facts(1) [OF g] by simp
    then show ?thesis using Cons False g by (auto split: option.splits)
  qed
qed simp

lemma prepare_takes:
  assumes "prepare_catchup_stream_attempt E r True c = (t, res)"
  shows "case res of Prepared tg \<Rightarrow> ct_profile tg \<in> set (db_profiles (pe_db E)) \<and>
      slot_taken (pool_reserve E) (ct_profile tg) r t
    | _ \<Rightarrow> t = r"
proof -
  have sub: "default_first (filter prof_is_active (account_profiles (pe_db E) a)) = Some ps \<Longrightarrow>
      set ps \<subseteq> set (db_profiles (pe_db E))" for a ps
    using default_first_subset [of "filter prof_is_active (account_profiles (pe_db E) a)" ps]
    by (auto simp: account_profiles_def)
  show ?thesis
  proof (cases "cu_account c")
    case None
    then show ?thesis using assms by (auto simp: prepare_catchup_stream_attempt_def)
  next
    case account: (Some a)
    show ?thesis
    proof (cases "cu_stream_id c = None \<or> account_type a \<noteq> XC")
      case True
      then show ?thesis using assms account by (auto simp: prepare_catchup_stream_attempt_def split: option.splits)
    next
      case False
      then obtain sid where sid: "cu_stream_id c = Some sid" "account_type a = XC" by auto
      show ?thesis
      proof (cases "default_first (filter prof_is_active (account_profiles (pe_db E) a))")
        case None
        then show ?thesis using assms account sid by (auto simp: prepare_catchup_stream_attempt_def)
      next
        case (Some ps)
        obtain s w where w: "walk_profiles E r True ps = (s, w)" by (rule prod.exhaust)
        from walk_profiles_takes [OF w] sub [OF Some] assms account sid Some w show ?thesis
          by (cases w) (auto simp: prepare_catchup_stream_attempt_def)
      qed
    qed
  qed
qed

lemma release_returns:
  obtains r' where "same_slots r r'"
    and "same_slots (release_profile_slot r' i) (release_pool_session E r sid (Some i) mark True)"
proof (cases "rexists r (ts_pool_superseded_key sid)")
  case True
  show ?thesis
    by (rule that [of "rdel r (ts_pool_superseded_key sid)"]) (simp_all add: release_pool_session_def Let_def True)
next
  case False
  show ?thesis by (rule that [of r]) (simp_all add: release_pool_session_def Let_def False)
qed

text \<open>What a request may leave behind, and one prepared candidate of the walk: it ends there, or it
  goes on from a keyspace with the same counters.\<close>

definition charged_for :: "pool_env \<Rightarrow> redis \<Rightarrow> redis \<Rightarrow> catchup_answer \<Rightarrow> bool" where
  "charged_for E r t ans = (case ans of
      Catchup_Streams tg \<Rightarrow> \<forall>k. is_counter_key k \<longrightarrow>
        slot_read t k = slot_read r k + (if counts_against (pe_libs E) (pe_db E) (ct_profile tg) k then 1 else 0)
    | _ \<Rightarrow> same_counts r t)"

lemma charged_for_same: "same_counts r s \<Longrightarrow> charged_for E s t ans \<Longrightarrow> charged_for E r t ans"
  by (auto simp: charged_for_def same_counts_def split: catchup_answer.splits)

lemma prepared_candidate:
  assumes rest: "all_at_rest (pe_db E) r"
    and skip: "\<not> (case cu_account c of Some a \<Rightarrow> acc_id a \<in> set decisive | None \<Rightarrow> False)"
    and prep: "prepare_catchup_stream_attempt E r True c = (s, Prepared tg)"
    and run: "try_streams E P q r last_status decisive blocked (c # cs) = (t, ans)"
  shows "charged_for E r t ans \<or> (\<exists>u ls de. all_at_rest (pe_db E) u \<and> same_counts r u \<and>
    try_streams E P q u ls de blocked cs = (t, ans))"
proof -
  let ?i = "prof_id (ct_profile tg)" and ?sid = "pr_session q"
  have p: "ct_profile tg \<in> set (db_profiles (pe_db E))" and taken: "slot_taken (pool_reserve E) (ct_profile tg) r s"
    using prepare_takes [OF prep] by simp_all
  note returned = returned_at_rest [OF rest p]
  obtain s1 ok where made: "create_pool_session E s q tg = (s1, ok)" by (rule prod.exhaust)
  have t1: "slot_taken (pool_reserve E) (ct_profile tg) r s1" by (rule taken_trans [OF taken same_slots_create [OF made]])
  let ?s2 = "store_pool_provider_user_agent s1 ?sid (cp_agent P (ct_account tg))"
  have t2: "slot_taken (pool_reserve E) (ct_profile tg) r ?s2" by (rule taken_trans [OF t1]) simp
  note run = run [unfolded try_streams.simps if_not_P [OF skip] prep prod.case prepared.case Let_def made]
  show ?thesis
  proof (cases ok)
    case False
    then show ?thesis using run returned [OF t1 same_slots_refl] by (auto simp: charged_for_def)
  next
    case ok: True
    show ?thesis
    proof (cases "cp_answer P tg")
      case (Streams up url)
      note t3 = taken_trans [OF t2 same_slots_remember [of _ ?sid "cp_range P" "cp_timestamp P" "cp_duration P" up url]]
      have "0 \<le> slot_read r k" if "is_counter_key k" for k
        using rest p that by (auto simp: all_at_rest_def slots_at_rest_def)
      then show ?thesis using run ok Streams cpool.taken_counts [OF t3] by (auto simp: charged_for_def)
    next
      case (Passed status)
      obtain s3 where s3: "same_slots ?s2 s3"
        "same_slots (release_profile_slot s3 ?i) (release_pool_session E ?s2 ?sid (Some ?i) True True)"
        by (rule release_returns)
      show ?thesis using run ok Passed returned [OF taken_trans [OF t2 s3(1)] s3(2)]
        by (auto simp: charged_for_def release_once_def)
    next
      case (Refused status decides)
      then show ?thesis using run ok returned [OF t2 same_slots_discard] by auto
    next
      case Raises
      then show ?thesis using run ok returned [OF t2 same_slots_discard] by (auto simp: charged_for_def)
    qed
  qed
qed

lemma walk_charges:
  "all_at_rest (pe_db E) r \<Longrightarrow> try_streams E P q r last_status decisive blocked cs = (t, ans) \<Longrightarrow> charged_for E r t ans"
proof (induction cs arbitrary: r last_status decisive blocked)
  case Nil
  then show ?case by (auto simp: same_counts_def charged_for_def)
next
  case (Cons c cs)
  obtain s pr where prep: "prepare_catchup_stream_attempt E r True c = (s, pr)" by (rule prod.exhaust)
  show ?case
  proof (cases "case cu_account c of Some a \<Rightarrow> acc_id a \<in> set decisive | None \<Rightarrow> False")
    case True
    then show ?thesis using Cons by simp
  next
    case skip: False
    show ?thesis
    proof (cases pr)
      case (Prepared tg)
      then show ?thesis
        using prepared_candidate [OF Cons.prems(1) skip prep [unfolded Prepared] Cons.prems(2)] Cons.IH charged_for_same
        by blast
    next
      case At_Capacity
      then have "s = r" using prepare_takes [OF prep] by simp
      then show ?thesis using Cons.IH [OF Cons.prems(1)] Cons.prems(2) skip prep At_Capacity by simp
    next
      case Skipped
      then have "s = r" using prepare_takes [OF prep] by simp
      then show ?thesis using Cons.IH [OF Cons.prems(1)] Cons.prems(2) skip prep Skipped by simp
    qed
  qed
qed

text \<open>C12. A new stream of a catch-up session charges the provider for what it streams and nothing else.
  However the archive streams of the channel are answered by the walk over them, by streams, refusals,
  exceptions or a 416, and whether or not the session's entry could be made: a request that gets no
  stream leaves every provider counter as it was, and one that streams holds one slot of the profile it
  streams from, if that profile has a limit, and of its shared login. This is the walk that opens a
  stream, not the takeover of a slot the session already holds; at its start no counter is negative, no
  profile has a release pointer left over, and every unlimited profile's own counter is at zero.\<close>

theorem catchup_charges_what_it_streams:
  assumes "all_at_rest (pe_db E) r" and "try_streams E P q r last_status decisive blocked cs = (t, ans)"
  shows "case ans of
      Catchup_Streams tg \<Rightarrow> \<forall>k. is_counter_key k \<longrightarrow>
        slot_read t k = slot_read r k + (if counts_against (pe_libs E) (pe_db E) (ct_profile tg) k then 1 else 0)
    | _ \<Rightarrow> same_counts r t"
  using walk_charges [OF assms] unfolding charged_for_def .

subsection \<open>One entry through its operations\<close>

definition entry_of :: "redis \<Rightarrow> string \<Rightarrow> rhash \<Rightarrow> bool" where
  "entry_of r sid h \<longleftrightarrow> sid \<noteq> [] \<and> map_of (objs r) (ts_pool_key sid) = Some (RHash h)"

text \<open>Whose entry it is: the profile, and an owner who may take it.\<close>

definition claimed :: "pool_env \<Rightarrow> int \<Rightarrow> m3u_profile \<Rightarrow> int \<Rightarrow> rhash \<Rightarrow> bool" where
  "claimed E i p u h \<longleftrightarrow>
     map_of h ''profile_id'' = Some (RInt i) \<and> pool_entry_owned_by_user h u \<and> find_profile E i = Some p"

lemma claimed_update:
  assumes "claimed E i p u h" and "''profile_id'' \<notin> fst ` set m" and "''user_id'' \<notin> fst ` set m"
  shows "claimed E i p u (dict_update h m)"
proof -
  have keep: "map_of (dict_update h m) f = map_of h f" if "f \<notin> fst ` set m" for f
  proof -
    have "map_of (rev m) f = None" using that by (force simp: map_of_eq_None_iff)
    then show ?thesis by (simp add: map_of_dict_update)
  qed
  have "h \<noteq> []" and "dict_update h m \<noteq> []"
    using assms(1) keep [OF assms(2)] by (auto simp: claimed_def)
  then show ?thesis
    using assms(1) keep [OF assms(2)] keep [OF assms(3)] by (simp add: claimed_def pool_entry_owned_by_user_def)
qed

lemma entry_entry: "entry_of r sid h \<Longrightarrow> pool_entry r sid = h"
  by (simp add: entry_of_def pool_entry_def rhgetall_def)

lemma entry_hset_expire:
  assumes "entry_of r sid h"
  shows "entry_of (rexpire (rhset_all r (ts_pool_key sid) m) (ts_pool_key sid) n) sid (dict_update h m)"
  using assms by (simp add: entry_of_def rexpire_def rhset_all_def)

lemma entry_frame:
  "entry_of r sid h \<Longrightarrow> map_of (objs t) (ts_pool_key sid) = map_of (objs r) (ts_pool_key sid) \<Longrightarrow> entry_of t sid h"
  by (simp add: entry_of_def)

lemma entry_release: "entry_of r sid h \<Longrightarrow> slot_wf r \<Longrightarrow> entry_of (release_profile_slot r i) sid h"
  by (erule entry_frame) (simp add: release_keeps)

lemma mark_idle_entry:
  assumes "entry_of r sid h" and "pe_locked E"
  shows "entry_of (mark_idle E r sid) sid (dict_update h [(''busy'', RInt 0), (''last_activity'', RDec (pe_now E))])"
proof -
  have "mark_idle E r sid = rexpire (rhset_all r (ts_pool_key sid) [(''busy'', RInt 0), (''last_activity'', RDec (pe_now E))])
      (ts_pool_key sid) POOL_IDLE_TTL"
    using assms by (simp add: mark_idle_def entry_of_def rexists_def)
  then show ?thesis using entry_hset_expire [OF assms(1)] by simp
qed

lemma mark_busy_entry:
  assumes "entry_of r sid h"
  obtains h' where "entry_of (mark_busy E r sid) sid h'" and "ts_busy h'" and "claimed E i p u h \<Longrightarrow> claimed E i p u h'"
proof -
  let ?m = "[(''busy'', RInt 1), (''last_activity'', RDec (pe_now E)), (''worker_id'', stored_text (pe_worker E))]"
  show ?thesis
    by (rule that [of "dict_update h ?m"])
      (use assms in \<open>simp_all add: mark_busy_def entry_hset_expire claimed_update ts_busy_def map_of_dict_update\<close>)
qed

lemma release_congruent:
  assumes "same_slots r s" and "slot_wf r"
  shows "same_counts (release_profile_slot r i) (release_profile_slot s i)"
  using release_effect [OF assms(2)] release_effect [OF same_slots_wf [OF assms]] same_slots_read(1,3) [OF assms(1)]
  by (simp add: same_counts_def)

text \<open>The end of the stream that holds the entry: one release, and the entry is idle.\<close>

lemma final_release:
  assumes ent: "entry_of r sid h" and wf: "slot_wf r" and lock: "pe_locked E"
  obtains h' where "entry_of (release_pool_session E r sid (Some i) True True) sid h'" and "\<not> ts_busy h'"
    and "\<And>j p u. claimed E j p u h \<Longrightarrow> claimed E j p u h'"
    and "slot_wf (release_pool_session E r sid (Some i) True True)"
    and "same_counts (release_profile_slot r i) (release_pool_session E r sid (Some i) True True)"
proof -
  obtain r' where r': "same_slots r r'" "map_of (objs r') (ts_pool_key sid) = map_of (objs r) (ts_pool_key sid)"
    "release_pool_session E r sid (Some i) True True = mark_idle E (release_profile_slot r' i) sid"
  proof (cases "rexists r (ts_pool_superseded_key sid)")
    case True
    show ?thesis
      by (rule that [of "rdel r (ts_pool_superseded_key sid)"])
        (simp_all add: release_pool_session_def Let_def True rdel_other)
  next
    case False
    show ?thesis by (rule that [of r]) (simp_all add: release_pool_session_def Let_def False)
  qed
  have wf': "slot_wf r'" by (rule same_slots_wf [OF r'(1) wf])
  let ?m = "[(''busy'', RInt 0), (''last_activity'', RDec (pe_now E))]"
  have "entry_of r' sid h" by (rule entry_frame [OF ent r'(2)])
  then have e: "entry_of (release_pool_session E r sid (Some i) True True) sid (dict_update h ?m)"
    unfolding r'(3) by (rule mark_idle_entry [OF entry_release [OF _ wf'] lock])
  have same: "same_slots (release_profile_slot r' i) (release_pool_session E r sid (Some i) True True)"
    by (simp add: r'(3))
  have "same_counts (release_profile_slot r i) (release_pool_session E r sid (Some i) True True)"
    using same_slots_read(3) [OF same] release_congruent [OF r'(1) wf, of i] by (simp add: same_counts_def)
  then show ?thesis
    using that [OF e] same_slots_wf [OF same release_wf [OF wf']]
    by (simp add: claimed_update ts_busy_def map_of_dict_update)
qed

lemma handoff_acquires:
  assumes "entry_of r sid h" and "claimed E i p u h" and "pe_locked E"
  shows "acquire_idle_pool_session E r sid (Some u) True = (mark_busy E r sid, Some (h, p))"
  using assms entry_entry [OF assms(1)]
  by (auto simp: acquire_idle_pool_session_def claimed_def entry_of_def)

text \<open>A takeover decided on an old view of the session costs another viewer's slot. A request that
  saw the session busy takes the entry over without a slot of its own; when the stream it meant to
  displace has ended by itself in between, that stream has given its slot back, the new one gives
  it back again at its end, and the profile's counter is two lower for one stream.\<close>

theorem late_takeover_releases_twice:
  assumes ent: "entry_of r sid h" and busy: "ts_busy h" and cl: "claimed E i p u h" and lock: "pe_locked E"
    and wf: "slot_wf r" and two: "2 \<le> slot_read r (profile_connections_key i)"
    and ended: "r1 = release_pool_session E r sid (Some i) True True"
    and taken: "acquire_idle_pool_session E r1 sid (Some u) True = (r2, acquired)"
    and over: "r3 = release_pool_session E r2 sid (Some i) True True"
  shows "(\<exists>v. pool_snapshot r sid = Some v \<and> pv_busy v) \<and> acquired \<noteq> None \<and>
    slot_read r3 (profile_connections_key i) = slot_read r (profile_connections_key i) - 2"
proof -
  obtain h1 where h1: "entry_of r1 sid h1" "claimed E i p u h1" "slot_wf r1" "same_counts (release_profile_slot r i) r1"
    unfolding ended by (rule final_release [OF ent wf lock, of i]) (use cl in blast)
  have r2: "r2 = mark_busy E r1 sid" "acquired = Some (h1, p)"
    using taken handoff_acquires [OF h1(1,2) lock] by simp_all
  obtain h2 where h2: "entry_of r2 sid h2" unfolding r2 by (rule mark_busy_entry [OF h1(1)]) blast
  have same2: "same_slots r1 r2" by (simp add: r2)
  have wf2: "slot_wf r2" by (rule same_slots_wf [OF same2 h1(3)])
  have "same_counts (release_profile_slot r2 i) r3"
    unfolding over by (rule final_release [OF h2 wf2 lock, of i])
  then have "slot_read r3 (profile_connections_key i) = slot_read r (profile_connections_key i) - 2"
    using released_profile_count [OF wf2, of i i] released_profile_count [OF wf, of i i] h1(4) two
      same_slots_read(3) [OF same2, of "profile_connections_key i"] by (simp add: same_counts_def)
  moreover have "h \<noteq> []" using cl by (auto simp: claimed_def)
  ultimately show ?thesis
    using busy r2(2) by (simp add: pool_snapshot_def snapshot_from_entry_def entry_entry [OF ent])
qed

subsection \<open>A seek hands the slot over\<close>

lemma reuse_stop:
  assumes "rget r (ts_stream_generation_key vid cid) = Some (RInt g)" and "0 \<le> g"
  shows "stream_stop_requested (set_client_stop r vid cid Reuse) (ts_client_stop_key vid cid) n = (n \<le> g, True)"
proof -
  have d: "all_digits (show_int g)" using assms(2) by (simp add: show_int_def)
  have "show_int g \<noteq> ''reuse''" using d by (auto simp: all_digits_def is_digit_def)
  moreover have "ts_client_stop_key vid cid \<noteq> []" by (simp add: ts_client_stop_key_def)
  ultimately show ?thesis
    using assms d by (simp add: stream_stop_requested_def set_client_stop_def store_simps)
qed

lemma allocate_next:
  assumes "rget r (ts_stream_generation_key vid cid) = Some (RInt g)"
    and "allocate_stream_generation r vid cid = (t, n)"
  shows "n = g + 1" and "rget t (ts_stream_generation_key vid cid) = Some (RInt (g + 1))"
    and "\<not> rexists t (ts_client_stop_key vid cid)" and "\<not> rexists t (ts_pool_superseded_key cid)"
    and "same_slots r t" and "map_of (objs t) (ts_pool_key cid) = map_of (objs r) (ts_pool_key cid)"
proof -
  let ?k = "ts_stream_generation_key vid cid"
  let ?t = "rdel (rdel (rexpire (rincr r ?k) ?k POOL_ENTRY_TTL) (ts_client_stop_key vid cid)) (ts_pool_superseded_key cid)"
  have t: "t = ?t" "n = g + 1"
    using assms rget_rincr_int [OF assms(1)]
    by (auto simp: allocate_stream_generation_def Let_def store_simps split: if_splits)
  show "n = g + 1" by (rule t(2))
  show "rget t ?k = Some (RInt (g + 1))" using rget_rincr_int [OF assms(1)] by (simp add: t(1) store_simps)
  show "\<not> rexists t (ts_client_stop_key vid cid)" and "\<not> rexists t (ts_pool_superseded_key cid)"
    by (simp_all add: t(1) store_simps)
  have inc: "map_of (objs (rincr r ?k)) k = map_of (objs r) k" if "k \<noteq> ?k" for k
    using that by (rule rincr_other)
  have other: "map_of (objs t) k = map_of (objs r) k"
    if "k \<noteq> ?k" "k \<noteq> ts_client_stop_key vid cid" "k \<noteq> ts_pool_superseded_key cid" for k
    using that inc by (simp add: t(1) rdel_other rexpire_def)
  then show "map_of (objs t) (ts_pool_key cid) = map_of (objs r) (ts_pool_key cid)" by simp
  show "same_slots r t" unfolding same_slots_def using other ts_keys_not_slots by metis
qed

text \<open>C13. A seek hands the slot over. The stop a seek sets stops every earlier stream of the session
  on the programme and not the one that replaces them; the replacement takes the busy entry over and
  gets the next number. When the displaced stream ends before its replacement, it changes no counter and
  leaves the entry busy, and the end of the replacement gives the one slot back and leaves the entry
  idle.\<close>

theorem seek_hands_the_slot_over:
  assumes ent: "entry_of r sid h" and cl: "claimed E i p u h" and lock: "pe_locked E" and wf: "slot_wf r"
    and gen: "rget r (ts_stream_generation_key vid sid) = Some (RInt g)" and "0 \<le> g"
    and stop: "r1 = set_client_stop r vid sid Reuse"
    and takeover: "acquire_idle_pool_session E r1 sid (Some u) True = (r2, acquired)"
    and number: "allocate_stream_generation r2 vid sid = (r3, n)"
    and old_ends: "m \<le> g" "r4 = finish_stream E r3 sid i vid sid m seen probe"
    and new_ends: "r5 = finish_stream E r4 sid i vid sid n False probe'"
  shows "stream_stop_requested r1 (ts_client_stop_key vid sid) m = (True, True) \<and>
    \<not> fst (stream_stop_requested r1 (ts_client_stop_key vid sid) n) \<and> acquired \<noteq> None \<and>
    same_counts r r4 \<and> ts_busy (pool_entry r4 sid) \<and>
    same_counts (release_profile_slot r i) r5 \<and> pool_entry r5 sid \<noteq> [] \<and> \<not> ts_busy (pool_entry r5 sid)"
proof -
  have same1: "same_slots r r1" and pool1: "map_of (objs r1) (ts_pool_key sid) = map_of (objs r) (ts_pool_key sid)"
    by (simp_all add: stop set_client_stop_def Let_def rset_ex_def same_slots_def)
  have ent1: "entry_of r1 sid h" by (rule entry_frame [OF ent pool1])
  have r2: "r2 = mark_busy E r1 sid" "acquired = Some (h, p)" using takeover handoff_acquires [OF ent1 cl lock] by simp_all
  obtain h2 where h2: "entry_of r2 sid h2" "ts_busy h2" "claimed E i p u h2"
    unfolding r2(1) by (rule mark_busy_entry [OF ent1]) (use cl in blast)
  have gen2: "rget r2 (ts_stream_generation_key vid sid) = Some (RInt g)"
    using gen by (simp add: r2(1) mark_busy_def stop set_client_stop_def Let_def store_simps)
  note al = allocate_next [OF gen2 number]
  have ent3: "entry_of r3 sid h2" by (rule entry_frame [OF h2(1) al(6)])
  have r4: "r4 = r3"
    using old_ends(1) al by (simp add: old_ends(2) finish_stream_def stopped_for_reuse_def current_stream_generation_def
        release_once_def release_pool_session_def Let_def)
  let ?r = "if probe' then r4 else cleanup_stream_generation r4 vid sid"
  have r5: "r5 = release_pool_session E ?r sid (Some i) True True"
    using al by (simp add: new_ends r4 finish_stream_def stopped_for_reuse_def current_stream_generation_def release_once_def)
  have same: "same_slots r ?r"
    using same_slots_trans [OF same_slots_trans [OF same1 same_slots_marks(2)] al(5) [unfolded r2(1)]] r4
    by (auto intro: same_slots_trans)
  have wfr: "slot_wf ?r" by (rule same_slots_wf [OF same wf])
  have entr: "entry_of ?r sid h2"
    using ent3 by (auto simp: r4 cleanup_stream_generation_def entry_of_def rdel_other)
  obtain h5 where h5: "entry_of r5 sid h5" "\<not> ts_busy h5" "same_counts (release_profile_slot ?r i) r5" "claimed E i p u h5"
    unfolding r5 by (rule final_release [OF entr wfr lock, of i]) (use h2(3) in blast)
  have "same_counts (release_profile_slot r i) r5" using release_congruent [OF same wf, of i] h5(3) by (simp add: same_counts_def)
  moreover have "same_counts r r4"
    using same_slots_read(3) [OF same_slots_trans [OF same_slots_trans [OF same1 same_slots_marks(2)] al(5) [unfolded r2(1)]]]
    by (simp add: r4 same_counts_def)
  moreover have "h5 \<noteq> []" using h5(4) by (auto simp: claimed_def)
  ultimately show ?thesis
    using h5 h2 ent3 r2(2) al(1) reuse_stop [OF gen \<open>0 \<le> g\<close>] old_ends(1)
    by (simp add: stop entry_entry r4)
qed

subsection \<open>A small installation\<close>

definition archive_profile :: m3u_profile where
  "archive_profile = solo_profile\<lparr>prof_account := solo_account\<lparr>account_type := XC\<rparr>\<rparr>"

definition demo_pool_env :: pool_env where
  "demo_pool_env = \<lparr>pe_libs = demo_libs,
     pe_db = \<lparr>db_profiles = [archive_profile], db_streams = [], db_channels = []\<rparr>,
     pe_now = 1000, pe_worker = ''w1'', pe_locked = True\<rparr>"

definition demo_rows :: "catchup_row list" where
  "demo_rows = map (\<lambda>i. \<lparr>cu_stream = i, cu_account = Some (prof_account archive_profile), cu_stream_id = Some ''77'',
     cu_tz_name = None, cu_timestamp = ''t0''\<rparr>) [1, 2]"

definition demo_catchup :: catchup_play where
  "demo_catchup = \<lparr>cp_agent = (\<lambda>a. ''a''),
     cp_answer = (\<lambda>t. if ct_stream t = 1 then Refused 404 False
       else Streams \<lparr>up_status = 200, up_content_range = None, up_content_length = Some ''9''\<rparr> ''u''),
     cp_range = None, cp_timestamp = ''t0'', cp_duration = 60\<rparr>"

definition demo_pool_request :: pool_request where
  "demo_pool_request = \<lparr>pr_session = ''s1'', pr_media = ''3_t0'', pr_user = 4, pr_ip = ''ip'', pr_agent = ''tv''\<rparr>"

definition demo_walk :: "redis \<times> catchup_answer" where
  "demo_walk = try_streams demo_pool_env demo_catchup demo_pool_request empty_redis None [] False demo_rows"

lemma demo_walk_streams: "case snd demo_walk of Catchup_Streams tg \<Rightarrow> ct_stream tg = 2 \<and> ct_profile tg = archive_profile | _ \<Rightarrow> False"
  by code_simp

lemma archive_profile_simps [simp]: "prof_id archive_profile = 21" "max_streams archive_profile = 2"
  by (simp_all add: archive_profile_def)

theorem catchup_charges_witness:
  "slot_read (fst demo_walk) (profile_connections_key 21) = 1"
proof -
  have rest: "all_at_rest (pe_db demo_pool_env) empty_redis"
    by (simp add: all_at_rest_def demo_pool_env_def slots_at_rest_def slot_read_def)
  have "try_streams demo_pool_env demo_catchup demo_pool_request empty_redis None [] False demo_rows = (fst demo_walk, snd demo_walk)"
    by (simp add: demo_walk_def)
  from catchup_charges_what_it_streams [OF rest this] demo_walk_streams show ?thesis
    by (auto simp: counts_against_def slot_read_def split: catchup_answer.splits)
qed

text \<open>A busy session of the profile, a second viewer's slot, and the number of the running stream.\<close>

definition demo_entry :: rhash where
  "demo_entry = [(''profile_id'', RInt 21), (''user_id'', RInt 4), (''busy'', RInt 1)]"

definition demo_playing :: redis where
  "demo_playing = rset (rhset_all (rset empty_redis (profile_connections_key 21) (RInt 2)) (ts_pool_key ''s1'') demo_entry)
     (ts_stream_generation_key ''v1'' ''s1'') (RInt 3)"

lemma demo_playing_facts:
  "entry_of demo_playing ''s1'' demo_entry" "ts_busy demo_entry" "claimed demo_pool_env 21 archive_profile 4 demo_entry"
  "pe_locked demo_pool_env" "slot_read demo_playing (profile_connections_key 21) = 2"
  "rget demo_playing (ts_stream_generation_key ''v1'' ''s1'') = Some (RInt 3)"
proof -
  show "entry_of demo_playing ''s1'' demo_entry" unfolding entry_of_def by code_simp
  show "claimed demo_pool_env 21 archive_profile 4 demo_entry" unfolding claimed_def by code_simp
qed (simp_all add: demo_entry_def ts_busy_def demo_pool_env_def demo_playing_def store_simps slot_read_def)

lemma demo_playing_wf: "slot_wf demo_playing"
proof -
  have one: "slot_wf (rset empty_redis (profile_connections_key 21) (RInt 2))"
    by (auto simp: slot_wf_def store_simps)
  have "same_slots (rset empty_redis (profile_connections_key 21) (RInt 2)) demo_playing"
    unfolding demo_playing_def
    by (rule same_slots_trans [of _ "rhset_all (rset empty_redis (profile_connections_key 21) (RInt 2)) (ts_pool_key ''s1'') demo_entry"])
      simp_all
  from same_slots_wf [OF this one] show ?thesis .
qed

theorem late_takeover_witness:
  "\<exists>r2 a. acquire_idle_pool_session demo_pool_env (release_pool_session demo_pool_env demo_playing ''s1'' (Some 21) True True)
      ''s1'' (Some 4) True = (r2, Some a) \<and>
    slot_read (release_pool_session demo_pool_env r2 ''s1'' (Some 21) True True) (profile_connections_key 21) = 0"
proof -
  obtain r2 a where acq: "acquire_idle_pool_session demo_pool_env
      (release_pool_session demo_pool_env demo_playing ''s1'' (Some 21) True True) ''s1'' (Some 4) True = (r2, a)"
    by (rule prod.exhaust)
  from late_takeover_releases_twice [OF demo_playing_facts(1-4) demo_playing_wf _ refl acq refl] show ?thesis
    using acq by (auto simp: demo_playing_facts(5))
qed

theorem seek_witness:
  "\<exists>r2 a r3 n. acquire_idle_pool_session demo_pool_env (set_client_stop demo_playing ''v1'' ''s1'' Reuse) ''s1'' (Some 4) True =
      (r2, Some a) \<and>
    allocate_stream_generation r2 ''v1'' ''s1'' = (r3, n) \<and>
    slot_read (finish_stream demo_pool_env (finish_stream demo_pool_env r3 ''s1'' 21 ''v1'' ''s1'' 3 False False)
      ''s1'' 21 ''v1'' ''s1'' n False False) (profile_connections_key 21) = 1"
proof -
  obtain r2 a where acq: "acquire_idle_pool_session demo_pool_env (set_client_stop demo_playing ''v1'' ''s1'' Reuse)
      ''s1'' (Some 4) True = (r2, a)"
    by (rule prod.exhaust)
  obtain r3 n where num: "allocate_stream_generation r2 ''v1'' ''s1'' = (r3, n)" by (rule prod.exhaust)
  from seek_hands_the_slot_over [OF demo_playing_facts(1,3,4) demo_playing_wf demo_playing_facts(6) _ refl acq num order.refl refl refl,
      of False False]
  show ?thesis using acq num released_profile_count [OF demo_playing_wf, of 21 21]
    by (auto simp: same_counts_def demo_playing_facts(5))
qed

text \<open>
  The other order. The end of the replacement deletes the number of the running stream, and the stop was
  cleared when the replacement got its number, so a displaced stream that ends after it finds no sign
  that it was displaced and gives back a slot that is another viewer's.
\<close>

lemma displaced_stream_that_ends_last_releases_again:
  "(let r1 = set_client_stop demo_playing ''v1'' ''s1'' Reuse;
        r2 = fst (acquire_idle_pool_session demo_pool_env r1 ''s1'' (Some 4) True);
        (r3, n) = allocate_stream_generation r2 ''v1'' ''s1'';
        r4 = finish_stream demo_pool_env r3 ''s1'' 21 ''v1'' ''s1'' n False False;
        r5 = finish_stream demo_pool_env r4 ''s1'' 21 ''v1'' ''s1'' 3 False False
    in slot_read demo_playing (profile_connections_key 21) = 2
       \<and> slot_read r4 (profile_connections_key 21) = 1 \<and> slot_read r5 (profile_connections_key 21) = 0)"
  by code_simp

end
