(* ===== verification/Redaction.thy ===== *)
theory Redaction
  imports Ip_Network
begin

section \<open>Credential redaction (dispatcharr/utils.py, timeshift/views.py)\<close>

text \<open>
  What the log lines and the diagnostics print of a URL and of a request's headers: \<open>redact_url\<close>
  masks the credentials and keeps the rest, \<open>redact_headers\<close> applies it to a header mapping, and
  the catch-up views' own \<open>_redact_url\<close> keeps the scheme and the host only. A \<open>ValueError\<close> of
  \<open>urlsplit\<close> is \<open>None\<close>.
\<close>

subsection \<open>urlsplit\<close>

record split_parts =
  sp_scheme :: string
  sp_netloc :: string
  sp_path :: string
  sp_query :: string
  sp_fragment :: string

text \<open>The text after the last at sign; all of it when there is none: \<open>rpartition\<close>.\<close>

definition after_at :: "string \<Rightarrow> string" where
  "after_at netloc = (case rsplit_once (CHR ''@'') netloc of Some (_, host) \<Rightarrow> host | None \<Rightarrow> netloc)"

definition is_line_end :: "char \<Rightarrow> bool" where
  "is_line_end c \<longleftrightarrow> c = CHR 0x0A"

text \<open>\<open>v<hex>.<any>\<close>, a future address, or an IPv6 address.\<close>

definition bracketed_host_ok :: "string \<Rightarrow> bool" where
  "bracketed_host_ok host =
     (if starts_with ''v'' host then
        (case split_once (CHR ''.'') (tl host) of
           Some (hex, rest) \<Rightarrow> hex \<noteq> [] \<and> list_all (\<lambda>c. hex_value c \<noteq> None) hex
             \<and> rest \<noteq> [] \<and> \<not> list_ex is_line_end rest
         | None \<Rightarrow> False)
      else parse_ipv4 host = None \<and> parse_ipv6 host \<noteq> None)"

definition bracketed_netloc_ok :: "string \<Rightarrow> bool" where
  "bracketed_netloc_ok netloc =
     (let host_port = after_at netloc in
      case split_once (CHR ''['') host_port of
        Some (before, bracketed) \<Rightarrow>
          let (host, port) = cut (CHR '']'') bracketed in
          before = [] \<and> (port = [] \<or> starts_with '':'' port) \<and> bracketed_host_ok host
      | None \<Rightarrow> bracketed_host_ok (fst (cut (CHR '':'') host_port)))"

definition netloc_ok :: "string \<Rightarrow> bool" where
  "netloc_ok netloc =
     (if CHR ''['' \<in> set netloc
      then CHR '']'' \<in> set netloc \<and> bracketed_netloc_ok netloc
      else CHR '']'' \<notin> set netloc)"

definition urlsplit :: "string \<Rightarrow> split_parts option" where
  "urlsplit raw =
     (let (scheme, rest) = split_scheme (clean_url raw);
          (netloc, rest) = split_netloc rest;
          (rest, fragment) = cut (CHR ''#'') rest;
          (path, query) = cut (CHR ''?'') rest
      in if netloc_ok netloc
         then Some \<lparr>sp_scheme = scheme, sp_netloc = netloc, sp_path = path,
                    sp_query = query, sp_fragment = fragment\<rparr>
         else None)"

subsection \<open>unquote\<close>

text \<open>
  \<open>unquote\<close> decodes each run of ASCII characters on its own: percent escapes become bytes and
  the bytes are read as UTF-8. A character above the ASCII range is kept. The result may hold
  code points no \<open>char\<close> has, so it is a list of numbers. A byte that begins no valid sequence
  becomes one replacement character; Python may merge several of them into one.
\<close>

datatype text_unit = Byte nat | Point nat

fun percent_units :: "string \<Rightarrow> text_unit list" where
  "percent_units [] = []"
| "percent_units (c # s) =
     (if c = CHR ''%'' then
        (case s of
           a # b # t \<Rightarrow>
             (case (hex_value a, hex_value b) of
                (Some x, Some y) \<Rightarrow> Byte (16 * x + y) # percent_units t
              | _ \<Rightarrow> Byte 37 # percent_units s)
         | _ \<Rightarrow> Byte 37 # percent_units s)
      else (if of_char c < (128::nat) then Byte (of_char c) else Point (of_char c)) # percent_units s)"

fun continuation :: "text_unit list \<Rightarrow> nat \<Rightarrow> nat list option" where
  "continuation us 0 = Some []"
| "continuation (Byte b # us) (Suc n) =
     (if 128 \<le> b \<and> b < 192 then map_option (Cons (b - 128)) (continuation us n) else None)"
| "continuation _ (Suc n) = None"

text \<open>The code point a leading byte starts, and the number of bytes that follow it.\<close>

definition utf8_sequence :: "nat \<Rightarrow> text_unit list \<Rightarrow> (nat \<times> nat) option" where
  "utf8_sequence b us =
     (let start = (\<lambda>lead n least. case continuation us n of
            None \<Rightarrow> None
          | Some cs \<Rightarrow>
              let p = foldl (\<lambda>p c. 64 * p + c) lead cs in
              if least \<le> p \<and> p < 1114112 \<and> \<not> (55296 \<le> p \<and> p < 57344) then Some (p, n) else None)
      in if 192 \<le> b \<and> b < 224 then start (b - 192) 1 128
         else if 224 \<le> b \<and> b < 240 then start (b - 224) 2 2048
         else if 240 \<le> b \<and> b < 248 then start (b - 240) 3 65536
         else None)"

function decode_units :: "text_unit list \<Rightarrow> nat list" where
  "decode_units [] = []"
| "decode_units (Point p # us) = p # decode_units us"
| "decode_units (Byte b # us) =
     (if b < 128 then b # decode_units us
      else case utf8_sequence b us of
             Some (p, n) \<Rightarrow> p # decode_units (drop n us)
           | None \<Rightarrow> 65533 # decode_units us)"
  by pat_completeness auto
termination by (relation "measure length") auto

definition unquote :: "string \<Rightarrow> nat list" where
  "unquote s = decode_units (percent_units s)"

text \<open>\<open>strip()\<close> and \<open>lower()\<close> on code points; the Kelvin sign is the one character outside
  ASCII that \<open>lower\<close> takes to an ASCII letter alone.\<close>

definition is_space_point :: "nat \<Rightarrow> bool" where
  "is_space_point p \<longleftrightarrow> 9 \<le> p \<and> p \<le> 13 \<or> 28 \<le> p \<and> p \<le> 32 \<or> p = 133 \<or> p = 160 \<or> p = 5760
     \<or> 8192 \<le> p \<and> p \<le> 8202 \<or> p = 8232 \<or> p = 8233 \<or> p = 8239 \<or> p = 8287 \<or> p = 12288"

definition strip_points :: "nat list \<Rightarrow> nat list" where
  "strip_points ps = rev (dropWhile is_space_point (rev (dropWhile is_space_point ps)))"

definition lower_point :: "nat \<Rightarrow> nat" where
  "lower_point p = (if 65 \<le> p \<and> p \<le> 90 then p + 32 else if p = 8490 then 107 else p)"

subsection \<open>redact_url\<close>

definition REDACTED :: string where "REDACTED = ''***''"

definition SENSITIVE_QUERY_KEYS :: "string list" where
  "SENSITIVE_QUERY_KEYS = [''password'', ''username'', ''token'', ''api_key'']"

definition XTREAM_PATH_PREFIXES :: "string list" where
  "XTREAM_PATH_PREFIXES = [''live'', ''movie'', ''series'', ''timeshift'']"

text \<open>\<open>\A\d+(?:\.[A-Za-z0-9]+)?\Z\<close>.\<close>

definition is_alnum :: "char \<Rightarrow> bool" where
  "is_alnum c \<longleftrightarrow> is_alpha c \<or> is_digit c"

definition is_stream_id :: "string \<Rightarrow> bool" where
  "is_stream_id s =
     (case split_once (CHR ''.'') s of
        None \<Rightarrow> all_digits s
      | Some (a, b) \<Rightarrow> all_digits a \<and> b \<noteq> [] \<and> list_all is_alnum b)"

definition redact_netloc :: "string \<Rightarrow> string" where
  "redact_netloc netloc =
     (case rsplit_once (CHR ''@'') netloc of None \<Rightarrow> netloc | Some (_, host) \<Rightarrow> REDACTED @ ''@'' @ host)"

definition is_xtream_prefix :: "string \<Rightarrow> bool" where
  "is_xtream_prefix seg \<longleftrightarrow> lower seg \<in> set XTREAM_PATH_PREFIXES"

text \<open>One turn of the loop over the filled segments, on the segments and the flag.\<close>

definition mask_segment :: "nat \<Rightarrow> string list \<times> bool \<Rightarrow> string list \<times> bool" where
  "mask_segment j st =
     (let (segments, changed) = st in
      if segments ! j \<noteq> REDACTED then (segments[j := REDACTED], True) else (segments, changed))"

definition mask_turn :: "nat list \<Rightarrow> nat \<Rightarrow> string list \<times> bool \<Rightarrow> string list \<times> bool" where
  "mask_turn filled n st =
     (if is_xtream_prefix (fst st ! (filled ! n)) \<and> n + 2 < length filled
      then mask_segment (filled ! (n + 2)) (mask_segment (filled ! (n + 1)) st) else st)"

definition filled_indices :: "string list \<Rightarrow> nat list" where
  "filled_indices segments = filter (\<lambda>i. segments ! i \<noteq> []) [0..<length segments]"

fun join_with :: "char \<Rightarrow> string list \<Rightarrow> string" where
  "join_with c [] = []"
| "join_with c [s] = s"
| "join_with c (s # ss) = s @ c # join_with c ss"

definition redact_path :: "string \<Rightarrow> string" where
  "redact_path path =
     (if CHR ''/'' \<notin> set path then path
      else
        let segments = split_on (CHR ''/'') path;
            filled = filled_indices segments
        in if filled = [] then path
           else
             let (segments, changed) = fold (mask_turn filled) [0..<length filled] (segments, False);
                 (segments, changed) =
                   (if \<not> changed \<and> length filled = 3 \<and> \<not> is_xtream_prefix (segments ! (filled ! 0))
                       \<and> is_stream_id (segments ! (filled ! 2))
                    then (segments[filled ! 0 := REDACTED, filled ! 1 := REDACTED], True)
                    else (segments, changed))
             in if changed then join_with (CHR ''/'') segments else path)"

definition is_sensitive_name :: "string \<Rightarrow> bool" where
  "is_sensitive_name name \<longleftrightarrow> lower name \<in> set SENSITIVE_QUERY_KEYS \<or>
     map lower_point (strip_points (unquote name)) \<in> set (map (map of_char) SENSITIVE_QUERY_KEYS)"

text \<open>One parameter of a query string; the second value says that it was masked.\<close>

definition mask_parameter :: "string \<Rightarrow> string \<times> bool" where
  "mask_parameter part =
     (case split_once (CHR ''='') part of
        None \<Rightarrow> (part, False)
      | Some (name, _) \<Rightarrow> if is_sensitive_name name then (name @ ''='' @ REDACTED, True) else (part, False))"

definition redact_query :: "string \<Rightarrow> string" where
  "redact_query query =
     (if query = [] then query
      else let parts = map mask_parameter (split_on (CHR ''&'') query) in
           if list_ex snd parts then join_with (CHR ''&'') (map fst parts) else query)"

text \<open>The argument is \<open>None\<close> when it is not a string.\<close>

definition redact_url :: "string option \<Rightarrow> string" where
  "redact_url arg =
     (case arg of
        None \<Rightarrow> REDACTED
      | Some url \<Rightarrow>
          (case urlsplit url of
             None \<Rightarrow> REDACTED
           | Some parts \<Rightarrow>
               let netloc = redact_netloc (sp_netloc parts);
                   path = redact_path (sp_path parts);
                   query = redact_query (sp_query parts);
                   fragment = (if CHR ''='' \<in> set (sp_fragment parts) then redact_query (sp_fragment parts)
                               else sp_fragment parts)
               in if netloc = sp_netloc parts \<and> path = sp_path parts \<and> query = sp_query parts
                     \<and> fragment = sp_fragment parts
                  then url
                  else urlunsplit (sp_scheme parts) netloc path query fragment))"

subsection \<open>redact_headers\<close>

text \<open>A value of the mapping: a string, or another object with its truth value and its \<open>str\<close>.\<close>

datatype meta_value = Text string | Object bool string

definition SENSITIVE_HEADERS :: "string list" where
  "SENSITIVE_HEADERS = [''authorization'', ''cookie'', ''x-api-key'', ''proxy-authorization'', ''set-cookie'',
     ''x-dispatcharr-authorized'', ''x-dispatcharr-internal'']"

definition URL_VALUED_META_KEYS :: "string list" where
  "URL_VALUED_META_KEYS = [''path-info'', ''query-string'', ''raw-uri'', ''request-uri'', ''x-original-uri'']"

definition header_key :: "string \<Rightarrow> string" where
  "header_key name =
     (let key = map (\<lambda>c. if c = CHR ''_'' then CHR ''-'' else c) (lower (strip name)) in
      if starts_with ''http-'' key then drop 5 key else key)"

fun meta_text :: "meta_value \<Rightarrow> string" where
  "meta_text (Text s) = s"
| "meta_text (Object _ s) = s"

fun meta_true :: "meta_value \<Rightarrow> bool" where
  "meta_true (Text s) = (s \<noteq> [])"
| "meta_true (Object b _) = b"

fun meta_url :: "meta_value \<Rightarrow> string option" where
  "meta_url (Text s) = Some s"
| "meta_url (Object _ _) = None"

definition redact_header :: "string \<Rightarrow> meta_value \<Rightarrow> meta_value" where
  "redact_header name value =
     (let key = header_key name in
      if key \<in> set SENSITIVE_HEADERS then Text REDACTED
      else if key = ''query-string'' then
        (if meta_true value then
           (let masked = redact_url (Some (''?'' @ meta_text value)) in
            Text (if starts_with ''?'' masked then tl masked else masked))
         else value)
      else if key \<in> set URL_VALUED_META_KEYS then Text (redact_url (meta_url value))
      else value)"

definition redact_headers :: "(string \<times> meta_value) list option \<Rightarrow> (string \<times> meta_value) list" where
  "redact_headers headers =
     (case headers of
        None \<Rightarrow> []
      | Some items \<Rightarrow> fold (\<lambda>(name, value) redacted. dict_set redacted name (redact_header name value)) items [])"

subsection \<open>The catch-up views' truncation\<close>

text \<open>\<open>isprintable\<close> on the characters of the model, and the \<open>port\<close> of a network location: whether
  reading it raises.\<close>

definition is_printable :: "char \<Rightarrow> bool" where
  "is_printable c = (let n = (of_char c :: nat) in 32 \<le> n \<and> n < 127 \<or> 160 < n \<and> n \<noteq> 173)"

definition port_text :: "string \<Rightarrow> string" where
  "port_text netloc =
     (let host_info = after_at netloc in
      case split_once (CHR ''['') host_info of
        Some (_, bracketed) \<Rightarrow> snd (cut (CHR '':'') (snd (cut (CHR '']'') bracketed)))
      | None \<Rightarrow> snd (cut (CHR '':'') host_info))"

definition port_ok :: "string \<Rightarrow> bool" where
  "port_ok netloc =
     (let port = port_text netloc in port = [] \<or> all_digits port \<and> int (nat_of_digits port) \<le> 65535)"

text \<open>\<open>None\<close> is a falsy argument that is not a string, \<open>Some None\<close> a truthy one.\<close>

definition truncate_url :: "string option option \<Rightarrow> string option" where
  "truncate_url arg =
     (case arg of
        None \<Rightarrow> None
      | Some None \<Rightarrow> Some REDACTED
      | Some (Some url) \<Rightarrow>
          if url = [] then Some url
          else (case urlsplit url of
                  None \<Rightarrow> Some REDACTED
                | Some parts \<Rightarrow>
                    if sp_scheme parts = [] \<or> sp_netloc parts = [] then Some REDACTED
                    else if CHR ''@'' \<in> set (sp_path parts) \<or> CHR ''@'' \<in> set (sp_query parts)
                      \<or> CHR ''@'' \<in> set (sp_fragment parts) then Some REDACTED
                    else
                      let host = after_at (sp_netloc parts) in
                      if \<not> port_ok (sp_netloc parts) then Some REDACTED
                      else if host = [] \<or> \<not> list_all is_printable host
                        \<or> list_ex (\<lambda>c. c \<in> set ''%; '' \<or> c = CHR 0x5C \<or> c = CHR 0x09) host then Some REDACTED
                      else Some (sp_scheme parts @ ''://'' @ host @ ''/...'')))"

end
