(* ===== verification/Redaction_Properties.thy ===== *)
theory Redaction_Properties
  imports Redaction
begin

section \<open>What redaction keeps out of the logs\<close>

subsection \<open>Splitting and joining\<close>

lemma cut_join: "c \<notin> set a \<Longrightarrow> cut c (a @ c # b) = (a, b)"
  by (simp add: cut_def split_once_join)

lemma cut_absent: "c \<notin> set a \<Longrightarrow> cut c a = (a, [])"
  by (simp add: cut_def split_once_def)

lemma split_on_ne [simp]: "split_on c s \<noteq> []"
  by (induction s) (auto split: list.splits)

lemma join_with_Cons: "ss \<noteq> [] \<Longrightarrow> join_with c (s # ss) = s @ c # join_with c ss"
  by (cases ss) simp_all

lemma join_with_Cons_Cons: "join_with c ((x # s) # ss) = x # join_with c (s # ss)"
  by (cases ss) simp_all

lemma join_split_on [simp]: "join_with c (split_on c s) = s"
proof (induction s)
  case (Cons x s)
  then show ?case
    by (cases "split_on c s") (auto simp: join_with_Cons_Cons join_with_Cons)
qed simp

lemma split_on_join:
  "ss \<noteq> [] \<Longrightarrow> list_all (\<lambda>s. c \<notin> set s) ss \<Longrightarrow> split_on c (join_with c ss) = ss"
proof (induction ss)
  case (Cons s ss)
  then show ?case by (cases "ss = []") (simp_all add: split_on_none split_on_append join_with_Cons)
qed simp

subsection \<open>URLs put together from clean parts\<close>

definition free_of :: "string \<Rightarrow> string \<Rightarrow> bool" where
  "free_of ds s \<longleftrightarrow> list_all (\<lambda>c. c \<notin> set ds \<and> 32 < (of_char c :: nat)) s"

lemma free_of_Nil [simp]: "free_of ds []"
  and free_of_Cons [simp]: "free_of ds (c # s) \<longleftrightarrow> c \<notin> set ds \<and> 32 < (of_char c :: nat) \<and> free_of ds s"
  and free_of_append [simp]: "free_of ds (s @ t) \<longleftrightarrow> free_of ds s \<and> free_of ds t"
  by (simp_all add: free_of_def)

lemma free_of_notin: "free_of ds s \<Longrightarrow> c \<in> set ds \<Longrightarrow> c \<notin> set s"
  by (auto simp: free_of_def list_all_iff)

lemma free_of_subset: "free_of ds s \<Longrightarrow> set es \<subseteq> set ds \<Longrightarrow> free_of es s"
  by (auto simp: free_of_def list_all_iff)

lemma clean_visible: "free_of [] s \<Longrightarrow> clean_url s = s"
  by (cases s) (auto simp: clean_url_def free_of_def list_all_iff intro!: filter_True)

lemma takeWhile_netloc:
  assumes "free_of ''/?#'' n" and "ends_netloc c"
  shows "takeWhile (\<lambda>c. \<not> ends_netloc c) (n @ c # s) = n" and "dropWhile (\<lambda>c. \<not> ends_netloc c) (n @ c # s) = c # s"
proof -
  have "\<And>x. x \<in> set n \<Longrightarrow> \<not> ends_netloc x" using assms(1) by (auto simp: free_of_def list_all_iff ends_netloc_def)
  then show "takeWhile (\<lambda>c. \<not> ends_netloc c) (n @ c # s) = n" "dropWhile (\<lambda>c. \<not> ends_netloc c) (n @ c # s) = c # s"
    using assms(2) by (simp_all add: takeWhile_append2 dropWhile_append2)
qed

lemma split_web_scheme:
  "scheme \<in> {''http'', ''https''} \<Longrightarrow> split_scheme (scheme @ CHR '':'' # s) = (scheme, s)"
  by (auto simp: split_scheme_def split_once_def is_alpha_def is_scheme_char_def lower_def lower_char_def Let_def)

lemma urlsplit_urlunsplit:
  assumes "scheme \<in> {''http'', ''https''}" and "netloc \<noteq> []" and "free_of ''/?#[]'' netloc"
    and "free_of ''?#'' path" and "starts_with ''/'' path" and "free_of ''#'' query" and "free_of [] fragment"
  shows "urlsplit (urlunsplit scheme netloc path query fragment) =
    Some \<lparr>sp_scheme = scheme, sp_netloc = netloc, sp_path = path, sp_query = query, sp_fragment = fragment\<rparr>"
proof -
  obtain p where p: "path = CHR ''/'' # p" using assms(5) by (auto simp: starts_with_iff)
  have free: "free_of [] netloc" "free_of ''/?#'' netloc" "free_of [] path" "free_of [] query" "free_of [] scheme"
    using assms by (auto elim: free_of_subset)
  have brackets: "netloc_ok netloc"
    using assms(3) by (auto simp: netloc_ok_def dest: free_of_notin)
  define tail where "tail = path @ (if query = [] then [] else CHR ''?'' # query)"
  define url where "url = tail @ (if fragment = [] then [] else CHR ''#'' # fragment)"
  have un: "urlunsplit scheme netloc path query fragment = scheme @ CHR '':'' # ''//'' @ netloc @ url"
    using assms(1,2,5) by (auto simp: urlunsplit_def url_def tail_def)
  have clean: "clean_url (scheme @ CHR '':'' # ''//'' @ netloc @ url) = scheme @ CHR '':'' # ''//'' @ netloc @ url"
    using free assms(7) by (intro clean_visible) (simp add: url_def tail_def)
  have nl: "split_netloc (''//'' @ netloc @ url) = (netloc, url)"
    using takeWhile_netloc [OF free(2), of "CHR ''/''"] p
    by (simp add: split_netloc_def url_def tail_def starts_with_def ends_netloc_def)
  have "CHR ''#'' \<notin> set tail"
    using assms(4,6) by (auto simp: tail_def dest: free_of_notin)
  then have frag: "cut (CHR ''#'') url = (tail, fragment)"
    by (auto simp: url_def cut_join cut_absent)
  have "CHR ''?'' \<notin> set path" using assms(4) by (auto dest: free_of_notin)
  then have quer: "cut (CHR ''?'') tail = (path, query)"
    by (auto simp: tail_def cut_join cut_absent)
  show ?thesis
    unfolding urlsplit_def un clean Let_def split_web_scheme [OF assms(1)] prod.case nl frag quer
    using brackets by simp
qed

text \<open>On such a URL the text is the redacted parts put together, whether or not anything changed.\<close>

lemma redact_url_parts:
  assumes "scheme \<in> {''http'', ''https''}" and "netloc \<noteq> []" and "free_of ''/?#[]'' netloc"
    and "free_of ''?#'' path" and "starts_with ''/'' path" and "free_of ''#'' query" and "free_of [] fragment"
    and "fragment = [] \<or> CHR ''='' \<in> set fragment"
  shows "redact_url (Some (urlunsplit scheme netloc path query fragment)) =
    urlunsplit scheme (redact_netloc netloc) (redact_path path) (redact_query query) (redact_query fragment)"
  using assms(8) by (auto simp: redact_url_def urlsplit_urlunsplit [OF assms(1-7)] Let_def redact_query_def)

subsection \<open>Queries\<close>

definition params_text :: "(string \<times> string) list \<Rightarrow> string" where
  "params_text ps = join_with (CHR ''&'') (map (\<lambda>(n, v). n @ CHR ''='' # v) ps)"

definition clean_params :: "(string \<times> string) list \<Rightarrow> bool" where
  "clean_params ps \<longleftrightarrow> list_all (\<lambda>(n, v). free_of ''#&='' n \<and> free_of ''#&'' v) ps"

definition masked_params :: "(string \<times> string) list \<Rightarrow> (string \<times> string) list" where
  "masked_params ps = map (\<lambda>(n, v). (n, if is_sensitive_name n then REDACTED else v)) ps"

lemma clean_paramD:
  assumes "clean_params ps" and "(n, v) \<in> set ps"
  shows "free_of ''#&='' n" and "free_of ''#&'' v"
  using assms by (auto simp: clean_params_def list_all_iff)

lemma free_join: "free_of (ds) (join_with c ss) \<longleftrightarrow>
    list_all (free_of ds) ss \<and> (length ss < 2 \<or> c \<notin> set ds \<and> 32 < (of_char c :: nat))"
proof (induction ss)
  case (Cons s ss)
  then show ?case by (cases ss) auto
qed simp

lemma params_text_clean:
  assumes "clean_params ps"
  shows "free_of ''#'' (params_text ps)" and "params_text ps = [] \<or> CHR ''='' \<in> set (params_text ps)"
proof -
  show "free_of ''#'' (params_text ps)"
  proof -
    have "free_of ''#'' n \<and> free_of ''#'' v" if "(n, v) \<in> set ps" for n v
      using free_of_subset [OF clean_paramD(1) [OF assms that]] free_of_subset [OF clean_paramD(2) [OF assms that]] by simp
    then show ?thesis by (auto simp: params_text_def free_join list_all_iff)
  qed
  show "params_text ps = [] \<or> CHR ''='' \<in> set (params_text ps)"
    by (cases ps rule: remdups_adj.cases) (auto simp: params_text_def)
qed

lemma params_text_Nil [simp]: "params_text ps = [] \<longleftrightarrow> ps = []"
  by (cases ps rule: remdups_adj.cases) (auto simp: params_text_def)

lemma masked_params_Nil [simp]: "masked_params ps = [] \<longleftrightarrow> ps = []"
  by (simp add: masked_params_def)

lemma redact_query_params:
  assumes "clean_params ps"
  shows "redact_query (params_text ps) = params_text (masked_params ps)"
proof (cases "ps = []")
  case True
  then show ?thesis by (simp add: redact_query_def params_text_def masked_params_def)
next
  case ne: False
  let ?render = "\<lambda>(n, v). n @ CHR ''='' # v"
  have clean: "CHR ''='' \<notin> set n \<and> CHR ''&'' \<notin> set n \<and> CHR ''&'' \<notin> set v" if "(n, v) \<in> set ps" for n v
    using clean_paramD [OF assms that] by (auto dest: free_of_notin)
  have split: "split_on (CHR ''&'') (params_text ps) = map ?render ps"
    unfolding params_text_def using clean ne by (intro split_on_join) (auto simp: list_all_iff)
  have one: "mask_parameter (?render p) = (?render (fst p, if is_sensitive_name (fst p) then REDACTED else snd p), is_sensitive_name (fst p))"
    if "p \<in> set ps" for p
    using clean that by (cases p) (auto simp: mask_parameter_def split_once_join)
  have all: "map mask_parameter (map ?render ps) = map (\<lambda>p. (?render (fst p, if is_sensitive_name (fst p) then REDACTED else snd p), is_sensitive_name (fst p))) ps"
    using one by simp
  have out: "join_with (CHR ''&'') (map fst (map mask_parameter (map ?render ps))) = params_text (masked_params ps)"
    unfolding all by (simp add: params_text_def masked_params_def case_prod_beta comp_def)
  have "params_text ps \<noteq> []" using ne by simp
  moreover have "masked_params ps = ps" if "\<not> list_ex snd (map mask_parameter (map ?render ps))"
    using that unfolding all by (auto simp: masked_params_def list_ex_iff case_prod_beta intro!: map_idI)
  ultimately show ?thesis
    unfolding redact_query_def Let_def split using out by simp
qed

subsection \<open>Paths\<close>

definition path_text :: "string list \<Rightarrow> string" where
  "path_text segs = concat (map (Cons (CHR ''/'')) segs)"


lemma filled_indices_append:
  "filled_indices (xs @ ys) = filled_indices xs @ map (\<lambda>i. i + length xs) (filled_indices ys)"
proof -
  have "[0..<length (xs @ ys)] = [0..<length xs] @ map (\<lambda>i. i + length xs) [0..<length ys]"
    using upt_add_eq_append [of 0 "length xs" "length ys"] map_add_upt [of "length xs" "length ys"]
    by (simp add: add.commute)
  moreover have "filter (\<lambda>i. (xs @ ys) ! i \<noteq> []) [0..<length xs] = filled_indices xs"
    by (auto simp: filled_indices_def nth_append intro!: filter_cong)
  ultimately show ?thesis
    by (simp add: filled_indices_def filter_map comp_def nth_append)
qed

lemma filled_all: "[] \<notin> set xs \<Longrightarrow> filled_indices xs = [0..<length xs]"
  by (auto simp: filled_indices_def intro!: filter_True) (metis nth_mem)

text \<open>The loop: the segments do not depend on the flag, and an unset flag means an untouched list.\<close>

lemma mask_turn_fst: "fst s = fst t \<Longrightarrow> fst (mask_turn fs n s) = fst (mask_turn fs n t)"
  by (auto simp: mask_turn_def mask_segment_def split: prod.splits)

lemma mask_turns_fst: "fst s = fst t \<Longrightarrow> fst (fold (mask_turn fs) ns s) = fst (fold (mask_turn fs) ns t)"
proof (induction ns arbitrary: s t)
  case (Cons n ns)
  show ?case using Cons.IH [OF mask_turn_fst [OF Cons.prems]] by simp
qed simp

lemma mask_turn_unset: "snd st \<or> fst st = segs \<Longrightarrow> snd (mask_turn fs n st) \<or> fst (mask_turn fs n st) = segs"
  by (auto simp: mask_turn_def mask_segment_def split: prod.splits)

lemma mask_turns_unset: "snd st \<or> fst st = segs \<Longrightarrow> snd (fold (mask_turn fs) ns st) \<or> fst (fold (mask_turn fs) ns st) = segs"
proof (induction ns arbitrary: st)
  case (Cons n ns)
  show ?case using Cons.IH [OF mask_turn_unset [OF Cons.prems]] by simp
qed simp

definition masked_path :: "string list \<Rightarrow> string list" where
  "masked_path segs =
     (let fs = filled_indices segs;
          (out, changed) = fold (mask_turn fs) [0..<length fs] (segs, False)
      in if \<not> changed \<and> length fs = 3 \<and> \<not> is_xtream_prefix (out ! (fs ! 0)) \<and> is_stream_id (out ! (fs ! 2))
         then out[fs ! 0 := REDACTED, fs ! 1 := REDACTED] else out)"

lemma redact_path_masked:
  assumes "CHR ''/'' \<in> set path" and "filled_indices (split_on (CHR ''/'') path) \<noteq> []"
  shows "redact_path path = join_with (CHR ''/'') (masked_path (split_on (CHR ''/'') path))"
proof -
  let ?segs = "split_on (CHR ''/'') path" and ?fs = "filled_indices (split_on (CHR ''/'') path)"
  obtain out changed where run: "fold (mask_turn ?fs) [0..<length ?fs] (?segs, False) = (out, changed)"
    by (rule prod.exhaust)
  have "changed \<or> out = ?segs" using mask_turns_unset [of "(?segs, False)" ?segs ?fs "[0..<length ?fs]"] run by simp
  then show ?thesis
    using assms by (auto simp: redact_path_def masked_path_def Let_def run)
qed

text \<open>A route and the two segments after it, below a sub-path whose segments are no routes.\<close>

lemma masked_route:
  fixes kind u p :: string and sub rest :: "string list"
  assumes route: "is_xtream_prefix kind" and sub: "[] \<notin> set sub" "list_all (\<lambda>s. \<not> is_xtream_prefix s) sub"
    and u: "u \<noteq> []" and p: "p \<noteq> []"
  defines "fs \<equiv> map Suc [0..<length sub + 3] @ map (\<lambda>i. i + (length sub + 4)) (filled_indices rest)"
  shows "filled_indices ([] # sub @ kind # u # p # rest) = fs"
    and "masked_path ([] # sub @ kind # u # p # rest) =
      fst (fold (mask_turn fs) [Suc (length sub)..<length fs] ([] # sub @ kind # REDACTED # REDACTED # rest, True))"
proof -
  let ?segs = "[] # sub @ kind # u # p # rest" and ?k = "length sub"
  have kind: "kind \<noteq> []" using route by (auto simp: is_xtream_prefix_def XTREAM_PATH_PREFIXES_def lower_def)
  have head: "filled_indices (sub @ [kind, u, p]) = [0..<?k + 3]" and one: "filled_indices [[]] = []"
    using sub(1) kind u p by (subst filled_all) (auto simp: filled_indices_def eval_nat_numeral)
  have shape: "?segs = [[]] @ ((sub @ [kind, u, p]) @ rest)" by simp
  show fs: "filled_indices ?segs = fs"
    unfolding shape filled_indices_append [of "[[]]"] filled_indices_append [of "sub @ [kind, u, p]"] head one fs_def
    by (simp add: comp_def ac_simps)
  have len: "?k + 3 \<le> length fs" by (simp add: fs_def)
  have at: "fs ! n = Suc n" if "n < ?k + 3" for n using that by (simp add: fs_def nth_append)
  have skip: "fold (mask_turn fs) [0..<m] (?segs, False) = (?segs, False)" if "m \<le> ?k" for m
    using that
  proof (induction m)
    case (Suc m)
    then have "\<not> is_xtream_prefix (?segs ! (fs ! m))"
      using sub(2) at [of m] by (simp add: nth_append list_all_length)
    then show ?case using Suc by (simp add: mask_turn_def)
  qed simp
  have "fst (mask_turn fs ?k (?segs, False)) = [] # sub @ kind # REDACTED # REDACTED # rest"
    using route len at [of ?k] at [of "Suc ?k"] at [of "Suc (Suc ?k)"]
    by (auto simp: mask_turn_def mask_segment_def nth_append list_update_append)
  moreover have "[0..<length fs] = [0..<?k] @ ?k # [Suc ?k..<length fs]"
    using len upt_add_eq_append [of 0 ?k "length fs - ?k"] by (simp add: upt_conv_Cons)
  ultimately have out: "fst (fold (mask_turn fs) [0..<length fs] (?segs, False)) =
      fst (fold (mask_turn fs) [Suc ?k..<length fs] ([] # sub @ kind # REDACTED # REDACTED # rest, True))" (is "_ = fst ?out")
    using skip [of ?k] by (simp add: mask_turns_fst)
  have root: "is_xtream_prefix (fst ?out ! (fs ! 0))" if "length fs = 3"
  proof -
    have "?k = 0" using len that by simp
    then show ?thesis using that route at [of 0] by (simp add: upt_rec mask_turn_def)
  qed
  show "masked_path ?segs = fst ?out"
    unfolding masked_path_def fs Let_def using out root by (auto simp: case_prod_beta)
qed

lemma split_path_text: "segs \<noteq> [] \<Longrightarrow> list_all (free_of ''/'') segs \<Longrightarrow> split_on (CHR ''/'') (path_text segs) = [] # segs"
proof (induction segs)
  case (Cons s segs)
  then have "CHR ''/'' \<notin> set s" by (auto dest: free_of_notin)
  with Cons show ?case
    by (cases segs) (simp_all add: path_text_def split_on_none split_on_append)
qed simp

lemma redact_path_route:
  assumes route: "is_xtream_prefix kind" and sub: "[] \<notin> set sub" "list_all (\<lambda>s. \<not> is_xtream_prefix s) sub"
    and ne: "u \<noteq> []" "p \<noteq> []" "u' \<noteq> []" "p' \<noteq> []"
    and clean: "list_all (free_of ''/'') (sub @ kind # u # p # rest)" "list_all (free_of ''/'') [u', p']"
  shows "redact_path (path_text (sub @ kind # u # p # rest)) = redact_path (path_text (sub @ kind # u' # p' # rest))"
proof -
  have one: "redact_path (path_text (sub @ kind # u # p # rest)) =
      join_with (CHR ''/'') (masked_path ([] # sub @ kind # u # p # rest))"
    if "u \<noteq> []" "p \<noteq> []" "list_all (free_of ''/'') (sub @ kind # u # p # rest)" for u p
  proof -
    have split: "split_on (CHR ''/'') (path_text (sub @ kind # u # p # rest)) = [] # sub @ kind # u # p # rest"
      using that(3) by (intro split_path_text) simp_all
    have "CHR ''/'' \<in> set (path_text (sub @ kind # u # p # rest))" by (simp add: path_text_def)
    then show ?thesis
      using redact_path_masked [of "path_text (sub @ kind # u # p # rest)"] masked_route(1) [OF route sub that(1,2)]
      by (simp add: split)
  qed
  show ?thesis
    using one [of u p] one [of u' p'] ne clean
    by (simp add: masked_route(2) [OF route sub ne(1,2)] masked_route(2) [OF route sub ne(3,4)])
qed

subsection \<open>The properties\<close>

text \<open>An Xtream stream URL with its four carriers of credentials: the userinfo, if it has one, two path
  segments after the route, and the parameters of the query and of the fragment.\<close>

definition netloc_text :: "string option \<Rightarrow> string \<Rightarrow> string" where
  "netloc_text userinfo host = (case userinfo of Some u \<Rightarrow> u @ ''@'' @ host | None \<Rightarrow> host)"

definition stream_url ::
  "string \<Rightarrow> string option \<Rightarrow> string \<Rightarrow> string list \<Rightarrow> (string \<times> string) list \<Rightarrow> (string \<times> string) list \<Rightarrow> string" where
  "stream_url scheme userinfo host segs query fragment =
     urlunsplit scheme (netloc_text userinfo host) (path_text segs) (params_text query) (params_text fragment)"

definition clean_stream_url ::
  "string \<Rightarrow> string option \<Rightarrow> string \<Rightarrow> string list \<Rightarrow> (string \<times> string) list \<Rightarrow> (string \<times> string) list \<Rightarrow> bool" where
  "clean_stream_url scheme userinfo host segs query fragment \<longleftrightarrow>
     scheme \<in> {''http'', ''https''} \<and> (case userinfo of Some u \<Rightarrow> free_of ''/?#[]'' u | None \<Rightarrow> True) \<and>
     host \<noteq> [] \<and> free_of ''/?#[]@'' host \<and>
     list_all (free_of ''/?#'') segs \<and> clean_params query \<and> clean_params fragment"

text \<open>The same parameters, the values of the sensitive ones aside.\<close>

definition same_public :: "(string \<times> string) list \<Rightarrow> (string \<times> string) list \<Rightarrow> bool" where
  "same_public ps qs \<longleftrightarrow> list_all2 (\<lambda>(n, v) (m, w). n = m \<and> (is_sensitive_name n \<or> v = w)) ps qs"

lemma same_public_masked: "same_public ps qs \<Longrightarrow> masked_params ps = masked_params qs"
  unfolding same_public_def masked_params_def by (induction rule: list_all2_induct) auto

lemma redact_userinfo: "CHR ''@'' \<notin> set host \<Longrightarrow> redact_netloc (u @ CHR ''@'' # host) = REDACTED @ CHR ''@'' # host"
  by (simp add: redact_netloc_def rsplit_once_join)

lemma redact_netloc_text:
  "CHR ''@'' \<notin> set host \<Longrightarrow> redact_netloc (netloc_text userinfo host) = netloc_text (map_option (\<lambda>_. REDACTED) userinfo) host"
  by (cases userinfo) (simp_all add: netloc_text_def redact_userinfo, simp add: redact_netloc_def rsplit_once_def split_once_def)

lemma redact_stream_url:
  assumes "clean_stream_url scheme userinfo host segs query fragment" and "segs \<noteq> []"
  shows "redact_url (Some (stream_url scheme userinfo host segs query fragment)) =
    urlunsplit scheme (netloc_text (map_option (\<lambda>_. REDACTED) userinfo) host) (redact_path (path_text segs))
      (params_text (masked_params query)) (params_text (masked_params fragment))"
proof -
  have path: "free_of ''?#'' (path_text segs)" if "list_all (free_of ''/?#'') segs" for segs
    using that by (induction segs) (auto simp: path_text_def intro: free_of_subset [of "''/?#''"])
  have host: "CHR ''@'' \<notin> set host" and net: "free_of ''/?#[]'' (netloc_text userinfo host)" "netloc_text userinfo host \<noteq> []"
    using assms(1) free_of_subset [of "''/?#[]@''" host "''/?#[]''"]
    by (auto simp: clean_stream_url_def netloc_text_def dest: free_of_notin split: option.splits)
  have ps: "clean_params query" "clean_params fragment" using assms(1) by (simp_all add: clean_stream_url_def)
  have "starts_with ''/'' (path_text segs)" using assms(2) by (cases segs) (simp_all add: path_text_def starts_with_def)
  moreover have "free_of [] (params_text fragment)"
    using free_of_subset [OF params_text_clean(1) [OF ps(2)]] by simp
  ultimately show ?thesis
    using assms(1) path [of segs] redact_url_parts [OF _ net(2,1), of scheme "path_text segs" "params_text query" "params_text fragment"]
      params_text_clean [OF ps(1)] params_text_clean [OF ps(2)] redact_query_params [OF ps(1)] redact_query_params [OF ps(2)]
      redact_netloc_text [OF host]
    by (simp add: stream_url_def clean_stream_url_def)
qed

text \<open>C17. What \<open>redact_url\<close> prints of a stream URL says nothing about its credentials. Two URLs that
  differ only in the userinfo, if they have one, in the two segments after the route (below a sub-path
  with no segment empty or named like a route; both segments filled) and in the values of the sensitive
  parameters of the query and of the fragment are printed as the same text. The URLs are http or https,
  the host is there and not in brackets, the query and the fragment are lists of \<open>name=value\<close>
  parameters, and no part holds white space, a control character or a character that would end it.\<close>

theorem redaction_hides_the_credentials:
  assumes "clean_stream_url scheme info host (sub @ kind # user # pass # rest) query fragment"
    and "clean_stream_url scheme info' host (sub @ kind # user' # pass' # rest) query' fragment'"
    and "is_xtream_prefix kind" and "[] \<notin> set sub" and "list_all (\<lambda>s. \<not> is_xtream_prefix s) sub"
    and "user \<noteq> []" and "pass \<noteq> []" and "user' \<noteq> []" and "pass' \<noteq> []"
    and "same_public query query'" and "same_public fragment fragment'"
    and "info = None \<longleftrightarrow> info' = None"
  shows "redact_url (Some (stream_url scheme info host (sub @ kind # user # pass # rest) query fragment)) =
    redact_url (Some (stream_url scheme info' host (sub @ kind # user' # pass' # rest) query' fragment'))"
proof -
  have clean: "list_all (free_of ''/'') segs" if "list_all (free_of ''/?#'') segs" for segs
    using that by (auto simp: list_all_iff intro: free_of_subset [of "''/?#''"])
  have "redact_path (path_text (sub @ kind # user # pass # rest)) = redact_path (path_text (sub @ kind # user' # pass' # rest))"
    using assms(1,2) clean [of "sub @ kind # user # pass # rest"] clean [of "[user', pass']"]
    by (intro redact_path_route assms) (simp_all add: clean_stream_url_def)
  moreover have "map_option (\<lambda>_. REDACTED) info = map_option (\<lambda>_. REDACTED) info'"
    using assms(12) by (cases info; cases info') simp_all
  ultimately show ?thesis
    by (simp add: redact_stream_url [OF assms(1)] redact_stream_url [OF assms(2)]
      same_public_masked [OF assms(10)] same_public_masked [OF assms(11)])
qed

text \<open>A path whose segments are all filled, and the loop on it.\<close>

lemma redact_filled_path:
  assumes "segs \<noteq> []" and "[] \<notin> set segs" and "list_all (free_of ''/'') segs"
  shows "redact_path (path_text segs) = join_with (CHR ''/'') (masked_path ([] # segs))"
    and "filled_indices ([] # segs) = map Suc [0..<length segs]"
proof -
  show filled: "filled_indices ([] # segs) = map Suc [0..<length segs]"
    using filled_indices_append [of "[[]]" segs] filled_all [OF assms(2)] by (simp add: filled_indices_def)
  have "CHR ''/'' \<in> set (path_text segs)" using assms(1) by (cases segs) (simp_all add: path_text_def)
  then show "redact_path (path_text segs) = join_with (CHR ''/'') (masked_path ([] # segs))"
    using redact_path_masked [of "path_text segs"] split_path_text [OF assms(1,3)] filled assms(1) by simp
qed

lemma path_text_join: "path_text segs = join_with (CHR ''/'') ([] # segs)"
proof (induction segs)
  case (Cons s segs)
  then show ?case by (cases segs) (simp_all add: path_text_def join_with_Cons)
qed (simp add: path_text_def)

lemma redacted_no_route [simp]: "\<not> is_xtream_prefix REDACTED" "\<not> is_xtream_prefix ''***''" "is_xtream_prefix ''live''"
  by (simp_all add: is_xtream_prefix_def REDACTED_def XTREAM_PATH_PREFIXES_def lower_def lower_char_def)

text \<open>Two shapes of server URL from which the password is printed. Below a sub-path that is
  itself named like a route the mask takes the second route name and the user name for the
  credentials; and the bare root route below a sub-path is printed as it is.\<close>

theorem subpaths_leak_the_password:
  assumes "free_of ''/?#'' user" and "free_of ''/?#'' pass" and "free_of ''/?#'' vid" and "free_of ''/?#'' sub"
    and "user \<noteq> []" and "pass \<noteq> []" and "vid \<noteq> []" and "sub \<noteq> []"
    and "\<not> is_xtream_prefix user" and "\<not> is_xtream_prefix pass" and "\<not> is_xtream_prefix sub"
  shows "redact_path (path_text [''live'', ''live'', user, pass, vid]) =
      path_text [''live'', REDACTED, REDACTED, pass, vid] \<and>
    redact_path (path_text [sub, user, pass, vid]) = path_text [sub, user, pass, vid]"
proof
  have clean: "list_all (free_of ''/'') [user, pass, vid, sub, ''live'']"
    using assms(1-4) by (auto intro: free_of_subset [of "''/?#''"])
  show "redact_path (path_text [''live'', ''live'', user, pass, vid]) = path_text [''live'', REDACTED, REDACTED, pass, vid]"
    using assms clean
    by (subst redact_filled_path(1))
      (auto simp: path_text_join masked_path_def redact_filled_path(2) mask_turn_def mask_segment_def Let_def upt_rec nth_Cons')
  show "redact_path (path_text [sub, user, pass, vid]) = path_text [sub, user, pass, vid]"
    using assms clean
    by (subst redact_filled_path(1))
      (auto simp: path_text_join masked_path_def redact_filled_path(2) mask_turn_def mask_segment_def Let_def upt_rec nth_Cons')
qed

subsection \<open>Headers and the truncated form\<close>

text \<open>Each name of the mapping has its own redacted value, and nothing is lost.\<close>

lemma redact_headers_map:
  assumes "distinct (map fst items)"
  shows "map_of (redact_headers (Some items)) = (\<lambda>n. map_option (redact_header n) (map_of items n))"
proof -
  have "map_of (fold (\<lambda>(name, value) red. dict_set red name (redact_header name value)) items acc) =
      map_of acc ++ (\<lambda>n. map_option (redact_header n) (map_of items n))" for acc
    using assms
  proof (induction items arbitrary: acc)
    case (Cons x xs)
    then have "map_of xs (fst x) = None" by (auto simp: map_of_eq_None_iff)
    with Cons show ?case
      by (cases x) (auto simp: map_of_dict_set map_add_def fun_eq_iff split: option.splits)
  qed simp
  then show ?thesis by (simp add: redact_headers_def)
qed

lemma redact_query_string:
  assumes "clean_params ps" and "header_key name = ''query-string''"
  shows "redact_header name (Text (params_text ps)) = Text (params_text (masked_params ps))"
proof (cases "params_text ps = []")
  case True
  then have "ps = []" by simp
  then show ?thesis
    using assms(2) by (simp add: redact_header_def masked_params_def params_text_def SENSITIVE_HEADERS_def)
next
  case False
  let ?q = "params_text ps"
  have hash: "CHR ''#'' \<notin> set ?q" and clean: "clean_url (CHR ''?'' # ?q) = CHR ''?'' # ?q"
    using params_text_clean(1) [OF assms(1)] free_of_subset [of "''#''" ?q "[]"]
    by (auto intro!: clean_visible dest: free_of_notin)
  have scheme: "split_scheme (CHR ''?'' # s) = ([], CHR ''?'' # s)" for s
    by (auto simp: split_scheme_def split_once_def is_alpha_def split: option.splits)
  have "urlsplit (CHR ''?'' # ?q) =
      Some \<lparr>sp_scheme = [], sp_netloc = [], sp_path = [], sp_query = ?q, sp_fragment = []\<rparr>"
    using cut_join [of "CHR ''?''" "[]" ?q] cut_absent [of "CHR ''#''" "CHR ''?'' # ?q"] hash
    by (simp add: urlsplit_def clean scheme split_netloc_def starts_with_def netloc_ok_def)
  then have "redact_url (Some (CHR ''?'' # ?q)) = CHR ''?'' # redact_query ?q"
    using False redact_query_params [OF assms(1)]
    by (auto simp: redact_url_def Let_def redact_netloc_def rsplit_once_def split_once_def redact_path_def urlunsplit_def
      starts_with_def)
  then show ?thesis
    using False assms(2) redact_query_params [OF assms(1)]
    by (simp add: redact_header_def SENSITIVE_HEADERS_def starts_with_def)
qed

text \<open>Two values of one header that differ in what must not be printed only.\<close>

definition same_shown :: "string \<Rightarrow> meta_value \<Rightarrow> meta_value \<Rightarrow> bool" where
  "same_shown name v w \<longleftrightarrow> header_key name \<in> set SENSITIVE_HEADERS \<or> v = w \<or>
     header_key name = ''query-string'' \<and>
       (\<exists>ps qs. v = Text (params_text ps) \<and> w = Text (params_text qs) \<and> clean_params ps \<and> clean_params qs \<and> same_public ps qs)"

text \<open>What \<open>redact_headers\<close> returns of a request's headers says nothing about its secrets. Two
  mappings with the same names, whose values differ only under the sensitive names, in any spelling
  of them, and in the values of the sensitive parameters of the query string, come out equal; and
  no other entry is lost or changed.\<close>

theorem header_log_hides_the_secrets:
  assumes "list_all2 (\<lambda>(n, v) (m, w). n = m \<and> same_shown n v w) items items'" and "distinct (map fst items)"
  shows "redact_headers (Some items) = redact_headers (Some items') \<and>
    map_of (redact_headers (Some items)) = (\<lambda>n. map_option (redact_header n) (map_of items n))"
proof
  have one: "redact_header n v = redact_header n w" if "same_shown n v w" for n v w
  proof (cases "header_key n \<in> set SENSITIVE_HEADERS \<or> v = w")
    case True
    then show ?thesis by (auto simp: redact_header_def)
  next
    case False
    with that show ?thesis
      unfolding same_shown_def by (elim disjE exE conjE) (simp_all add: redact_query_string same_public_masked)
  qed
  have "fold (\<lambda>(n, v) red. dict_set red n (redact_header n v)) items acc =
      fold (\<lambda>(n, v) red. dict_set red n (redact_header n v)) items' acc" for acc
    using assms(1) by (induction arbitrary: acc rule: list_all2_induct) (auto simp: one)
  then show "redact_headers (Some items) = redact_headers (Some items')" by (simp add: redact_headers_def)
qed (rule redact_headers_map [OF assms(2)])

lemma after_at_clean: "CHR ''@'' \<notin> set (after_at netloc)"
proof (cases "split_once (CHR ''@'') (rev netloc)")
  case None
  then show ?thesis by (simp add: after_at_def rsplit_once_def split_once_def split: if_splits)
next
  case (Some ab)
  then obtain a b where "split_once (CHR ''@'') (rev netloc) = Some (a, b)" by (cases ab) simp
  then show ?thesis using split_once_SomeD(2) by (fastforce simp: after_at_def rsplit_once_def)
qed

text \<open>The catch-up views print at most the scheme and the host of a URL, and never anything from
  the userinfo, the path, the query or the fragment. Whatever the text is, what is printed is the
  mask, nothing, or \<open>scheme://host/...\<close> with the host that follows the last at sign of the network
  location, with no at sign, percent sign, backslash, semicolon, space or control character in
  it.\<close>

theorem truncated_url_is_scheme_and_host:
  "case truncate_url (Some (Some url)) of
     None \<Rightarrow> False
   | Some out \<Rightarrow> out = REDACTED \<or> (url = [] \<and> out = []) \<or>
       (\<exists>parts. urlsplit url = Some parts \<and> out = sp_scheme parts @ ''://'' @ after_at (sp_netloc parts) @ ''/...'' \<and>
          after_at (sp_netloc parts) \<noteq> [] \<and> CHR ''@'' \<notin> set (sp_path parts @ sp_query parts @ sp_fragment parts) \<and>
          list_all (\<lambda>c. c \<notin> set ''@%; '' \<and> c \<noteq> CHR 0x5C \<and> is_printable c) (after_at (sp_netloc parts)))"
  using after_at_clean
  by (auto simp: truncate_url_def Let_def list_all_iff list_ex_iff split: option.splits)

subsection \<open>Witnesses\<close>

lemmas url_facts = clean_stream_url_def clean_params_def same_public_def lower_def lower_char_def
  is_xtream_prefix_def XTREAM_PATH_PREFIXES_def

theorem redaction_witness:
  "redact_url (Some (stream_url ''http'' (Some ''bob:pw'') ''h:80'' ([''xc''] @ ''live'' # ''bob'' # ''pw'' # [''7.ts''])
       [(''Token'', ''t1''), (''x'', ''1'')] [])) =
   redact_url (Some (stream_url ''http'' (Some ''eve:pq'') ''h:80'' ([''xc''] @ ''live'' # ''eve'' # ''pq'' # [''7.ts''])
       [(''Token'', ''t2''), (''x'', ''1'')] []))"
proof (rule redaction_hides_the_credentials)
  have "is_sensitive_name ''Token''" by code_simp
  then show "same_public [(''Token'', ''t1''), (''x'', ''1'')] [(''Token'', ''t2''), (''x'', ''1'')]"
    by (simp add: same_public_def)
qed (simp_all add: url_facts)

theorem subpaths_witness:
  "redact_path (path_text [''live'', ''live'', ''bob'', ''pw'', ''7.ts'']) =
     path_text [''live'', REDACTED, REDACTED, ''pw'', ''7.ts''] \<and>
   redact_path (path_text [''xc'', ''bob'', ''pw'', ''7.ts'']) = path_text [''xc'', ''bob'', ''pw'', ''7.ts'']"
  by (rule subpaths_leak_the_password) (simp_all add: url_facts)

theorem header_log_witness:
  "redact_headers (Some [(''HTTP_AUTHORIZATION'', Text ''Bearer a''), (''SERVER_NAME'', Text ''h'')]) =
     redact_headers (Some [(''HTTP_AUTHORIZATION'', Text ''Bearer b''), (''SERVER_NAME'', Text ''h'')]) \<and>
   map_of (redact_headers (Some [(''HTTP_AUTHORIZATION'', Text ''Bearer a''), (''SERVER_NAME'', Text ''h'')])) =
     (\<lambda>n. map_option (redact_header n) (map_of [(''HTTP_AUTHORIZATION'', Text ''Bearer a''), (''SERVER_NAME'', Text ''h'')] n))"
proof (rule header_log_hides_the_secrets)
  have "header_key ''HTTP_AUTHORIZATION'' \<in> set SENSITIVE_HEADERS" by code_simp
  then show "list_all2 (\<lambda>(n, v) (m, w). n = m \<and> same_shown n v w)
      [(''HTTP_AUTHORIZATION'', Text ''Bearer a''), (''SERVER_NAME'', Text ''h'')]
      [(''HTTP_AUTHORIZATION'', Text ''Bearer b''), (''SERVER_NAME'', Text ''h'')]"
    by (simp add: same_shown_def)
qed simp

theorem truncated_url_witness:
  "case truncate_url (Some (Some ''http://bob:pw@h:80/live/bob/pw/7.ts'')) of
     None \<Rightarrow> False
   | Some out \<Rightarrow> out = REDACTED \<or> (''http://bob:pw@h:80/live/bob/pw/7.ts'' = ([] :: string) \<and> out = []) \<or>
       (\<exists>parts. urlsplit ''http://bob:pw@h:80/live/bob/pw/7.ts'' = Some parts \<and>
          out = sp_scheme parts @ ''://'' @ after_at (sp_netloc parts) @ ''/...'' \<and>
          after_at (sp_netloc parts) \<noteq> [] \<and> CHR ''@'' \<notin> set (sp_path parts @ sp_query parts @ sp_fragment parts) \<and>
          list_all (\<lambda>c. c \<notin> set ''@%; '' \<and> c \<noteq> CHR 0x5C \<and> is_printable c) (after_at (sp_netloc parts)))"
  by (rule truncated_url_is_scheme_and_host)

subsection \<open>Examples\<close>

lemma redaction_examples:
  "redact_url (Some ''http://u:p@h:80/live/bob/secret/7.ts?token=abc'') = ''http://***@h:80/live/***/***/7.ts?token=***''"
  "redact_url (Some ''/bob/secret/7'') = ''/***/***/7''"
  "truncate_url (Some (Some ''http://u:p@h:80/live/bob/secret/7.ts'')) = Some ''http://h:80/...''"
  by code_simp+

text \<open>A name spelled with percent escapes, the Kelvin sign among them, is still recognised.\<close>

lemma escaped_name_example: "is_sensitive_name ''to%E2%84%AAen''"
proof -
  have "percent_units ''to%E2%84%AAen'' = [Byte 116, Byte 111, Byte 226, Byte 132, Byte 170, Byte 101, Byte 110]"
    by (simp add: hex_value_def)
  then have "unquote ''to%E2%84%AAen'' = [116, 111, 8490, 101, 110]"
    by (simp add: unquote_def utf8_sequence_def eval_nat_numeral(2,3) [of "Num.One"] numeral_2_eq_2)
  then show ?thesis
    by (simp add: is_sensitive_name_def strip_points_def is_space_point_def lower_point_def SENSITIVE_QUERY_KEYS_def)
qed

end
