(* ===== verification/Outbound_Fetch.thy ===== *)
theory Outbound_Fetch
  imports Redaction_Properties
begin

section \<open>Outbound fetches (core/http_security.py)\<close>

text \<open>
  The check every outbound URL passes, \<open>validate_outbound_http_url\<close>, and the fetch that repeats it
  on each redirect. What requests, urllib3, idna and the resolver answer is a parameter, and may
  change from one hop to the next; \<open>urljoin\<close> and the classes of an address follow the standard
  library of Python 3.13. A \<open>ValueError\<close> is a value of \<open>outbound_error\<close>.
\<close>

subsection \<open>Parts of a URL\<close>

text \<open>\<open>urlparse\<close> with a scheme for the URLs that name none.\<close>

definition urlparse_from :: "string \<Rightarrow> string \<Rightarrow> url_parts option" where
  "urlparse_from scheme raw =
     map_option (\<lambda>p.
       let scheme = (if sp_scheme p = [] then scheme else sp_scheme p);
           (path, params) = (if scheme \<in> set uses_params \<and> CHR '';'' \<in> set (sp_path p)
                             then split_params (sp_path p) else (sp_path p, []))
       in \<lparr>u_scheme = scheme, u_netloc = sp_netloc p, u_path = path, u_params = params,
           u_query = sp_query p, u_fragment = sp_fragment p\<rparr>) (urlsplit raw)"

text \<open>The \<open>hostname\<close> property, in lower case up to a zone; empty is \<open>None\<close> there.\<close>

definition url_hostname :: "string \<Rightarrow> string" where
  "url_hostname netloc =
     (let host_port = after_at netloc;
          host = (case split_once (CHR ''['') host_port of
                    Some (_, bracketed) \<Rightarrow> fst (cut (CHR '']'') bracketed)
                  | None \<Rightarrow> fst (cut (CHR '':'') host_port))
      in case split_once (CHR ''%'') host of
           Some (name, zone) \<Rightarrow> lower name @ ''%'' @ zone
         | None \<Rightarrow> lower host)"

text \<open>The \<open>port\<close> property: \<open>None\<close> outside is its exception.\<close>

definition url_port :: "string \<Rightarrow> int option option" where
  "url_port netloc =
     (if \<not> port_ok netloc then None
      else if port_text netloc = [] then Some None
      else Some (Some (int (nat_of_digits (port_text netloc)))))"

subsection \<open>urljoin\<close>

definition uses_relative :: "string list" where
  "uses_relative = [[], ''ftp'', ''http'', ''gopher'', ''nntp'', ''imap'', ''wais'', ''file'', ''https'', ''shttp'',
     ''mms'', ''prospero'', ''rtsp'', ''rtsps'', ''rtspu'', ''sftp'', ''svn'', ''svn+ssh'', ''ws'', ''wss'']"

text \<open>The empty segments between the first and the last are dropped.\<close>

definition drop_inner_empty :: "string list \<Rightarrow> string list" where
  "drop_inner_empty segs =
     (if length segs < 2 then segs else hd segs # filter (\<lambda>s. s \<noteq> []) (butlast (tl segs)) @ [last segs])"

fun resolve_segments :: "string list \<Rightarrow> string list \<Rightarrow> string list" where
  "resolve_segments acc [] = acc"
| "resolve_segments acc (seg # segs) =
     (if seg = ''..'' then resolve_segments (butlast acc) segs
      else if seg = ''.'' then resolve_segments acc segs
      else resolve_segments (acc @ [seg]) segs)"

definition merge_paths :: "string \<Rightarrow> string \<Rightarrow> string" where
  "merge_paths bpath path =
     (let base_parts = split_on (CHR ''/'') bpath;
          base_parts = (if last base_parts \<noteq> [] then butlast base_parts else base_parts);
          segments = (if starts_with ''/'' path then split_on (CHR ''/'') path
                      else drop_inner_empty (base_parts @ split_on (CHR ''/'') path));
          resolved = resolve_segments [] segments;
          resolved = (if last segments = ''.'' \<or> last segments = ''..'' then resolved @ [[]] else resolved);
          joined = join_with (CHR ''/'') resolved
      in if joined = [] then ''/'' else joined)"

definition urljoin :: "string \<Rightarrow> string \<Rightarrow> string option" where
  "urljoin base url =
     (if base = [] then Some url
      else if url = [] then Some base
      else (case urlparse_from [] base of
              None \<Rightarrow> None
            | Some b \<Rightarrow>
                (case urlparse_from (u_scheme b) url of
                   None \<Rightarrow> None
                 | Some u \<Rightarrow>
                     if u_scheme u \<noteq> u_scheme b \<or> u_scheme u \<notin> set uses_relative then Some url
                     else if u_scheme u \<in> set uses_netloc \<and> u_netloc u \<noteq> [] then Some (urlunparse u)
                     else
                       let netloc = (if u_scheme u \<in> set uses_netloc then u_netloc b else u_netloc u) in
                       if u_path u = [] \<and> u_params u = [] then
                         Some (urlunparse (u\<lparr>u_netloc := netloc, u_path := u_path b, u_params := u_params b,
                           u_query := (if u_query u = [] then u_query b else u_query u)\<rparr>))
                       else Some (urlunparse (u\<lparr>u_netloc := netloc, u_path := merge_paths (u_path b) (u_path u)\<rparr>)))))"

subsection \<open>Classes of an address\<close>

abbreviation net4 :: "nat \<Rightarrow> nat \<Rightarrow> nat \<Rightarrow> nat \<Rightarrow> nat \<Rightarrow> network" where
  "net4 a b c d len \<equiv> Net4 (word_of_octets a b c d) len"

text \<open>The hextets of the prefix; the rest of the address is zero.\<close>

definition net6 :: "nat list \<Rightarrow> nat \<Rightarrow> network" where
  "net6 hs len = Net6 (word_of_hextets (hs @ replicate (8 - length hs) 0)) len"

definition private_networks :: "network list" where
  "private_networks =
     [net4 0 0 0 0 8, net4 10 0 0 0 8, net4 127 0 0 0 8, net4 169 254 0 0 16, net4 172 16 0 0 12,
      net4 192 0 0 0 24, net4 192 0 0 170 31, net4 192 0 2 0 24, net4 192 168 0 0 16, net4 198 18 0 0 15,
      net4 198 51 100 0 24, net4 203 0 113 0 24, net4 240 0 0 0 4, net4 255 255 255 255 32,
      net6 [0, 0, 0, 0, 0, 0, 0, 1] 128, net6 [] 128, net6 [0, 0, 0, 0, 0, 0xFFFF] 96, net6 [0x64, 0xFF9B, 1] 48,
      net6 [0x100] 64, net6 [0x2001] 23, net6 [0x2001, 0xDB8] 32, net6 [0x2002] 16, net6 [0x3FFF] 20,
      net6 [0xFC00] 7, net6 [0xFE80] 10]"

definition private_exceptions :: "network list" where
  "private_exceptions =
     [net4 192 0 0 9 32, net4 192 0 0 10 32,
      net6 [0x2001, 1, 0, 0, 0, 0, 0, 1] 128, net6 [0x2001, 1, 0, 0, 0, 0, 0, 2] 128, net6 [0x2001, 3] 32,
      net6 [0x2001, 4, 0x112] 48, net6 [0x2001, 0x20] 28, net6 [0x2001, 0x30] 28]"

definition reserved_networks :: "network list" where
  "reserved_networks =
     [net4 240 0 0 0 4, net6 [] 8, net6 [0x100] 8, net6 [0x200] 7, net6 [0x400] 6, net6 [0x800] 5, net6 [0x1000] 4,
      net6 [0x4000] 3, net6 [0x6000] 3, net6 [0x8000] 3, net6 [0xA000] 3, net6 [0xC000] 3, net6 [0xE000] 4,
      net6 [0xF000] 5, net6 [0xF800] 6, net6 [0xFE00] 9]"

definition in_any :: "ip \<Rightarrow> network list \<Rightarrow> bool" where
  "in_any a nets \<longleftrightarrow> list_ex (in_network (unmap a)) nets"

definition is_loopback :: "ip \<Rightarrow> bool" where
  "is_loopback a \<longleftrightarrow> in_any a [net4 127 0 0 0 8, net6 [0, 0, 0, 0, 0, 0, 0, 1] 128]"

definition is_unspecified :: "ip \<Rightarrow> bool" where
  "is_unspecified a \<longleftrightarrow> in_any a [net4 0 0 0 0 32, net6 [] 128]"

definition is_multicast :: "ip \<Rightarrow> bool" where
  "is_multicast a \<longleftrightarrow> in_any a [net4 224 0 0 0 4, net6 [0xFF00] 8]"

definition is_link_local :: "ip \<Rightarrow> bool" where
  "is_link_local a \<longleftrightarrow> in_any a [net4 169 254 0 0 16, net6 [0xFE80] 10]"

definition is_private :: "ip \<Rightarrow> bool" where
  "is_private a \<longleftrightarrow> in_any a private_networks \<and> \<not> in_any a private_exceptions"

definition is_reserved :: "ip \<Rightarrow> bool" where
  "is_reserved a \<longleftrightarrow> in_any a reserved_networks"

definition is_global :: "ip \<Rightarrow> bool" where
  "is_global a \<longleftrightarrow> \<not> in_any a [net4 100 64 0 0 10] \<and> \<not> is_private a"

subsection \<open>validate_outbound_http_url\<close>

text \<open>The host requests will dial for a URL (empty for \<open>None\<close>, no answer when either library
  raises), the IDNA form of a host, and the addresses the resolver gives.\<close>

record outbound_world =
  ow_dial :: "string \<Rightarrow> string option"
  ow_idna :: "string \<Rightarrow> string option"
  ow_resolve :: "string \<Rightarrow> string list option"

datatype outbound_error =
    Unparsed_Url | Bad_Scheme string | No_Hostname | Backslash | Bad_Label | Not_Prepared
  | Other_Host string string | Unresolved string | Not_Routable string | No_Address string

record outbound_policy =
  allow_private :: bool
  allow_loopback :: bool

text \<open>One resolved address: whether it is refused.\<close>

definition refused_address :: "outbound_policy \<Rightarrow> ip \<Rightarrow> bool" where
  "refused_address P a \<longleftrightarrow>
     (if is_loopback a then \<not> allow_loopback P
      else if is_unspecified a \<or> is_multicast a \<or> is_link_local a then True
      else if is_private a then \<not> allow_private P
      else if is_reserved a then True
      else \<not> allow_private P \<and> \<not> is_global a)"

text \<open>The loop over the resolver's answer; the right side says whether an address was seen.\<close>

fun check_addresses :: "outbound_policy \<Rightarrow> bool \<Rightarrow> string list \<Rightarrow> outbound_error + bool" where
  "check_addresses P saw_ip [] = Inr saw_ip"
| "check_addresses P saw_ip (addr # addrs) =
     (case ip_address addr of
        None \<Rightarrow> check_addresses P saw_ip addrs
      | Some a \<Rightarrow> if refused_address P a then Inl (Not_Routable addr) else check_addresses P True addrs)"

definition strip_brackets :: "string \<Rightarrow> string" where
  "strip_brackets s =
     rev (dropWhile (\<lambda>c. c \<in> set ''[]'') (rev (dropWhile (\<lambda>c. c \<in> set ''[]'') s)))"

definition validate_outbound_http_url ::
  "outbound_world \<Rightarrow> outbound_policy \<Rightarrow> string \<Rightarrow> outbound_error + unit" where
  "validate_outbound_http_url W P url =
     (case urlparse_from [] url of
        None \<Rightarrow> Inl Unparsed_Url
      | Some parsed \<Rightarrow>
          if u_scheme parsed \<notin> {''http'', ''https''} then Inl (Bad_Scheme (u_scheme parsed))
          else
            let hostname = url_hostname (u_netloc parsed) in
            if hostname = [] then Inl No_Hostname
            else if CHR 0x5C \<in> set (u_netloc parsed) then Inl Backslash
            else (case (if list_all (\<lambda>c. of_char c < (128::nat)) hostname then Some (lower hostname)
                        else map_option lower (ow_idna W hostname)) of
                    None \<Rightarrow> Inl Bad_Label
                  | Some expected \<Rightarrow>
                      (case ow_dial W url of
                         None \<Rightarrow> Inl Not_Prepared
                       | Some host \<Rightarrow>
                           let dialled = lower (strip_brackets host) in
                           if dialled \<noteq> expected then Inl (Other_Host expected dialled)
                           else (case ow_resolve W dialled of
                                   None \<Rightarrow> Inl (Unresolved dialled)
                                 | Some infos \<Rightarrow>
                                     if infos = [] then Inl (Unresolved dialled)
                                     else (case check_addresses P False infos of
                                             Inl e \<Rightarrow> Inl e
                                           | Inr saw_ip \<Rightarrow>
                                               if saw_ip then Inr () else Inl (No_Address dialled))))))"

subsection \<open>fetch_outbound_http\<close>

text \<open>The keyword arguments the code looks at; the others are the same on every hop.\<close>

record fetch_kwargs =
  k_auth :: "string option"
  k_cookies :: "string option"
  k_headers :: "(string \<times> string) list option"
  k_params :: "string option"

record http_response =
  r_status :: int
  r_location :: "string option"

record fetch_world =
  fw_net :: outbound_world
  fw_get :: "string \<Rightarrow> fetch_kwargs \<Rightarrow> http_response option"

datatype fetch_result =
    Fetched http_response | Invalid outbound_error | Bad_Url | Request_Failed | No_Location | Too_Many_Redirects int

definition REDIRECT_STATUSES :: "int list" where
  "REDIRECT_STATUSES = [301, 302, 303, 307, 308]"

definition CROSS_ORIGIN_STRIPPED_HEADERS :: "string list" where
  "CROSS_ORIGIN_STRIPPED_HEADERS = [''authorization'', ''cookie'', ''proxy-authorization'']"

definition port_in_default :: "string \<Rightarrow> int option \<Rightarrow> bool" where
  "port_in_default scheme port \<longleftrightarrow>
     port = None \<or> port = map_of [(''http'', 80), (''https'', 443)] scheme"

text \<open>\<open>None\<close> is the exception of a URL that does not parse or of a port that is no number.\<close>

definition crosses_origin :: "string \<Rightarrow> string \<Rightarrow> bool option" where
  "crosses_origin previous_url current_url =
     (case (urlparse_from [] previous_url, urlparse_from [] current_url) of
        (Some old, Some new) \<Rightarrow>
          if url_hostname (u_netloc old) \<noteq> url_hostname (u_netloc new) then Some True
          else (case (url_port (u_netloc old), url_port (u_netloc new)) of
                  (Some old_port, Some new_port) \<Rightarrow>
                    if u_scheme old = ''http'' \<and> old_port \<in> {Some 80, None}
                       \<and> u_scheme new = ''https'' \<and> new_port \<in> {Some 443, None} then Some False
                    else if u_scheme old = u_scheme new \<and> port_in_default (u_scheme old) old_port
                       \<and> port_in_default (u_scheme old) new_port then Some False
                    else Some (old_port \<noteq> new_port \<or> u_scheme old \<noteq> u_scheme new)
                | _ \<Rightarrow> None)
      | _ \<Rightarrow> None)"

definition strip_credentials :: "fetch_kwargs \<Rightarrow> fetch_kwargs" where
  "strip_credentials kw =
     kw\<lparr>k_auth := None, k_cookies := None,
        k_headers := map_option (filter (\<lambda>(k, v). lower k \<notin> set CROSS_ORIGIN_STRIPPED_HEADERS)) (k_headers kw)\<rparr>"

text \<open>One request sent: its hop, its URL and its keyword arguments.\<close>

type_synonym sent = "nat \<times> string \<times> fetch_kwargs"

text \<open>The loop: the hop, how many are left, the URL before this one, this one and the arguments.\<close>

fun fetch_hops ::
  "(nat \<Rightarrow> fetch_world) \<Rightarrow> outbound_policy \<Rightarrow> int \<Rightarrow> nat \<Rightarrow> nat \<Rightarrow> string option \<Rightarrow> string \<Rightarrow> fetch_kwargs
    \<Rightarrow> sent list \<times> fetch_result" where
  "fetch_hops W P limit hop 0 previous current kw = ([], Too_Many_Redirects limit)"
| "fetch_hops W P limit hop (Suc left) previous current kw =
     (case validate_outbound_http_url (fw_net (W hop)) P current of
        Inl e \<Rightarrow> ([], Invalid e)
      | Inr _ \<Rightarrow>
          (case (case previous of None \<Rightarrow> Some False | Some prev \<Rightarrow> crosses_origin prev current) of
             None \<Rightarrow> ([], Bad_Url)
           | Some crossed \<Rightarrow>
               let kw = (if crossed then strip_credentials kw else kw) in
               (case fw_get (W hop) current kw of
                  None \<Rightarrow> ([(hop, current, kw)], Request_Failed)
                | Some resp \<Rightarrow>
                    if r_status resp \<notin> set REDIRECT_STATUSES then ([(hop, current, kw)], Fetched resp)
                    else (case r_location resp of
                            None \<Rightarrow> ([(hop, current, kw)], No_Location)
                          | Some location \<Rightarrow>
                              if location = [] then ([(hop, current, kw)], No_Location)
                              else (case urljoin current location of
                                      None \<Rightarrow> ([(hop, current, kw)], Bad_Url)
                                    | Some next_url \<Rightarrow>
                                        let (sent, result) =
                                          fetch_hops W P limit (Suc hop) left (Some current) next_url (kw\<lparr>k_params := None\<rparr>)
                                        in ((hop, current, kw) # sent, result))))))"

definition fetch_outbound_http ::
  "(nat \<Rightarrow> fetch_world) \<Rightarrow> outbound_policy \<Rightarrow> int \<Rightarrow> string \<Rightarrow> fetch_kwargs \<Rightarrow> sent list \<times> fetch_result" where
  "fetch_outbound_http W P max_redirects url kw = fetch_hops W P max_redirects 0 (nat (max_redirects + 1)) None url kw"

end
