(* ===== verification/Image_Proxy.thy ===== *)
theory Image_Proxy
  imports Outbound_Fetch
begin

section \<open>The image proxy (core/image_proxy.py)\<close>

text \<open>
  Remote artwork: the fetch with its redirects, the limits on its body, the type read from the first
  bytes and the map of the URLs that failed. The server's file system, the clock and what an
  upstream sends are arguments; bytes are the characters of a string.
\<close>

definition IMAGE_FETCH_FAIL_TTL :: int where "IMAGE_FETCH_FAIL_TTL = 300"
definition IMAGE_FETCH_TOTAL_TIMEOUT :: int where "IMAGE_FETCH_TOTAL_TIMEOUT = 10"
definition IMAGE_FETCH_MAX_BYTES :: nat where "IMAGE_FETCH_MAX_BYTES = 5 * 1024 * 1024"
definition IMAGE_FETCH_MAX_REDIRECTS :: nat where "IMAGE_FETCH_MAX_REDIRECTS = 5"

subsection \<open>Failures and types\<close>

type_synonym failures = "(string \<times> int) list"

definition remember_fetch_failure :: "int \<Rightarrow> string \<Rightarrow> failures \<Rightarrow> int \<Rightarrow> failures" where
  "remember_fetch_failure now url failure_cache fail_ttl =
     (let cache = dict_set failure_cache url (now + fail_ttl) in
      if 256 < length cache then filter (\<lambda>(key, expiry). \<not> expiry \<le> now) cache else cache)"

definition contains :: "string \<Rightarrow> string \<Rightarrow> bool" where
  "contains part text \<longleftrightarrow> list_ex (\<lambda>i. starts_with part (drop i text)) [0..<Suc (length text)]"

text \<open>Bytes' own \<open>lstrip\<close> and \<open>lower\<close>: ASCII only.\<close>

definition is_byte_space :: "char \<Rightarrow> bool" where
  "is_byte_space c \<longleftrightarrow> c = CHR '' '' \<or> (let n = (of_char c :: nat) in 9 \<le> n \<and> n \<le> 13)"

definition lower_byte :: "char \<Rightarrow> char" where
  "lower_byte c = (let n = (of_char c :: nat) in if 65 \<le> n \<and> n \<le> 90 then char_of (n + 32) else c)"

definition bytes :: "nat list \<Rightarrow> string" where "bytes = map char_of"

definition sniff_image_content_type :: "string \<Rightarrow> string option" where
  "sniff_image_content_type body =
     (if body = [] then None
      else if starts_with (bytes [0xFF, 0xD8, 0xFF]) body then Some ''image/jpeg''
      else if starts_with (bytes [0x89, 0x50, 0x4E, 0x47, 0x0D, 0x0A, 0x1A, 0x0A]) body then Some ''image/png''
      else if starts_with ''GIF87a'' body \<or> starts_with ''GIF89a'' body then Some ''image/gif''
      else if 12 \<le> length body \<and> starts_with ''RIFF'' body \<and> take 4 (drop 8 body) = ''WEBP'' then Some ''image/webp''
      else if starts_with (bytes [0, 0, 1, 0]) body \<or> starts_with (bytes [0, 0, 2, 0]) body then Some ''image/x-icon''
      else if starts_with ''BM'' body \<and> 6 \<le> length body then Some ''image/bmp''
      else
        let sample = dropWhile is_byte_space (take 8192 body);
            sample = (if starts_with (bytes [0xEF, 0xBB, 0xBF]) sample
                      then dropWhile is_byte_space (drop 3 sample) else sample);
            lowered = map lower_byte sample;
            head = take 64 lowered
        in if starts_with ''<!doctype html'' head \<or> starts_with ''<html'' head \<or> starts_with ''<head'' head
              \<or> starts_with ''<body'' head \<or> starts_with ''<script'' head \<or> contains ''<html'' lowered
           then None
           else if contains ''<svg'' lowered then Some ''image/svg+xml''
           else None)"

subsection \<open>What an upstream sends\<close>

text \<open>\<open>iw_now\<close> and \<open>iw_after\<close> are the clock when a hop starts and when its body has been read; two
  readings with nothing between them are one. A header name or value Django refuses is left out.\<close>

text \<open>The chunks of the body, each with the time it is looked at, and whether the stream ends or
  breaks with a \<open>RequestException\<close>.\<close>

record upstream_body =
  b_chunks :: "(string \<times> int) list"
  b_breaks :: bool

record image_response =
  ir_status :: int
  ir_location :: "string option"
  ir_cache_control :: "string option"
  ir_last_modified :: "string option"
  ir_body :: upstream_body

record image_world =
  iw_net :: outbound_world
  iw_get :: "string \<Rightarrow> image_response option"
  iw_now :: int
  iw_after :: int

text \<open>How a fetch ends badly: \<open>Http404\<close>, \<open>RequestException\<close>, or the \<open>ValueError\<close> of \<open>urljoin\<close>.\<close>

datatype image_error = Http_404 | Request_Error | Value_Error

subsection \<open>_read_limited_body and _fetch_remote_image\<close>

text \<open>The failure cache comes back with the answer.\<close>

fun read_chunks :: "int \<Rightarrow> string \<Rightarrow> int \<Rightarrow> bool \<Rightarrow> (string \<times> int) list \<Rightarrow> nat \<Rightarrow> string \<Rightarrow> failures
    \<Rightarrow> (image_error + string) \<times> failures" where
  "read_chunks deadline url fail_ttl breaks [] received acc cache = ((if breaks then Inl Request_Error else Inr acc), cache)"
| "read_chunks deadline url fail_ttl breaks ((chunk, now) # rest) received acc cache =
     (if chunk = [] then read_chunks deadline url fail_ttl breaks rest received acc cache
      else if IMAGE_FETCH_MAX_BYTES < received + length chunk then (Inl Http_404, cache)
      else if deadline < now then (Inl Http_404, remember_fetch_failure now url cache fail_ttl)
      else read_chunks deadline url fail_ttl breaks rest (received + length chunk) (acc @ chunk) cache)"

definition read_limited_body ::
  "int \<Rightarrow> upstream_body \<Rightarrow> string \<Rightarrow> failures \<Rightarrow> int \<Rightarrow> (image_error + string) \<times> failures" where
  "read_limited_body now body url cache fail_ttl =
     read_chunks (now + IMAGE_FETCH_TOTAL_TIMEOUT) url fail_ttl (b_breaks body) (b_chunks body) 0 [] cache"

record fetched_image =
  fi_body :: string
  fi_type :: string
  fi_cache_control :: "string option"
  fi_last_modified :: "string option"

definition image_policy :: outbound_policy where
  "image_policy = \<lparr>allow_private = True, allow_loopback = False\<rparr>"

text \<open>The loop over the hops; the URLs requested come back too, each with its hop.\<close>

fun fetch_image_hops ::
  "(nat \<Rightarrow> image_world) \<Rightarrow> string \<Rightarrow> int \<Rightarrow> nat \<Rightarrow> nat \<Rightarrow> string \<Rightarrow> failures
    \<Rightarrow> (nat \<times> string) list \<times> (image_error + fetched_image) \<times> failures" where
  "fetch_image_hops W url fail_ttl hop 0 current cache =
     ([], Inl Http_404, remember_fetch_failure (iw_now (W hop)) url cache fail_ttl)"
| "fetch_image_hops W url fail_ttl hop (Suc left) current cache =
     (let w = W hop; failed = remember_fetch_failure (iw_now w) url cache fail_ttl in
      case validate_outbound_http_url (iw_net w) image_policy current of
        Inl e \<Rightarrow> ([], Inl Http_404, failed)
      | Inr _ \<Rightarrow>
          (case iw_get w current of
             None \<Rightarrow> ([(hop, current)], Inl Request_Error, cache)
           | Some resp \<Rightarrow>
               if ir_status resp \<in> set REDIRECT_STATUSES then
                 (case ir_location resp of
                    None \<Rightarrow> ([(hop, current)], Inl Http_404, failed)
                  | Some location \<Rightarrow>
                      if location = [] then ([(hop, current)], Inl Http_404, failed)
                      else (case urljoin current location of
                              None \<Rightarrow> ([(hop, current)], Inl Value_Error, cache)
                            | Some next_url \<Rightarrow>
                                let (sent, result) = fetch_image_hops W url fail_ttl (Suc hop) left next_url cache
                                in ((hop, current) # sent, result)))
               else if ir_status resp \<noteq> 200 then ([(hop, current)], Inl Http_404, failed)
               else (case read_limited_body (iw_now w) (ir_body resp) url cache fail_ttl of
                       (Inl e, cache) \<Rightarrow> ([(hop, current)], Inl e, cache)
                     | (Inr body, cache) \<Rightarrow>
                         (case sniff_image_content_type body of
                            None \<Rightarrow> ([(hop, current)], Inl Http_404, remember_fetch_failure (iw_after w) url cache fail_ttl)
                          | Some type \<Rightarrow>
                              ([(hop, current)],
                               Inr \<lparr>fi_body = body, fi_type = type, fi_cache_control = ir_cache_control resp,
                                    fi_last_modified = ir_last_modified resp\<rparr>, cache)))))"

definition fetch_remote_image ::
  "(nat \<Rightarrow> image_world) \<Rightarrow> string \<Rightarrow> failures \<Rightarrow> int
    \<Rightarrow> (nat \<times> string) list \<times> (image_error + fetched_image) \<times> failures" where
  "fetch_remote_image W url cache fail_ttl =
     fetch_image_hops W url fail_ttl 0 (Suc IMAGE_FETCH_MAX_REDIRECTS) url cache"

subsection \<open>serve_local_or_remote_image\<close>

text \<open>The response; its body is the text sent or the local file streamed.\<close>

record image_answer =
  ia_status :: int
  ia_body :: string
  ia_headers :: "(string \<times> string) list"

text \<open>A local file: its path after \<open>resolve_safe_local_data_path\<close> when it exists, then what reading
  it gives, no answer when that raises: its type, its content and its date.\<close>

record local_files =
  lf_find :: "string \<Rightarrow> string option"
  lf_read :: "string \<Rightarrow> (string option \<times> string \<times> string) option"

definition base_name :: "string \<Rightarrow> string" where
  "base_name path = (case rsplit_once (CHR ''/'') path of Some (_, name) \<Rightarrow> name | None \<Rightarrow> path)"

definition IMAGE_RESPONSE_CSP :: string where
  "IMAGE_RESPONSE_CSP = ''default-src 'none'; style-src 'unsafe-inline'; sandbox''"

definition security_headers :: "string \<Rightarrow> (string \<times> string) list" where
  "security_headers content_type =
     (''X-Content-Type-Options'', ''nosniff'') #
     (if starts_with ''image/svg'' content_type then [(''Content-Security-Policy'', IMAGE_RESPONSE_CSP)] else [])"

definition header_if :: "string \<Rightarrow> string option \<Rightarrow> (string \<times> string) list" where
  "header_if name value = (case value of Some v \<Rightarrow> if v = [] then [] else [(name, v)] | None \<Rightarrow> [])"

definition disposition :: "string \<Rightarrow> string \<times> string" where
  "disposition name = (''Content-Disposition'', ''inline; filename=\"'' @ name @ ''\"'')"

definition serve_local :: "local_files \<Rightarrow> string \<Rightarrow> image_error + image_answer" where
  "serve_local L url =
     (case lf_find L url of
        None \<Rightarrow> Inl Http_404
      | Some safe_path \<Rightarrow>
          (case lf_read L safe_path of
             None \<Rightarrow> Inr \<lparr>ia_status = 500, ia_body = [], ia_headers = []\<rparr>
           | Some (guessed, content, date) \<Rightarrow>
               let content_type = (case guessed of Some t \<Rightarrow> if t = [] then ''image/jpeg'' else t | None \<Rightarrow> ''image/jpeg'') in
               Inr \<lparr>ia_status = 200, ia_body = content,
                    ia_headers = [(''Content-Type'', content_type), (''Cache-Control'', ''public, max-age=14400''),
                      (''Last-Modified'', date), disposition (base_name safe_path)] @ security_headers content_type\<rparr>))"

definition serve_remote ::
  "(nat \<Rightarrow> image_world) \<Rightarrow> int \<Rightarrow> string \<Rightarrow> failures \<Rightarrow> int
    \<Rightarrow> (nat \<times> string) list \<times> (image_error + image_answer) \<times> failures" where
  "serve_remote W ended url cache fail_ttl =
     (case fetch_remote_image W url cache fail_ttl of
        (sent, Inr img, cache) \<Rightarrow>
          (let name = base_name (fst (cut (CHR ''?'') url)) in
           (sent,
            Inr \<lparr>ia_status = 200, ia_body = fi_body img,
                 ia_headers = [(''Content-Type'', fi_type img), (''Content-Length'', show_nat (length (fi_body img)))]
                   @ header_if ''Cache-Control'' (fi_cache_control img)
                   @ header_if ''Last-Modified'' (fi_last_modified img)
                   @ [disposition (if name = [] then ''image'' else name)] @ security_headers (fi_type img)\<rparr>,
            dict_del cache url))
      | (sent, Inl Request_Error, cache) \<Rightarrow> (sent, Inl Http_404, remember_fetch_failure ended url cache fail_ttl)
      | (sent, Inl e, cache) \<Rightarrow> (sent, Inl e, cache))"

text \<open>\<open>start\<close> is the clock when the failure map is read, \<open>ended\<close> when a \<open>RequestException\<close> is caught.\<close>

definition serve_local_or_remote_image ::
  "local_files \<Rightarrow> (nat \<Rightarrow> image_world) \<Rightarrow> int \<Rightarrow> int \<Rightarrow> string option \<Rightarrow> failures \<Rightarrow> int
    \<Rightarrow> (nat \<times> string) list \<times> (image_error + image_answer) \<times> failures" where
  "serve_local_or_remote_image L W start ended url_arg cache fail_ttl =
     (case url_arg of
        None \<Rightarrow> ([], Inl Http_404, cache)
      | Some url \<Rightarrow>
          if url = [] then ([], Inl Http_404, cache)
          else if starts_with ''/data'' url then ([], serve_local L url, cache)
          else if \<not> starts_with ''http://'' url \<and> \<not> starts_with ''https://'' url then ([], Inl Http_404, cache)
          else (case map_of cache url of
                  Some fail_expiry \<Rightarrow>
                    if fail_expiry \<noteq> 0 \<and> start < fail_expiry then ([], Inl Http_404, cache)
                    else serve_remote W ended url cache fail_ttl
                | None \<Rightarrow> serve_remote W ended url cache fail_ttl))"

end
