(* ===== verification/Outbound_Properties.thy ===== *)
theory Outbound_Properties
  imports Outbound_Fetch
begin

section \<open>What an outbound fetch may reach\<close>

subsection \<open>Addresses\<close>

lemma check_addresses_accepts:
  "check_addresses P saw addrs = Inr saw' \<Longrightarrow>
   list_all (\<lambda>s. case ip_address s of None \<Rightarrow> True | Some a \<Rightarrow> \<not> refused_address P a) addrs \<and>
   saw' = (saw \<or> list_ex (\<lambda>s. ip_address s \<noteq> None) addrs)"
  by (induction P saw addrs rule: check_addresses.induct) (auto split: option.splits if_splits)

lemma validate_resolves:
  assumes "validate_outbound_http_url W P url = Inr u"
  shows "\<exists>parsed host infos. urlparse_from [] url = Some parsed \<and> u_scheme parsed \<in> {''http'', ''https''} \<and>
    ow_dial W url = Some host \<and> ow_resolve W (lower (strip_brackets host)) = Some infos \<and>
    check_addresses P False infos = Inr True"
  using assms unfolding validate_outbound_http_url_def Let_def
  by (auto split: option.splits if_splits sum.splits)

text \<open>An IPv4 network is a range of the numbers of the addresses.\<close>

lemma in_net4:
  assumes "a < 256" "b < 256" "c < 256" "d < 256" and "len \<le> 32"
    and "(16777216 * a + 65536 * b + 256 * c + d) mod 2 ^ (32 - len) = 0"
  shows "in_network (V4 w) (net4 a b c d len) \<longleftrightarrow>
    unat w div 2 ^ (32 - len) = (16777216 * a + 65536 * b + 256 * c + d) div 2 ^ (32 - len)"
proof -
  let ?n = "16777216 * a + 65536 * b + 256 * c + d" and ?k = "32 - len"
  have n: "?n < 2 ^ 32" using assms(1-4) by simp
  have "take_bit ?k ?n = 0" using assms(6) by (simp only: take_bit_eq_mod)
  then have "take_bit ?k (word_of_octets a b c d) = 0"
    unfolding word_of_octets_def by (simp only: take_bit_of_nat) simp
  then have base: "word_of_octets a b c d AND netmask len = word_of_octets a b c d"
    by (intro bit_word_eqI) (auto simp: bit_simps netmask_def dest: arg_cong [where f = "\<lambda>x. bit x _"])
  have "in_network (V4 w) (net4 a b c d len) \<longleftrightarrow> w AND netmask len = word_of_octets a b c d AND netmask len"
    by (simp add: in_network_def base)
  also have "\<dots> \<longleftrightarrow> drop_bit ?k w = drop_bit ?k (word_of_octets a b c d)" by (simp add: netmask_eq_iff)
  also have "\<dots> \<longleftrightarrow> drop_bit ?k (unat w) = drop_bit ?k (unat (word_of_octets a b c d))"
    by (simp only: word_unat_eq_iff unat_drop_bit_eq)
  also have "\<dots> \<longleftrightarrow> unat w div 2 ^ ?k = unat (word_of_octets a b c d) div 2 ^ ?k" by (simp only: drop_bit_eq_div)
  also have "unat (word_of_octets a b c d) = ?n"
    using n by (simp add: word_of_octets_def unat_of_nat take_bit_nat_eq_self del: of_nat_add of_nat_mult)
  finally show ?thesis .
qed

lemma in_network6 [simp]: "\<not> in_network (V4 w) (net6 hs len)"
  by (simp add: net6_def in_network_def)

text \<open>What strict validation admits: globally reachable addresses, and of IPv4 none of the private,
  loopback, link-local and shared ranges, by their numbers.\<close>

abbreviation strict_policy :: outbound_policy where
  "strict_policy \<equiv> \<lparr>allow_private = False, allow_loopback = False\<rparr>"

lemma strict_address:
  assumes "\<not> refused_address strict_policy a"
  shows "is_global a \<and> \<not> is_private a \<and> \<not> is_loopback a \<and> \<not> is_link_local a \<and> \<not> is_multicast a \<and>
    \<not> is_unspecified a \<and> \<not> is_reserved a"
  using assms by (auto simp: refused_address_def split: if_splits)

lemma any_address: "\<not> refused_address P a \<Longrightarrow> \<not> is_loopback a \<Longrightarrow> \<not> is_link_local a \<and> \<not> is_multicast a \<and> \<not> is_unspecified a"
  by (auto simp: refused_address_def split: if_splits)

lemma private_v4:
  "is_private (V4 w) \<longleftrightarrow>
    (unat w div 2 ^ 24 \<in> {0, 10, 127} \<or> unat w div 2 ^ 16 \<in> {43518, 49320} \<or> unat w div 2 ^ 20 = 2753 \<or>
     unat w div 2 ^ 8 \<in> {12582912, 12582914, 12989284, 13303921} \<or> unat w div 2 ^ 17 = 25353 \<or> unat w div 2 ^ 28 = 15) \<and>
    unat w \<notin> {3221225481, 3221225482}"
proof -
  have "unat w div 2 = 1610612821 \<Longrightarrow> unat w div 256 = 12582912" "unat w = 4294967295 \<Longrightarrow> unat w div 268435456 = 15"
    by auto
  then show ?thesis
    by (auto simp: is_private_def in_any_def unmap_def private_networks_def private_exceptions_def in_net4)
qed

lemma strict_address_v4:
  assumes "\<not> refused_address strict_policy (V4 w)"
  shows "unat w div 2 ^ 24 \<notin> {0, 10, 127} \<and> unat w div 2 ^ 24 < 224 \<and> unat w div 2 ^ 16 \<notin> {43518, 49320} \<and>
    unat w div 2 ^ 20 \<noteq> 2753 \<and> unat w div 2 ^ 22 \<noteq> 401"
proof -
  note facts = strict_address [OF assms]
  have multi: "unat w div 2 ^ 28 \<noteq> 14" and shared: "unat w div 2 ^ 22 \<noteq> 401"
    using facts by (simp_all add: is_multicast_def is_global_def in_any_def unmap_def in_net4)
  have "unat w div 2 ^ 28 \<noteq> 15" "unat w div 2 ^ 24 \<notin> {0, 10, 127}" "unat w div 2 ^ 16 \<notin> {43518, 49320}" "unat w div 2 ^ 20 \<noteq> 2753"
    using facts by (auto simp: private_v4)
  moreover have "unat w div 2 ^ 24 div 16 = unat w div 2 ^ 28" by (simp add: div_mult2_eq [symmetric])
  moreover have "unat w < 2 ^ 32" using unsigned_less [of w, where ?'a = nat] by simp
  then have "unat w div 2 ^ 24 < 256" by (simp add: less_mult_imp_div_less)
  ultimately have "unat w div 2 ^ 24 < 224" using multi by simp
  then show ?thesis using shared facts by (auto simp: private_v4)
qed

subsection \<open>Origins\<close>

definition effective_port :: "string \<Rightarrow> int option \<Rightarrow> int option" where
  "effective_port scheme port =
     (case port of Some n \<Rightarrow> Some n | None \<Rightarrow> map_of [(''http'', 80), (''https'', 443)] scheme)"

definition origin :: "string \<Rightarrow> (string \<times> string \<times> int option) option" where
  "origin url =
     (case urlparse_from [] url of
        None \<Rightarrow> None
      | Some u \<Rightarrow> map_option (\<lambda>port. (u_scheme u, url_hostname (u_netloc u), effective_port (u_scheme u) port))
                    (url_port (u_netloc u)))"

text \<open>One origin, or the step from plain HTTP to HTTPS on the default ports of one host.\<close>

definition trusts :: "string \<Rightarrow> string \<Rightarrow> bool" where
  "trusts old new \<longleftrightarrow>
     (case (origin old, origin new) of
        (Some (s, h, p), Some (s', h', p')) \<Rightarrow>
          h = h' \<and> (s = s' \<and> p = p' \<or> s = ''http'' \<and> p = Some 80 \<and> s' = ''https'' \<and> p' = Some 443)
      | _ \<Rightarrow> False)"

lemma trusts_trans: "trusts a b \<Longrightarrow> trusts b c \<Longrightarrow> trusts a c"
  by (auto simp: trusts_def split: option.splits)

lemma uncrossed_trusts:
  assumes "crosses_origin old new = Some False"
  shows "trusts old new"
proof -
  obtain a b p q where parsed: "urlparse_from [] old = Some a" "urlparse_from [] new = Some b"
    and host: "url_hostname (u_netloc a) = url_hostname (u_netloc b)"
    and ports: "url_port (u_netloc a) = Some p" "url_port (u_netloc b) = Some q"
    using assms unfolding crosses_origin_def by (auto split: option.splits if_splits(2))
  have branch: "c \<or> d \<or> \<not> x" if "(if h then Some True else if c then Some False else if d then Some False else Some x) = Some False" for h c d x
    using that by (auto split: if_splits)
  have step: "(u_scheme a = ''http'' \<and> p \<in> {Some 80, None} \<and> u_scheme b = ''https'' \<and> q \<in> {Some 443, None}) \<or>
      (u_scheme a = u_scheme b \<and> port_in_default (u_scheme a) p \<and> port_in_default (u_scheme a) q) \<or>
      (p = q \<and> u_scheme a = u_scheme b)"
    using branch [OF assms [unfolded crosses_origin_def parsed prod.case option.case host ports]] by blast
  have same: "effective_port s p = effective_port s q" if "port_in_default s p" "port_in_default s q" for s
    using that by (auto simp: effective_port_def port_in_default_def split: option.splits)
  have up: "effective_port ''http'' p = Some 80 \<and> effective_port ''https'' q = Some 443"
    if "p \<in> {Some 80, None}" "q \<in> {Some 443, None}"
    using that by (auto simp: effective_port_def)
  show ?thesis
    using step same up by (auto simp: trusts_def origin_def parsed host ports)
qed

subsection \<open>Credentials\<close>

definition carries_credentials :: "fetch_kwargs \<Rightarrow> bool" where
  "carries_credentials kw \<longleftrightarrow> k_auth kw \<noteq> None \<or> k_cookies kw \<noteq> None \<or>
     list_ex (\<lambda>(k, v). lower k \<in> set CROSS_ORIGIN_STRIPPED_HEADERS) (case k_headers kw of Some hs \<Rightarrow> hs | None \<Rightarrow> [])"

lemma stripped_carries_none [simp]: "\<not> carries_credentials (strip_credentials kw)"
  by (cases "k_headers kw") (auto simp: carries_credentials_def strip_credentials_def list_ex_iff)

lemma carries_params [simp]: "carries_credentials (kw\<lparr>k_params := p\<rparr>) = carries_credentials kw"
  by (simp add: carries_credentials_def)

lemma strip_params [simp]: "k_params (strip_credentials kw) = k_params kw"
  by (simp add: strip_credentials_def)

text \<open>What holds of one request sent: its URL passed the check at its hop, credentials go to the
  first URL's origin only, and the parameters with the first request only.\<close>

definition safe_request :: "(nat \<Rightarrow> fetch_world) \<Rightarrow> outbound_policy \<Rightarrow> string \<Rightarrow> sent \<Rightarrow> bool" where
  "safe_request W P url = (\<lambda>(hop, u, kw).
     validate_outbound_http_url (fw_net (W hop)) P u = Inr () \<and>
     (carries_credentials kw \<longrightarrow> u = url \<or> trusts url u) \<and> (hop > 0 \<longrightarrow> k_params kw = None))"

lemma fetch_hops_safe:
  assumes "fetch_hops W P limit hop left previous current kw = (sent, result)"
    and "case previous of
        None \<Rightarrow> current = url \<and> hop = 0
      | Some prev \<Rightarrow> (carries_credentials kw \<longrightarrow> prev = url \<or> trusts url prev) \<and> k_params kw = None"
  shows "list_all (safe_request W P url) sent \<and> map fst sent = [hop..<hop + length sent] \<and> length sent \<le> left"
  using assms
proof (induction left arbitrary: hop previous current kw sent result)
  case 0
  then show ?case by auto
next
  case (Suc left)
  show ?case
  proof (cases "validate_outbound_http_url (fw_net (W hop)) P current")
    case (Inl e)
    with Suc.prems show ?thesis by auto
  next
    case valid: (Inr u)
    let ?cross = "case previous of None \<Rightarrow> Some False | Some prev \<Rightarrow> crosses_origin prev current"
    show ?thesis
    proof (cases ?cross)
      case None
      with Suc.prems valid show ?thesis by auto
    next
      case (Some crossed)
      define kw' where "kw' = (if crossed then strip_credentials kw else kw)"
      have "trusts prev current" if "previous = Some prev" "\<not> crossed" for prev
        using that Some uncrossed_trusts by auto
      then have creds: "carries_credentials kw' \<longrightarrow> current = url \<or> trusts url current"
        using Suc.prems(2) trusts_trans by (fastforce simp: kw'_def split: option.splits if_splits)
      have params: "hop > 0 \<longrightarrow> k_params kw' = None" using Suc.prems(2) by (auto simp: kw'_def split: option.splits)
      have safe: "safe_request W P url (hop, current, kw')" using valid creds params by (simp add: safe_request_def)
      note run = Suc.prems(1) [unfolded fetch_hops.simps valid sum.case Some option.case Let_def, folded kw'_def]
      show ?thesis
      proof (cases "\<exists>resp loc nxt. fw_get (W hop) current kw' = Some resp \<and> r_status resp \<in> set REDIRECT_STATUSES \<and>
          r_location resp = Some loc \<and> loc \<noteq> [] \<and> urljoin current loc = Some nxt")
        case False
        then have "sent = [(hop, current, kw')]"
          using run by (auto split: option.splits if_splits)
        then show ?thesis using safe by simp
      next
        case True
        then obtain resp loc nxt where go: "fw_get (W hop) current kw' = Some resp" "r_status resp \<in> set REDIRECT_STATUSES"
          "r_location resp = Some loc" "loc \<noteq> []" "urljoin current loc = Some nxt" by blast
        obtain rest res where rest: "fetch_hops W P limit (Suc hop) left (Some current) nxt (kw'\<lparr>k_params := None\<rparr>) = (rest, res)"
          by (rule prod.exhaust)
        have "sent = (hop, current, kw') # rest" using run go rest by simp
        moreover have "list_all (safe_request W P url) rest \<and> map fst rest = [Suc hop..<Suc hop + length rest] \<and> length rest \<le> left"
          using creds by (intro Suc.IH [OF rest]) simp
        moreover have "[hop..<hop + Suc n] = hop # [Suc hop..<Suc hop + n]" for n by (simp add: upt_conv_Cons del: upt_Suc)
        ultimately show ?thesis using safe by (simp del: upt_Suc)
      qed
    qed
  qed
qed

subsection \<open>The properties\<close>

text \<open>C19. A URL that strict validation accepts names, at that moment, a host the resolver knows only
  under globally reachable addresses: every address it gives that parses is global and none is
  private, loopback, link-local, multicast, reserved or unspecified, there is at least one, and its
  scheme is http or https. An IPv4 address among them lies in none of the blocks 0/8, 10/8, 127/8,
  169.254/16, 172.16/12, 192.168/16, 100.64/10 and 224/3.\<close>

theorem strict_validation_admits_public_hosts:
  assumes "validate_outbound_http_url W strict_policy url = Inr ()"
  shows "\<exists>parsed host infos. urlparse_from [] url = Some parsed \<and> u_scheme parsed \<in> {''http'', ''https''} \<and>
    ow_dial W url = Some host \<and> ow_resolve W (lower (strip_brackets host)) = Some infos \<and>
    list_ex (\<lambda>s. ip_address s \<noteq> None) infos \<and>
    list_all (\<lambda>s. case ip_address s of
        None \<Rightarrow> True
      | Some a \<Rightarrow> is_global a \<and> \<not> is_private a \<and> \<not> is_loopback a \<and> \<not> is_link_local a \<and> \<not> is_multicast a \<and>
          \<not> is_reserved a \<and> \<not> is_unspecified a \<and>
          (case a of V6 _ _ \<Rightarrow> True
           | V4 w \<Rightarrow> unat w div 2 ^ 24 \<notin> {0, 10, 127} \<and> unat w div 2 ^ 24 < 224 \<and>
               unat w div 2 ^ 16 \<notin> {169 * 256 + 254, 192 * 256 + 168} \<and> unat w div 2 ^ 20 \<noteq> 172 * 16 + 1 \<and>
               unat w div 2 ^ 22 \<noteq> 100 * 4 + 1)) infos"
proof -
  obtain parsed host infos where run: "urlparse_from [] url = Some parsed" "u_scheme parsed \<in> {''http'', ''https''}"
    "ow_dial W url = Some host" "ow_resolve W (lower (strip_brackets host)) = Some infos"
    "check_addresses strict_policy False infos = Inr True"
    using validate_resolves [OF assms] by blast
  have fine: "is_global a \<and> \<not> is_private a \<and> \<not> is_loopback a \<and> \<not> is_link_local a \<and> \<not> is_multicast a \<and>
      \<not> is_reserved a \<and> \<not> is_unspecified a \<and>
      (case a of V6 _ _ \<Rightarrow> True
       | V4 w \<Rightarrow> unat w div 2 ^ 24 \<notin> {0, 10, 127} \<and> unat w div 2 ^ 24 < 224 \<and>
           unat w div 2 ^ 16 \<notin> {169 * 256 + 254, 192 * 256 + 168} \<and> unat w div 2 ^ 20 \<noteq> 172 * 16 + 1 \<and>
           unat w div 2 ^ 22 \<noteq> 100 * 4 + 1)" if "\<not> refused_address strict_policy a" for a
    using strict_address [OF that] strict_address_v4 that by (auto split: ip.splits)
  show ?thesis
    using run fine check_addresses_accepts [OF run(5)]
    by (intro exI conjI) (auto simp: list_all_iff split: option.splits)
qed

text \<open>C18. Every request a fetch sends was checked when it was sent, and credentials never leave the
  origin they were given for. At most one request more than the allowed redirects is sent; each
  one's URL passed the validation at its own hop; a request that carries the authentication, the
  cookies or a credential header goes to the first URL or to its origin (or from http to https on
  the default ports of its host); and only the first carries the query parameters.\<close>

theorem credentials_stay_with_their_origin:
  assumes "fetch_outbound_http W P max_redirects url kw = (sent, result)"
  shows "length sent \<le> nat (max_redirects + 1) \<and> map fst sent = [0..<length sent] \<and>
    list_all (\<lambda>(hop, u, kw).
      validate_outbound_http_url (fw_net (W hop)) P u = Inr () \<and>
      (carries_credentials kw \<longrightarrow> u = url \<or> trusts url u) \<and> (hop > 0 \<longrightarrow> k_params kw = None)) sent"
  using fetch_hops_safe [OF assms [unfolded fetch_outbound_http_def], of url]
  by (simp add: safe_request_def case_prod_unfold)

text \<open>With private addresses allowed, as for images, the check for reserved addresses comes too late:
  240.0.0.0/4, the broadcast address in it, is private to the library and is accepted.\<close>

lemma reserved_address_accepted:
  "\<not> refused_address \<lparr>allow_private = True, allow_loopback = False\<rparr> (V4 0xF0000001)"
  "\<not> refused_address \<lparr>allow_private = True, allow_loopback = False\<rparr> (V4 0xFFFFFFFF)"
  "is_reserved (V4 0xF0000001)" "is_reserved (V4 0xFFFFFFFF)"
  by (simp_all add: refused_address_def is_loopback_def is_unspecified_def is_multicast_def is_link_local_def
    private_v4 is_reserved_def in_any_def unmap_def reserved_networks_def in_net4)

subsection \<open>Witnesses\<close>

definition demo_net :: outbound_world where
  "demo_net = \<lparr>ow_dial = (\<lambda>u. if u = ''https://a.example/x'' then Some ''a.example'' else Some ''b.example''),
     ow_idna = (\<lambda>_. None), ow_resolve = (\<lambda>_. Some [''93.184.216.34''])\<rparr>"

definition demo_hops :: "nat \<Rightarrow> fetch_world" where
  "demo_hops hop = \<lparr>fw_net = demo_net,
     fw_get = (\<lambda>u _. Some (if u = ''https://a.example/x''
       then \<lparr>r_status = 302, r_location = Some ''//b.example/y''\<rparr> else \<lparr>r_status = 200, r_location = None\<rparr>))\<rparr>"

definition demo_kwargs :: fetch_kwargs where
  "demo_kwargs = \<lparr>k_auth = Some ''secret'', k_cookies = None, k_headers = Some [(''Cookie'', ''c''), (''Accept'', ''a'')],
     k_params = Some ''q''\<rparr>"

lemma demo_address: "ip_address ''93.184.216.34'' = Some (V4 0x5DB8D822)"
  by (simp add: ip_address_def ip_eval)

lemma demo_address_public: "\<not> refused_address P (V4 0x5DB8D822)"
  by (simp add: refused_address_def is_loopback_def is_unspecified_def is_multicast_def is_link_local_def is_global_def
    private_v4 is_reserved_def in_any_def unmap_def reserved_networks_def in_net4)

lemma demo_parsed:
  "urlparse_from [] ''https://a.example/x'' = Some \<lparr>u_scheme = ''https'', u_netloc = ''a.example'', u_path = ''/x'',
     u_params = [], u_query = [], u_fragment = []\<rparr>"
  "urlparse_from [] ''https://b.example/y'' = Some \<lparr>u_scheme = ''https'', u_netloc = ''b.example'', u_path = ''/y'',
     u_params = [], u_query = [], u_fragment = []\<rparr>"
  "url_hostname ''a.example'' = ''a.example''" "url_hostname ''b.example'' = ''b.example''"
  "lower ''a.example'' = ''a.example''" "lower ''b.example'' = ''b.example''"
  "strip_brackets ''a.example'' = ''a.example''" "strip_brackets ''b.example'' = ''b.example''"
  "urljoin ''https://a.example/x'' ''//b.example/y'' = Some ''https://b.example/y''"
  "crosses_origin ''https://a.example/x'' ''https://b.example/y'' = Some True"
  by code_simp+

lemma demo_valid:
  "validate_outbound_http_url demo_net P ''https://a.example/x'' = Inr ()"
  "validate_outbound_http_url demo_net P ''https://b.example/y'' = Inr ()"
  by (simp_all add: validate_outbound_http_url_def demo_parsed demo_net_def demo_address demo_address_public Let_def)

lemma strict_validation_witness:
  "\<exists>parsed host infos. urlparse_from [] ''https://a.example/x'' = Some parsed \<and> u_scheme parsed \<in> {''http'', ''https''} \<and>
    ow_dial demo_net ''https://a.example/x'' = Some host \<and> ow_resolve demo_net (lower (strip_brackets host)) = Some infos \<and>
    list_ex (\<lambda>s. ip_address s \<noteq> None) infos"
  using strict_validation_admits_public_hosts [OF demo_valid(1)] by blast

lemma demo_fetch:
  "fetch_outbound_http demo_hops strict_policy 5 ''https://a.example/x'' demo_kwargs =
    ([(0, ''https://a.example/x'', demo_kwargs), (1, ''https://b.example/y'', (strip_credentials demo_kwargs)\<lparr>k_params := None\<rparr>)],
     Fetched \<lparr>r_status = 200, r_location = None\<rparr>)"
  by (simp add: fetch_outbound_http_def eval_nat_numeral demo_hops_def demo_valid demo_parsed REDIRECT_STATUSES_def Let_def
    strip_credentials_def)

lemma credentials_witness:
  "length [(0, ''https://a.example/x'', demo_kwargs), (1 :: nat, ''https://b.example/y'', (strip_credentials demo_kwargs)\<lparr>k_params := None\<rparr>)]
     \<le> nat (5 + 1) \<and>
   carries_credentials demo_kwargs \<and> \<not> carries_credentials (strip_credentials demo_kwargs) \<and>
   validate_outbound_http_url (fw_net (demo_hops 1)) strict_policy ''https://b.example/y'' = Inr ()"
proof -
  have "carries_credentials demo_kwargs" by (simp add: carries_credentials_def demo_kwargs_def)
  then show ?thesis using credentials_stay_with_their_origin [OF demo_fetch] by simp
qed

end
