(* ===== verification/Image_Properties.thy ===== *)
theory Image_Properties
  imports Image_Proxy Outbound_Properties
begin

section \<open>What the image proxy sends and remembers\<close>

lemma read_chunks_bound:
  "read_chunks deadline url ttl breaks chunks received acc cache = (Inr body, cache') \<Longrightarrow>
   received \<le> IMAGE_FETCH_MAX_BYTES \<Longrightarrow> length acc = received \<Longrightarrow> length body \<le> IMAGE_FETCH_MAX_BYTES \<and> cache' = cache"
  by (induction deadline url ttl breaks chunks received acc cache rule: read_chunks.induct) (auto split: if_splits)

definition image_types :: "string list" where
  "image_types = [''image/jpeg'', ''image/png'', ''image/gif'', ''image/webp'', ''image/x-icon'', ''image/bmp'', ''image/svg+xml'']"

lemma if_member: "x \<in> S \<Longrightarrow> y \<in> S \<Longrightarrow> (if c then x else y) \<in> S"
  by simp

lemma sniffed_type:
  assumes "sniff_image_content_type body = Some t"
  shows "t \<in> set image_types"
proof -
  have "sniff_image_content_type body \<in> insert None (Some ` set image_types)"
    unfolding sniff_image_content_type_def Let_def by (intro if_member) (simp_all add: image_types_def)
  then show ?thesis using assms by auto
qed

text \<open>What holds of every run of the fetch: its requests were checked, and an image it returns is small
  and has a type of the list.\<close>

lemma fetch_image_safe:
  "fetch_image_hops W url ttl hop left current cache = (sent, result, cache') \<Longrightarrow>
   length sent \<le> left \<and>
   list_all (\<lambda>(hop, u). validate_outbound_http_url (iw_net (W hop)) image_policy u = Inr ()) sent \<and>
   (case result of Inl _ \<Rightarrow> True
    | Inr img \<Rightarrow> length (fi_body img) \<le> IMAGE_FETCH_MAX_BYTES \<and> fi_type img \<in> set image_types \<and>
        sniff_image_content_type (fi_body img) = Some (fi_type img) \<and> cache' = cache)"
proof (induction left arbitrary: hop current sent result cache')
  case 0
  then show ?case by auto
next
  case (Suc left)
  show ?case
  proof (cases "\<exists>resp loc nxt u. validate_outbound_http_url (iw_net (W hop)) image_policy current = Inr u \<and>
      iw_get (W hop) current = Some resp \<and> ir_status resp \<in> set REDIRECT_STATUSES \<and>
      ir_location resp = Some loc \<and> loc \<noteq> [] \<and> urljoin current loc = Some nxt")
    case True
    then obtain resp loc nxt u where go: "validate_outbound_http_url (iw_net (W hop)) image_policy current = Inr u"
      "iw_get (W hop) current = Some resp" "ir_status resp \<in> set REDIRECT_STATUSES"
      "ir_location resp = Some loc" "loc \<noteq> []" "urljoin current loc = Some nxt" by blast
    obtain rest res where rest: "fetch_image_hops W url ttl (Suc hop) left nxt cache = (rest, res)" by (rule prod.exhaust)
    then have "sent = (hop, current) # rest" "res = (result, cache')" using Suc.prems go by (auto simp: Let_def)
    then show ?thesis using Suc.IH [of "Suc hop" nxt rest result cache'] rest go by simp
  next
    case False
    have size: "length body \<le> IMAGE_FETCH_MAX_BYTES \<and> c = cache"
      if "read_limited_body now b url cache ttl = (Inr body, c)" for now b body c
      using that read_chunks_bound [of _ url ttl "b_breaks b" "b_chunks b" 0 "[]" cache body c] by (simp add: read_limited_body_def)
    show ?thesis
      using Suc.prems False
      by (auto simp: Let_def sniffed_type dest!: size split: option.splits sum.splits if_splits prod.splits)
  qed
qed

text \<open>A URL just remembered is in the map, whatever the map forgets at that moment.\<close>

lemma map_of_filter_kept:
  "distinct (map fst xs) \<Longrightarrow> map_of xs k = Some v \<Longrightarrow> P (k, v) \<Longrightarrow> map_of (filter P xs) k = Some v"
  by (induction xs) (auto simp: map_of_eq_None_iff split: if_splits dest: map_of_SomeD)

lemma remembered:
  assumes "0 < ttl" and "distinct (map fst cache)"
  shows "map_of (remember_fetch_failure now url cache ttl) url = Some (now + ttl)"
  using assms by (auto simp: remember_fetch_failure_def Let_def distinct_dict_set map_of_dict_set intro!: map_of_filter_kept)

text \<open>The failure is remembered until one of the given readings of the clock and the time to live.\<close>

definition remembers :: "int set \<Rightarrow> failures \<Rightarrow> string \<Rightarrow> int \<Rightarrow> bool" where
  "remembers T cache url ttl \<longleftrightarrow> (\<exists>t \<in> T. map_of cache url = Some (t + ttl))"

lemma remember_remembers [simp]:
  "now \<in> T \<Longrightarrow> 0 < ttl \<Longrightarrow> distinct (map fst cache) \<Longrightarrow> remembers T (remember_fetch_failure now url cache ttl) url ttl"
  using remembered unfolding remembers_def by blast

text \<open>The clock as a fetch reads it: at a hop's start, when its body has been read, at each chunk.\<close>

definition clock_readings :: "(nat \<Rightarrow> image_world) \<Rightarrow> int set" where
  "clock_readings W = {t. \<exists>hop. t = iw_now (W hop) \<or> t = iw_after (W hop) \<or>
     (\<exists>u resp. iw_get (W hop) u = Some resp \<and> t \<in> snd ` set (b_chunks (ir_body resp)))}"

lemma clock_readings [simp]:
  "iw_now (W hop) \<in> clock_readings W" "iw_after (W hop) \<in> clock_readings W"
  by (auto simp: clock_readings_def)

lemma chunk_readings: "iw_get (W hop) u = Some resp \<Longrightarrow> snd ` set (b_chunks (ir_body resp)) \<subseteq> clock_readings W"
  by (auto simp: clock_readings_def)

lemma read_chunks_fails:
  "read_chunks deadline url ttl breaks chunks received acc cache = (Inl e, cache') \<Longrightarrow> 0 < ttl \<Longrightarrow> distinct (map fst cache) \<Longrightarrow>
   snd ` set chunks \<subseteq> T \<Longrightarrow> (e = Http_404 \<and> remembers T cache' url ttl) \<or>
   (e = Http_404 \<and> cache' = cache \<and> IMAGE_FETCH_MAX_BYTES < received + sum_list (map (length \<circ> fst) chunks)) \<or>
   (e = Request_Error \<and> cache' = cache)"
  by (induction deadline url ttl breaks chunks received acc cache rule: read_chunks.induct)
    (auto split: if_splits)

text \<open>The upstream of one of the requests sent a body over the limit.\<close>

definition oversized :: "(nat \<Rightarrow> image_world) \<Rightarrow> (nat \<times> string) list \<Rightarrow> bool" where
  "oversized W sent \<longleftrightarrow> list_ex (\<lambda>(hop, u). case iw_get (W hop) u of
       None \<Rightarrow> False
     | Some resp \<Rightarrow> ir_status resp = 200 \<and>
         IMAGE_FETCH_MAX_BYTES < sum_list (map (length \<circ> fst) (b_chunks (ir_body resp)))) sent"

lemma fetch_image_fails:
  "fetch_image_hops W url ttl hop left current cache = (sent, Inl e, cache') \<Longrightarrow> 0 < ttl \<Longrightarrow> distinct (map fst cache) \<Longrightarrow>
   (e = Http_404 \<and> remembers (clock_readings W) cache' url ttl) \<or> (e = Http_404 \<and> cache' = cache \<and> oversized W sent) \<or>
   (e \<noteq> Http_404 \<and> cache' = cache)"
proof (induction left arbitrary: hop current sent cache')
  case 0
  then show ?case by auto
next
  case (Suc left)
  show ?case
  proof (cases "\<exists>resp loc nxt u. validate_outbound_http_url (iw_net (W hop)) image_policy current = Inr u \<and>
      iw_get (W hop) current = Some resp \<and> ir_status resp \<in> set REDIRECT_STATUSES \<and>
      ir_location resp = Some loc \<and> loc \<noteq> [] \<and> urljoin current loc = Some nxt")
    case True
    then obtain resp loc nxt u where go: "validate_outbound_http_url (iw_net (W hop)) image_policy current = Inr u"
      "iw_get (W hop) current = Some resp" "ir_status resp \<in> set REDIRECT_STATUSES"
      "ir_location resp = Some loc" "loc \<noteq> []" "urljoin current loc = Some nxt" by blast
    obtain rest res where rest: "fetch_image_hops W url ttl (Suc hop) left nxt cache = (rest, res)" by (rule prod.exhaust)
    then have "sent = (hop, current) # rest" "res = (Inl e, cache')" using Suc.prems(1) go by (auto simp: Let_def)
    then show ?thesis using Suc.IH [of "Suc hop" nxt rest cache'] rest Suc.prems(2,3) by (auto simp: oversized_def)
  next
    case False
    have body: "(er = Http_404 \<and> remembers (clock_readings W) c url ttl) \<or> (er = Http_404 \<and> c = cache \<and>
        IMAGE_FETCH_MAX_BYTES < sum_list (map (length \<circ> fst) (b_chunks (ir_body resp)))) \<or> (er = Request_Error \<and> c = cache)"
      if "read_limited_body now (ir_body resp) url cache ttl = (Inl er, c)" and "iw_get (W h) u = Some resp" for now h u resp er c
      using that(1) chunk_readings [of W h u resp, OF that(2)] Suc.prems(2,3)
        read_chunks_fails [of _ url ttl "b_breaks (ir_body resp)" "b_chunks (ir_body resp)" 0 "[]" cache er c "clock_readings W"]
      by (simp add: read_limited_body_def)
    have same: "c = cache" if "read_limited_body now b url cache ttl = (Inr t, c)" for now b t c
      using that read_chunks_bound [of _ url ttl "b_breaks b" "b_chunks b" 0 "[]" cache t c] by (simp add: read_limited_body_def)
    show ?thesis
      using Suc.prems False
      by (auto simp: Let_def oversized_def dest!: same dest: body split: option.splits sum.splits if_splits prod.splits)
  qed
qed

subsection \<open>The properties\<close>

lemma remote_url_local: "starts_with ''http://'' url \<or> starts_with ''https://'' url \<Longrightarrow> \<not> starts_with ''/data'' url"
  by (auto simp: starts_with_iff)

lemma serve_remote_cases:
  assumes "serve_local_or_remote_image L W start ended (Some url) cache ttl = (sent, result, cache')"
    and "\<not> starts_with ''/data'' url"
  shows "(sent = [] \<and> result = Inl Http_404 \<and> cache' = cache) \<or>
    serve_remote W ended url cache ttl = (sent, result, cache')"
proof -
  have "serve_local_or_remote_image L W start ended (Some url) cache ttl \<in>
      {([], Inl Http_404, cache), serve_remote W ended url cache ttl}"
    unfolding serve_local_or_remote_image_def option.case if_not_P [OF assms(2)]
    by (intro if_member) (simp_all split: option.split)
  then show ?thesis using assms(1) by (metis insert_iff empty_iff prod.inject)
qed

lemma header_if_other: "k \<noteq> n \<Longrightarrow> map_of (header_if n v) k = None"
  by (simp add: header_if_def split: option.split)

lemma image_headers:
  "map_of ([(''Content-Type'', t), (''Content-Length'', n)] @ header_if ''Cache-Control'' c @
     header_if ''Last-Modified'' l @ [disposition d] @ security_headers t) ''Content-Type'' = Some t"
  "map_of ([(''Content-Type'', t), (''Content-Length'', n)] @ header_if ''Cache-Control'' c @
     header_if ''Last-Modified'' l @ [disposition d] @ security_headers t) ''X-Content-Type-Options'' = Some ''nosniff''"
  "t = ''image/svg+xml'' \<Longrightarrow> map_of ([(''Content-Type'', t), (''Content-Length'', n)] @ header_if ''Cache-Control'' c @
     header_if ''Last-Modified'' l @ [disposition d] @ security_headers t) ''Content-Security-Policy'' = Some IMAGE_RESPONSE_CSP"
  by (simp_all add: header_if_other map_add_def disposition_def security_headers_def starts_with_def)

text \<open>C25. Remote artwork costs at most six requests, each to a URL checked when it is sent, and what is
  served of it is small and typed by its own bytes: at most five megabytes, with one of seven image
  types whatever the upstream called it, with sniffing switched off in the browser and, for SVG, a
  policy that lets it run no script. A URL that was served is no longer among the failures.\<close>

theorem served_image_is_small_and_typed:
  assumes "serve_local_or_remote_image L W start ended (Some url) cache ttl = (sent, result, cache')"
    and "\<not> starts_with ''/data'' url"
  shows "length sent \<le> 6 \<and>
    list_all (\<lambda>(hop, u). validate_outbound_http_url (iw_net (W hop)) image_policy u = Inr ()) sent \<and>
    (case result of Inl e \<Rightarrow> True
     | Inr ans \<Rightarrow> ia_status ans = 200 \<and> length (ia_body ans) \<le> 5 * 1024 * 1024 \<and> map_of cache' url = None \<and>
         map_of (ia_headers ans) ''X-Content-Type-Options'' = Some ''nosniff'' \<and>
         map_of (ia_headers ans) ''Content-Type'' = sniff_image_content_type (ia_body ans) \<and>
         (\<exists>t \<in> set image_types. sniff_image_content_type (ia_body ans) = Some t \<and>
            (t = ''image/svg+xml'' \<longrightarrow> map_of (ia_headers ans) ''Content-Security-Policy'' = Some IMAGE_RESPONSE_CSP)))"
proof (cases "sent = [] \<and> result = Inl Http_404")
  case False
  then have run: "serve_remote W ended url cache ttl = (sent, result, cache')" using serve_remote_cases [OF assms] by blast
  obtain reqs res c where fetch: "fetch_remote_image W url cache ttl = (reqs, res, c)" by (metis prod.exhaust)
  note safe = fetch_image_safe [OF fetch [unfolded fetch_remote_image_def IMAGE_FETCH_MAX_REDIRECTS_def]]
  have sent: "sent = reqs" using run fetch by (auto simp: serve_remote_def Let_def split: sum.splits image_error.splits)
  show ?thesis
  proof (cases res)
    case (Inl e)
    then show ?thesis using run fetch safe by (cases e) (auto simp: serve_remote_def)
  next
    case (Inr img)
    define d where "d = (let name = base_name (fst (cut (CHR ''?'') url)) in if name = [] then ''image'' else name)"
    have out: "result = Inr \<lparr>ia_status = 200, ia_body = fi_body img,
        ia_headers = [(''Content-Type'', fi_type img), (''Content-Length'', show_nat (length (fi_body img)))]
          @ header_if ''Cache-Control'' (fi_cache_control img) @ header_if ''Last-Modified'' (fi_last_modified img)
          @ [disposition d] @ security_headers (fi_type img)\<rparr>" "cache' = dict_del cache url"
      using run fetch safe Inr by (auto simp: serve_remote_def Let_def d_def)
    have img: "length (fi_body img) \<le> 5 * 1024 * 1024" "fi_type img \<in> set image_types"
      "sniff_image_content_type (fi_body img) = Some (fi_type img)"
      using safe Inr by (simp_all add: IMAGE_FETCH_MAX_BYTES_def)
    have requests: "length sent \<le> 6 \<and> list_all (\<lambda>(hop, u). validate_outbound_http_url (iw_net (W hop)) image_policy u = Inr ()) sent"
      using safe sent by simp
    show ?thesis
      unfolding out(1) sum.case image_answer.simps image_headers img(3)
      using requests img image_headers(3) by (simp add: out(2) map_of_dict_del)
  qed
qed auto

text \<open>A failure that has not expired when the map is read.\<close>

definition failed_recently :: "failures \<Rightarrow> string \<Rightarrow> int \<Rightarrow> bool" where
  "failed_recently cache url start \<longleftrightarrow> (case map_of cache url of Some expiry \<Rightarrow> expiry \<noteq> 0 \<and> start < expiry | None \<Rightarrow> False)"

text \<open>C26. A URL that failed is not fetched again before its failure expires. A URL with a failure that has
  not expired is refused without a request, and the failures stay as they are. After a fetch of an http or
  https URL without one (it never failed, or its failure has expired) that ends in an error, one of three things
  holds. Either the map holds the failure anew, to expire the time to live after a reading of the clock
  during this request (at a hop, a chunk or the end), and until then, whatever the upstream would send,
  the URL is refused without a request. Or nothing is remembered, because an upstream sent more than the
  limit. Or nothing is remembered because a redirect could not be joined with its URL, which ends the
  request in an exception the view does not catch. The time to live is positive and the map is a
  dictionary, each URL once; the only expiry that does not count is zero, as in the code.\<close>

theorem failed_image_is_not_fetched_again:
  assumes "serve_local_or_remote_image L W start ended (Some url) cache ttl = (sent, Inl e, cache')"
    and "starts_with ''http://'' url \<or> starts_with ''https://'' url"
    and "distinct (map fst cache)" and "0 < ttl"
  shows "if failed_recently cache url start then sent = [] \<and> e = Http_404 \<and> cache' = cache
    else (e = Value_Error \<and> cache' = cache) \<or> (e = Http_404 \<and> cache' = cache \<and> oversized W sent) \<or>
     (e = Http_404 \<and> (\<exists>t \<in> insert ended (clock_readings W). map_of cache' url = Some (t + ttl) \<and>
       (\<forall>W' start' ended'. start' < t + ttl \<and> t + ttl \<noteq> 0 \<longrightarrow>
          serve_local_or_remote_image L W' start' ended' (Some url) cache' ttl = ([], Inl Http_404, cache'))))"
proof -
  have web: "url \<noteq> []" "\<not> starts_with ''/data'' url"
    using assms(2) remote_url_local by (auto simp: starts_with_def)
  have branch: "serve_local_or_remote_image L W start ended (Some url) cache ttl =
      (if failed_recently cache url start then ([], Inl Http_404, cache) else serve_remote W ended url cache ttl)"
    for W start ended cache
    using assms(2) web by (cases "starts_with ''http://'' url")
      (auto simp: serve_local_or_remote_image_def failed_recently_def split: option.splits)
  show ?thesis
  proof (cases "failed_recently cache url start")
    case True
    then show ?thesis using assms(1) by (simp add: branch)
  next
    case False
    then have run: "serve_remote W ended url cache ttl = (sent, Inl e, cache')"
      using assms(1) by (simp add: branch)
    obtain reqs res c where fetch: "fetch_remote_image W url cache ttl = (reqs, res, c)" by (metis prod.exhaust)
    obtain er where res: "res = Inl er" using run fetch by (cases res) (auto simp: serve_remote_def Let_def)
    have fail: "(er = Http_404 \<and> remembers (clock_readings W) c url ttl) \<or> (er = Http_404 \<and> c = cache \<and> oversized W reqs)
        \<or> (er \<noteq> Http_404 \<and> c = cache)"
      using fetch_image_fails [OF fetch [unfolded fetch_remote_image_def res] assms(4,3)] .
    have more: "remembers (clock_readings W) c url ttl \<Longrightarrow> remembers (insert ended (clock_readings W)) c url ttl" for c
      by (auto simp: remembers_def)
    have "(e = Value_Error \<and> cache' = cache) \<or> (e = Http_404 \<and> cache' = cache \<and> oversized W sent) \<or>
        (e = Http_404 \<and> remembers (insert ended (clock_readings W)) cache' url ttl)"
      using run fetch fail assms(3,4) by (cases er) (auto simp: serve_remote_def res intro: more)
    moreover have "serve_local_or_remote_image L W' start' ended' (Some url) cache' ttl = ([], Inl Http_404, cache')"
      if "map_of cache' url = Some expiry" "start' < expiry" "expiry \<noteq> 0" for W' start' ended' expiry
      using that by (simp add: branch failed_recently_def)
    ultimately show ?thesis using False unfolding remembers_def by auto
  qed
qed

text \<open>The two failures that are not remembered happen: here a redirect to a URL with one bracket.\<close>

definition image_world_of :: "image_response \<Rightarrow> nat \<Rightarrow> image_world" where
  "image_world_of resp hop = \<lparr>iw_net = demo_net, iw_get = (\<lambda>_. Some resp), iw_now = 100, iw_after = 101\<rparr>"

definition plain_response :: "int \<Rightarrow> string option \<Rightarrow> (string \<times> int) list \<Rightarrow> image_response" where
  "plain_response status loc chunks = \<lparr>ir_status = status, ir_location = loc, ir_cache_control = None, ir_last_modified = None,
     ir_body = \<lparr>b_chunks = chunks, b_breaks = False\<rparr>\<rparr>"

lemmas demo_image_simps = serve_local_or_remote_image_def serve_remote_def fetch_remote_image_def image_world_of_def
  plain_response_def demo_valid REDIRECT_STATUSES_def Let_def starts_with_def
  remember_fetch_failure_def

lemma malformed_redirect_escapes:
  "serve_local_or_remote_image L (image_world_of (plain_response 302 (Some ''http://['') [])) 100 100
     (Some ''https://a.example/x'') [] 300 = ([(0, ''https://a.example/x'')], Inl Value_Error, [])"
proof -
  have "urljoin ''https://a.example/x'' ''http://['' = None" by code_simp
  then show ?thesis by (simp add: demo_image_simps)
qed

subsection \<open>Witnesses\<close>

definition demo_files :: local_files where
  "demo_files = \<lparr>lf_find = (\<lambda>_. None), lf_read = (\<lambda>_. None)\<rparr>"

lemma demo_missing_image:
  "serve_local_or_remote_image L (image_world_of (plain_response 404 None [])) 100 100
     (Some ''https://a.example/x'') [(''https://a.example/x'', 50)] 300 =
   ([(0, ''https://a.example/x'')], Inl Http_404, [(''https://a.example/x'', 400)])"
  by (simp add: demo_image_simps)

lemma failed_image_witness:
  "serve_local_or_remote_image demo_files (image_world_of (plain_response 200 None [])) 399 500 (Some ''https://a.example/x'') [(''https://a.example/x'', 400)] 300 =
     ([], Inl Http_404, [(''https://a.example/x'', 400)])"
  using failed_image_is_not_fetched_again [OF demo_missing_image [of demo_files]]
  by (simp add: starts_with_def oversized_def image_world_of_def plain_response_def failed_recently_def)

lemma demo_gif: "sniff_image_content_type ''GIF89a..'' = Some ''image/gif''"
  by code_simp

lemma demo_served_image:
  "serve_local_or_remote_image L (image_world_of (plain_response 200 None [(''GIF89a..'', 100)])) 100 100
     (Some ''https://a.example/x'') [] 300 =
   ([(0, ''https://a.example/x'')],
    Inr \<lparr>ia_status = 200, ia_body = ''GIF89a..'', ia_headers = [(''Content-Type'', ''image/gif''), (''Content-Length'', show_nat 8),
      disposition ''x'', (''X-Content-Type-Options'', ''nosniff'')]\<rparr>, [])"
  by (simp add: demo_image_simps read_limited_body_def IMAGE_FETCH_MAX_BYTES_def IMAGE_FETCH_TOTAL_TIMEOUT_def demo_gif
    header_if_def security_headers_def base_name_def cut_def split_once_def rsplit_once_def dict_del_def)

lemma served_image_witness:
  "length (''GIF89a..'' :: string) \<le> 5 * 1024 * 1024 \<and> (\<exists>t \<in> set image_types. sniff_image_content_type ''GIF89a..'' = Some t)"
  using served_image_is_small_and_typed [OF demo_served_image [of demo_files]] by (auto simp: starts_with_def)

end
