(* ===== verification/Keyspace.thy ===== *)
theory Keyspace
  imports Catchup_Properties VOD_Properties Source_Properties Reconciler_Properties
begin

section \<open>The keyspace all components share\<close>

text \<open>
  The slot keys have one type whoever writes them: a counter is absent or a natural number, a
  version a number, a release pointer the name of a credential counter. Every operation of the
  channels, of VOD, of catch-up and of the reconciler keeps it, so any interleaving of them does.
\<close>

definition slots_typed :: "redis \<Rightarrow> bool" where
  "slots_typed r \<longleftrightarrow> slot_wf r \<and> (\<forall>k. is_counter_key k \<longrightarrow> 0 \<le> slot_read r k)"

named_theorems typed_intros

lemma slots_typed_empty [simp]: "slots_typed empty_redis"
  unfolding slots_typed_def by (rule conjI, rule slot_wf_empty) (simp add: slot_read_def empty_redis_def rget_def)

lemma slots_typedI: "slot_wf r \<Longrightarrow> (\<And>k. is_counter_key k \<Longrightarrow> 0 \<le> slot_read r k) \<Longrightarrow> slots_typed r"
  by (simp add: slots_typed_def)

lemma slots_typedD: "slots_typed r \<Longrightarrow> slot_wf r" "slots_typed r \<Longrightarrow> is_counter_key k \<Longrightarrow> 0 \<le> slot_read r k"
  by (simp_all add: slots_typed_def)

lemma typed_same: "same_slots r t \<Longrightarrow> slots_typed r \<Longrightarrow> slots_typed t"
  using same_slots_wf same_slots_read(3) by (fastforce simp: slots_typed_def)

lemma typed_session: "only_session sid r t \<Longrightarrow> slots_typed r \<Longrightarrow> slots_typed t"
  by (rule typed_same [OF only_session_slots])

subsection \<open>The scripts\<close>

lemma typed_reserve [typed_intros]:
  assumes "slots_typed r"
  shows "slots_typed (fst (reserve_profile_slot L db r p))"
proof (rule slots_typedI)
  fix k assume "is_counter_key k"
  then show "0 \<le> slot_read (fst (reserve_profile_slot L db r p)) k"
    using slots_typedD(2) [OF assms]
    by (cases rule: reservation_cases [of L db p])
      (auto simp: reserve_profile_slot_def script_reserve_def Let_def slot_read_write slot_read_other)
qed (rule reserve_wf [OF slots_typedD(1) [OF assms]])

lemma typed_release [typed_intros]:
  assumes "slots_typed r"
  shows "slots_typed (release_profile_slot r i)"
proof (rule slots_typedI)
  fix k assume "is_counter_key k"
  then show "0 \<le> slot_read (release_profile_slot r i) k"
    using slots_typedD(2) [OF assms] key_of_pointer [OF slots_typedD(1) [OF assms], of i]
    by (auto simp: release_profile_slot_def script_release_def slot_read_give_back slot_read_other split: option.splits)
qed (rule release_wf [OF slots_typedD(1) [OF assms]])

lemma switch_credential_counts:
  assumes "slots_typed r" and "0 < n \<Longrightarrow> is_cred_key key"
    and "switch_credential r (profile_credential_release_key i) (profile_credential_release_key j) key n = Some t"
    and "is_counter_key k"
  shows "0 \<le> slot_read t k"
  using assms(2-4) slots_typedD(2) [OF assms(1)] key_of_pointer [OF slots_typedD(1) [OF assms(1)], of i]
  by (auto simp: switch_credential_def Let_def slot_reads split: option.splits if_splits)

lemma typed_switch [typed_intros]:
  assumes "slots_typed r"
  shows "slots_typed (fst (switch_profile_slot L db r p q (stream_profile_key s)))"
proof (rule slots_typedI)
  fix k assume k: "is_counter_key k"
  obtain c m where cm: "credential_reservation L db q = (c, m)" by (rule prod.exhaust)
  have counts: "0 \<le> slot_read (fst (script_switch r (profile_connections_key i) (profile_connections_key j)
      (stream_profile_key s) (profile_credential_release_key i) (profile_credential_release_key j) key x move n)) k"
    if "0 < n \<Longrightarrow> is_cred_key key" for i j key x move n
    using slots_typedD(2) [OF assms] switch_credential_counts [OF assms that _ k, where i = i and j = j] k
    by (auto simp: script_switch_def slot_reads split: option.splits)
  show "0 \<le> slot_read (fst (switch_profile_slot L db r p q (stream_profile_key s))) k"
    using credential_reservation_key [OF cm] cm by (auto simp: switch_profile_slot_def Let_def intro!: counts)
qed (rule switch_wf [OF slots_typedD(1) [OF assms]])

lemma slot_wf_set_counter: "slot_wf r \<Longrightarrow> is_counter_key k \<Longrightarrow> slot_wf (rset r k (RInt n))"
  unfolding slot_wf_def by (auto simp: store_simps split: if_splits)

lemma typed_reconcile:
  assumes "slots_typed r" and "is_counter_key k" and "0 \<le> lo" and "0 \<le> hi"
  shows "slots_typed (fst (reconcile_counter r k v lo hi))"
proof (rule slots_typedI)
  show "slot_wf (fst (reconcile_counter r k v lo hi))"
    using slot_wf_set_counter [OF slots_typedD(1) [OF assms(1)] assms(2)] slots_typedD(1) [OF assms(1)]
    by (auto simp: reconcile_counter_def script_reconcile_def Let_def)
  fix l assume "is_counter_key l"
  then show "0 \<le> slot_read (fst (reconcile_counter r k v lo hi)) l"
    using slots_typedD(2) [OF assms(1)] assms(2-4)
    by (auto simp: slot_read_reconcile clamp_def)
qed

lemma typed_fst: "slots_typed (fst p) \<Longrightarrow> p = (t, x) \<Longrightarrow> slots_typed t"
  by simp

text \<open>An operation is typed when each of its branches is: one rule per shape of branching.\<close>

named_theorems typed_cases

lemma typed_pair [typed_cases]: "slots_typed r \<Longrightarrow> slots_typed (fst (r, x))"
  by simp

lemma typed_case_prod [typed_cases]:
  "slots_typed (fst p) \<Longrightarrow> (\<And>t x. slots_typed t \<Longrightarrow> slots_typed (fst (F t x))) \<Longrightarrow> slots_typed (fst (case_prod F p))"
  by (cases p) simp

lemma typed_case_store [typed_cases]:
  "slots_typed (fst p) \<Longrightarrow> (\<And>t x. slots_typed t \<Longrightarrow> slots_typed (F t x)) \<Longrightarrow> slots_typed (case_prod F p)"
  by (cases p) simp

lemma typed_case_if [typed_cases]:
  "(b \<Longrightarrow> slots_typed (fst p)) \<Longrightarrow> (\<not> b \<Longrightarrow> slots_typed (fst q)) \<Longrightarrow> slots_typed (fst (if b then p else q))"
  "(b \<Longrightarrow> slots_typed r) \<Longrightarrow> (\<not> b \<Longrightarrow> slots_typed s) \<Longrightarrow> slots_typed (if b then r else s)"
  by simp_all

lemma typed_case_option [typed_cases]:
  "slots_typed (fst p) \<Longrightarrow> (\<And>x. slots_typed (fst (F x))) \<Longrightarrow> slots_typed (fst (case_option p F m))"
  "slots_typed r \<Longrightarrow> (\<And>x. slots_typed (G x)) \<Longrightarrow> slots_typed (case_option r G m)"
  by (cases m; simp)+

lemma typed_case_sum [typed_cases]:
  "(\<And>x. slots_typed (fst (F x))) \<Longrightarrow> (\<And>y. slots_typed (fst (G y))) \<Longrightarrow> slots_typed (fst (case_sum F G s))"
  by (cases s) simp_all

lemma typed_case_bool [typed_cases]:
  "slots_typed (fst p) \<Longrightarrow> slots_typed (fst q) \<Longrightarrow> slots_typed (fst (case_bool p q b))"
  "slots_typed r \<Longrightarrow> slots_typed s \<Longrightarrow> slots_typed (case_bool r s b)"
  by (cases b; simp)+

lemma typed_case_let [typed_cases]:
  "slots_typed (fst p) \<Longrightarrow> (\<And>x. slots_typed (fst x) \<Longrightarrow> slots_typed (fst (F x))) \<Longrightarrow> slots_typed (fst (Let p F))"
  "slots_typed r \<Longrightarrow> (\<And>t. slots_typed t \<Longrightarrow> slots_typed (fst (G t))) \<Longrightarrow> slots_typed (fst (Let r G))"
  "slots_typed r \<Longrightarrow> (\<And>t. slots_typed t \<Longrightarrow> slots_typed (H t)) \<Longrightarrow> slots_typed (Let r H)"
  by simp_all

lemma typed_case_both [typed_cases]:
  "slots_typed (fst (F a b)) \<Longrightarrow> slots_typed (fst (case_prod F (a, b)))"
  "slots_typed (G a b) \<Longrightarrow> slots_typed (case_prod G (a, b))"
  by simp_all

lemma typed_case_tuple [typed_cases]:
  "(\<And>a b. slots_typed (fst (F a b))) \<Longrightarrow> slots_typed (fst (case_prod F (p :: bool \<times> 'b)))"
  "(\<And>a b. slots_typed (fst (G a b))) \<Longrightarrow> slots_typed (fst (case_prod G (q :: string \<times> 'c)))"
  "(\<And>a b. slots_typed (fst (H a b))) \<Longrightarrow> slots_typed (fst (case_prod H (s :: vod_state \<times> 'd)))"
  by (cases p; cases q; cases s; simp)+

lemma typed_case_answers [typed_cases]:
  "(\<And>a b c. slots_typed (fst (F a b c))) \<Longrightarrow> (\<And>e. slots_typed (fst (G e))) \<Longrightarrow> slots_typed (fst (case_assignment F G x))"
  "(\<And>c. slots_typed (fst (H c))) \<Longrightarrow> (\<And>s. slots_typed (fst (J s))) \<Longrightarrow> slots_typed (fst (case_played H J y))"
  "(\<And>t. slots_typed (fst (K t))) \<Longrightarrow> (\<And>e. slots_typed (fst (L e))) \<Longrightarrow> (\<And>e. slots_typed (fst (M e))) \<Longrightarrow>
   slots_typed (fst (case_answer_error K L M z))"
  "slots_typed (fst p) \<Longrightarrow> (\<And>i. slots_typed (fst (N i))) \<Longrightarrow> (\<And>e. slots_typed (fst (O' e))) \<Longrightarrow>
   slots_typed (fst (case_failover_step p N O' f))"
  by (cases x; cases y; cases z; cases f; simp)+

lemma typed_case_relay [typed_cases]:
  "slots_typed (fst p) \<Longrightarrow> (\<And>t. slots_typed (fst (F t))) \<Longrightarrow> (\<And>n. slots_typed (fst (G n))) \<Longrightarrow> slots_typed (fst q) \<Longrightarrow>
   slots_typed (fst (case_relay_error F G p q e))"
  by (cases e) simp_all

lemma typed_case_upstream [typed_cases]:
  "(\<And>a. slots_typed (fst (F a))) \<Longrightarrow> slots_typed (fst p) \<Longrightarrow> slots_typed (fst q) \<Longrightarrow> slots_typed (fst (case_upstream F p q x))"
  "(\<And>t. slots_typed (fst (G t))) \<Longrightarrow> slots_typed (fst p') \<Longrightarrow> slots_typed (fst q') \<Longrightarrow> slots_typed (fst (case_prepared G p' q' y))"
  "(\<And>u s. slots_typed (fst (H u s))) \<Longrightarrow> (\<And>n. slots_typed (fst (J n))) \<Longrightarrow> (\<And>n b. slots_typed (fst (K n b))) \<Longrightarrow>
   slots_typed (fst p'') \<Longrightarrow> slots_typed (fst (case_attempt H J K p'' z))"
  by (cases x; cases y; cases z; simp)+

lemma typed_reconcile_all:
  "slots_typed r \<Longrightarrow> list_all (\<lambda>(k, v, lo, hi). is_counter_key k \<and> 0 \<le> lo \<and> 0 \<le> hi) tasks \<Longrightarrow>
   slots_typed (fst (reconcile_all r tasks))"
proof (induction tasks arbitrary: r)
  case (Cons t tasks)
  obtain k v lo hi where t: "t = (k, v, lo, hi)" by (metis prod_cases4)
  obtain u status was became where step: "reconcile_counter r k v lo hi = (u, status, was, became)" by (metis prod_cases4)
  have "slots_typed (fst (reconcile_counter r k v lo hi))" using Cons.prems t by (intro typed_reconcile) simp_all
  then have "slots_typed u" by (simp add: step)
  moreover have "fst (reconcile_all r (t # tasks)) = fst (reconcile_all u tasks)" by (simp add: t step split: prod.splits)
  ultimately show ?case using Cons.IH [of u] Cons.prems(2) by simp
qed simp

subsection \<open>Channels\<close>

lemma typed_walk:
  assumes "\<And>s p. slots_typed s \<Longrightarrow> slots_typed (fst (f s p))" and "slots_typed r"
  shows "slots_typed (fst (first_accepted f r ps))"
  using assms(2)
proof (induction ps arbitrary: r)
  case (Cons p ps)
  obtain t ok where step: "f r p = (t, ok)" by (rule prod.exhaust)
  then have "slots_typed t" using assms(1) [OF Cons.prems, of p] by simp
  then show ?case using Cons.IH by (cases ok) (simp_all add: step)
qed simp

lemma typed_attempt [typed_intros]: "slots_typed r \<Longrightarrow> slots_typed (fst (reserve_attempt L db r p))"
  using typed_reserve [of r L db p] by (auto simp: reserve_attempt_def split: prod.splits)

lemma typed_assign [typed_intros]: "slots_typed r \<Longrightarrow> slots_typed (assign_stream r owner s p)"
  by (rule typed_same [OF same_slots_assign])

lemma typed_drop: "\<not> is_slot_key k \<Longrightarrow> slots_typed r \<Longrightarrow> slots_typed (rdel r k)"
  by (rule typed_same) simp_all

lemma typed_attempts: "slots_typed r \<Longrightarrow> slots_typed (fst (first_accepted (reserve_attempt L db) r ps))"
  by (rule typed_walk) (rule typed_attempt)

lemma typed_stream_get [typed_intros]:
  "slots_typed r \<Longrightarrow> slots_typed (fst (stream_get_stream L db r s))"
  using typed_attempts [of r L db]
  by (auto simp: stream_get_stream_def Let_def intro!: typed_assign split: option.splits prod.splits dest: typed_fst)

lemma typed_stream_release [typed_intros]: "slots_typed r \<Longrightarrow> slots_typed (fst (stream_release_stream r s))"
  by (auto simp: stream_release_stream_def Let_def intro!: typed_release typed_drop split: option.splits)

lemma typed_existing: "slots_typed r \<Longrightarrow> slots_typed (fst (existing_assignment r ch snapshot))"
  by (auto simp: existing_assignment_def release_stale_stream_assignment_def Let_def intro!: typed_release typed_drop
    split: option.splits sum.splits bool.splits)

lemma typed_try_streams:
  "slots_typed r \<Longrightarrow> slots_typed (fst (Channel_Streams.try_streams L db owner r ss flags))"
proof (induction ss arbitrary: r flags)
  case (Cons s ss)
  obtain t found where walk: "first_accepted (reserve_attempt L db) r (stream_profiles db s) = (t, found)" by (rule prod.exhaust)
  then have "slots_typed t" using typed_attempts [OF Cons.prems, of L db "stream_profiles db s"] by simp
  then show ?case using Cons.IH by (cases flags) (auto simp: walk Let_def intro!: typed_assign split: option.splits)
qed (auto split: prod.splits)

lemma typed_channel_get [typed_intros]:
  assumes "slots_typed r"
  shows "slots_typed (fst (channel_get_stream L db r ch snapshot))"
proof -
  obtain t a where ex: "existing_assignment r ch snapshot = (t, a)" by (rule prod.exhaust)
  then have "slots_typed t" using typed_existing [OF assms, of ch snapshot] by simp
  from typed_try_streams [OF this, of L db "chan_pk ch" "chan_streams ch" "(False, False)"] this assms show ?thesis
    by (auto simp: channel_get_stream_def ex split: sum.splits option.splits prod.splits)
qed

lemma typed_channel_release [typed_intros]: "slots_typed r \<Longrightarrow> slots_typed (fst (channel_release_stream r ch))"
  by (auto simp: channel_release_stream_def Let_def intro!: typed_release typed_drop split: option.splits)

lemma typed_update_profile [typed_intros]:
  "slots_typed r \<Longrightarrow> slots_typed (fst (channel_update_stream_profile L db r ch i))"
  using typed_switch [of r L db]
  by (auto simp: channel_update_stream_profile_def Let_def split: option.splits prod.splits dest: typed_fst)

subsection \<open>The next source\<close>

lemma typed_info [typed_intros]:
  "slots_typed r \<Longrightarrow> slots_typed (fst (get_stream_info_for_switch C r snap i target))"
  unfolding get_stream_info_for_switch_def by (intro typed_cases typed_intros)

lemma typed_back [typed_intros]:
  "(\<And>s. slots_typed s \<Longrightarrow> slots_typed (fst (release_it s))) \<Longrightarrow> slots_typed r \<Longrightarrow>
   slots_typed (fst (give_back_on_error r b release_it e))"
  unfolding give_back_on_error_def by (intro typed_cases)

lemma typed_initial [typed_intros]:
  "slots_typed r \<Longrightarrow> slots_typed (fst (resolve_initial_source C r snap i))"
  unfolding resolve_initial_source_def resolve_preview_def resolve_channel_def by (intro typed_cases typed_intros)

lemma typed_alternates_from [typed_intros]:
  "slots_typed r \<Longrightarrow> slots_typed (fst (alternates_from C r snap i as))"
  by (induction as arbitrary: r) (simp, simp only: alternates_from.simps, intro typed_cases typed_intros)

lemma typed_commit [typed_intros]: "slots_typed r \<Longrightarrow> slots_typed (fst (commit C r i info))"
  unfolding commit_def by (intro typed_cases typed_intros)

lemma typed_failover [typed_intros]:
  "slots_typed r \<Longrightarrow> slots_typed (fst (failover C r snap i excluded url as))"
  by (induction as arbitrary: r) (simp, simp only: failover.simps, intro typed_cases typed_intros)

lemma typed_resolve [typed_intros]:
  "slots_typed r \<Longrightarrow> slots_typed (fst (resolve_source C r snap i q))"
  unfolding resolve_source_def resolve_alternates_def by (intro typed_cases typed_intros)

lemma typed_release_source [typed_intros]:
  assumes "slots_typed r" shows "slots_typed (fst (release_source C r i s p k))"
  unfolding release_source_def by (intro typed_cases typed_intros typed_drop assms) simp_all

subsection \<open>VOD\<close>

lemma typed_vod_session [typed_intros]:
  "slots_typed r \<Longrightarrow> slots_typed (fst (increment_active_streams r sid now))"
  "slots_typed r \<Longrightarrow> slots_typed (fst (decrement_active_streams_and_check r sid now))"
  "slots_typed r \<Longrightarrow> slots_typed (fst (create_connection r sid now s))"
  "slots_typed r \<Longrightarrow> slots_typed (update_locked r sid now f)"
  "slots_typed r \<Longrightarrow> slots_typed (vod_cleanup r sid now False)"
  "slots_typed r \<Longrightarrow> slots_typed (save_under_lock r sid s)"
  by (rule typed_session, rule only_session_incr only_session_decr only_session_create only_session_update only_session_cleanup
      only_session_save_lock, assumption)+

lemma typed_vod_decr [typed_intros]: "slots_typed r \<Longrightarrow> slots_typed (fst (decrement_active_streams r sid now))"
  unfolding decrement_active_streams_def by (intro typed_cases typed_intros)

lemma typed_vod_slot [typed_intros]:
  "slots_typed r \<Longrightarrow> slots_typed (fst (check_and_reserve_profile_slot E r p))"
  "slots_typed r \<Longrightarrow> slots_typed (decrement_profile_connections r i)"
  unfolding check_and_reserve_profile_slot_def decrement_profile_connections_def
  by (intro typed_cases typed_intros; assumption)+

lemma typed_script_cleanup [typed_intros]: "slots_typed r \<Longrightarrow> slots_typed (fst (script_cleanup r (vod_connection_key sid)))"
  by (rule typed_same [of r]) (auto simp: script_cleanup_def Let_def split: option.splits robj.splits)

lemma typed_vod_cleanup [typed_intros]: "slots_typed r \<Longrightarrow> slots_typed (vod_cleanup r sid now manager)"
  unfolding vod_cleanup_def by (intro typed_cases typed_intros)

lemma typed_vod_open [typed_intros]: "slots_typed r \<Longrightarrow> slots_typed (fst (open_stream E r rq))"
  unfolding open_stream_def choose_session_def enter_existing_def enter_new_def reserve_again_def take_ownership_def
    serve_def get_stream_def roll_back_def refuse_unsatisfiable_def give_slot_back_def store_seek_def Let_def
  by (intro typed_cases typed_intros)

lemma typed_vod_chunks [typed_intros]: "slots_typed r \<Longrightarrow> slots_typed (fst (send_chunks E r tk sent n cs))"
proof (induction cs arbitrary: r sent n)
  case (Cons c cs)
  have "slots_typed (fst (after_chunk E r tk m k))" for m k
    unfolding after_chunk_def by (intro typed_cases typed_intros typed_drop Cons.prems) simp
  from this [of "sent + int (length c)" "n + 1"] Cons.IH Cons.prems show ?case
    by (simp only: send_chunks.simps) (intro typed_cases; simp split: prod.split)
qed simp

lemma typed_vod_stream [typed_intros]:
  "slots_typed r \<Longrightarrow> slots_typed (start_stream E r tk)"
  "slots_typed r \<Longrightarrow> slots_typed (fst (end_stream E r tk ending))"
  "slots_typed r \<Longrightarrow> slots_typed (delayed_cleanup E r tk)"
  unfolding start_stream_def end_stream_def settle_slot_def delayed_cleanup_def
  by (intro typed_cases typed_intros; assumption)+

lemma foldl_keeps: "P r \<Longrightarrow> (\<And>r x. P r \<Longrightarrow> P (f r x)) \<Longrightarrow> P (foldl f r xs)"
  by (induction xs arbitrary: r) simp_all

lemma typed_vod_stale [typed_intros]: "slots_typed r \<Longrightarrow> slots_typed (cleanup_stale_persistent_connections E age r)"
proof -
  have "slots_typed s \<Longrightarrow> slots_typed (cleanup_stale_key E age s k)" for s k
    unfolding cleanup_stale_key_def Let_def by (intro typed_cases typed_intros)
  then show "slots_typed r \<Longrightarrow> ?thesis"
    unfolding cleanup_stale_persistent_connections_def by (intro foldl_keeps [where P = slots_typed]) simp_all
qed

subsection \<open>Catch-up\<close>

lemma typed_catchup_writes [typed_intros]:
  "slots_typed r \<Longrightarrow> slots_typed (mark_idle E r sid)" "slots_typed r \<Longrightarrow> slots_typed (mark_busy E r sid)"
  "slots_typed r \<Longrightarrow> slots_typed (cleanup_stream_generation r v c)"
  "slots_typed r \<Longrightarrow> slots_typed (store_pool_provider_user_agent r sid ua)"
  "slots_typed r \<Longrightarrow> slots_typed (remember_upstream r sid rng ts d up u)"
  by (rule typed_same, rule same_slots_marks same_slots_cleanup same_slots_stores same_slots_remember, assumption)+

lemma typed_pool_reserve [typed_intros]: "slots_typed r \<Longrightarrow> slots_typed (fst (pool_reserve E r p))"
  unfolding pool_reserve_def by (intro typed_cases typed_intros)

lemma typed_create_pool [typed_intros]: "slots_typed r \<Longrightarrow> slots_typed (fst (create_pool_session E r q t))"
  by (rule typed_same [OF same_slots_create]) (rule prod.collapse [symmetric])

lemma typed_acquire [typed_intros]: "slots_typed r \<Longrightarrow> slots_typed (fst (acquire_idle_pool_session E r sid user handoff))"
  unfolding acquire_idle_pool_session_def Let_def by (intro typed_cases typed_intros typed_drop ts_keys_not_slots)

lemma typed_discard [typed_intros]: "slots_typed r \<Longrightarrow> slots_typed (discard_pool_session E r sid i)"
  unfolding discard_pool_session_def by (intro typed_cases typed_intros typed_drop ts_keys_not_slots)

lemma typed_abandon [typed_intros]: "slots_typed r \<Longrightarrow> slots_typed (force_abandon_busy_pool E r sid i)"
  unfolding force_abandon_busy_pool_def
  by (intro typed_cases typed_intros typed_same [of r "rset_ex r (ts_pool_superseded_key sid) (RInt 1) 120"]) simp_all

lemma typed_once [typed_intros]:
  "slots_typed (fst s) \<Longrightarrow> slots_typed (fst (release_once E sid i s idle give))"
  unfolding release_once_def release_pool_session_def Let_def
  by (intro typed_cases typed_intros typed_drop ts_keys_not_slots)

lemma typed_finish [typed_intros]: "slots_typed r \<Longrightarrow> slots_typed (finish_stream E r sid i v c g seen probe)"
proof -
  assume r: "slots_typed r"
  have "slots_typed (fst (stopped_for_reuse r v c g seen))"
    unfolding stopped_for_reuse_def Let_def by (intro typed_cases typed_drop ts_keys_not_slots r)
  then show ?thesis unfolding finish_stream_def Let_def by (intro typed_cases typed_intros)
qed

lemma typed_profiles [typed_intros]: "slots_typed r \<Longrightarrow> slots_typed (fst (walk_profiles E r reserve ps))"
  by (induction ps arbitrary: r) (simp, simp only: walk_profiles.simps, intro typed_cases typed_intros)

lemma typed_prepare [typed_intros]: "slots_typed r \<Longrightarrow> slots_typed (fst (prepare_catchup_stream_attempt E r reserve c))"
  unfolding prepare_catchup_stream_attempt_def by (intro typed_cases typed_intros)

lemma typed_catchup [typed_intros]:
  "slots_typed r \<Longrightarrow> slots_typed (fst (Catchup_Pool.try_streams E P q r status decisive blocked cs))"
proof (induction cs arbitrary: r status decisive blocked)
  case (Cons c cs)
  show ?case
    unfolding Catchup_Pool.try_streams.simps Let_def by (intro typed_cases typed_intros Cons.IH Cons.prems)
qed simp

subsection \<open>The reconciler and the holders' heartbeat\<close>

lemma typed_run [typed_intros]:
  assumes "slots_typed (at_write rd)"
  shows "slots_typed (fst (run acquired L db w previous clock now rd listing))"
proof -
  have tasks: "list_all (\<lambda>(k, v, lo, hi). is_counter_key k \<and> 0 \<le> lo \<and> 0 \<le> hi)
      (List.map_filter (reconcile_task vs before ids) (counter_keys L db))" for vs before ids
    using counter_keys_counter
    by (auto simp: list_all_iff List.map_filter_def reconcile_task_def split: option.splits prod.splits if_splits)
  show ?thesis
    unfolding run_def run_once_def Let_def by (intro typed_cases typed_reconcile_all tasks assms)
qed

lemma worker_key_not_slot: "\<not> is_slot_key (worker_key w)"
  by (auto simp: is_slot_key_def is_counter_key_def all_key_defs worker_key_def)

lemma typed_heartbeat [typed_intros]:
  assumes "list_all (\<lambda>e. \<not> is_slot_key (fst e)) (by_key [] (map snd (held h)))" and "slots_typed r"
  shows "slots_typed (fst (snd (refresh_once h r ok)))"
proof -
  have records: "list_all (\<lambda>e. \<not> is_slot_key (fst e)) es \<Longrightarrow> slots_typed s \<Longrightarrow> slots_typed (fst (refresh_records w s es))" for s w es
  proof (induction es arbitrary: s)
    case (Cons e es)
    obtain key ttl busy where e: "e = (key, ttl, busy)" by (metis prod_cases3)
    have "same_slots s (rhset (rexpire s key ttl) key ''worker_id'' (RText w))"
      by (rule same_slots_trans [of s "rexpire s key ttl"]) (use Cons.prems e in \<open>simp_all add: rhset_def\<close>)
    from Cons.IH [OF _ typed_same [OF this Cons.prems(2)]] Cons.IH [OF _ Cons.prems(2)] Cons.prems(1) show ?case
      by (auto simp: e dest: typed_fst split: prod.split)
  qed simp
  have own: "slots_typed (rset_ex r (worker_key (hr_worker h)) (RText (hr_worker h)) WORKER_KEY_TTL_SECONDS)"
    by (rule typed_same [OF _ assms(2)]) (simp add: worker_key_not_slot)
  from records [OF assms(1) own] assms(2) show ?thesis
    by (auto simp: refresh_once_def refresh_script_def dest: typed_fst split: prod.split)
qed

subsection \<open>Any interleaving\<close>

text \<open>
  One operation of any process. The settings, the database, the clocks and what the relay and the
  providers answer are those of the moment; \<open>Other\<close> is a write or an expiry of any key that is
  not of the slots (the locks, the task leases, the session records).
\<close>

inductive keyspace_step :: "redis \<Rightarrow> redis \<Rightarrow> bool" where
  Tune: "keyspace_step r (fst (resolve_source C r snap i q))"
| Give_Up_Source: "keyspace_step r (fst (release_source C r i s p k))"
| Vod_Open: "keyspace_step r (fst (open_stream E r rq))"
| Vod_Start: "keyspace_step r (start_stream E r tk)"
| Vod_Chunks: "keyspace_step r (fst (send_chunks E r tk sent n cs))"
| Vod_End: "keyspace_step r (fst (end_stream E r tk ending))"
| Vod_Late: "keyspace_step r (delayed_cleanup E r tk)"
| Vod_Stale: "keyspace_step r (cleanup_stale_persistent_connections E age r)"
| Catchup_Play: "keyspace_step r (fst (Catchup_Pool.try_streams F P cq r status decisive blocked cs))"
| Catchup_Acquire: "keyspace_step r (fst (acquire_idle_pool_session F r sid user handoff))"
| Catchup_End: "keyspace_step r (finish_stream F r sid j v c g seen probe)"
| Catchup_Abandon: "keyspace_step r (force_abandon_busy_pool F r sid pid)"
| Reconcile: "at_write rd = r \<Longrightarrow> keyspace_step r (fst (run acquired L db w previous clock now rd listing))"
| Heartbeat: "list_all (\<lambda>e. \<not> is_slot_key (fst e)) (by_key [] (map snd (held h))) \<Longrightarrow>
    keyspace_step r (fst (snd (refresh_once h r ok)))"
| Other: "same_slots r t \<Longrightarrow> keyspace_step r t"

lemma typed_step: "keyspace_step r t \<Longrightarrow> slots_typed r \<Longrightarrow> slots_typed t"
  by (induction rule: keyspace_step.induct) (auto intro: typed_intros typed_same)

lemma typed_reachable: "keyspace_step\<^sup>*\<^sup>* r t \<Longrightarrow> slots_typed r \<Longrightarrow> slots_typed t"
  by (induction rule: rtranclp_induct) (blast intro: typed_step)+

text \<open>C6.
  After any interleaving of tunes, VOD and catch-up requests, their ends, the heartbeats and the
  reconciler's runs, from an empty keyspace, a slot counter reads as absent or as a natural number,
  its version is absent or a number, and a profile's release pointer, when there is one, names the
  counter of a credential: no process reads as text or as a negative what another one wrote.
\<close>

theorem slot_keys_keep_their_type:
  assumes "keyspace_step\<^sup>*\<^sup>* empty_redis r" and "is_counter_key k"
  shows "(rget r k = None \<or> (\<exists>n. 0 \<le> n \<and> rget r k = Some (RInt n)))
    \<and> (rexists r (slot_version_key k) = False \<or> (\<exists>n. rget r (slot_version_key k) = Some (RInt n)))
    \<and> (rget r (profile_credential_release_key i) = None
       \<or> (\<exists>g f. rget r (profile_credential_release_key i) = Some (RText (server_group_connections_key g f))))"
proof -
  from typed_reachable [OF assms(1) slots_typed_empty]
  have wf: "slot_wf r" and pos: "0 \<le> slot_read r k" using assms(2) by (auto dest: slots_typedD)
  from wf assms(2) have "rget r k = None \<or> (\<exists>n. rget r k = Some (RInt n))" by (simp add: slot_wf_def)
  with pos have "rget r k = None \<or> (\<exists>n. 0 \<le> n \<and> rget r k = Some (RInt n))" by (auto simp: slot_read_def)
  with wf show ?thesis by (cases "rget r (profile_credential_release_key i)") (auto simp: slot_wf_def)
qed

text \<open>A tune, a stream of VOD given up late, and the release of the tune.\<close>

definition demo_tuned_store :: redis where
  "demo_tuned_store = fst (resolve_source demo_playback empty_redis (Inl Misconfigured) ''uuid3''
     (demo_failover\<lparr>rq_exclude := [], rq_current_stream := None, rq_reason := ''initial''\<rparr>))"

lemma demo_tuned_counts: "rget demo_tuned_store (profile_connections_key 11) = Some (RInt 1)"
  by code_simp

lemma slot_keys_witness:
  "rget demo_tuned_store (profile_connections_key 11) = Some (RInt 1)
   \<and> (rexists demo_tuned_store (slot_version_key (profile_connections_key 11)) = False
      \<or> (\<exists>n. rget demo_tuned_store (slot_version_key (profile_connections_key 11)) = Some (RInt n)))"
proof -
  have "keyspace_step\<^sup>*\<^sup>* empty_redis demo_tuned_store" unfolding demo_tuned_store_def by (rule r_into_rtranclp) (rule Tune)
  from slot_keys_keep_their_type [OF this, of "profile_connections_key 11" 11] demo_tuned_counts show ?thesis by simp
qed

end
