(* ===== verification/Text_Query.thy ===== *)
theory Text_Query
  imports Py_Text
begin

section \<open>Search expressions over the programme guide\<close>

text \<open>
  \<open>src/apps/epg/query_utils.py\<close>: a search text becomes a condition of the database. The parser
  works on positions of strings: phrases in quotes are cut out first and named by a key, the last
  parenthesis is taken first, and the terms of the rest are cut at the operators found in its
  capitals. The program takes any Unicode text; here text is Latin-1, and nothing is said of other
  text. The capitals of two Latin-1 characters are not Latin-1 themselves (U+00B5 and U+00FF) and stay as
  they are, since only the letters of an operator are looked for and each is one character. Beyond
  Latin-1 there are more characters like the sharp s, whose capitals are several (U+0149, U+FB03).
\<close>

subsection \<open>Conditions\<close>

text \<open>\<open>Q\<close>: the empty condition, one lookup of a field, and the two combinations. An empty operand
  is dropped by \<open>&\<close> and by \<open>|\<close> alike.\<close>

datatype lookup = Icontains | Iregex

datatype query = Anything | Match string lookup string | All_Of query query | Any_Of query query

definition q_combine :: "bool \<Rightarrow> query \<Rightarrow> query \<Rightarrow> query" where
  "q_combine either p q =
     (if p = Anything then q else if q = Anything then p else if either then Any_Of p q else All_Of p q)"

record query_mode =
  qm_field :: string
  qm_regex :: bool
  qm_whole_words :: bool
  qm_postgresql :: bool

text \<open>\<open>re.escape\<close>.\<close>

definition re_special :: "char list" where
  "re_special = map char_of [40, 41, 91, 93, 123, 125, 63, 42, 43, 45, 124, 94, 36, 92, 46, 38, 126, 35, 32, 9, 10, 13, 11, 12::nat]"

definition re_escape :: "string \<Rightarrow> string" where
  "re_escape s = concat (map (\<lambda>c. if c \<in> set re_special then [CHR 0x5C, c] else [c]) s)"

definition build_q_object :: "query_mode \<Rightarrow> string \<Rightarrow> query" where
  "build_q_object m term =
     (let term = strip term in
      if term = [] then Anything
      else if qm_regex m then Match (qm_field m) Iregex term
      else if qm_whole_words m then
        let boundary = (if qm_postgresql m then [CHR 0x5C, CHR ''y''] else [CHR 0x5C, CHR ''b''])
        in Match (qm_field m) Iregex (boundary @ re_escape term @ boundary)
      else Match (qm_field m) Icontains term)"

subsection \<open>Strings\<close>

text \<open>\<open>str.upper\<close> of one Latin-1 character.\<close>

definition upper_text :: "char \<Rightarrow> string" where
  "upper_text c =
     (let n = (of_char c :: nat)
      in if 97 \<le> n \<and> n \<le> 122 \<or> 224 \<le> n \<and> n \<le> 254 \<and> n \<noteq> 247 then [char_of (n - 32)]
         else if n = 223 then ''SS'' else [c])"

definition upper :: "string \<Rightarrow> string" where
  "upper s = concat (map upper_text s)"

definition rstrip :: "string \<Rightarrow> string" where
  "rstrip s = rev (lstrip (rev s))"

text \<open>\<open>str.find\<close>.\<close>

fun find_text :: "string \<Rightarrow> string \<Rightarrow> nat option" where
  "find_text n [] = (if n = [] then Some 0 else None)"
| "find_text n (c # s) = (if starts_with n (c # s) then Some 0 else map_option Suc (find_text n s))"

lemma length_strip: "length (strip s) \<le> length s"
  unfolding strip_def lstrip_def by (metis length_dropWhile_le length_rev order_trans)

lemma length_rstrip: "length (rstrip s) \<le> length s"
  unfolding rstrip_def lstrip_def by (metis length_dropWhile_le length_rev)

lemma length_lstrip: "length (lstrip s) \<le> length s"
  unfolding lstrip_def by (rule length_dropWhile_le)

subsection \<open>Phrases in quotes\<close>

definition phrase_key :: "nat \<Rightarrow> string" where
  "phrase_key n = CHR 0x00 # CHR ''P'' # show_nat n @ [CHR 0x00]"

lemma rsplit_once_shorter: "rsplit_once c s = Some (a, b) \<Longrightarrow> length a < length s \<and> length b < length s"
  by (auto simp: rsplit_once_def dest!: split_once_SomeD(1) split: option.splits dest: arg_cong [of _ _ length])

lemma split_once_shorter: "split_once c s = Some (a, b) \<Longrightarrow> length a < length s \<and> length b < length s"
  by (auto dest: split_once_SomeD(1))

function (sequential) extract_quoted :: "nat \<Rightarrow> string \<Rightarrow> string \<times> (string \<times> string) list" where
  "extract_quoted n text =
     (case split_once (CHR 0x22) text of
        None \<Rightarrow> (text, [])
      | Some (front, rest) \<Rightarrow>
          (case split_once (CHR 0x22) rest of
             None \<Rightarrow> (text, [])
           | Some (phrase, after) \<Rightarrow>
               let (t, phrases) = extract_quoted (n + 1) after
               in (front @ phrase_key n @ t, (phrase_key n, phrase) # phrases)))"
  by pat_completeness auto
termination
  by (relation "measure (\<lambda>(n, s). length s)") (auto dest!: split_once_shorter)

declare extract_quoted.simps [simp del]

subsection \<open>Terms and operators\<close>

text \<open>The next operator: its position in the capitals, whether it is OR, and its length.\<close>

definition next_operator :: "string \<Rightarrow> (nat \<times> bool \<times> nat) option" where
  "next_operator s =
     (case (find_text '' AND '' (upper s), find_text '' OR '' (upper s)) of
        (None, None) \<Rightarrow> None
      | (None, Some i) \<Rightarrow> Some (i, True, 4)
      | (Some i, None) \<Rightarrow> Some (i, False, 5)
      | (Some i, Some j) \<Rightarrow> if i < j then Some (i, False, 5) else Some (j, True, 4))"

lemma next_operator_pos: "next_operator s = Some (pos, either, len) \<Longrightarrow> 0 < len"
  by (auto simp: next_operator_def split: option.splits if_splits)

function (sequential) split_terms :: "string \<Rightarrow> string list \<times> bool list" where
  "split_terms remaining =
     (if remaining = [] then ([], [])
      else
        (case next_operator remaining of
           None \<Rightarrow> ([strip remaining], [])
         | Some (pos, either, len) \<Rightarrow>
             let token = strip (take pos remaining);
                 (tokens, operators) = split_terms (drop (pos + len) remaining)
             in if token = [] then (tokens, operators) else (token # tokens, either # operators)))"
  by pat_completeness auto
termination
  by (relation "measure length") (auto dest!: next_operator_pos)

declare split_terms.simps [simp del]

datatype parse_error = IndexError

text \<open>The loop over the operators; \<open>tokens[i + 1]\<close> may not be there.\<close>

fun fold_terms :: "(string \<Rightarrow> query) \<Rightarrow> query \<Rightarrow> bool list \<Rightarrow> string list \<Rightarrow> parse_error + query" where
  "fold_terms build result [] tokens = Inr result"
| "fold_terms build result (op # ops) [] = Inl IndexError"
| "fold_terms build result (op # ops) (t # ts) = fold_terms build (q_combine op result (build t)) ops ts"

definition parse_flat :: "(string \<Rightarrow> query) \<Rightarrow> string \<Rightarrow> parse_error + query" where
  "parse_flat build expr =
     (case split_terms expr of
        ([], _) \<Rightarrow> Inr Anything
      | (t # ts, ops) \<Rightarrow> fold_terms build (build t) ops ts)"

subsection \<open>Groups\<close>

text \<open>The operator before a group and after it, with the text it leaves.\<close>

definition operator_before :: "string \<Rightarrow> string \<times> bool" where
  "operator_before s =
     (if ends_with '' AND'' (upper s) then (rstrip (take (length s - 4) s), False)
      else if ends_with '' OR'' (upper s) then (rstrip (take (length s - 3) s), True)
      else (s, False))"

definition operator_after :: "string \<Rightarrow> string \<times> bool" where
  "operator_after s =
     (if starts_with ''AND '' (upper s) then (lstrip (drop 4 s), False)
      else if starts_with ''OR '' (upper s) then (lstrip (drop 3 s), True)
      else (s, False))"

lemma operator_shorter:
  "length (fst (operator_before s)) \<le> length s" "length (fst (operator_after s)) \<le> length s"
  using length_rstrip [of "take (length s - 4) s"] length_rstrip [of "take (length s - 3) s"]
    length_lstrip [of "drop 4 s"] length_lstrip [of "drop 3 s"]
  by (auto simp: operator_before_def operator_after_def)

lemma group_shorter:
  assumes "rsplit_once (CHR ''('') (strip text) = Some (front, rest)" and "split_once (CHR '')'') rest = Some (inner, after)"
  shows "length inner < length text"
    and "(a, either) = operator_before (rstrip front) \<Longrightarrow> length a < length text"
    and "(b, either) = operator_after (lstrip after) \<Longrightarrow> length b < length text"
  using rsplit_once_shorter [OF assms(1)] split_once_shorter [OF assms(2)] length_strip [of "text"]
    length_rstrip [of front] length_lstrip [of after] operator_shorter(1) [of "rstrip front"]
    operator_shorter(2) [of "lstrip after"]
  by (auto dest: arg_cong [of _ _ fst])

function (sequential) parse_expression :: "(string \<Rightarrow> query) \<Rightarrow> string \<Rightarrow> parse_error + query" where
  "parse_expression build text =
     (let expr = strip text in
      case rsplit_once (CHR ''('') expr of
        None \<Rightarrow> parse_flat build expr
      | Some (front, rest) \<Rightarrow>
          (case split_once (CHR '')'') rest of
             None \<Rightarrow> Inr Anything
           | Some (inner, after) \<Rightarrow>
               (case parse_expression build inner of
                  Inl e \<Rightarrow> Inl e
                | Inr group_q \<Rightarrow>
                    let (before_str, before_op) = operator_before (rstrip front);
                        (after_str, after_op) = operator_after (lstrip after)
                    in (case (if before_str = [] then Inr group_q
                              else map_sum id (\<lambda>q. q_combine before_op q group_q) (parse_expression build before_str)) of
                          Inl e \<Rightarrow> Inl e
                        | Inr result \<Rightarrow>
                            if after_str = [] then Inr result
                            else map_sum id (\<lambda>q. q_combine after_op result q) (parse_expression build after_str)))))"
  by pat_completeness auto
termination
  by (relation "measure (\<lambda>(b, s). length s)") (auto dest: group_shorter)

declare parse_expression.simps [simp del]

definition parse_text_query :: "query_mode \<Rightarrow> string \<Rightarrow> parse_error + query" where
  "parse_text_query m raw_value =
     (let (processed, phrases) = extract_quoted 0 raw_value
      in parse_expression
           (\<lambda>token. build_q_object m (case map_of phrases token of Some p \<Rightarrow> p | None \<Rightarrow> token)) processed)"

end
