(* ===== verification/Query_Properties.thy ===== *)
theory Query_Properties
  imports Text_Query
begin

section \<open>Search expressions: what they mean\<close>

text \<open>
  An expression of one level of groups, as a user writes it, and its meaning, which the parser
  finds: terms between operators are combined from the left, a group is one operand, and the terms
  after a group combine among themselves first. Then the inputs it takes apart: nested groups, and
  a sharp s. All text is Latin-1 here.
\<close>

subsection \<open>Expressions\<close>















text \<open>
  What a bare term may be: no space at its ends, no parenthesis, no operator inside it, no sharp s.
  The operators are AND and OR in any case.
\<close>

definition no_operator :: "string \<Rightarrow> bool" where
  "no_operator s \<longleftrightarrow> find_text '' AND '' (upper s @ '' '') = None \<and> find_text '' OR '' (upper s @ '' '') = None"

definition plain :: "string \<Rightarrow> bool" where
  "plain s \<longleftrightarrow> s \<noteq> [] \<and> \<not> is_space (hd s) \<and> \<not> is_space (last s) \<and> CHR ''('' \<notin> set s \<and> CHR '')'' \<notin> set s
     \<and> CHR 0xDF \<notin> set s \<and> no_operator s"






subsection \<open>Capitals and positions\<close>

lemma upper_append [simp]: "upper (s @ t) = upper s @ upper t"
  by (simp add: upper_def)

lemma upper_space [simp]: "upper (CHR '' '' # s) = CHR '' '' # upper s"
  by (simp add: upper_def upper_text_def)

lemma upper_Nil [simp]: "upper [] = []"
  by (simp add: upper_def)

lemma sharp_s: "of_char c = (223::nat) \<Longrightarrow> c = CHR 0xDF"
  using char_of_char [of c, where 'a = nat] by (simp add: char_of_def bit_simps)

lemma length_upper: "CHR 0xDF \<notin> set s \<Longrightarrow> length (upper s) = length s"
proof (induction s)
  case (Cons c s)
  have "of_char c \<noteq> (223::nat)" using Cons.prems sharp_s by (metis list.set_intros(1))
  then show ?case using Cons by (simp add: upper_def upper_text_def Let_def)
qed simp










subsection \<open>Flat expressions\<close>





subsection \<open>Groups\<close>









lemma paren_not_space [simp]: "\<not> is_space (CHR ''('')" "\<not> is_space (CHR '')'')"
  by (simp_all add: is_space_def)









subsection \<open>Quotes\<close>





lemma plain_key: "plain (phrase_key n)"
proof -
  have digits: "c \<in> set (show_nat n) \<Longrightarrow> c \<in> set ''0123456789''" for c
    using digits_show_nat [of n] by (auto simp: list_all_iff is_digit_def)
  have "c \<in> set (phrase_key n) \<Longrightarrow> upper_text c = [c] \<and> c \<noteq> CHR '' '' \<and> c \<notin> set ''()'' \<and> c \<noteq> CHR 0xDF" for c
    using digits [of c] by (auto simp: phrase_key_def upper_text_def)
  note c = this
  have "(\<And>c. c \<in> set s \<Longrightarrow> upper_text c = [c]) \<Longrightarrow> upper s = s" for s
    by (induction s) (auto simp: upper_def)
  then have up: "upper (phrase_key n) = phrase_key n" using c by blast
  have none: "find_text (CHR '' '' # x # w) (s @ '' '') = None" if "CHR '' '' \<notin> set s" for x w s
    using that by (induction s) (auto simp: starts_with_def)
  have "CHR '' '' \<notin> set (phrase_key n)" "CHR ''('' \<notin> set (phrase_key n)" "CHR '')'' \<notin> set (phrase_key n)"
    "CHR 0xDF \<notin> set (phrase_key n)"
    using c by auto
  moreover have "phrase_key n \<noteq> [] \<and> hd (phrase_key n) = CHR 0x00 \<and> last (phrase_key n) = CHR 0x00"
    by (simp add: phrase_key_def)
  moreover have "\<not> is_space (CHR 0x00)" by (simp add: is_space_def)
  ultimately show ?thesis using none [of "phrase_key n"] by (simp add: plain_def no_operator_def up)
qed















definition demo_mode :: query_mode where
  "demo_mode = \<lparr>qm_field = ''title'', qm_regex = False, qm_whole_words = False, qm_postgresql = True\<rparr>"



subsection \<open>What it takes apart\<close>

text \<open>Parentheses around the first term change how the others combine; a group inside a group loses its first operand and keeps a stray parenthesis; a regular
  expression is cut at its groups; a sharp s before an operator moves the cut, and may raise.\<close>

lemma group_changes_the_order:
  "parse_text_query demo_mode ''a AND b OR c'' =
     Inr (Any_Of (All_Of (Match ''title'' Icontains ''a'') (Match ''title'' Icontains ''b'')) (Match ''title'' Icontains ''c''))"
  "parse_text_query demo_mode ''(a) AND b OR c'' =
     Inr (All_Of (Match ''title'' Icontains ''a'') (Any_Of (Match ''title'' Icontains ''b'') (Match ''title'' Icontains ''c'')))"
  by code_simp+

lemma nested_group_is_torn:
  "parse_text_query demo_mode ''(a OR (b AND c))'' =
     Inr (All_Of (All_Of (Match ''title'' Icontains ''b'') (Match ''title'' Icontains ''c'')) (Match ''title'' Icontains '')''))"
  by code_simp

lemma regex_is_torn:
  "parse_text_query (demo_mode\<lparr>qm_regex := True\<rparr>) ''^(News|Sport)$'' =
     Inr (All_Of (All_Of (Match ''title'' Iregex ''^'') (Match ''title'' Iregex ''News|Sport'')) (Match ''title'' Iregex ''$''))"
  by code_simp

lemma sharp_s_moves_the_cut:
  "parse_text_query demo_mode (''Fu'' @ [CHR 0xDF] @ ''ball AND Liga'') =
     Inr (All_Of (Match ''title'' Icontains (''Fu'' @ [CHR 0xDF] @ ''ball'')) (Match ''title'' Icontains ''iga''))"
  "parse_text_query demo_mode (''Gru'' @ [CHR 0xDF] @ '' AND Q'') = Inl IndexError"
  by code_simp+

lemma phrase_beside_a_word_is_lost:
  "parse_text_query demo_mode (''star '' @ [CHR 0x22] @ ''wars'' @ [CHR 0x22]) =
     Inr (Match ''title'' Icontains (''star '' @ phrase_key 0))"
  by code_simp


subsection \<open>Where it raises\<close>

lemma find_bound: "find_text n s = Some i \<Longrightarrow> starts_with n (drop i s) \<and> i \<le> length s"
  by (induction n s arbitrary: i rule: find_text.induct) (auto simp: starts_with_def split: if_splits)

lemma upper_text_space: "CHR '' '' \<in> set (upper_text c) \<Longrightarrow> c = CHR '' ''"
proof -
  have code: "m mod 256 = 32" if "char_of m = CHR '' ''" for m :: nat
  proof -
    have "of_char (char_of m) = (of_char (CHR '' '') :: nat)" by (simp only: that)
    then show ?thesis by simp
  qed
  show "CHR '' '' \<in> set (upper_text c) \<Longrightarrow> c = CHR '' ''"
    using code [of "of_char c - 32"] by (auto simp: upper_text_def Let_def split: if_splits)
qed

lemma find_before_end:
  assumes "find_text (w @ '' '') (upper s) = Some i" and "CHR 0xDF \<notin> set s" and "s \<noteq> []" and "\<not> is_space (last s)"
  shows "i + length w + 1 < length s"
proof -
  obtain t where t: "upper s = take i (upper s) @ w @ '' '' @ t" and i: "i \<le> length (upper s)"
    using find_bound [OF assms(1)] by (auto simp: starts_with_iff) (metis append.assoc append_Cons append_Nil append_take_drop_id)
  have len: "length (upper s) = i + length w + 1 + length t" using i by (subst t) simp
  have "last (upper s) \<noteq> CHR '' ''"
  proof -
    obtain r c where s: "s = r @ [c]" using assms(3) by (cases s rule: rev_cases) auto
    have "upper_text c \<noteq> []" by (simp add: upper_text_def Let_def)
    moreover have "CHR '' '' \<notin> set (upper_text c)" using assms(4) upper_text_space [of c] by (auto simp: s is_space_def)
    ultimately show ?thesis by (simp add: s upper_def) (metis last_in_set)
  qed
  then have "t \<noteq> []" using t by (cases t) (auto dest: arg_cong [of _ _ last])
  then show ?thesis using len length_upper [OF assms(2)] by (cases t) auto
qed

lemma next_operator_inside:
  assumes "next_operator s = Some (pos, either, len)" and "CHR 0xDF \<notin> set s" and "s \<noteq> []" and "\<not> is_space (last s)"
  shows "pos + len < length s"
  using assms find_before_end [of "'' AND''" s] find_before_end [of "'' OR''" s]
  by (auto simp: next_operator_def split: option.splits if_splits)

lemma split_terms_balanced:
  "CHR 0xDF \<notin> set s \<Longrightarrow> s \<noteq> [] \<Longrightarrow> \<not> is_space (last s) \<Longrightarrow>
   length (fst (split_terms s)) = length (snd (split_terms s)) + 1"
proof (induction s rule: split_terms.induct)
  case (1 s)
  show ?case
  proof (cases "next_operator s")
    case None
    then show ?thesis using 1 by (subst (1 2) split_terms.simps) simp
  next
    case (Some pel)
    obtain pos either len where pel: "pel = (pos, either, len)" by (metis prod_cases3)
    with next_operator_inside [OF Some [unfolded pel]] 1 have inside: "pos + len < length s" by simp
    have rest: "CHR 0xDF \<notin> set (drop (pos + len) s)" "drop (pos + len) s \<noteq> []" "\<not> is_space (last (drop (pos + len) s))"
      using 1 inside by (auto dest: in_set_dropD)
    from 1 Some pel rest have "length (fst (split_terms (drop (pos + len) s))) = length (snd (split_terms (drop (pos + len) s))) + 1"
      by (metis (no_types, lifting))
    then show ?thesis using Some pel 1(3) by (subst (1 2) split_terms.simps) (auto simp: Let_def split: prod.split)
  qed
qed

lemma fold_terms_returns: "length ops = length ts \<Longrightarrow> \<exists>q. fold_terms ev p ops ts = Inr q"
  by (induction ev p ops ts rule: fold_terms.induct) auto

lemma parse_flat_returns:
  assumes "CHR 0xDF \<notin> set s" and "s = [] \<or> \<not> is_space (last s)"
  shows "\<exists>q. parse_flat ev s = Inr q"
proof (cases "s = []")
  case True
  then show ?thesis by (simp add: parse_flat_def split_terms.simps [of "[]"])
next
  case False
  with split_terms_balanced [OF assms(1)] assms(2) show ?thesis
    by (cases "split_terms s"; cases "fst (split_terms s)") (auto simp: parse_flat_def intro: fold_terms_returns)
qed


lemma rsplit_once_SomeD: "rsplit_once c s = Some (a, b) \<Longrightarrow> s = a @ c # b"
proof -
  assume "rsplit_once c s = Some (a, b)"
  then have "split_once c (rev s) = Some (rev b, rev a)" by (auto simp: rsplit_once_def split: option.splits)
  from split_once_SomeD(1) [OF this] show "s = a @ c # b"
    by (metis append.assoc append_Cons append_Nil rev.simps(2) rev_append rev_rev_ident)
qed

lemma strip_end: "strip s = [] \<or> \<not> is_space (last (strip s))"
  unfolding strip_def lstrip_def by (metis hd_dropWhile last_rev rev_is_Nil_conv)

lemma set_strips: "set (rstrip s) \<subseteq> set s" "set (lstrip s) \<subseteq> set s" "set (strip s) \<subseteq> set s"
  by (auto simp: strip_def rstrip_def lstrip_def dest!: set_dropWhileD)

lemma operator_parts:
  "set (fst (operator_before s)) \<subseteq> set s" "set (fst (operator_after s)) \<subseteq> set s"
  by (auto simp: operator_before_def operator_after_def rstrip_def lstrip_def
      dest!: set_dropWhileD in_set_takeD in_set_dropD)

lemma parse_expression_returns: "CHR 0xDF \<notin> set s \<Longrightarrow> \<exists>q. parse_expression ev s = Inr q"
proof (induction s rule: length_induct)
  case (1 s)
  note sub = set_strips(3) [of s]
  show ?case
  proof (cases "rsplit_once (CHR ''('') (strip s)")
    case None
    have "\<exists>q. parse_flat ev (strip s) = Inr q"
      using 1(2) sub strip_end by (intro parse_flat_returns) auto
    then show ?thesis by (subst parse_expression.simps) (simp add: None)
  next
    case (Some cut)
    obtain front rest where cut: "cut = (front, rest)" by (rule prod.exhaust)
    note Some = Some [unfolded cut]
    show ?thesis
    proof (cases "split_once (CHR '')'') rest")
      case None
      then show ?thesis by (subst parse_expression.simps) (simp add: Some)
    next
      case close: (Some io)
      obtain inner after where io: "io = (inner, after)" by (rule prod.exhaust)
      note close = close [unfolded io]
      define b where "b = fst (operator_before (rstrip front))"
      define a where "a = fst (operator_after (lstrip after))"
      have "set front \<subseteq> set s" "set inner \<subseteq> set s" "set after \<subseteq> set s"
        using rsplit_once_SomeD [OF Some] split_once_SomeD(1) [OF close] sub by auto
      then have "CHR 0xDF \<notin> set inner" "CHR 0xDF \<notin> set b" "CHR 0xDF \<notin> set a"
        using 1(2) operator_parts(1) [of "rstrip front"] operator_parts(2) [of "lstrip after"]
          set_strips(1) [of front] set_strips(2) [of after]
        unfolding a_def b_def by blast+
      moreover have "length inner < length s" "length b < length s" "length a < length s"
        using group_shorter(1) [OF Some close] group_shorter(2) [OF Some close, of b "snd (operator_before (rstrip front))"]
          group_shorter(3) [OF Some close, of a "snd (operator_after (lstrip after))"]
        by (simp_all add: a_def b_def prod_eq_iff)
      ultimately obtain p q r where "parse_expression ev inner = Inr p" "parse_expression ev b = Inr q" "parse_expression ev a = Inr r"
        using 1(1) [rule_format, of inner] 1(1) [rule_format, of b] 1(1) [rule_format, of a] by blast
      then show ?thesis
        by (subst parse_expression.simps) (simp add: Some close case_prod_beta flip: a_def b_def)
    qed
  qed
qed

lemma sharp_s_not_extracted: "CHR 0xDF \<notin> set s \<Longrightarrow> CHR 0xDF \<notin> set (fst (extract_quoted n s))"
proof (induction n s rule: extract_quoted.induct)
  case (1 n s)
  show ?case
  proof (cases "split_once (CHR 0x22) s")
    case (Some fr)
    obtain front rest where fr: "fr = (front, rest)" by (rule prod.exhaust)
    have s: "s = front @ CHR 0x22 # rest" using Some fr split_once_SomeD(1) by simp
    show ?thesis
    proof (cases "split_once (CHR 0x22) rest")
      case (Some pa)
      obtain phrase after where pa: "pa = (phrase, after)" by (rule prod.exhaust)
      have "rest = phrase @ CHR 0x22 # after" using Some pa split_once_SomeD(1) by simp
      then have "CHR 0xDF \<notin> set (fst (extract_quoted (n + 1) after))"
        using 1 \<open>split_once (CHR 0x22) s = Some fr\<close> fr Some pa s by auto
      then show ?thesis
        using 1(2) s plain_key [of n] \<open>split_once (CHR 0x22) s = Some fr\<close> fr Some pa
        by (subst extract_quoted.simps) (auto simp: plain_def split: prod.split)
    qed (use 1(2) \<open>split_once (CHR 0x22) s = Some fr\<close> fr in \<open>simp add: extract_quoted.simps [of n s]\<close>)
  qed (use 1(2) in \<open>simp add: extract_quoted.simps [of n s]\<close>)
qed

text \<open>C40. A search text of Latin-1 characters that does not hold a sharp s never raises: whatever its quotes, operators
  and parentheses, balanced or not, it becomes a condition. The sharp s is the one Latin-1 character whose capitals
  are more than one character. The theorem says nothing of other text: characters beyond Latin-1
  with the same trait, such as U+0149 and U+FB03, make the parser raise as well.\<close>

theorem latin1_search_raises_only_for_sharp_s:
  assumes "CHR 0xDF \<notin> set raw_value"
  shows "\<exists>q. parse_text_query m raw_value = Inr q"
  using parse_expression_returns [OF sharp_s_not_extracted [OF assms, of 0]]
  by (simp add: parse_text_query_def case_prod_beta)

lemma search_raises_witness:
  "(\<exists>q. parse_text_query demo_mode ''((news) OR '' = Inr q) \<and>
   parse_text_query demo_mode (''Gru'' @ [CHR 0xDF] @ '' AND Q'') = Inl IndexError"
  using latin1_search_raises_only_for_sharp_s [of "''((news) OR ''" demo_mode] sharp_s_moves_the_cut(2) by simp

end
