(* ===== verification/M3U_Playlist.thy ===== *)
theory M3U_Playlist
  imports Outbound_Fetch Credentials Text_Query
begin

section \<open>Playlists: reading and writing\<close>

text \<open>
  \<open>src/apps/m3u/tasks.py\<close> (\<open>parse_extinf_line\<close>, \<open>iter_m3u_entries\<close>), \<open>src/apps/m3u/utils.py\<close> and the
  line builder of \<open>generate_m3u\<close> in \<open>src/apps/output/views.py\<close>. A file is read in text mode, so a line
  is cut at line feeds; the opening of the file and its decoding are left out.
\<close>

subsection \<open>Attributes of an \<open>#EXTINF\<close> line\<close>

text \<open>
  One match of \<open>_EXTINF_ATTR_RE\<close> at the head of a text: the key, the value and the text after it.
  A shorter key never helps, since what follows it is then a character of the key.
\<close>

definition key_char :: "char \<Rightarrow> bool" where
  "key_char c \<longleftrightarrow> \<not> is_space c \<and> c \<noteq> CHR ''=''"

definition quoted_value :: "string \<Rightarrow> (string \<times> string) option" where
  "quoted_value s =
     (case s of
        [] \<Rightarrow> None
      | q # body \<Rightarrow>
          if q \<noteq> CHR 0x22 \<and> q \<noteq> CHR 0x27 then None
          else
            (case dropWhile (\<lambda>c. c \<noteq> q \<and> c \<noteq> CHR 0x0A) body of
               [] \<Rightarrow> None
             | c # after \<Rightarrow> if c = q then Some (takeWhile (\<lambda>c. c \<noteq> q \<and> c \<noteq> CHR 0x0A) body, after) else None))"

definition match_attr :: "string \<Rightarrow> ((string \<times> string) \<times> string) option" where
  "match_attr s =
     (let key = takeWhile key_char s in
      if key = [] then None
      else
        (case lstrip (dropWhile key_char s) of
           [] \<Rightarrow> None
         | c # r \<Rightarrow>
             if c \<noteq> CHR ''='' then None
             else map_option (\<lambda>(v, after). ((key, v), after)) (quoted_value (lstrip r))))"

lemma length_after_quoted: "quoted_value s = Some (v, after) \<Longrightarrow> length after < length s"
  using length_dropWhile_le [of "\<lambda>c. c \<noteq> hd s \<and> c \<noteq> CHR 0x0A" "tl s"]
  by (auto simp: quoted_value_def split: list.splits if_splits)

lemma length_after_attr: "match_attr s = Some (kv, after) \<Longrightarrow> length after < length s"
proof -
  assume m: "match_attr s = Some (kv, after)"
  then obtain r where r: "lstrip (dropWhile key_char s) = CHR ''='' # r" and q: "quoted_value (lstrip r) = Some (snd kv, after)"
    by (auto simp: match_attr_def Let_def split: list.splits if_splits)
  have "length r < length s"
    using r length_dropWhile_le [of key_char s] length_dropWhile_le [of is_space "dropWhile key_char s"]
    by (simp add: lstrip_def)
  with length_after_quoted [OF q] length_dropWhile_le [of is_space r] show ?thesis by (simp add: lstrip_def)
qed

text \<open>\<open>finditer\<close>: the matches from the left, and the text after the last of them.\<close>

function find_attrs :: "string \<Rightarrow> (string \<times> string) list \<times> string option" where
  "find_attrs s =
     (case match_attr s of
        Some (kv, after) \<Rightarrow>
          (case find_attrs after of
             (attrs, None) \<Rightarrow> (kv # attrs, Some after)
           | (attrs, Some rest) \<Rightarrow> (kv # attrs, Some rest))
      | None \<Rightarrow> (case s of [] \<Rightarrow> ([], None) | c # t \<Rightarrow> find_attrs t))"
  by pat_completeness auto
termination
  by (relation "measure length") (auto dest: length_after_attr)

declare find_attrs.simps [simp del]

record m3u_entry =
  me_attributes :: "(string \<times> string) list"
  me_display_name :: string
  me_name :: string
  me_vlc_opts :: "string list option"
  me_url :: string

definition parse_extinf_line :: "string \<Rightarrow> m3u_entry option" where
  "parse_extinf_line line =
     (if \<not> starts_with ''#EXTINF:'' line then None
      else
        let content = strip (drop 8 line);
            (found, rest) = find_attrs content;
            attrs = foldl (\<lambda>d (k, v). dict_set d (lower k) v) [] found;
            display_name =
              (case rest of
                 Some r \<Rightarrow>
                   (let remaining = strip r in
                    if starts_with '','' remaining then strip (drop 1 remaining) else remaining)
               | None \<Rightarrow> (case split_once (CHR '','') content of Some (_, b) \<Rightarrow> strip b | None \<Rightarrow> strip content));
            name =
              (if display_name \<noteq> [] then display_name
               else if opt_text (map_of attrs ''tvc-guide-title'') \<noteq> [] then opt_text (map_of attrs ''tvc-guide-title'')
               else if opt_text (map_of attrs ''tvg-name'') \<noteq> [] then opt_text (map_of attrs ''tvg-name'')
               else strip content)
        in Some \<lparr>me_attributes = attrs, me_display_name = display_name, me_name = name, me_vlc_opts = None, me_url = []\<rparr>)"

subsection \<open>Entries\<close>

definition normalize_stream_url :: "string \<Rightarrow> string" where
  "normalize_stream_url url = (if starts_with ''udp://@'' url then ''udp://'' @ drop 7 url else url)"

definition is_stream_line :: "string \<Rightarrow> bool" where
  "is_stream_line line \<longleftrightarrow>
     starts_with ''http'' line \<or> starts_with ''rtsp'' line \<or> starts_with ''rtp'' line \<or> starts_with ''udp'' line"

text \<open>One line: the pending entry after it, and the entry it completes.\<close>

definition m3u_line :: "m3u_entry option \<Rightarrow> string \<Rightarrow> m3u_entry option \<times> m3u_entry option" where
  "m3u_line pending raw_line =
     (let line = strip raw_line in
      if line = [] then (pending, None)
      else if starts_with ''#EXTINF'' line then (parse_extinf_line line, None)
      else if starts_with ''#EXTGRP:'' line then
        (case pending of
           Some e \<Rightarrow>
             if map_of (me_attributes e) ''group-title'' = None
             then (Some (e\<lparr>me_attributes := dict_set (me_attributes e) ''group-title'' (strip (drop 8 line))\<rparr>), None)
             else (pending, None)
         | None \<Rightarrow> (pending, None))
      else if starts_with ''#EXTVLCOPT:'' line then
        (case pending of
           Some e \<Rightarrow>
             (Some (e\<lparr>me_vlc_opts := Some ((case me_vlc_opts e of Some l \<Rightarrow> l | None \<Rightarrow> []) @ [drop 11 line])\<rparr>), None)
         | None \<Rightarrow> (pending, None))
      else
        (case pending of
           Some e \<Rightarrow>
             if is_stream_line line
             then (None, Some (e\<lparr>me_url := if starts_with ''udp'' line then normalize_stream_url line else line\<rparr>))
             else (pending, None)
         | None \<Rightarrow> (pending, None)))"

fun iter_m3u_entries :: "m3u_entry option \<Rightarrow> string list \<Rightarrow> m3u_entry list" where
  "iter_m3u_entries pending [] = []"
| "iter_m3u_entries pending (line # lines) =
     (case m3u_line pending line of
        (pending', None) \<Rightarrow> iter_m3u_entries pending' lines
      | (pending', Some e) \<Rightarrow> e # iter_m3u_entries pending' lines)"

definition get_case_insensitive_attr :: "(string \<times> string) list \<Rightarrow> string \<Rightarrow> string option" where
  "get_case_insensitive_attr attributes key =
     map_option snd (find (\<lambda>(k, v). lower k = lower key) attributes)"

subsection \<open>Writing a playlist\<close>

definition m3u_attr :: "string \<Rightarrow> string" where
  "m3u_attr value = concat (map (\<lambda>c. if c = CHR 0x22 then ''&quot;'' else [c]) value)"

text \<open>\<open>format_channel_number\<close>, as text; the rendering of a fraction is the argument.\<close>

definition format_channel_number :: "(rat \<Rightarrow> string) \<Rightarrow> rat option \<Rightarrow> string" where
  "format_channel_number show_float value =
     (case value of
        None \<Rightarrow> ''''
      | Some x \<Rightarrow> if x = of_int \<lfloor>x\<rfloor> then show_int \<lfloor>x\<rfloor> else show_float x)"

text \<open>A channel as the playlist lists it: its effective values, and the URLs the request asks for.\<close>

record m3u_channel =
  mc_id :: int
  mc_name :: string
  mc_number :: "rat option"
  mc_tvg_id :: "string option"
  mc_tvc_guide :: "string option"
  mc_group :: "string option"
  mc_logo :: string
  mc_url :: string

datatype tvg_id_source = By_Number | By_Tvg_Id | By_Gracenote

definition tvg_id_of :: "(rat \<Rightarrow> string) \<Rightarrow> tvg_id_source \<Rightarrow> m3u_channel \<Rightarrow> string" where
  "tvg_id_of show_float source c =
     (let number = format_channel_number show_float (mc_number c) in
      if source = By_Tvg_Id \<and> opt_text (mc_tvg_id c) \<noteq> [] then opt_text (mc_tvg_id c)
      else if source = By_Gracenote \<and> opt_text (mc_tvc_guide c) \<noteq> [] then opt_text (mc_tvc_guide c)
      else if number \<noteq> [] then number else show_int (mc_id c))"

definition attr_text :: "string \<Rightarrow> string \<Rightarrow> string" where
  "attr_text key value = key @ ''='' @ [CHR 0x22] @ m3u_attr value @ [CHR 0x22]"

definition extinf_line :: "(rat \<Rightarrow> string) \<Rightarrow> tvg_id_source \<Rightarrow> m3u_channel \<Rightarrow> string" where
  "extinf_line show_float source c =
     ''#EXTINF:-1 '' @ attr_text ''tvg-id'' (tvg_id_of show_float source c) @ '' '' @ attr_text ''tvg-name'' (mc_name c) @ '' ''
     @ attr_text ''tvg-logo'' (mc_logo c) @ '' '' @ attr_text ''tvg-chno'' (format_channel_number show_float (mc_number c)) @ '' ''
     @ (if opt_text (mc_tvc_guide c) = [] then [] else attr_text ''tvc-guide-stationid'' (opt_text (mc_tvc_guide c)) @ '' '')
     @ attr_text ''group-title'' (case mc_group c of Some g \<Rightarrow> g | None \<Rightarrow> ''Default'') @ '','' @ mc_name c @ [CHR 0x0A]"

text \<open>The direct URL of a channel's first stream: VLC's spelling of a multicast group is restored.\<close>

definition direct_stream_url :: "string \<Rightarrow> string" where
  "direct_stream_url url =
     (if starts_with ''udp://'' url \<and> find_text ''udp://@'' url = None
         \<and> (case urlparse url of
               Some u \<Rightarrow> (case ip_address (url_hostname (u_netloc u)) of Some a \<Rightarrow> is_multicast a | None \<Rightarrow> False)
             | None \<Rightarrow> False)
      then ''udp://@'' @ drop 6 url else url)"

definition m3u_content :: "(rat \<Rightarrow> string) \<Rightarrow> tvg_id_source \<Rightarrow> string \<Rightarrow> m3u_channel list \<Rightarrow> string" where
  "m3u_content show_float source epg_url channels =
     ''#EXTM3U x-tvg-url='' @ [CHR 0x22] @ epg_url @ [CHR 0x22] @ '' url-tvg='' @ [CHR 0x22] @ epg_url @ [CHR 0x22, CHR 0x0A]
     @ concat (map (\<lambda>c. extinf_line show_float source c @ mc_url c @ [CHR 0x0A]) channels)"

end
