(* ===== verification/Playlist_Properties.thy ===== *)
theory Playlist_Properties
  imports M3U_Playlist
begin

section \<open>Playlists: what is written is what is read\<close>

text \<open>
  A playlist the server writes is read back by its own importer as the channels it lists; an equals
  sign in a channel's name is what breaks it.
\<close>

subsection \<open>Attributes\<close>

lemma m3u_attr_no_quote [simp]: "CHR 0x22 \<notin> set (m3u_attr v)"
  by (auto simp: m3u_attr_def)

lemma m3u_attr_char: "c \<notin> set v \<Longrightarrow> c \<notin> set ''&quot;'' \<Longrightarrow> c \<notin> set (m3u_attr v)"
  by (auto simp: m3u_attr_def)

lemma span_key: "list_all key_char k \<Longrightarrow> takeWhile key_char (k @ CHR ''='' # s) = k"
  "list_all key_char k \<Longrightarrow> dropWhile key_char (k @ CHR ''='' # s) = CHR ''='' # s"
  by (induction k) (simp_all add: key_char_def)

lemma match_attr_text:
  assumes "list_all key_char k" and "k \<noteq> []" and "CHR 0x0A \<notin> set v"
  shows "match_attr (attr_text k v @ s) = Some ((k, m3u_attr v), s)"
proof -
  have v: "\<forall>c \<in> set (m3u_attr v). c \<noteq> CHR 0x22 \<and> c \<noteq> CHR 0x0A"
    using m3u_attr_char [OF assms(3)] m3u_attr_no_quote [of v] by auto
  have "takeWhile (\<lambda>c. c \<noteq> CHR 0x22 \<and> c \<noteq> CHR 0x0A) (m3u_attr v @ CHR 0x22 # s) = m3u_attr v"
    "dropWhile (\<lambda>c. c \<noteq> CHR 0x22 \<and> c \<noteq> CHR 0x0A) (m3u_attr v @ CHR 0x22 # s) = CHR 0x22 # s"
    using v by (simp_all add: takeWhile_append dropWhile_append)
  then have q: "quoted_value (CHR 0x22 # m3u_attr v @ CHR 0x22 # s) = Some (m3u_attr v, s)"
    by (simp add: quoted_value_def)
  have sp: "lstrip (CHR ''='' # t) = CHR ''='' # t" "lstrip (CHR 0x22 # t) = CHR 0x22 # t" for t
    by (simp_all add: lstrip_def is_space_def)
  show ?thesis
    using span_key [OF assms(1), of "CHR 0x22 # m3u_attr v @ CHR 0x22 # s"] assms(2) q
    by (simp add: match_attr_def attr_text_def sp)
qed

lemma match_attr_no_key: "\<not> key_char c \<Longrightarrow> match_attr (c # s) = None"
  by (simp add: match_attr_def)

lemma find_attrs_text:
  assumes "list_all key_char k" and "k \<noteq> []" and "CHR 0x0A \<notin> set v"
  shows "find_attrs (attr_text k v @ s) =
    (case find_attrs s of (attrs, None) \<Rightarrow> ((k, m3u_attr v) # attrs, Some s) | (attrs, Some r) \<Rightarrow> ((k, m3u_attr v) # attrs, Some r))"
  using match_attr_text [OF assms] by (subst find_attrs.simps) simp

lemma find_attrs_skip: "match_attr (c # s) = None \<Longrightarrow> find_attrs (c # s) = find_attrs s"
  by (subst find_attrs.simps) simp

lemma find_attrs_space [simp]: "find_attrs (CHR '' '' # s) = find_attrs s"
  by (rule find_attrs_skip) (simp add: match_attr_no_key key_char_def is_space_def)

lemma no_equals_no_match: "CHR ''='' \<notin> set s \<Longrightarrow> match_attr s = None"
proof -
  assume "CHR ''='' \<notin> set s"
  then have "CHR ''='' \<notin> set (lstrip (dropWhile key_char s))"
    unfolding lstrip_def by (meson set_dropWhileD)
  then show ?thesis by (cases "lstrip (dropWhile key_char s)") (auto simp: match_attr_def Let_def)
qed

lemma find_attrs_no_equals: "CHR ''='' \<notin> set s \<Longrightarrow> find_attrs s = ([], None)"
  by (induction s) (simp_all add: find_attrs.simps no_equals_no_match)

lemma find_attrs_minus_one: "find_attrs (''-1 '' @ CHR ''t'' # s) = find_attrs (CHR ''t'' # s)"
  by (simp add: find_attrs_skip match_attr_def key_char_def is_space_def lstrip_def)

text \<open>The keys of a written line, in their order.\<close>

definition line_attrs :: "(rat \<Rightarrow> string) \<Rightarrow> tvg_id_source \<Rightarrow> m3u_channel \<Rightarrow> (string \<times> string) list" where
  "line_attrs show_float source c =
     [(''tvg-id'', tvg_id_of show_float source c), (''tvg-name'', mc_name c), (''tvg-logo'', mc_logo c),
      (''tvg-chno'', format_channel_number show_float (mc_number c))]
     @ (if opt_text (mc_tvc_guide c) = [] then [] else [(''tvc-guide-stationid'', opt_text (mc_tvc_guide c))])
     @ [(''group-title'', case mc_group c of Some g \<Rightarrow> g | None \<Rightarrow> ''Default'')]"

definition single_line :: "string \<Rightarrow> bool" where
  "single_line s \<longleftrightarrow> CHR 0x0A \<notin> set s \<and> CHR 0x0D \<notin> set s"

text \<open>What a channel's values may be: on one line, the name trimmed, not blank and without \<open>=\<close>, the
  URL trimmed and of a kind the importer takes.\<close>

definition exportable :: "(rat \<Rightarrow> string) \<Rightarrow> tvg_id_source \<Rightarrow> m3u_channel \<Rightarrow> bool" where
  "exportable show_float source c \<longleftrightarrow>
     list_all (\<lambda>(k, v). single_line v) (line_attrs show_float source c)
     \<and> mc_name c \<noteq> [] \<and> strip (mc_name c) = mc_name c \<and> CHR ''='' \<notin> set (mc_name c)
     \<and> single_line (mc_url c) \<and> strip (mc_url c) = mc_url c \<and> is_stream_line (mc_url c)"

definition exported_entry :: "(rat \<Rightarrow> string) \<Rightarrow> tvg_id_source \<Rightarrow> m3u_channel \<Rightarrow> m3u_entry" where
  "exported_entry show_float source c =
     \<lparr>me_attributes = map (\<lambda>(k, v). (k, m3u_attr v)) (line_attrs show_float source c),
      me_display_name = mc_name c, me_name = mc_name c, me_vlc_opts = None,
      me_url = (if starts_with ''udp'' (mc_url c) then normalize_stream_url (mc_url c) else mc_url c)\<rparr>"

definition extinf_text :: "(rat \<Rightarrow> string) \<Rightarrow> tvg_id_source \<Rightarrow> m3u_channel \<Rightarrow> string" where
  "extinf_text show_float source c = butlast (extinf_line show_float source c)"

lemma written_keys:
  "lower ''tvg-id'' = ''tvg-id''" "lower ''tvg-name'' = ''tvg-name''" "lower ''tvg-logo'' = ''tvg-logo''"
  "lower ''tvg-chno'' = ''tvg-chno''" "lower ''tvc-guide-stationid'' = ''tvc-guide-stationid''" "lower ''group-title'' = ''group-title''"
  "list_all key_char ''tvg-id''" "list_all key_char ''tvg-name''" "list_all key_char ''tvg-logo''" "list_all key_char ''tvg-chno''"
  "list_all key_char ''tvc-guide-stationid''" "list_all key_char ''group-title''"
  by code_simp+

lemma extinf_content:
  "extinf_line f source c = ''#EXTINF:-1 '' @ concat (map (\<lambda>(k, v). attr_text k v @ '' '') (butlast (line_attrs f source c)))
     @ attr_text ''group-title'' (snd (last (line_attrs f source c))) @ '','' @ mc_name c @ [CHR 0x0A]"
  by (simp add: extinf_line_def line_attrs_def butlast_append)

lemma find_attrs_all:
  assumes "list_all (\<lambda>(k, v). list_all key_char k \<and> k \<noteq> [] \<and> CHR 0x0A \<notin> set v) kvs"
  shows "find_attrs (concat (map (\<lambda>(k, v). attr_text k v @ '' '') kvs) @ s) =
    (case find_attrs s of
       (attrs, None) \<Rightarrow> (map (\<lambda>(k, v). (k, m3u_attr v)) kvs @ attrs, if kvs = [] then None else Some (CHR '' '' # s))
     | (attrs, Some r) \<Rightarrow> (map (\<lambda>(k, v). (k, m3u_attr v)) kvs @ attrs, Some r))"
  using assms
proof (induction kvs)
  case Nil
  then show ?case by (simp split: prod.split option.split)
next
  case (Cons kv kvs)
  obtain k v where kv: "kv = (k, v)" by (rule prod.exhaust)
  show ?case
    using Cons find_attrs_text [of k v "CHR '' '' # concat (map (\<lambda>(k, v). attr_text k v @ '' '') kvs) @ s"]
    by (simp add: kv split: prod.split option.split)
qed


subsection \<open>Lines\<close>

lemma lower_keys: "map lower (map fst (line_attrs f source c)) = map fst (line_attrs f source c)"
  by (cases "opt_text (mc_tvc_guide c) = []") (simp_all add: line_attrs_def written_keys)

lemma distinct_keys: "distinct (map fst (line_attrs f source c))"
  by (cases "opt_text (mc_tvc_guide c) = []") (simp_all add: line_attrs_def)

lemma strip_ends:
  assumes "strip s = s" and "s \<noteq> []"
  shows "\<not> is_space (hd s) \<and> \<not> is_space (last s)"
proof
  obtain c t where s: "s = c # t" using assms(2) by (cases s) auto
  show "\<not> is_space (hd s)"
  proof
    assume "is_space (hd s)"
    then have "length (lstrip s) \<le> length t" by (simp add: s lstrip_def length_dropWhile_le)
    moreover have "length (strip s) \<le> length (lstrip s)"
      unfolding strip_def by (simp add: lstrip_def) (metis length_dropWhile_le length_rev)
    ultimately show False using assms(1) by (simp add: s)
  qed
  have s2: "s = rev (dropWhile is_space (rev (lstrip s)))" using assms(1) by (simp add: strip_def lstrip_def)
  with assms(2) have "dropWhile is_space (rev (lstrip s)) \<noteq> []" by (metis rev_is_Nil_conv)
  with s2 show "\<not> is_space (last s)" by (metis hd_dropWhile last_rev)
qed

lemma dict_of_distinct:
  assumes "distinct (map fst (acc @ kvs))" and "map lower (map fst kvs) = map fst kvs"
  shows "foldl (\<lambda>d (k, v). dict_set d (lower k) v) acc kvs = acc @ kvs"
  using assms
proof (induction kvs arbitrary: acc)
  case (Cons kv kvs)
  obtain k v where kv: "kv = (k, v)" by (rule prod.exhaust)
  have "k \<notin> set (map fst acc) \<Longrightarrow> dict_set acc k v = acc @ [(k, v)]"
    by (induction acc) auto
  then show ?case using Cons.prems Cons.IH [of "acc @ [(k, v)]"] by (simp add: kv)
qed simp

lemma parse_written_line:
  assumes "exportable f source c"
  shows "parse_extinf_line (extinf_text f source c) = Some (exported_entry f source c\<lparr>me_url := []\<rparr>)"
proof -
  let ?kvs = "butlast (line_attrs f source c)" and ?group = "snd (last (line_attrs f source c))"
  let ?content = "''-1 '' @ concat (map (\<lambda>(k, v). attr_text k v @ '' '') ?kvs) @ attr_text ''group-title'' ?group @ '','' @ mc_name c"
  have attrs: "line_attrs f source c = ?kvs @ [(''group-title'', ?group)]" by (simp add: line_attrs_def)
  have ok: "list_all (\<lambda>(k, v). list_all key_char k \<and> k \<noteq> [] \<and> CHR 0x0A \<notin> set v) (line_attrs f source c)"
    using assms by (simp add: exportable_def line_attrs_def single_line_def key_char_def is_space_def split: if_splits)
  have group: "CHR 0x0A \<notin> set ?group" using ok by (subst (asm) attrs) simp
  have name: "mc_name c \<noteq> []" "strip (mc_name c) = mc_name c" "CHR ''='' \<notin> set (mc_name c)"
    using assms by (simp_all add: exportable_def)
  have line: "extinf_text f source c = ''#EXTINF:'' @ ?content"
    by (simp add: extinf_text_def extinf_content butlast_append)
  have ends: "\<not> is_space (last (mc_name c))" "\<not> is_space (hd (mc_name c))"
    using strip_ends [OF name(2,1)] by simp_all
  have content: "strip ?content = ?content"
    by (rule strip_id) (use ends name(1) in \<open>simp add: is_space_def\<close>)
  have tail: "find_attrs (attr_text ''group-title'' ?group @ '','' @ mc_name c)
      = ([(''group-title'', m3u_attr ?group)], Some ('','' @ mc_name c))"
    using find_attrs_text [of "''group-title''" ?group "'','' @ mc_name c"] written_keys(12) name(3) group
      find_attrs_no_equals [of "'','' @ mc_name c"]
    by simp
  have pre: "list_all (\<lambda>(k, v). list_all key_char k \<and> k \<noteq> [] \<and> CHR 0x0A \<notin> set v) ?kvs"
    using ok by (subst (asm) attrs) simp
  have starts: "\<exists>s. concat (map (\<lambda>(k, v). attr_text k v @ '' '') ?kvs) = CHR ''t'' # s"
    by (simp add: line_attrs_def attr_text_def)
  have found: "find_attrs ?content = (map (\<lambda>(k, v). (k, m3u_attr v)) (line_attrs f source c), Some ('','' @ mc_name c))"
  proof -
    have "find_attrs ?content = find_attrs (concat (map (\<lambda>(k, v). attr_text k v @ '' '') ?kvs) @ attr_text ''group-title'' ?group @ '','' @ mc_name c)"
      using starts find_attrs_minus_one by fastforce
    also have "\<dots> = (map (\<lambda>(k, v). (k, m3u_attr v)) ?kvs @ [(''group-title'', m3u_attr ?group)], Some ('','' @ mc_name c))"
      by (simp only: find_attrs_all [OF pre] tail prod.case option.case)
    finally show ?thesis by (subst attrs) simp
  qed
  have dict: "foldl (\<lambda>d (k, v). dict_set d (lower k) v) [] (map (\<lambda>(k, v). (k, m3u_attr v)) (line_attrs f source c))
      = map (\<lambda>(k, v). (k, m3u_attr v)) (line_attrs f source c)"
    using dict_of_distinct [of "[]" "map (\<lambda>(k, v). (k, m3u_attr v)) (line_attrs f source c)"] lower_keys [of f source c] distinct_keys [of f source c]
    by (simp add: comp_def case_prod_beta)
  have rest: "strip ('','' @ mc_name c) = '','' @ mc_name c" "strip (mc_name c) = mc_name c"
    using ends name by (auto intro: strip_id simp: is_space_def)
  show ?thesis
    unfolding parse_extinf_line_def line
    using content found dict rest name(1) by (simp add: starts_with_def exported_entry_def Let_def)
qed


subsection \<open>The file\<close>

lemma m3u_url_line:
  assumes "is_stream_line u" and "strip u = u"
  shows "m3u_line (Some e) u = (None, Some (e\<lparr>me_url := if starts_with ''udp'' u then normalize_stream_url u else u\<rparr>))"
proof -
  obtain c t where u: "u = c # t" "c \<noteq> CHR ''#''"
    using assms(1) by (cases u) (auto simp: is_stream_line_def starts_with_def)
  then show ?thesis using assms by (simp add: m3u_line_def starts_with_def Let_def)
qed

lemma single_extinf: "exportable f source c \<Longrightarrow> CHR 0x0A \<notin> set (extinf_text f source c)"
proof -
  assume ok: "exportable f source c"
  then have "CHR 0x0A \<notin> set v" if "(k, v) \<in> set (line_attrs f source c)" for k v
    using that by (auto simp: exportable_def list_all_iff single_line_def)
  moreover have "CHR 0x0A \<notin> set (mc_name c)" using ok by (auto simp: exportable_def line_attrs_def single_line_def)
  moreover have "CHR 0x0A \<notin> set (attr_text k v)" if "(k, v) \<in> set (line_attrs f source c)" "CHR 0x0A \<notin> set v" for k v
    using that m3u_attr_char [of "CHR 0x0A" v] by (auto simp: attr_text_def line_attrs_def split: if_splits)
  ultimately show ?thesis
    by (auto simp: extinf_text_def extinf_content butlast_append line_attrs_def)
qed

lemma exported_lines:
  "list_all (exportable f source) cs \<Longrightarrow>
   iter_m3u_entries None (split_on (CHR 0x0A) (concat (map (\<lambda>c. extinf_line f source c @ mc_url c @ [CHR 0x0A]) cs)))
     = map (exported_entry f source) cs"
proof (induction cs)
  case Nil
  then show ?case by (simp add: m3u_line_def strip_def lstrip_def)
next
  case (Cons c cs)
  then have ok: "exportable f source c" by simp
  have line: "extinf_line f source c = extinf_text f source c @ [CHR 0x0A]"
    by (simp add: extinf_text_def extinf_content butlast_append)
  have trimmed: "strip (extinf_text f source c) = extinf_text f source c"
  proof (rule strip_id)
    have "last (extinf_text f source c) = last (mc_name c)"
      using ok by (simp add: extinf_text_def extinf_content butlast_append exportable_def)
    moreover have "hd (extinf_text f source c) = CHR ''#''"
      by (simp add: extinf_text_def extinf_content butlast_append)
    ultimately show "extinf_text f source c = [] \<or> \<not> is_space (hd (extinf_text f source c)) \<and> \<not> is_space (last (extinf_text f source c))"
      using ok strip_ends [of "mc_name c"] by (simp add: exportable_def is_space_def)
  qed
  have "m3u_line None (extinf_text f source c) = (Some (exported_entry f source c\<lparr>me_url := []\<rparr>), None)"
    using parse_written_line [OF ok] trimmed
    by (simp add: m3u_line_def extinf_text_def extinf_content butlast_append starts_with_def)
  moreover have "m3u_line (Some (exported_entry f source c\<lparr>me_url := []\<rparr>)) (mc_url c) = (None, Some (exported_entry f source c))"
    using m3u_url_line [of "mc_url c"] ok by (simp add: exportable_def exported_entry_def)
  moreover have "CHR 0x0A \<notin> set (mc_url c)" using ok by (simp add: exportable_def single_line_def)
  ultimately show ?case
    using Cons single_extinf [OF ok] by (simp add: line split_on_append)
qed


text \<open>C28. A playlist this server writes is read back by its own importer as the channels it lists, in
  order: each entry has the channel's name, the attributes of its line, and its URL, a VLC multicast address
  in the spelling without the sign. The name read back is the text after the comma, whatever stands in
  \<open>tvg-name\<close>; there a quotation mark, as in every attribute, comes back as the entity it was written as.
  Quotes, commas and key words in the attribute values do not run into each other. The theorem covers
  the channels \<open>exportable\<close> describes: no attribute value, name or URL holds a line break or carriage return; the name is not empty,
  begins and ends with no white space and holds no equals sign; the URL begins and ends with no white
  space and starts with http, rtsp, rtp or udp, as the lines the importer takes for a URL do; and the guide URL
  of the head line holds no line break or carriage return.\<close>

theorem playlist_round_trip:
  assumes "list_all (exportable show_float source) channels" and "single_line epg_url"
  shows "iter_m3u_entries None (split_on (CHR 0x0A) (m3u_content show_float source epg_url channels))
    = map (exported_entry show_float source) channels"
proof -
  let ?head = "''#EXTM3U x-tvg-url='' @ [CHR 0x22] @ epg_url @ [CHR 0x22] @ '' url-tvg='' @ [CHR 0x22] @ epg_url @ [CHR 0x22]"
  have head: "CHR 0x0A \<notin> set ?head" using assms(2) by (auto simp: single_line_def)
  have "strip ?head = ?head" by (rule strip_id) (simp add: is_space_def)
  then have "m3u_line None ?head = (None, None)" by (simp add: m3u_line_def starts_with_def)
  then show ?thesis
    using exported_lines [OF assms(1)] split_on_append [OF head] by (simp add: m3u_content_def)
qed

definition demo_listing :: "m3u_channel list" where
  "demo_listing =
     [\<lparr>mc_id = 3, mc_name = ''News, live'', mc_number = Some 12, mc_tvg_id = None, mc_tvc_guide = Some ''99'',
       mc_group = Some ''A'', mc_logo = ''http://l/1'', mc_url = ''udp://@239.0.0.1:1234''\<rparr>]"

lemma playlist_witness:
  "list_all (exportable (\<lambda>_. ''?'') By_Number) demo_listing \<and>
   iter_m3u_entries None (split_on (CHR 0x0A) (m3u_content (\<lambda>_. ''?'') By_Number ''http://h/epg'' demo_listing))
     = [\<lparr>me_attributes = [(''tvg-id'', ''12''), (''tvg-name'', ''News, live''), (''tvg-logo'', ''http://l/1''),
           (''tvg-chno'', ''12''), (''tvc-guide-stationid'', ''99''), (''group-title'', ''A'')],
         me_display_name = ''News, live'', me_name = ''News, live'', me_vlc_opts = None, me_url = ''udp://239.0.0.1:1234''\<rparr>]"
proof -
  have ok: "list_all (exportable (\<lambda>_. ''?'') By_Number) demo_listing" by code_simp
  have "map (exported_entry (\<lambda>_. ''?'') By_Number) demo_listing =
      [\<lparr>me_attributes = [(''tvg-id'', ''12''), (''tvg-name'', ''News, live''), (''tvg-logo'', ''http://l/1''),
           (''tvg-chno'', ''12''), (''tvc-guide-stationid'', ''99''), (''group-title'', ''A'')],
         me_display_name = ''News, live'', me_name = ''News, live'', me_vlc_opts = None, me_url = ''udp://239.0.0.1:1234''\<rparr>]"
    by code_simp
  with ok playlist_round_trip [OF ok, of "''http://h/epg''"] show ?thesis by (simp add: single_line_def)
qed

text \<open>The sign of a VLC multicast URL, put back in a playlist of direct URLs, is dropped by the import.\<close>

lemma direct_url_imported: "find_text ''udp://@'' u = None \<Longrightarrow> normalize_stream_url (direct_stream_url u) = u"
proof -
  assume none: "find_text ''udp://@'' u = None"
  have "\<not> starts_with ''udp://@'' u" using none by (cases u) (auto simp: starts_with_def split: if_splits)
  moreover have "starts_with ''udp://'' u \<Longrightarrow> ''udp://'' @ drop 6 u = u" by (auto simp: starts_with_iff)
  ultimately show ?thesis by (auto simp: direct_stream_url_def normalize_stream_url_def starts_with_def)
qed

text \<open>An attribute spelled in a channel's name replaces the one of the line.\<close>

lemma name_overrides_an_attribute:
  "parse_extinf_line (extinf_text (\<lambda>_. ''?'') By_Number
      \<lparr>mc_id = 3, mc_name = ''News group-title='' @ [CHR 0x22] @ ''Adult'' @ [CHR 0x22], mc_number = Some 12, mc_tvg_id = None,
       mc_tvc_guide = None, mc_group = Some ''A'', mc_logo = [], mc_url = ''http://h/s''\<rparr>)
   = Some \<lparr>me_attributes = [(''tvg-id'', ''12''), (''tvg-name'', ''News group-title=&quot;Adult&quot;''), (''tvg-logo'', []),
         (''tvg-chno'', ''12''), (''group-title'', ''Adult'')],
       me_display_name = [], me_name = ''News group-title=&quot;Adult&quot;'', me_vlc_opts = None, me_url = []\<rparr>"
  by code_simp

end
