(* ===== verification/Stream_Identity.thy ===== *)
theory Stream_Identity
  imports Json_Text Provider_Model
begin

section \<open>The identity of a stream\<close>

text \<open>
  \<open>Stream.generate_hash_key\<close> of \<open>src/apps/channels/models.py\<close>: a stream is known by a digest of the
  fields a setting names, and the stream of an Xtream account by the provider's number for it instead
  of its URL. The digest (SHA-256) is an argument.
\<close>

datatype hash_value = HNull | HText string | HInt int

text \<open>The fields an identity may be made of.\<close>

record identity =
  id_name :: string
  id_url :: "string option"
  id_tvg_id :: "string option"
  id_m3u_id :: "int option"
  id_group :: "string option"
  id_account_type :: "account_type option"
  id_stream_id :: "int option"

fun of_text :: "string option \<Rightarrow> hash_value" where
  "of_text None = HNull"
| "of_text (Some s) = HText s"

fun of_int_or_null :: "int option \<Rightarrow> hash_value" where
  "of_int_or_null None = HNull"
| "of_int_or_null (Some i) = HInt i"

definition use_stream_id :: "identity \<Rightarrow> string list \<Rightarrow> bool" where
  "use_stream_id s keys \<longleftrightarrow>
     id_account_type s = Some XC \<and> id_stream_id s \<noteq> None \<and> id_stream_id s \<noteq> Some 0 \<and> ''url'' \<in> set keys"

definition stream_parts :: "identity \<Rightarrow> string list \<Rightarrow> (string \<times> hash_value) list" where
  "stream_parts s keys =
     [(''name'', HText (id_name s)),
      (''url'', if use_stream_id s keys then of_int_or_null (id_stream_id s) else of_text (id_url s)),
      (''tvg_id'', of_text (id_tvg_id s)), (''m3u_id'', of_int_or_null (id_m3u_id s)), (''group'', of_text (id_group s))]"

text \<open>The parts that are hashed. \<open>sort_keys\<close> lists them in the order of their names.\<close>

definition sorted_keys :: "string list" where
  "sorted_keys = [''group'', ''m3u_id'', ''name'', ''tvg_id'', ''url'']"

definition hash_parts :: "identity \<Rightarrow> string list \<Rightarrow> (string \<times> hash_value) list" where
  "hash_parts s keys =
     List.map_filter
       (\<lambda>k. if k \<in> set keys \<or> use_stream_id s keys \<and> k = ''m3u_id''
            then map_option (Pair k) (map_of (stream_parts s keys) k) else None)
       sorted_keys"

fun json_value :: "hash_value \<Rightarrow> string" where
  "json_value HNull = ''null''"
| "json_value (HText s) = json_string s"
| "json_value (HInt i) = show_int i"

fun json_parts :: "(string \<times> hash_value) list \<Rightarrow> string" where
  "json_parts [] = []"
| "json_parts [(k, v)] = json_string k @ '': '' @ json_value v"
| "json_parts ((k, v) # kvs) = json_string k @ '': '' @ json_value v @ '', '' @ json_parts kvs"

definition serialized_obj :: "identity \<Rightarrow> string list \<Rightarrow> string" where
  "serialized_obj s keys = ''{'' @ json_parts (hash_parts s keys) @ ''}''"

definition generate_hash_key :: "(string \<Rightarrow> string) \<Rightarrow> identity \<Rightarrow> string list \<Rightarrow> string" where
  "generate_hash_key digest s keys = digest (serialized_obj s keys)"

subsection \<open>What the digest is taken of\<close>

definition number_char :: "char \<Rightarrow> bool" where "number_char c \<longleftrightarrow> is_digit c \<or> c = CHR ''-''"

lemma show_int_chars: "list_all number_char (show_int i)" "show_int i \<noteq> []"
  using digits_show_nat by (auto simp: show_int_def number_char_def list_all_iff)

lemma number_span:
  assumes "list_all number_char n" "list_all number_char m" and "n @ x = m @ y"
    and "x \<noteq> []" "y \<noteq> []" "\<not> number_char (hd x)" "\<not> number_char (hd y)"
  shows "n = m \<and> x = y"
proof -
  have "takeWhile number_char (n @ x) = n"
    using assms(1,4,6) by (cases x) (auto simp: list_all_iff)
  moreover have "takeWhile number_char (m @ y) = m"
    using assms(2,5,7) by (cases y) (auto simp: list_all_iff)
  ultimately have "n = m" using assms(3) by simp
  with assms(3) show ?thesis by simp
qed

lemma json_value_head:
  "json_value v \<noteq> []"
  "hd (json_value v) = CHR ''n'' \<longleftrightarrow> v = HNull"
  "hd (json_value v) = QUOTE \<longleftrightarrow> (\<exists>s. v = HText s)"
proof -
  have "number_char (hd (show_int i))" for i
    using show_int_chars [of i] by (cases "show_int i") auto
  moreover have "\<not> number_char (CHR ''n'')" "\<not> number_char QUOTE"
    by (simp_all add: number_char_def is_digit_def QUOTE_def)
  ultimately have "hd (show_int i) \<noteq> CHR ''n''" "hd (show_int i) \<noteq> QUOTE" for i by metis+
  then show "json_value v \<noteq> []" "hd (json_value v) = CHR ''n'' \<longleftrightarrow> v = HNull"
    "hd (json_value v) = QUOTE \<longleftrightarrow> (\<exists>s. v = HText s)"
    by (cases v; simp add: json_string_def QUOTE_def show_int_chars)+
qed

lemma json_value_end:
  assumes e: "json_value v @ x = json_value w @ y" and "x \<noteq> []" "y \<noteq> []" "hd x \<in> set '',}''" "hd y \<in> set '',}''"
  shows "v = w \<and> x = y"
proof -
  have hd: "hd (json_value v) = hd (json_value w)"
    using e json_value_head(1) by (metis hd_append2)
  show ?thesis
  proof (cases v)
    case HNull
    then have "w = HNull" using hd json_value_head(2) by metis
    with HNull e show ?thesis by simp
  next
    case (HText s)
    then obtain t where w: "w = HText t" using hd json_value_head(3) by metis
    have "concat (map escape_char s) @ QUOTE # x = concat (map escape_char t) @ QUOTE # y"
      using e HText w by (simp add: json_string_def)
    then have "Some (s, x) = Some (t, y)" by (metis read_string_json)
    with HText w show ?thesis by simp
  next
    case (HInt i)
    moreover obtain j where w: "w = HInt j"
      using HInt hd json_value_head(2,3) [of v] json_value_head(2,3) [of w] by (cases w) auto
    moreover have "\<not> number_char (hd x)" "\<not> number_char (hd y)"
      using assms(4,5) by (auto simp: number_char_def is_digit_def)
    ultimately show ?thesis
      using number_span [of "show_int i" "show_int j" x y] e show_int_chars assms(2,3) by simp
  qed
qed

lemma json_key_end: "json_string k @ x = json_string l @ y \<Longrightarrow> k = l \<and> x = y"
proof -
  assume "json_string k @ x = json_string l @ y"
  then have "concat (map escape_char k) @ QUOTE # x = concat (map escape_char l) @ QUOTE # y"
    by (simp add: json_string_def)
  then have "read_string (concat (map escape_char k) @ QUOTE # x) = read_string (concat (map escape_char l) @ QUOTE # y)"
    by (rule arg_cong)
  then show ?thesis by (simp add: read_string_json)
qed

text \<open>What follows a member: the end of the object, or the next one.\<close>

definition members_after :: "(string \<times> hash_value) list \<Rightarrow> string" where
  "members_after ps = (if ps = [] then ''}'' else '', '' @ json_parts ps @ ''}'')"

lemma json_parts_Cons: "json_parts ((k, v) # ps) @ ''}'' = json_string k @ '': '' @ json_value v @ members_after ps"
  by (cases ps) (simp_all add: members_after_def)

lemma members_after_start: "members_after ps \<noteq> []" "hd (members_after ps) \<in> set '',}''"
  by (auto simp: members_after_def)

lemma json_parts_not_Nil: "json_parts (p # ps) \<noteq> []"
  by (cases p; cases ps) (simp_all add: json_string_def)

lemma json_parts_end: "json_parts ps @ ''}'' = json_parts qs @ ''}'' \<Longrightarrow> ps = qs"
proof (induction ps arbitrary: qs)
  case Nil
  then show ?case
    by (cases qs) (auto simp: json_parts_not_Nil Cons_eq_append_conv append_eq_Cons_conv simp del: json_parts.simps(2,3))
next
  case (Cons p ps)
  obtain k v where p: "p = (k, v)" by (cases p)
  have "qs \<noteq> []" using Cons.prems p by (auto simp: json_parts_Cons json_string_def QUOTE_def simp del: json_parts.simps(2,3))
  then obtain l w ws where qs: "qs = (l, w) # ws" by (cases qs) auto
  have "json_string k @ '': '' @ json_value v @ members_after ps = json_string l @ '': '' @ json_value w @ members_after ws"
    using Cons.prems unfolding p qs json_parts_Cons .
  note key = json_key_end [OF this]
  have "json_value v @ members_after ps = json_value w @ members_after ws" using key by simp
  note val = json_value_end [OF this members_after_start(1) members_after_start(1) members_after_start(2) members_after_start(2)]
  have "ps = ws"
    using val Cons.IH [of ws] by (simp add: members_after_def split: if_splits)
  with key val p qs show ?case by simp
qed

lemma serialized_obj_inject: "serialized_obj s keys = serialized_obj t keys' \<longleftrightarrow> hash_parts s keys = hash_parts t keys'"
  using json_parts_end by (auto simp: serialized_obj_def)

text \<open>The fields that make two streams one.\<close>

definition same_identity :: "identity \<Rightarrow> identity \<Rightarrow> string list \<Rightarrow> bool" where
  "same_identity s t keys \<longleftrightarrow>
     use_stream_id s keys = use_stream_id t keys
     \<and> (''url'' \<in> set keys \<longrightarrow>
         (if use_stream_id s keys then id_stream_id s = id_stream_id t else id_url s = id_url t))
     \<and> (''m3u_id'' \<in> set keys \<or> use_stream_id s keys \<longrightarrow> id_m3u_id s = id_m3u_id t)
     \<and> (''name'' \<in> set keys \<longrightarrow> id_name s = id_name t)
     \<and> (''tvg_id'' \<in> set keys \<longrightarrow> id_tvg_id s = id_tvg_id t)
     \<and> (''group'' \<in> set keys \<longrightarrow> id_group s = id_group t)"

lemma of_values_inject [simp]:
  "of_text a = of_text b \<longleftrightarrow> a = b" "of_int_or_null i = of_int_or_null j \<longleftrightarrow> i = j"
  by (cases a; cases b; simp) (cases i; cases j; simp)

lemma of_int_or_null_text: "i \<noteq> None \<Longrightarrow> of_int_or_null i \<noteq> of_text a" "i \<noteq> None \<Longrightarrow> of_text a \<noteq> of_int_or_null i"
  by (cases i; cases a; simp)+

lemma map_filter_tagged:
  assumes "distinct ks" and "\<And>k p. f k = Some p \<Longrightarrow> fst p = k" "\<And>k p. g k = Some p \<Longrightarrow> fst p = k"
  shows "List.map_filter f ks = List.map_filter g ks \<longleftrightarrow> (\<forall>k \<in> set ks. f k = g k)"
  using assms(1)
proof (induction ks)
  case (Cons k ks)
  have tag: "p \<in> set (List.map_filter h ks) \<Longrightarrow> fst p \<noteq> k" if "h = f \<or> h = g" for p h
  proof
    assume "p \<in> set (List.map_filter h ks)" "fst p = k"
    then obtain x where "x \<in> set ks" "h x = Some p" by (auto simp: List.map_filter_def)
    with that assms(2,3) have "x = k" using \<open>fst p = k\<close> by metis
    with \<open>x \<in> set ks\<close> Cons.prems show False by simp
  qed
  have "List.map_filter f ks \<noteq> p # xs \<and> List.map_filter g ks \<noteq> p # xs" if "fst p = k" for p xs
    using tag [of f p] tag [of g p] that by (metis list.set_intros(1))
  with Cons assms(2,3) show ?case
    by (cases "f k"; cases "g k") (auto simp: map_filter_simps, metis+)
qed (simp add: map_filter_simps)

lemma hash_parts_same: "hash_parts s keys = hash_parts t keys \<longleftrightarrow> same_identity s t keys"
proof -
  have u: "use_stream_id s keys \<Longrightarrow> ''url'' \<in> set keys \<and> id_stream_id s \<noteq> None" for s
    by (auto simp: use_stream_id_def)
  have "hash_parts s keys = hash_parts t keys \<longleftrightarrow>
      (\<forall>k \<in> set sorted_keys.
        (if k \<in> set keys \<or> use_stream_id s keys \<and> k = ''m3u_id'' then map_option (Pair k) (map_of (stream_parts s keys) k) else None)
        = (if k \<in> set keys \<or> use_stream_id t keys \<and> k = ''m3u_id'' then map_option (Pair k) (map_of (stream_parts t keys) k) else None))"
    unfolding hash_parts_def by (rule map_filter_tagged) (auto simp: sorted_keys_def split: if_splits)
  also have "\<dots> \<longleftrightarrow> same_identity s t keys"
    using u [of s] u [of t] unfolding same_identity_def
    by (cases "use_stream_id s keys"; cases "use_stream_id t keys")
      (auto simp: sorted_keys_def stream_parts_def of_int_or_null_text)
  finally show ?thesis .
qed

subsection \<open>The identity\<close>

text \<open>C23. Two streams get the same hash exactly when they agree on every field the hash-key setting names
  (in whatever order or number it names them), given a digest that tells their two texts apart. The
  stream of an Xtream account with a provider number stands for that number and its account instead of its
  URL, so a change of the provider's address or of the credentials in the URL leaves its hash as it was;
  a numbered stream is never taken for one that is known by a URL.\<close>

theorem stream_identity_is_the_configured_fields:
  assumes "inj_on digest {serialized_obj s keys, serialized_obj t keys}"
  shows "(generate_hash_key digest s keys = generate_hash_key digest t keys \<longleftrightarrow> same_identity s t keys)
    \<and> (use_stream_id s keys \<longrightarrow> generate_hash_key digest (s\<lparr>id_url := url\<rparr>) keys = generate_hash_key digest s keys)"
proof
  have "generate_hash_key digest s keys = generate_hash_key digest t keys \<longleftrightarrow> serialized_obj s keys = serialized_obj t keys"
    unfolding generate_hash_key_def by (rule inj_on_eq_iff [OF assms]) blast+
  then show "generate_hash_key digest s keys = generate_hash_key digest t keys \<longleftrightarrow> same_identity s t keys"
    by (simp add: serialized_obj_inject hash_parts_same)
  have "use_stream_id s keys \<Longrightarrow> hash_parts (s\<lparr>id_url := url\<rparr>) keys = hash_parts s keys"
    by (simp add: hash_parts_same same_identity_def use_stream_id_def)
  then show "use_stream_id s keys \<longrightarrow> generate_hash_key digest (s\<lparr>id_url := url\<rparr>) keys = generate_hash_key digest s keys"
    by (simp add: generate_hash_key_def serialized_obj_def)
qed

definition example_identity :: identity where
  "example_identity =
     \<lparr>id_name = ''News'', id_url = Some ''http://tv/live/u/p/7.ts'', id_tvg_id = Some ''news.de'', id_m3u_id = Some 3,
      id_group = Some ''DE'', id_account_type = Some XC, id_stream_id = Some 7\<rparr>"

theorem identity_witness:
  "generate_hash_key id example_identity [''url'', ''name'']
     \<noteq> generate_hash_key id (example_identity\<lparr>id_m3u_id := Some 4\<rparr>) [''url'', ''name'']
   \<and> generate_hash_key id (example_identity\<lparr>id_url := None\<rparr>) [''url'', ''name'']
     = generate_hash_key id example_identity [''url'', ''name'']"
proof -
  have "\<not> same_identity example_identity (example_identity\<lparr>id_m3u_id := Some 4\<rparr>) [''url'', ''name'']"
    "use_stream_id example_identity [''url'', ''name'']"
    by (simp_all add: same_identity_def use_stream_id_def example_identity_def)
  moreover have "(generate_hash_key id example_identity [''url'', ''name'']
       = generate_hash_key id (example_identity\<lparr>id_m3u_id := Some 4\<rparr>) [''url'', ''name'']
       \<longleftrightarrow> same_identity example_identity (example_identity\<lparr>id_m3u_id := Some 4\<rparr>) [''url'', ''name''])
     \<and> (use_stream_id example_identity [''url'', ''name''] \<longrightarrow>
          generate_hash_key id (example_identity\<lparr>id_url := None\<rparr>) [''url'', ''name'']
          = generate_hash_key id example_identity [''url'', ''name''])"
    by (rule stream_identity_is_the_configured_fields) (rule inj_on_id)
  ultimately show ?thesis by metis
qed

text \<open>With a setting that names no field, streams without a provider number all share one hash.\<close>

lemma empty_setting_is_one_identity: "generate_hash_key digest s [] = generate_hash_key digest t []"
  by (simp add: generate_hash_key_def serialized_obj_def hash_parts_def sorted_keys_def use_stream_id_def List.map_filter_def)

end
