(* ===== verification/Stream_Rehash.thy ===== *)
theory Stream_Rehash
  imports Stream_Identity Locks
begin

section \<open>Giving every stream its hash anew\<close>

text \<open>
  \<open>rehash_streams\<close> of \<open>src/core/tasks.py\<close> and its helpers. The tables are the streams by ascending id
  and the links between channels and streams, which are unique by their two ends. Progress messages and
  the catch-up fields a saved link rolls up are left out, as are rows another transaction locks or
  deletes meanwhile.
\<close>

record rehash_row =
  rr_id :: int
  rr_identity :: identity
  rr_hash :: "string option"
  rr_updated_at :: int

record channel_stream =
  cs_channel :: int
  cs_stream :: int
  cs_order :: nat

record rehash_db =
  rd_streams :: "rehash_row list"
  rd_links :: "channel_stream list"

subsection \<open>Merging two rows\<close>

definition same_link :: "channel_stream \<Rightarrow> channel_stream \<Rightarrow> bool" where
  "same_link l m \<longleftrightarrow> cs_channel l = cs_channel m \<and> cs_stream l = cs_stream m"

definition links_of :: "rehash_db \<Rightarrow> int \<Rightarrow> channel_stream list" where
  "links_of db i = filter (\<lambda>l. cs_stream l = i) (rd_links db)"

definition get_best_channel_order :: "rehash_db \<Rightarrow> int \<Rightarrow> nat option" where
  "get_best_channel_order db i = (case sort (map cs_order (links_of db i)) of [] \<Rightarrow> None | n # _ \<Rightarrow> Some n)"

text \<open>The row to keep and the row to delete.\<close>

definition determine_stream_to_keep :: "rehash_db \<Rightarrow> rehash_row \<Rightarrow> rehash_row \<Rightarrow> rehash_row \<times> rehash_row" where
  "determine_stream_to_keep db a b =
     (let tie =
        (if rr_updated_at a > rr_updated_at b then (a, b)
         else if rr_updated_at b > rr_updated_at a then (b, a)
         else if rr_id a < rr_id b then (a, b) else (b, a))
      in case (get_best_channel_order db (rr_id a), get_best_channel_order db (rr_id b)) of
           (Some m, None) \<Rightarrow> (a, b)
         | (None, Some n) \<Rightarrow> (b, a)
         | (Some m, Some n) \<Rightarrow> if m < n then (a, b) else if n < m then (b, a) else tie
         | (None, None) \<Rightarrow> tie)"

text \<open>One link of the row to delete: it goes to the other row, or its order does when that row has one.\<close>

definition move_link :: "int \<Rightarrow> channel_stream \<Rightarrow> channel_stream list \<Rightarrow> channel_stream list" where
  "move_link target l links =
     (case find (\<lambda>m. cs_channel m = cs_channel l \<and> cs_stream m = target) links of
        Some m \<Rightarrow>
          filter (\<lambda>x. \<not> same_link x l)
            (if cs_order l < cs_order m
             then map (\<lambda>x. if same_link x m then x\<lparr>cs_order := cs_order l\<rparr> else x) links else links)
      | None \<Rightarrow> map (\<lambda>x. if same_link x l then x\<lparr>cs_stream := target\<rparr> else x) links)"

definition merge_stream_relationships :: "rehash_db \<Rightarrow> int \<Rightarrow> int \<Rightarrow> rehash_db" where
  "merge_stream_relationships db source target =
     db\<lparr>rd_links := foldl (\<lambda>links l. move_link target l links) (rd_links db) (sort_key cs_order (links_of db source))\<rparr>"

text \<open>A deleted row takes its links with it.\<close>

definition delete_stream :: "rehash_db \<Rightarrow> int \<Rightarrow> rehash_db" where
  "delete_stream db i =
     \<lparr>rd_streams = filter (\<lambda>s. rr_id s \<noteq> i) (rd_streams db), rd_links = filter (\<lambda>l. cs_stream l \<noteq> i) (rd_links db)\<rparr>"

text \<open>
  Saving a row's hash. \<open>None\<close> is the error Django raises when no row is there to update, or the one the
  database raises when another row has the hash.
\<close>

definition save_hash :: "rehash_db \<Rightarrow> int \<Rightarrow> string \<Rightarrow> rehash_db option" where
  "save_hash db i h =
     (if i \<notin> rr_id ` set (rd_streams db) then None
      else if \<exists>s \<in> set (rd_streams db). rr_hash s = Some h \<and> rr_id s \<noteq> i then None
      else Some (db\<lparr>rd_streams := map (\<lambda>s. if rr_id s = i then s\<lparr>rr_hash := Some h\<rparr> else s) (rd_streams db)\<rparr>))"

subsection \<open>The task\<close>

record rehash_state =
  rh_db :: rehash_db
  rh_hashes :: "(string \<times> int) list"
  rh_deleted :: "int set"
  rh_merged :: nat

definition become_canonical :: "rehash_state \<Rightarrow> rehash_row \<Rightarrow> string \<Rightarrow> rehash_state option" where
  "become_canonical st obj h =
     map_option (\<lambda>db. st\<lparr>rh_db := db, rh_hashes := dict_set (rh_hashes st) h (rr_id obj)\<rparr>)
       (save_hash (rh_db st) (rr_id obj) h)"

definition merge_duplicate :: "rehash_state \<Rightarrow> rehash_row \<Rightarrow> rehash_row \<Rightarrow> string \<Rightarrow> rehash_state option" where
  "merge_duplicate st existing obj h =
     (let (kept, gone) = determine_stream_to_keep (rh_db st) existing obj;
          db = delete_stream (merge_stream_relationships (rh_db st) (rr_id gone) (rr_id kept)) (rr_id gone);
          st' = st\<lparr>rh_deleted := insert (rr_id gone) (rh_deleted st), rh_merged := Suc (rh_merged st),
                   rh_hashes := dict_set (rh_hashes st) h (rr_id kept)\<rparr>
      in map_option (\<lambda>db. st'\<lparr>rh_db := db\<rparr>)
           (if rr_hash kept \<noteq> Some h then save_hash db (rr_id kept) h else Some db))"

text \<open>One row of a batch, as it was when the batch was read.\<close>

definition rehash_one :: "(string \<Rightarrow> string) \<Rightarrow> string list \<Rightarrow> rehash_state \<Rightarrow> rehash_row \<Rightarrow> rehash_state option" where
  "rehash_one digest keys st obj =
     (let h = generate_hash_key digest (rr_identity obj) keys in
      case map_of (rh_hashes st) h of
        Some i \<Rightarrow>
          if i \<in> rh_deleted st then become_canonical st obj h
          else
            (case find (\<lambda>s. rr_id s = i) (rd_streams (rh_db st)) of
               None \<Rightarrow> become_canonical (st\<lparr>rh_deleted := insert i (rh_deleted st)\<rparr>) obj h
             | Some existing \<Rightarrow> merge_duplicate st existing obj h)
      | None \<Rightarrow>
          (case find (\<lambda>s. rr_hash s = Some h \<and> rr_id s \<noteq> rr_id obj) (rd_streams (rh_db st)) of
             Some existing \<Rightarrow> merge_duplicate st existing obj h
           | None \<Rightarrow> become_canonical st obj h))"

fun rehash_batch :: "(string \<Rightarrow> string) \<Rightarrow> string list \<Rightarrow> rehash_state \<Rightarrow> rehash_row list \<Rightarrow> rehash_state option" where
  "rehash_batch digest keys st [] = Some st"
| "rehash_batch digest keys st (obj # batch) =
     (case rehash_one digest keys st obj of
        None \<Rightarrow> None
      | Some st' \<Rightarrow> rehash_batch digest keys st' batch)"

definition next_batch :: "nat \<Rightarrow> int \<Rightarrow> rehash_db \<Rightarrow> rehash_row list" where
  "next_batch batch_size last_id db = take batch_size (filter (\<lambda>s. last_id < rr_id s) (rd_streams db))"

subsection \<open>The loop ends\<close>

lemma ids_save: "save_hash db i h = Some db' \<Longrightarrow> map rr_id (rd_streams db') = map rr_id (rd_streams db)"
  by (auto simp: save_hash_def split: if_splits)

lemma ids_delete: "rr_id ` set (rd_streams (delete_stream (merge_stream_relationships db s t) i)) \<subseteq> rr_id ` set (rd_streams db)"
  by (auto simp: delete_stream_def merge_stream_relationships_def)

lemma ids_canonical: "become_canonical st obj h = Some st' \<Longrightarrow> map rr_id (rd_streams (rh_db st')) = map rr_id (rd_streams (rh_db st))"
  by (auto simp: become_canonical_def dest: ids_save)

definition row_ids :: "rehash_state \<Rightarrow> int set" where
  "row_ids st = rr_id ` set (rd_streams (rh_db st))"

lemma ids_canonical_set: "become_canonical st obj h = Some st' \<Longrightarrow> row_ids st' = row_ids st"
  unfolding row_ids_def by (metis ids_canonical list.set_map)

lemma ids_merge: "merge_duplicate st e obj h = Some st' \<Longrightarrow> row_ids st' \<subseteq> row_ids st"
proof -
  assume m: "merge_duplicate st e obj h = Some st'"
  obtain kept gone where d: "determine_stream_to_keep (rh_db st) e obj = (kept, gone)" by fastforce
  let ?db = "delete_stream (merge_stream_relationships (rh_db st) (rr_id gone) (rr_id kept)) (rr_id gone)"
  have "rh_db st' = ?db \<or> save_hash ?db (rr_id kept) h = Some (rh_db st')"
    using m d by (auto simp: merge_duplicate_def Let_def split: if_splits)
  then have "map rr_id (rd_streams (rh_db st')) = map rr_id (rd_streams ?db)"
    by (elim disjE) (simp only:, erule ids_save)
  from arg_cong [OF this, of set] have "rr_id ` set (rd_streams (rh_db st')) = rr_id ` set (rd_streams ?db)"
    by (simp only: list.set_map)
  then show ?thesis unfolding row_ids_def by (simp only: ids_delete)
qed

lemma rehash_one_cases:
  assumes "rehash_one digest keys st obj = Some st'"
  obtains (canonical) st0 h where "rh_db st0 = rh_db st" "become_canonical st0 obj h = Some st'"
  | (merged) e h where "merge_duplicate st e obj h = Some st'"
proof -
  let ?h = "generate_hash_key digest (rr_identity obj) keys"
  show ?thesis
  proof (cases "map_of (rh_hashes st) ?h")
    case None
    then show ?thesis
      using assms canonical [of st ?h] merged [of _ ?h] by (auto simp: rehash_one_def Let_def split: option.splits)
  next
    case (Some i)
    show ?thesis
    proof (cases "i \<in> rh_deleted st")
      case True
      then show ?thesis using assms Some canonical [of st ?h] by (simp add: rehash_one_def Let_def)
    next
      case False
      then show ?thesis
        using assms Some canonical [of "st\<lparr>rh_deleted := insert i (rh_deleted st)\<rparr>" ?h] merged [of _ ?h]
        by (auto simp: rehash_one_def Let_def split: option.splits)
    qed
  qed
qed

lemma ids_one: "rehash_one digest keys st obj = Some st' \<Longrightarrow> row_ids st' \<subseteq> row_ids st"
  by (erule rehash_one_cases) (drule ids_canonical_set, simp add: row_ids_def, erule ids_merge)

lemma ids_batch: "rehash_batch digest keys st batch = Some st' \<Longrightarrow> row_ids st' \<subseteq> row_ids st"
proof (induction batch arbitrary: st)
  case (Cons obj batch)
  then show ?case using ids_one by (fastforce split: option.splits)
qed simp

function rehash_all :: "(string \<Rightarrow> string) \<Rightarrow> string list \<Rightarrow> nat \<Rightarrow> int \<Rightarrow> rehash_state \<Rightarrow> rehash_db + rehash_state" where
  "rehash_all digest keys batch_size last_id st =
     (let batch = next_batch batch_size last_id (rh_db st) in
      if batch = [] then Inr st
      else
        (case rehash_batch digest keys st batch of
           None \<Rightarrow> Inl (rh_db st)
         | Some st' \<Rightarrow> rehash_all digest keys batch_size (rr_id (last batch)) st'))"
  by pat_completeness auto
termination
proof (relation "measure (\<lambda>(digest, keys, batch_size, last_id, st). card {i \<in> row_ids st. last_id < i})", goal_cases)
  case (2 digest keys n l st batch st')
  have "last batch \<in> set batch" using 2 by simp
  then have b: "rr_id (last batch) \<in> row_ids st" "l < rr_id (last batch)"
    using 2(1) by (auto simp: next_batch_def row_ids_def dest!: in_set_takeD)
  have "{i \<in> row_ids st'. rr_id (last batch) < i} \<subseteq> {i \<in> row_ids st. l < i} - {rr_id (last batch)}"
    using ids_batch [OF 2(3)] b by auto
  moreover have "finite {i \<in> row_ids st. l < i}" by (simp add: row_ids_def)
  ultimately show ?case
    using b by (simp, metis (mono_tags, lifting) card_Diff1_less card_mono finite_Diff mem_Collect_eq order_le_less_trans)
qed simp

declare rehash_all.simps [simp del]

definition start_state :: "rehash_db \<Rightarrow> rehash_state" where
  "start_state db = \<lparr>rh_db = db, rh_hashes = [], rh_deleted = {}, rh_merged = 0\<rparr>"

subsection \<open>The locks around it\<close>

text \<open>The refresh locks of the active accounts: the accounts whose lock was refused are the second result.\<close>

fun acquire_accounts :: "redis \<Rightarrow> int list \<Rightarrow> redis \<times> int list" where
  "acquire_accounts r [] = (r, [])"
| "acquire_accounts r (i # accounts) =
     (let (r1, ok) = acquire_task_lock r ''refresh_single_m3u_account'' i;
          (r2, blocked) = acquire_accounts r1 accounts
      in (r2, if ok then blocked else i # blocked))"

definition release_accounts :: "redis \<Rightarrow> int list \<Rightarrow> redis" where
  "release_accounts r accounts = foldl (\<lambda>r i. release_task_lock r ''refresh_single_m3u_account'' i) r accounts"

datatype rehash_outcome = Rehash_Blocked | Rehash_Failed | Rehash_Complete

definition rehash_streams ::
  "(string \<Rightarrow> string) \<Rightarrow> string list \<Rightarrow> int list \<Rightarrow> redis \<Rightarrow> rehash_db \<Rightarrow> redis \<times> rehash_db \<times> rehash_outcome" where
  "rehash_streams digest keys accounts r db =
     (let (r1, blocked) = acquire_accounts r accounts in
      if blocked \<noteq> [] then (release_accounts r1 (filter (\<lambda>i. i \<notin> set blocked) accounts), db, Rehash_Blocked)
      else
        (case rehash_all digest keys 1000 0 (start_state db) of
           Inr st \<Rightarrow> (release_accounts r1 accounts, rh_db st, Rehash_Complete)
         | Inl db' \<Rightarrow> (release_accounts r1 accounts, db', Rehash_Failed)))"

definition refresh_key :: "int \<Rightarrow> string" where "refresh_key = task_lock_key ''refresh_single_m3u_account''"

lemma refresh_key_inject: "refresh_key i = refresh_key j \<longleftrightarrow> i = j"
  by (simp add: refresh_key_def task_lock_key_def)

lemma acquire_accounts_held:
  "distinct accounts \<Longrightarrow>
   (\<forall>k. rexists (fst (acquire_accounts r accounts)) k \<longleftrightarrow> rexists r k \<or> k \<in> refresh_key ` set accounts)
   \<and> snd (acquire_accounts r accounts) = filter (\<lambda>i. rexists r (refresh_key i)) accounts"
proof (induction accounts arbitrary: r)
  case (Cons i accounts)
  let ?r = "fst (acquire_task_lock r ''refresh_single_m3u_account'' i)"
  have "rexists ?r k \<longleftrightarrow> k = refresh_key i \<or> rexists r k" for k
    by (simp add: acquire_task_lock_def rexists_nx refresh_key_def)
  moreover have "snd (acquire_task_lock r ''refresh_single_m3u_account'' i) \<longleftrightarrow> \<not> rexists r (refresh_key i)"
    by (simp add: acquire_task_lock_def snd_nx refresh_key_def)
  moreover have "filter (\<lambda>j. rexists ?r (refresh_key j)) accounts = filter (\<lambda>j. rexists r (refresh_key j)) accounts"
    using calculation(1) Cons.prems by (intro filter_cong) (auto simp: refresh_key_inject)
  ultimately show ?case
    using Cons.IH [of ?r] Cons.prems by (auto simp: split_beta Let_def)
qed simp

lemma release_accounts_held:
  "rexists (release_accounts r accounts) k \<longleftrightarrow> rexists r k \<and> k \<notin> refresh_key ` set accounts"
  unfolding release_accounts_def
  by (induction accounts arbitrary: r) (auto simp: release_task_lock_def refresh_key_def store_simps)

text \<open>Whatever comes of it, the task gives back the locks it took and leaves those of others.\<close>

lemma rehash_gives_its_locks_back:
  assumes "distinct accounts"
  shows "rexists (fst (rehash_streams digest keys accounts r db)) k \<longleftrightarrow> rexists r k"
    and "(\<exists>i \<in> set accounts. rexists r (refresh_key i)) \<Longrightarrow> snd (rehash_streams digest keys accounts r db) = (db, Rehash_Blocked)"
proof -
  obtain r1 blocked where a: "acquire_accounts r accounts = (r1, blocked)" by fastforce
  note h = acquire_accounts_held [OF assms, of r, unfolded a fst_conv snd_conv]
  have b: "blocked = [] \<longleftrightarrow> (\<forall>i \<in> set accounts. \<not> rexists r (refresh_key i))" using h by (simp add: filter_empty_conv)
  show "rexists (fst (rehash_streams digest keys accounts r db)) k \<longleftrightarrow> rexists r k"
    using h b by (auto simp: rehash_streams_def a release_accounts_held split: sum.splits)
  show "(\<exists>i \<in> set accounts. rexists r (refresh_key i)) \<Longrightarrow> snd (rehash_streams digest keys accounts r db) = (db, Rehash_Blocked)"
    using b by (simp add: rehash_streams_def a)
qed

end
