(* ===== verification/Rehash_Properties.thy ===== *)
theory Rehash_Properties
  imports Stream_Rehash
begin

section \<open>What the rehash keeps\<close>

text \<open>
  Orders of links through the merge of two rows, the invariant of the loop, and the case in which a
  row is merged with itself.
\<close>

subsection \<open>Orders\<close>

definition link_key :: "channel_stream \<Rightarrow> int \<times> int" where "link_key l = (cs_channel l, cs_stream l)"

definition unique_links :: "channel_stream list \<Rightarrow> bool" where "unique_links ls = distinct (map link_key ls)"

text \<open>The order a channel gives to a stream, if it lists it.\<close>

definition link_order :: "channel_stream list \<Rightarrow> int \<Rightarrow> int \<Rightarrow> nat option" where
  "link_order ls c i = map_of (map (\<lambda>l. (link_key l, cs_order l)) ls) (c, i)"

fun better :: "nat option \<Rightarrow> nat option \<Rightarrow> nat option" where
  "better None y = y"
| "better x None = x"
| "better (Some m) (Some n) = Some (min m n)"

lemma better_None [simp]: "better x None = x"
  by (cases x) simp_all

lemma better_assoc: "better (better x y) z = better x (better y z)"
  by (cases x; cases y; cases z) (simp_all add: min.assoc)

lemma better_commute: "better x y = better y x"
  by (cases x; cases y) (simp_all add: min.commute)

lemma same_link_key: "same_link l m \<longleftrightarrow> link_key l = link_key m"
  by (auto simp: same_link_def link_key_def)

lemma link_order_simps [simp]:
  "link_order [] c i = None"
  "link_order (l # ls) c i = (if link_key l = (c, i) then Some (cs_order l) else link_order ls c i)"
  by (auto simp: link_order_def)

lemma link_order_mem: "unique_links ls \<Longrightarrow> l \<in> set ls \<Longrightarrow> link_order ls (cs_channel l) (cs_stream l) = Some (cs_order l)"
  by (induction ls) (auto simp: unique_links_def link_key_def rev_image_eqI)

lemma link_order_None: "(\<forall>l \<in> set ls. link_key l \<noteq> (c, i)) \<Longrightarrow> link_order ls c i = None"
  by (induction ls) auto

lemma link_order_set_order:
  "link_order (map (\<lambda>x. if same_link x m then x\<lparr>cs_order := n\<rparr> else x) ls) c i
   = (if link_key m = (c, i) \<and> link_key m \<in> link_key ` set ls then Some n else link_order ls c i)"
  by (induction ls) (auto simp: same_link_key link_key_def)

lemma link_order_remove:
  "link_order (filter (\<lambda>x. \<not> same_link x l) ls) c i = (if link_key l = (c, i) then None else link_order ls c i)"
  by (induction ls) (auto simp: same_link_key)

lemma link_order_move:
  assumes "(cs_channel l, t) \<notin> link_key ` set ls"
  shows "link_order (map (\<lambda>x. if same_link x l then x\<lparr>cs_stream := t\<rparr> else x) ls) c i
    = (if (c, i) = (cs_channel l, t) then link_order ls (cs_channel l) (cs_stream l)
       else if link_key l = (c, i) then None else link_order ls c i)"
  using assms by (induction ls) (auto simp: same_link_key link_key_def)

lemma link_order_drop_stream:
  "link_order (filter (\<lambda>x. cs_stream x \<noteq> g) ls) c i = (if i = g then None else link_order ls c i)"
  by (induction ls) (auto simp: link_key_def)

lemma keys_set_order: "map link_key (map (\<lambda>x. if same_link x m then x\<lparr>cs_order := n\<rparr> else x) ls) = map link_key ls"
  by (induction ls) (auto simp: link_key_def)

lemma distinct_map_filter: "distinct (map f xs) \<Longrightarrow> distinct (map f (filter P xs))"
  by (induction xs) auto

subsection \<open>A merge\<close>

lemma find_target:
  "find (\<lambda>m. cs_channel m = c \<and> cs_stream m = t) ls = None \<longleftrightarrow> (c, t) \<notin> link_key ` set ls"
  by (auto simp: find_None_iff link_key_def)

lemma move_link_unique:
  assumes "unique_links ls" and "cs_stream l \<noteq> t"
  shows "unique_links (move_link t l ls)"
proof (cases "find (\<lambda>m. cs_channel m = cs_channel l \<and> cs_stream m = t) ls")
  case (Some m)
  have "distinct (map link_key (filter P (map (\<lambda>x. if same_link x m then x\<lparr>cs_order := n\<rparr> else x) ls)))" for P n
    by (rule distinct_map_filter) (use assms(1) in \<open>simp only: keys_set_order unique_links_def\<close>)
  with Some assms(1) show ?thesis
    by (simp add: move_link_def unique_links_def distinct_map_filter)
next
  case None
  then have "(cs_channel l, t) \<notin> link_key ` set ls" by (simp add: find_target)
  then have "inj_on (\<lambda>k. if k = link_key l then (cs_channel l, t) else k) (set (map link_key ls))"
    unfolding inj_on_def set_map by (metis (no_types, lifting))
  with assms(1) have "distinct (map (\<lambda>k. if k = link_key l then (cs_channel l, t) else k) (map link_key ls))"
    unfolding unique_links_def by (simp only: distinct_map simp_thms)
  moreover have "map link_key (map (\<lambda>x. if same_link x l then x\<lparr>cs_stream := t\<rparr> else x) ls)
      = map (\<lambda>k. if k = link_key l then (cs_channel l, t) else k) (map link_key ls)"
    by (auto simp: same_link_key link_key_def)
  ultimately have "unique_links (map (\<lambda>x. if same_link x l then x\<lparr>cs_stream := t\<rparr> else x) ls)"
    by (simp only: unique_links_def)
  with None show ?thesis by (simp add: move_link_def)
qed

lemma move_link_order:
  assumes "unique_links ls" and "l \<in> set ls" and "cs_stream l \<noteq> t"
  shows "link_order (move_link t l ls) c i =
    (if c \<noteq> cs_channel l then link_order ls c i
     else if i = t then better (link_order ls c t) (link_order ls c (cs_stream l))
     else if i = cs_stream l then None else link_order ls c i)"
proof (cases "find (\<lambda>m. cs_channel m = cs_channel l \<and> cs_stream m = t) ls")
  case (Some m)
  then have m: "m \<in> set ls" "cs_channel m = cs_channel l" "cs_stream m = t" by (auto dest: find_Some_in)
  then have "link_order ls (cs_channel l) t = Some (cs_order m)" using link_order_mem [OF assms(1), of m] by simp
  moreover have "link_order ls (cs_channel l) (cs_stream l) = Some (cs_order l)"
    using link_order_mem [OF assms(1,2)] .
  moreover have "(cs_channel l, t) \<in> (\<lambda>x. (cs_channel x, cs_stream x)) ` set ls"
    using m by (auto intro!: rev_image_eqI)
  ultimately show ?thesis
    using Some m assms(3)
    by (auto simp: move_link_def link_order_remove link_order_set_order link_key_def min_def)
next
  case None
  then have "(cs_channel l, t) \<notin> link_key ` set ls" by (simp add: find_target)
  moreover from this have "link_order ls (cs_channel l) t = None" by (intro link_order_None) (metis image_eqI)
  ultimately show ?thesis
    using None assms(3) by (auto simp: move_link_def link_order_move link_key_def)
qed

lemma move_link_keeps:
  assumes "x \<in> set ls" and "cs_channel x \<noteq> cs_channel l"
  shows "x \<in> set (move_link t l ls)"
  using assms by (auto simp: move_link_def same_link_def split: option.splits dest: find_Some_in)

lemma merge_links_order:
  assumes "unique_links ls" and "set ms \<subseteq> set ls" and "\<forall>l \<in> set ms. cs_stream l = s" "s \<noteq> t"
    and "distinct (map cs_channel ms)"
  shows "unique_links (foldl (\<lambda>ls l. move_link t l ls) ls ms) \<and>
    link_order (foldl (\<lambda>ls l. move_link t l ls) ls ms) c i =
    (if c \<notin> cs_channel ` set ms then link_order ls c i
     else if i = t then better (link_order ls c t) (link_order ls c s)
     else if i = s then None else link_order ls c i)"
  using assms
proof (induction ms arbitrary: ls)
  case (Cons l ms)
  have "set ms \<subseteq> set (move_link t l ls)"
  proof
    fix x
    assume "x \<in> set ms"
    moreover have "cs_channel l \<notin> cs_channel ` set ms" using Cons.prems(5) by simp
    ultimately have "x \<in> set ls" "cs_channel x \<noteq> cs_channel l" using Cons.prems(2) by (auto, metis image_eqI)
    then show "x \<in> set (move_link t l ls)" by (rule move_link_keeps)
  qed
  with Cons have ih: "unique_links (foldl (\<lambda>ls l. move_link t l ls) (move_link t l ls) ms) \<and>
    link_order (foldl (\<lambda>ls l. move_link t l ls) (move_link t l ls) ms) c i =
    (if c \<notin> cs_channel ` set ms then link_order (move_link t l ls) c i
     else if i = t then better (link_order (move_link t l ls) c t) (link_order (move_link t l ls) c s)
     else if i = s then None else link_order (move_link t l ls) c i)"
    by (intro Cons.IH) (auto intro: move_link_unique)
  then show ?case
    using Cons.prems by (auto simp: move_link_order)
qed simp

lemma channels_of_stream: "unique_links ls \<Longrightarrow> distinct (map cs_channel (filter (\<lambda>l. cs_stream l = s) ls))"
  by (induction ls) (auto simp: unique_links_def link_key_def rev_image_eqI)

lemma merge_order:
  assumes "unique_links (rd_links db)" and "s \<noteq> t"
  shows "unique_links (rd_links (merge_stream_relationships db s t))"
    and "link_order (rd_links (merge_stream_relationships db s t)) c i =
      (if i = t then better (link_order (rd_links db) c t) (link_order (rd_links db) c s)
       else if i = s then None else link_order (rd_links db) c i)"
proof -
  let ?ms = "sort_key cs_order (links_of db s)"
  have merged: "rd_links (merge_stream_relationships db s t) = foldl (\<lambda>links l. move_link t l links) (rd_links db) ?ms"
    by (simp add: merge_stream_relationships_def)
  have d: "distinct (map cs_channel ?ms)"
    using channels_of_stream [OF assms(1), of s]
    by (simp add: links_of_def distinct_map)
  have m: "unique_links (rd_links (merge_stream_relationships db s t)) \<and>
    link_order (rd_links (merge_stream_relationships db s t)) c i =
    (if c \<notin> cs_channel ` set ?ms then link_order (rd_links db) c i
     else if i = t then better (link_order (rd_links db) c t) (link_order (rd_links db) c s)
     else if i = s then None else link_order (rd_links db) c i)"
    unfolding merged by (rule merge_links_order [OF assms(1) _ _ assms(2) d]) (simp_all add: links_of_def)
  have none: "link_order (rd_links db) c s = None" if "c \<notin> cs_channel ` set ?ms"
    using that by (intro link_order_None) (auto simp: links_of_def link_key_def)
  show "unique_links (rd_links (merge_stream_relationships db s t))" using m by simp
  show "link_order (rd_links (merge_stream_relationships db s t)) c i =
      (if i = t then better (link_order (rd_links db) c t) (link_order (rd_links db) c s)
       else if i = s then None else link_order (rd_links db) c i)"
    using m none by auto
qed

subsection \<open>The invariant of the loop\<close>

definition new_hash :: "(string \<Rightarrow> string) \<Rightarrow> string list \<Rightarrow> rehash_row \<Rightarrow> string" where
  "new_hash digest keys s = generate_hash_key digest (rr_identity s) keys"

text \<open>The best order a channel gives to any of the rows with a hash.\<close>

definition class_order :: "(rehash_row \<Rightarrow> string) \<Rightarrow> channel_stream list \<Rightarrow> rehash_row list \<Rightarrow> string \<Rightarrow> int \<Rightarrow> nat option" where
  "class_order N ls rows h c = foldl better None (map (\<lambda>s. link_order ls c (rr_id s)) (filter (\<lambda>s. N s = h) rows))"

lemma class_order_snoc:
  "class_order N ls (rows @ [r]) h c = (if N r = h then better (class_order N ls rows h c) (link_order ls c (rr_id r)) else class_order N ls rows h c)"
  by (simp add: class_order_def)

lemma class_order_none: "h \<notin> N ` set rows \<Longrightarrow> class_order N ls rows h c = None"
proof -
  assume "h \<notin> N ` set rows"
  then have "filter (\<lambda>s. N s = h) rows = []" by (auto simp: filter_empty_conv)
  then show ?thesis by (simp add: class_order_def)
qed

text \<open>
  After the rows \<open>P\<close>: one row of each new hash is left, in \<open>S\<close>, with the hash and the best orders; the
  rows \<open>R\<close> to come are as they were.
\<close>

definition rehash_inv ::
  "(rehash_row \<Rightarrow> string) \<Rightarrow> channel_stream list \<Rightarrow> rehash_row list \<Rightarrow> rehash_row list \<Rightarrow> rehash_row list \<Rightarrow> rehash_state \<Rightarrow> bool" where
  "rehash_inv N ls P S R st \<longleftrightarrow>
     rd_streams (rh_db st) = S @ R \<and> distinct (map rr_id (S @ R))
     \<and> (\<forall>s \<in> set S. rr_hash s = Some (N s) \<and> (\<exists>p \<in> set P. rr_id p = rr_id s \<and> rr_identity p = rr_identity s))
     \<and> N ` set S = N ` set P \<and> distinct (map N S)
     \<and> (\<forall>h. map_of (rh_hashes st) h = map_option rr_id (find (\<lambda>s. N s = h) S))
     \<and> rh_deleted st \<inter> rr_id ` set (S @ R) = {}
     \<and> unique_links (rd_links (rh_db st))
     \<and> (\<forall>c. \<forall>r \<in> set R. link_order (rd_links (rh_db st)) c (rr_id r) = link_order ls c (rr_id r))
     \<and> (\<forall>c. \<forall>s \<in> set S. link_order (rd_links (rh_db st)) c (rr_id s) = class_order N ls P (N s) c)"

lemma find_in_append: "find Q (xs @ ys) = (case find Q xs of Some y \<Rightarrow> Some y | None \<Rightarrow> find Q ys)"
  by (induction xs) auto

lemma map_other_ids: "i \<notin> rr_id ` set xs \<Longrightarrow> map (\<lambda>s. if rr_id s = i then f s else s) xs = xs"
  by (induction xs) auto

lemma save_hash_split:
  assumes "rd_streams db = S @ obj # R" and "distinct (map rr_id (S @ obj # R))"
    and "\<forall>s \<in> set S. rr_hash s \<noteq> Some h" "\<forall>r \<in> set R. rr_hash r \<noteq> Some h"
  shows "save_hash db (rr_id obj) h = Some (db\<lparr>rd_streams := S @ obj\<lparr>rr_hash := Some h\<rparr> # R\<rparr>)"
proof -
  have "map (\<lambda>s. if rr_id s = rr_id obj then s\<lparr>rr_hash := Some h\<rparr> else s) S = S"
    "map (\<lambda>s. if rr_id s = rr_id obj then s\<lparr>rr_hash := Some h\<rparr> else s) R = R"
    using assms(2) by (simp_all add: map_other_ids)
  with assms show ?thesis by (auto simp: save_hash_def)
qed

lemma rehash_invD:
  assumes "rehash_inv N ls P S R st"
  shows "rd_streams (rh_db st) = S @ R" "distinct (map rr_id (S @ R))"
    "\<And>s. s \<in> set S \<Longrightarrow> rr_hash s = Some (N s)"
    "\<And>s. s \<in> set S \<Longrightarrow> \<exists>p \<in> set P. rr_id p = rr_id s \<and> rr_identity p = rr_identity s"
    "N ` set S = N ` set P" "distinct (map N S)"
    "\<And>h. map_of (rh_hashes st) h = map_option rr_id (find (\<lambda>s. N s = h) S)"
    "rh_deleted st \<inter> rr_id ` set (S @ R) = {}"
    "unique_links (rd_links (rh_db st))"
    "\<And>c r. r \<in> set R \<Longrightarrow> link_order (rd_links (rh_db st)) c (rr_id r) = link_order ls c (rr_id r)"
    "\<And>c s. s \<in> set S \<Longrightarrow> link_order (rd_links (rh_db st)) c (rr_id s) = class_order N ls P (N s) c"
  using assms by (simp_all only: rehash_inv_def simp_thms)

lemma inv_canonical:
  assumes inv: "rehash_inv N ls P S (obj # R) st" and new: "find (\<lambda>s. N s = N obj) S = None"
    and other: "\<forall>r \<in> set R. rr_hash r \<noteq> Some (N obj)" and identity: "\<And>s x. N (s\<lparr>rr_hash := x\<rparr>) = N s"
  shows "\<exists>st' S'. become_canonical st obj (N obj) = Some st' \<and> rehash_inv N ls (P @ [obj]) S' R st'"
proof (intro exI conjI)
  let ?obj = "obj\<lparr>rr_hash := Some (N obj)\<rparr>"
  let ?st = "st\<lparr>rh_db := (rh_db st)\<lparr>rd_streams := S @ ?obj # R\<rparr>, rh_hashes := dict_set (rh_hashes st) (N obj) (rr_id obj)\<rparr>"
  note i = rehash_invD [OF inv]
  have old: "\<forall>s \<in> set S. N s \<noteq> N obj" using new by (auto simp: find_None_iff)
  then have "N obj \<notin> N ` set S" by (metis imageE)
  then have fresh: "N obj \<notin> N ` set P" using i(5) by simp
  have "save_hash (rh_db st) (rr_id obj) (N obj) = Some ((rh_db st)\<lparr>rd_streams := S @ ?obj # R\<rparr>)"
    by (rule save_hash_split) (use i(1,2,3) old other in auto)
  then show "become_canonical st obj (N obj) = Some ?st"
    by (simp add: become_canonical_def)
  show "rehash_inv N ls (P @ [obj]) (S @ [?obj]) R ?st"
    unfolding rehash_inv_def
  proof (intro conjI allI ballI)
    fix h
    show "map_of (rh_hashes ?st) h = map_option rr_id (find (\<lambda>s. N s = h) (S @ [?obj]))"
      using new by (auto simp: i(7) find_in_append identity split: option.splits)
  next
    fix s assume s: "s \<in> set (S @ [?obj])"
    then show "rr_hash s = Some (N s)" using i(3) by (auto simp: identity)
    show "\<exists>p \<in> set (P @ [obj]). rr_id p = rr_id s \<and> rr_identity p = rr_identity s" using s i(4) by auto
    fix c
    have "class_order N ls P (N obj) c = None" using fresh by (rule class_order_none)
    then show "link_order (rd_links (rh_db ?st)) c (rr_id s) = class_order N ls (P @ [obj]) (N s) c"
      using s old i(10) [of obj] i(11) by (auto simp: class_order_snoc identity)
  next
    fix c r assume "r \<in> set R"
    then show "link_order (rd_links (rh_db ?st)) c (rr_id r) = link_order ls c (rr_id r)" using i(10) by simp
  qed (use i(1,2,5,6,8,9) \<open>N obj \<notin> N ` set S\<close> in \<open>auto simp: identity\<close>)
qed

definition merged_db :: "rehash_db \<Rightarrow> int \<Rightarrow> int \<Rightarrow> rehash_db" where
  "merged_db db gone kept = delete_stream (merge_stream_relationships db gone kept) gone"

lemma merged_db_order:
  assumes "unique_links (rd_links db)" and "gone \<noteq> kept"
  shows "unique_links (rd_links (merged_db db gone kept))"
    and "link_order (rd_links (merged_db db gone kept)) c i =
      (if i = gone then None
       else if i = kept then better (link_order (rd_links db) c kept) (link_order (rd_links db) c gone)
       else link_order (rd_links db) c i)"
  using merge_order(2) [OF assms, of c i] merge_order(1) [OF assms]
  by (simp_all add: merged_db_def delete_stream_def link_order_drop_stream unique_links_def distinct_map_filter)

lemma merged_db_streams [simp]: "rd_streams (merged_db db gone kept) = filter (\<lambda>s. rr_id s \<noteq> gone) (rd_streams db)"
  by (simp add: merged_db_def delete_stream_def merge_stream_relationships_def)

lemma distinct_apart:
  assumes "distinct (map f (S @ y # R))"
  shows "x \<in> set S \<Longrightarrow> f x \<noteq> f y" "x \<in> set S \<Longrightarrow> z \<in> set R \<Longrightarrow> f z \<noteq> f x" "z \<in> set R \<Longrightarrow> f z \<noteq> f y"
proof -
  have d: "f y \<notin> f ` set S" "f y \<notin> f ` set R" "f ` set S \<inter> f ` set R = {}" using assms by auto
  show "x \<in> set S \<Longrightarrow> f x \<noteq> f y" "z \<in> set R \<Longrightarrow> f z \<noteq> f y" using d(1,2) by (metis image_eqI)+
  show "x \<in> set S \<Longrightarrow> z \<in> set R \<Longrightarrow> f z \<noteq> f x" using d(3) by (metis disjoint_iff image_eqI)
qed

lemma filter_other_ids: "i \<notin> rr_id ` set xs \<Longrightarrow> filter (\<lambda>s. rr_id s \<noteq> i) xs = xs"
  by (induction xs) auto

definition after_merge :: "rehash_state \<Rightarrow> rehash_db \<Rightarrow> string \<Rightarrow> int \<Rightarrow> int \<Rightarrow> rehash_state" where
  "after_merge st db h gone kept =
     st\<lparr>rh_deleted := insert gone (rh_deleted st), rh_merged := Suc (rh_merged st),
        rh_hashes := dict_set (rh_hashes st) h kept, rh_db := db\<rparr>"

lemma after_merge_simps [simp]:
  "rh_db (after_merge st db h gone kept) = db" "rh_hashes (after_merge st db h gone kept) = dict_set (rh_hashes st) h kept"
  "rh_deleted (after_merge st db h gone kept) = insert gone (rh_deleted st)"
  by (simp_all add: after_merge_def)

lemma merge_duplicate_after:
  "determine_stream_to_keep (rh_db st) e obj = (kept, gone) \<Longrightarrow>
   merge_duplicate st e obj h =
     map_option (\<lambda>db. after_merge st db h (rr_id gone) (rr_id kept))
       (if rr_hash kept \<noteq> Some h then save_hash (merged_db (rh_db st) (rr_id gone) (rr_id kept)) (rr_id kept) h
        else Some (merged_db (rh_db st) (rr_id gone) (rr_id kept)))"
  by (simp add: merge_duplicate_def merged_db_def after_merge_def Let_def)

lemma determine_cases: "determine_stream_to_keep db a b = (a, b) \<or> determine_stream_to_keep db a b = (b, a)"
  by (auto simp: determine_stream_to_keep_def Let_def split: option.splits)

lemma inv_merge_kept:
  assumes inv: "rehash_inv N ls P S (obj # R) st" and s: "find (\<lambda>s. N s = N obj) S = Some s"
    and keep: "determine_stream_to_keep (rh_db st) s obj = (s, obj)"
  shows "\<exists>st' S'. merge_duplicate st s obj (N obj) = Some st' \<and> rehash_inv N ls (P @ [obj]) S' R st'"
proof (intro exI conjI)
  note i = rehash_invD [OF inv]
  let ?db = "merged_db (rh_db st) (rr_id obj) (rr_id s)"
  let ?st = "after_merge st ?db (N obj) (rr_id obj) (rr_id s)"
  have sS: "s \<in> set S" "N s = N obj" using s by (auto simp: find_Some_iff)
  have ne: "rr_id obj \<noteq> rr_id s" using distinct_apart(1) [OF i(2) sS(1)] by simp
  show "merge_duplicate st s obj (N obj) = Some ?st"
    using merge_duplicate_after [OF keep, of "N obj"] i(3) [OF sS(1)] sS(2) by simp
  note o = merged_db_order [OF i(9) ne]
  have streams: "rd_streams ?db = S @ R" using i(1,2) by (simp add: filter_other_ids)
  show "rehash_inv N ls (P @ [obj]) S R ?st"
    unfolding rehash_inv_def after_merge_simps
  proof (intro conjI allI ballI)
    fix h
    show "map_of (dict_set (rh_hashes st) (N obj) (rr_id s)) h = map_option rr_id (find (\<lambda>s. N s = h) S)"
      using s by (simp add: i(7))
  next
    fix x assume x: "x \<in> set S"
    then show "rr_hash x = Some (N x)" by (rule i(3))
    show "\<exists>p \<in> set (P @ [obj]). rr_id p = rr_id x \<and> rr_identity p = rr_identity x" using i(4) [OF x] by auto
    fix c
    have "rr_id x \<noteq> rr_id obj" by (rule distinct_apart(1) [OF i(2) x])
    moreover have "rr_id x = rr_id s \<longleftrightarrow> N x = N obj"
      using i(2,6) x sS by (auto simp: distinct_map inj_on_def)
    ultimately show "link_order (rd_links ?db) c (rr_id x) = class_order N ls (P @ [obj]) (N x) c"
      using o(2) i(11) [OF x] i(11) [OF sS(1)] i(10) [of obj] sS(2) by (auto simp: class_order_snoc)
  next
    fix c r assume r: "r \<in> set R"
    then have "rr_id r \<noteq> rr_id obj" "rr_id r \<noteq> rr_id s" using distinct_apart(2,3) [OF i(2)] sS(1) by simp_all
    then show "link_order (rd_links ?db) c (rr_id r) = link_order ls c (rr_id r)" using i(10) r o(2) by simp
  next
    have "N obj \<in> N ` set P" using i(5) sS by (metis image_eqI)
    then show "N ` set S = N ` set (P @ [obj])" using i(5) by auto
  qed (use i(2,6,8) o(1) streams in auto)
qed

lemma inv_merge_replaced:
  assumes inv: "rehash_inv N ls P S (obj # R) st" and s: "find (\<lambda>s. N s = N obj) S = Some s"
    and keep: "determine_stream_to_keep (rh_db st) s obj = (obj, s)"
    and other: "\<forall>r \<in> set R. rr_hash r \<noteq> Some (N obj)" and identity: "\<And>s x. N (s\<lparr>rr_hash := x\<rparr>) = N s"
  shows "\<exists>st' S'. merge_duplicate st s obj (N obj) = Some st' \<and> rehash_inv N ls (P @ [obj]) S' R st'"
proof -
  note i = rehash_invD [OF inv]
  let ?obj = "obj\<lparr>rr_hash := Some (N obj)\<rparr>"
  let ?db = "merged_db (rh_db st) (rr_id s) (rr_id obj)"
  have sS: "s \<in> set S" "N s = N obj" using s by (auto simp: find_Some_iff)
  then obtain S1 S2 where S: "S = S1 @ s # S2" by (metis split_list)
  let ?S = "S1 @ S2 @ [?obj]"
  let ?db' = "?db\<lparr>rd_streams := ?S @ R\<rparr>"
  let ?st = "after_merge st ?db' (N obj) (rr_id s) (rr_id obj)"
  note ne = distinct_apart(1) [OF i(2) sS(1)]
  note o = merged_db_order [OF i(9) ne]
  have streams: "rd_streams ?db = (S1 @ S2) @ obj # R" using i(1,2) ne by (simp add: S filter_other_ids)
  have old: "x \<in> set (S1 @ S2) \<Longrightarrow> N x \<noteq> N obj" for x
    using distinct_apart(1,3) [OF i(6) [unfolded S]] sS(2) by auto
  have saved: "save_hash ?db (rr_id obj) (N obj) = Some ?db'"
    using save_hash_split [OF streams, of "N obj"] i(2,3) other old by (auto simp: S)
  have "rr_hash obj = Some (N obj) \<Longrightarrow> ?db = ?db'"
  proof -
    assume "rr_hash obj = Some (N obj)"
    then have "?obj = obj" by simp
    with streams show ?thesis by (metis append.assoc append_Cons append_Nil rehash_db.surjective rehash_db.update_convs(1))
  qed
  then have merged: "merge_duplicate st s obj (N obj) = Some ?st"
    using merge_duplicate_after [OF keep, of "N obj"] saved by simp
  have "rehash_inv N ls (P @ [obj]) ?S R ?st"
    unfolding rehash_inv_def after_merge_simps
  proof (intro conjI allI ballI)
    fix h
    have "find (\<lambda>s. N s = N obj) (S1 @ S2) = None" using old by (auto simp: find_None_iff)
    moreover have "h \<noteq> N obj \<Longrightarrow> find (\<lambda>s. N s = h) S = find (\<lambda>s. N s = h) (S1 @ S2)"
      using sS(2) by (simp add: S find_in_append split: option.split)
    ultimately show "map_of (dict_set (rh_hashes st) (N obj) (rr_id obj)) h = map_option rr_id (find (\<lambda>s. N s = h) ?S)"
      by (auto simp: i(7) find_in_append identity split: option.splits)
  next
    fix x assume x: "x \<in> set ?S"
    then show "rr_hash x = Some (N x)" using i(3) by (auto simp: S identity)
    show "\<exists>p \<in> set (P @ [obj]). rr_id p = rr_id x \<and> rr_identity p = rr_identity x" using x i(4) by (auto simp: S)
    fix c
    show "link_order (rd_links ?db') c (rr_id x) = class_order N ls (P @ [obj]) (N x) c"
    proof (cases "x \<in> set (S1 @ S2)")
      case True
      then have "x \<in> set S" "N x \<noteq> N s" using old sS(2) by (auto simp: S)
      then have "rr_id x \<noteq> rr_id obj" "rr_id x \<noteq> rr_id s"
        using distinct_apart(1) [OF i(2)] i(2) sS(1) by (simp, metis distinct_map distinct_append inj_onD map_append)
      with old [OF True] show ?thesis using o(2) i(11) [OF \<open>x \<in> set S\<close>] by (simp add: class_order_snoc)
    next
      case False
      then have "x = ?obj" using x by auto
      then show ?thesis
        using o(2) ne i(10) [of obj] i(11) [OF sS(1)] sS(2) by (simp add: class_order_snoc identity better_commute)
    qed
  next
    fix c r assume r: "r \<in> set R"
    then have "rr_id r \<noteq> rr_id obj" "rr_id r \<noteq> rr_id s" using distinct_apart(2,3) [OF i(2)] sS(1) by simp_all
    then show "link_order (rd_links ?db') c (rr_id r) = link_order ls c (rr_id r)" using i(10) r o(2) by simp
  next
    show "N ` set ?S = N ` set (P @ [obj])" using i(5) sS(2) by (auto simp: S identity)
  qed (use i(2,6,8) o(1) old sS(2) in \<open>auto simp: S identity\<close>)
  with merged show ?thesis by blast
qed

definition clash_free :: "(rehash_row \<Rightarrow> string) \<Rightarrow> rehash_row list \<Rightarrow> bool" where
  "clash_free N rows \<longleftrightarrow> (\<forall>s \<in> set rows. \<forall>t \<in> set rows. s \<noteq> t \<longrightarrow> rr_hash s \<noteq> Some (N t))"

lemma inv_one:
  assumes inv: "rehash_inv (new_hash digest keys) ls P S (obj # R) st" and free: "clash_free (new_hash digest keys) (obj # R)"
  shows "\<exists>st' S'. rehash_one digest keys st obj = Some st' \<and> rehash_inv (new_hash digest keys) ls (P @ [obj]) S' R st'"
proof -
  let ?N = "new_hash digest keys"
  note i = rehash_invD [OF inv]
  have hash: "generate_hash_key digest (rr_identity obj) keys = ?N obj" by (simp add: new_hash_def)
  have identity: "?N (s\<lparr>rr_hash := x\<rparr>) = ?N s" for s x by (simp add: new_hash_def)
  have "obj \<notin> set R" using i(2) by auto
  then have other: "\<forall>r \<in> set R. rr_hash r \<noteq> Some (?N obj)" using free by (auto simp: clash_free_def)
  show ?thesis
  proof (cases "find (\<lambda>s. ?N s = ?N obj) S")
    case None
    then have "find (\<lambda>s. rr_hash s = Some (?N obj) \<and> rr_id s \<noteq> rr_id obj) (rd_streams (rh_db st)) = None"
      using i(1,3) other by (auto simp: find_None_iff)
    then have "rehash_one digest keys st obj = become_canonical st obj (?N obj)"
      using None i(7) [of "?N obj"] by (simp add: rehash_one_def hash Let_def)
    with inv_canonical [OF inv None other identity] show ?thesis by simp
  next
    case (Some s)
    then have s: "s \<in> set S" by (auto simp: find_Some_iff)
    then have "rr_id s \<notin> rh_deleted st" using i(8) by auto
    moreover have "find (\<lambda>x. rr_id x = rr_id s) (rd_streams (rh_db st)) = Some s"
    proof -
      have "x \<in> set (S @ obj # R) \<Longrightarrow> rr_id x = rr_id s \<Longrightarrow> x = s" for x
        using i(2) s by (metis UnCI distinct_map inj_onD set_append)
      moreover obtain y where "find (\<lambda>x. rr_id x = rr_id s) (S @ obj # R) = Some y"
        using s by (cases "find (\<lambda>x. rr_id x = rr_id s) (S @ obj # R)") (auto simp: find_None_iff)
      ultimately show ?thesis using i(1) find_Some_in [of "\<lambda>x. rr_id x = rr_id s" "S @ obj # R" y] by auto
    qed
    ultimately have "rehash_one digest keys st obj = merge_duplicate st s obj (?N obj)"
      using Some i(7) [of "?N obj"] by (simp add: rehash_one_def hash Let_def)
    with determine_cases [of "rh_db st" s obj] inv_merge_kept [OF inv Some] inv_merge_replaced [OF inv Some _ other identity]
    show ?thesis by auto
  qed
qed

lemma inv_batch:
  assumes "rehash_inv (new_hash digest keys) ls P S (batch @ R) st" and "clash_free (new_hash digest keys) (batch @ R)"
  shows "\<exists>st' S'. rehash_batch digest keys st batch = Some st' \<and> rehash_inv (new_hash digest keys) ls (P @ batch) S' R st'"
  using assms
proof (induction batch arbitrary: P S st)
  case (Cons obj batch)
  from inv_one [OF Cons.prems(1) [simplified] Cons.prems(2) [simplified]] obtain st' S' where
    one: "rehash_one digest keys st obj = Some st'" and inv: "rehash_inv (new_hash digest keys) ls (P @ [obj]) S' (batch @ R) st'"
    by blast
  have "clash_free (new_hash digest keys) (batch @ R)" using Cons.prems(2) by (auto simp: clash_free_def)
  from Cons.IH [OF inv this] one show ?case by auto
qed auto

text \<open>The next batch is the head of the rows to come.\<close>

lemma inv_next_batch:
  assumes "rehash_inv N ls P S R st" and "\<forall>p \<in> set P. rr_id p \<le> last_id" "\<forall>r \<in> set R. last_id < rr_id r"
  shows "next_batch n last_id (rh_db st) = take n R"
proof -
  note i = rehash_invD [OF assms(1)]
  have "filter (\<lambda>s. last_id < rr_id s) S = []" using i(4) assms(2) by (fastforce simp: filter_empty_conv)
  moreover have "filter (\<lambda>s. last_id < rr_id s) R = R" using assms(3) by simp
  ultimately show ?thesis using i(1) by (simp add: next_batch_def)
qed

lemma inv_all:
  assumes "rehash_inv (new_hash digest keys) ls P S R st" and "clash_free (new_hash digest keys) R" and "0 < n"
    and "\<forall>p \<in> set P. rr_id p \<le> last_id" "\<forall>r \<in> set R. last_id < rr_id r" and "sorted_wrt (<) (map rr_id R)"
  shows "\<exists>st' S'. rehash_all digest keys n last_id st = Inr st' \<and> rehash_inv (new_hash digest keys) ls (P @ R) S' [] st'"
  using assms
proof (induction "length R" arbitrary: P S R st last_id rule: less_induct)
  case less
  have batch: "next_batch n last_id (rh_db st) = take n R" by (rule inv_next_batch) (use less.prems in auto)
  show ?case
  proof (cases "R = []")
    case True
    with batch less.prems(1) show ?thesis by (subst rehash_all.simps) auto
  next
    case False
    with less.prems(3) have ne: "take n R \<noteq> []" by simp
    have split: "R = take n R @ drop n R" by simp
    from inv_batch [of digest keys ls P S "take n R" "drop n R" st] less.prems(1,2) obtain st' S' where
      b: "rehash_batch digest keys st (take n R) = Some st'"
      and inv: "rehash_inv (new_hash digest keys) ls (P @ take n R) S' (drop n R) st'" by auto
    let ?last = "rr_id (last (take n R))"
    have sorted: "sorted_wrt (<) (map rr_id (take n R @ drop n R))" using less.prems(6) by simp
    have le: "\<forall>p \<in> set (P @ take n R). rr_id p \<le> ?last"
    proof
      fix p assume p: "p \<in> set (P @ take n R)"
      have "last (take n R) \<in> set R" using ne by (meson in_set_takeD last_in_set)
      then have "last_id < ?last" using less.prems(5) by blast
      moreover have "x \<in> set (take n R) \<Longrightarrow> rr_id x \<le> ?last" for x
      proof -
        assume x: "x \<in> set (take n R)"
        have "sorted_wrt (<) (map rr_id (take n R))"
          using less.prems(6) by (simp only: take_map [symmetric] sorted_wrt_take)
        moreover have "take n R = butlast (take n R) @ [last (take n R)]" using ne by simp
        ultimately have "sorted_wrt (<) (map rr_id (butlast (take n R) @ [last (take n R)]))" by metis
        moreover have "x \<in> set (butlast (take n R)) \<or> x = last (take n R)"
          using x ne by (metis append_butlast_last_id in_set_butlast_appendI rotate1.simps(2) set_ConsD set_rotate1)
        ultimately show ?thesis by (auto simp: sorted_wrt_append)
      qed
      ultimately show "rr_id p \<le> ?last" using p less.prems(4) by fastforce
    qed
    have gt: "\<forall>r \<in> set (drop n R). ?last < rr_id r"
      using sorted ne by (simp add: sorted_wrt_append del: append_take_drop_id)
    have "length (drop n R) < length R" using False less.prems(3) by simp
    moreover have "clash_free (new_hash digest keys) (drop n R)"
      using less.prems(2) by (auto simp: clash_free_def dest: in_set_dropD)
    moreover have "sorted_wrt (<) (map rr_id (drop n R))" using sorted by (simp add: sorted_wrt_append del: append_take_drop_id)
    ultimately obtain st'' S'' where "rehash_all digest keys n ?last st' = Inr st''"
      "rehash_inv (new_hash digest keys) ls ((P @ take n R) @ drop n R) S'' [] st''"
      using less.hyps [OF _ inv _ less.prems(3) le gt] by blast
    moreover from this(1) have "rehash_all digest keys n last_id st = Inr st''"
      using batch ne b by (subst rehash_all.simps) (simp add: Let_def)
    ultimately show ?thesis by simp blast
  qed
qed

subsection \<open>The properties\<close>

lemma start_db [simp]: "rh_db (start_state db) = db"
  by (simp add: start_state_def)

text \<open>C10. When no row already stores the new hash of another row, the rehash ends without an error and
  leaves exactly one row for each new hash: a row of before, with that hash; and each channel that listed
  a row of that hash lists the row left, at the best order it had for any of them, and no other channel
  does. No two rows left share a hash.\<close>

theorem rehash_merges_duplicates:
  assumes "sorted_wrt (<) (map rr_id (rd_streams db))" and "\<forall>s \<in> set (rd_streams db). 0 < rr_id s"
    and "unique_links (rd_links db)" and "clash_free (new_hash digest keys) (rd_streams db)" and "0 < batch_size"
  shows "\<exists>st. rehash_all digest keys batch_size 0 (start_state db) = Inr st
    \<and> distinct (map rr_hash (rd_streams (rh_db st)))
    \<and> (\<forall>t \<in> set (rd_streams (rh_db st)). rr_hash t = Some (new_hash digest keys t)
         \<and> (\<exists>s \<in> set (rd_streams db). rr_id s = rr_id t \<and> rr_identity s = rr_identity t)
         \<and> (\<forall>c. link_order (rd_links (rh_db st)) c (rr_id t)
                = class_order (new_hash digest keys) (rd_links db) (rd_streams db) (new_hash digest keys t) c))
    \<and> (\<forall>s \<in> set (rd_streams db). \<exists>t \<in> set (rd_streams (rh_db st)). new_hash digest keys t = new_hash digest keys s)"
proof -
  let ?N = "new_hash digest keys"
  have "distinct (map rr_id (rd_streams db))" using assms(1) by (simp add: strict_sorted_iff)
  then have "rehash_inv ?N (rd_links db) [] [] (rd_streams db) (start_state db)"
    using assms(3) by (simp add: rehash_inv_def start_state_def)
  from inv_all [OF this assms(4,5) _ assms(2,1)]
  obtain st S where st: "rehash_all digest keys batch_size 0 (start_state db) = Inr st"
    and inv: "rehash_inv ?N (rd_links db) (rd_streams db) S [] st" by auto
  note i = rehash_invD [OF inv]
  have "map rr_hash S = map (Some \<circ> ?N) S" using i(3) by simp
  then have "distinct (map rr_hash (rd_streams (rh_db st)))" using i(1,6) by (auto simp: distinct_map inj_on_def)
  moreover have "s \<in> set (rd_streams db) \<Longrightarrow> \<exists>t \<in> set S. ?N t = ?N s" for s
    using i(5) by (metis image_iff)
  moreover have "\<exists>s \<in> set (rd_streams db). rr_id s = rr_id t \<and> rr_identity s = rr_identity t" if "t \<in> set S" for t
    using i(4) [OF that] .
  ultimately show ?thesis using st i(1,3,11) by (intro exI [of _ st]) simp
qed

definition example_row :: "int \<Rightarrow> string \<Rightarrow> rehash_row" where
  "example_row i name =
     \<lparr>rr_id = i, rr_identity = example_identity\<lparr>id_name := name\<rparr>, rr_hash = Some name, rr_updated_at = i\<rparr>"

definition example_links :: "channel_stream list" where
  "example_links =
     [\<lparr>cs_channel = 5, cs_stream = 1, cs_order = 3\<rparr>, \<lparr>cs_channel = 5, cs_stream = 2, cs_order = 1\<rparr>,
      \<lparr>cs_channel = 6, cs_stream = 2, cs_order = 0\<rparr>]"

theorem rehash_witness:
  "\<exists>st. rehash_all (\<lambda>_. ''h'') [''url''] 1000 0
      (start_state \<lparr>rd_streams = [example_row 1 ''News'', example_row 2 ''News HD''], rd_links = example_links\<rparr>) = Inr st
    \<and> (\<forall>t \<in> set (rd_streams (rh_db st)). link_order (rd_links (rh_db st)) 5 (rr_id t) = Some 1)"
proof -
  let ?db = "\<lparr>rd_streams = [example_row 1 ''News'', example_row 2 ''News HD''], rd_links = example_links\<rparr>"
  have "class_order (new_hash (\<lambda>_. ''h'') [''url'']) (rd_links ?db) (rd_streams ?db) h 5 = Some 1"
    if "h = ''h''" for h
    by (simp add: class_order_def new_hash_def generate_hash_key_def example_row_def example_links_def link_key_def that)
  moreover have "new_hash (\<lambda>_. ''h'') [''url''] t = ''h''" for t by (simp add: new_hash_def generate_hash_key_def)
  moreover have "clash_free (new_hash (\<lambda>_. ''h'') [''url'']) (rd_streams ?db)"
    by (simp add: clash_free_def new_hash_def generate_hash_key_def example_row_def)
  moreover have "unique_links (rd_links ?db)" by (simp add: unique_links_def example_links_def link_key_def)
  ultimately show ?thesis
    using rehash_merges_duplicates [of ?db "\<lambda>_. ''h''" "[''url'']" 1000] by (auto simp: example_row_def)
qed

text \<open>C15. A rehash can lose a stream altogether. Two rows of one identity, the later of which already stores
  the hash: the earlier is merged into it, and when its own turn comes the later one is looked up under
  its hash, found to be a duplicate of itself, merged with itself and deleted, with its link.\<close>

theorem rehash_can_lose_a_stream:
  assumes "0 < rr_id a" "rr_id a < rr_id b" and "new_hash digest keys a = new_hash digest keys b"
    and "rr_hash b = Some (new_hash digest keys b)" and "cs_stream l = rr_id b" and "2 \<le> batch_size"
  shows "\<exists>st. rehash_all digest keys batch_size 0 (start_state \<lparr>rd_streams = [a, b], rd_links = [l]\<rparr>) = Inr st
    \<and> rd_streams (rh_db st) = [] \<and> rd_links (rh_db st) = []"
proof -
  let ?h = "new_hash digest keys b" and ?db = "\<lparr>rd_streams = [a, b], rd_links = [l]\<rparr>"
  let ?db1 = "\<lparr>rd_streams = [b], rd_links = [l]\<rparr>"
  let ?st1 = "after_merge (start_state ?db) ?db1 ?h (rr_id a) (rr_id b)"
  let ?st2 = "after_merge ?st1 \<lparr>rd_streams = [], rd_links = []\<rparr> ?h (rr_id b) (rr_id b)"
  have h: "generate_hash_key digest (rr_identity a) keys = ?h" "generate_hash_key digest (rr_identity b) keys = ?h"
    using assms(3) by (simp_all add: new_hash_def)
  have "determine_stream_to_keep ?db b a = (b, a)"
    using assms(2,5) by (simp add: determine_stream_to_keep_def get_best_channel_order_def links_of_def)
  then have "merge_duplicate (start_state ?db) b a ?h = Some ?st1"
    using assms(2,4,5) by (subst merge_duplicate_after [of _ b a b a])
      (simp_all add: start_state_def merged_db_def delete_stream_def merge_stream_relationships_def links_of_def)
  then have one: "rehash_one digest keys (start_state ?db) a = Some ?st1"
    using assms(2,4) by (simp add: rehash_one_def h start_state_def Let_def)
  have "determine_stream_to_keep ?db1 b b = (b, b)" using determine_cases [of ?db1 b b] by auto
  then have "merge_duplicate ?st1 b b ?h = Some ?st2"
    using assms(4,5) by (subst merge_duplicate_after [of _ b b b b])
      (simp_all add: merged_db_def delete_stream_def merge_stream_relationships_def links_of_def move_link_def same_link_def)
  then have two: "rehash_one digest keys ?st1 b = Some ?st2"
    using assms(2) by (simp add: rehash_one_def h start_state_def Let_def)
  have batch: "next_batch batch_size 0 ?db = [a, b]" using assms(1,2,6) by (simp add: next_batch_def take_Cons')
  have "rehash_all digest keys batch_size 0 (start_state ?db) = rehash_all digest keys batch_size (rr_id b) ?st2"
    by (subst rehash_all.simps) (simp add: Let_def batch one two)
  also have "\<dots> = Inr ?st2" by (subst rehash_all.simps) (simp add: next_batch_def Let_def)
  finally show ?thesis by simp
qed

lemma lost_stream_witness:
  "\<exists>st. rehash_all (\<lambda>_. ''h'') [''url''] 1000 0
      (start_state \<lparr>rd_streams = [example_row 1 ''x'', example_row 2 ''h''], rd_links = [\<lparr>cs_channel = 5, cs_stream = 2, cs_order = 0\<rparr>]\<rparr>) = Inr st
    \<and> rd_streams (rh_db st) = []"
  using rehash_can_lose_a_stream [of "example_row 1 ''x''" "example_row 2 ''h''" "\<lambda>_. ''h''" "[''url'']"
      "\<lparr>cs_channel = 5, cs_stream = 2, cs_order = 0\<rparr>" 1000]
  by (auto simp: example_row_def new_hash_def generate_hash_key_def)

end
