(* ===== verification/M3U_Import.thy ===== *)
theory M3U_Import
  imports M3U_Playlist Stream_Identity
begin

section \<open>Importing a batch of streams\<close>

text \<open>
  \<open>process_m3u_batch_direct\<close>, \<open>cleanup_streams\<close> and their helpers in \<open>src/apps/m3u/tasks.py\<close>, and the bounded
  filter pattern of \<open>src/apps/m3u/utils.py\<close>. An attribute is a text or null; the number an Xtream
  provider gives as \<open>num\<close> is its text. The regular expression engine and \<open>float\<close> are arguments.
\<close>

subsection \<open>Filters\<close>

datatype search_result = Found | Not_Found | Timed_Out

record stream_filter =
  sf_type :: string
  sf_pattern :: string
  sf_exclude :: bool
  sf_case_sensitive :: "bool option"

text \<open>A compiled filter: the row, and whether its pattern has tripped.\<close>

type_synonym compiled_filter = "stream_filter \<times> bool"

definition ignore_case :: "stream_filter \<Rightarrow> bool" where
  "ignore_case f \<longleftrightarrow> sf_case_sensitive f = Some False"

definition compile_m3u_stream_filters :: "stream_filter list \<Rightarrow> compiled_filter list" where
  "compile_m3u_stream_filters rows = map (\<lambda>f. (f, False)) rows"

text \<open>
  \<open>_BoundedFilterPattern.search\<close>: the pattern after it, whether it matches, and the warnings it logs,
  one for a search that ran into the time limit.
\<close>

definition bounded_search ::
  "(bool \<Rightarrow> string \<Rightarrow> string \<Rightarrow> search_result) \<Rightarrow> compiled_filter \<Rightarrow> string \<Rightarrow> compiled_filter \<times> bool \<times> string list" where
  "bounded_search regex_search cf target =
     (let (f, tripped) = cf in
      if tripped then (cf, False, [])
      else
        (case regex_search (ignore_case f) (sf_pattern f) target of
           Found \<Rightarrow> (cf, True, [])
         | Not_Found \<Rightarrow> (cf, False, [])
         | Timed_Out \<Rightarrow> ((f, True), False, [sf_pattern f])))"

definition filter_target :: "stream_filter \<Rightarrow> string \<Rightarrow> string \<Rightarrow> string option \<Rightarrow> string" where
  "filter_target f name url group_title =
     (if sf_type f = ''url'' then url else if sf_type f = ''group'' then opt_text group_title else name)"

fun stream_passes_m3u_filters ::
  "(bool \<Rightarrow> string \<Rightarrow> string \<Rightarrow> search_result) \<Rightarrow> string \<Rightarrow> string \<Rightarrow> string option \<Rightarrow> compiled_filter list
   \<Rightarrow> compiled_filter list \<times> bool \<times> string list" where
  "stream_passes_m3u_filters regex_search name url group_title [] = ([], True, [])"
| "stream_passes_m3u_filters regex_search name url group_title (cf # cfs) =
     (let (cf', hit, ws) = bounded_search regex_search cf (filter_target (fst cf) name url group_title) in
      if hit then (cf' # cfs, \<not> sf_exclude (fst cf), ws)
      else
        (let (cfs', ok, ws') = stream_passes_m3u_filters regex_search name url group_title cfs
         in (cf' # cfs', ok, ws @ ws')))"

subsection \<open>The fields of a stream\<close>

record stream_info =
  si_name :: string
  si_url :: string
  si_attributes :: "(string \<times> string option) list"
  si_vlc_opts :: "string list option"

definition info_of_entry :: "m3u_entry \<Rightarrow> stream_info" where
  "info_of_entry e =
     \<lparr>si_name = me_name e, si_url = me_url e, si_attributes = map (\<lambda>(k, v). (k, Some v)) (me_attributes e),
      si_vlc_opts = me_vlc_opts e\<rparr>"

definition get_attr :: "(string \<times> string option) list \<Rightarrow> string \<Rightarrow> string option \<Rightarrow> string option" where
  "get_attr attributes key default_value =
     (case find (\<lambda>(k, v). lower k = lower key) attributes of Some (k, v) \<Rightarrow> v | None \<Rightarrow> default_value)"

definition exact_attr :: "(string \<times> string option) list \<Rightarrow> string \<Rightarrow> string option \<Rightarrow> string option" where
  "exact_attr attributes key default_value =
     (case map_of attributes key of Some v \<Rightarrow> v | None \<Rightarrow> default_value)"

definition parse_is_adult :: "string option \<Rightarrow> bool" where
  "parse_is_adult v = (case v of None \<Rightarrow> False | Some s \<Rightarrow> parse_int s = Some 1)"

record 'n stream_props =
  sp_hash :: string
  sp_name :: string
  sp_url :: string
  sp_logo_url :: "string option"
  sp_tvg_id :: "string option"
  sp_account :: int
  sp_group :: "int option"
  sp_attributes :: "(string \<times> string option) list"
  sp_vlc_opts :: "string list option"
  sp_is_adult :: bool
  sp_stream_id :: "int option"
  sp_chno :: "'n option"
  sp_is_catchup :: bool
  sp_catchup_days :: int

record 'n import_setup =
  im_account :: int
  im_account_type :: account_type
  im_groups :: "(string \<times> int) list"
  im_hash_keys :: "string list"
  im_digest :: "string \<Rightarrow> string"
  im_float :: "string \<Rightarrow> 'n option"
  im_search :: "bool \<Rightarrow> string \<Rightarrow> string \<Rightarrow> search_result"

definition provider_number :: "'n import_setup \<Rightarrow> (string \<times> string option) list \<Rightarrow> int option" where
  "provider_number im attributes =
     (if im_account_type im = XC then parse_int (opt_text (exact_attr attributes ''stream_id'' (Some ''''))) else None)"

definition channel_num :: "'n import_setup \<Rightarrow> (string \<times> string option) list \<Rightarrow> 'n option" where
  "channel_num im attributes =
     (if im_account_type im = XC then Option.bind (exact_attr attributes ''num'' None) (im_float im)
      else
        Option.bind
          (case get_attr attributes ''tvg-chno'' None of
             Some n \<Rightarrow> Some n
           | None \<Rightarrow> get_attr attributes ''channel-number'' None)
          (im_float im))"

definition catchup_of :: "(string \<times> string option) list \<Rightarrow> bool \<times> int" where
  "catchup_of attributes =
     (exact_attr attributes ''tv_archive'' (Some ''0'') \<in> {Some ''1'', Some ''True''},
      case exact_attr attributes ''tv_archive_duration'' None of
        None \<Rightarrow> 0
      | Some d \<Rightarrow> if d = [] then 0 else (case parse_int d of Some n \<Rightarrow> n | None \<Rightarrow> 0))"

text \<open>The fields of an entry of an enabled group.\<close>

definition props_of :: "'n import_setup \<Rightarrow> stream_info \<Rightarrow> string \<Rightarrow> string \<Rightarrow> int \<Rightarrow> 'n stream_props" where
  "props_of im info name group_title group_id =
     (let attributes = si_attributes info;
          tvg_id = get_attr attributes ''tvg-id'' (Some '''');
          provider_id = provider_number im attributes
      in \<lparr>sp_hash =
            generate_hash_key (im_digest im)
              \<lparr>id_name = name, id_url = Some (si_url info), id_tvg_id = tvg_id, id_m3u_id = Some (im_account im),
               id_group = Some group_title, id_account_type = (if im_account_type im = XC then Some XC else None),
               id_stream_id = provider_id\<rparr>
              (im_hash_keys im),
          sp_name = name, sp_url = si_url info, sp_logo_url = get_attr attributes ''tvg-logo'' (Some ''''),
          sp_tvg_id = tvg_id, sp_account = im_account im, sp_group = Some group_id, sp_attributes = attributes,
          sp_vlc_opts = si_vlc_opts info, sp_is_adult = parse_is_adult (exact_attr attributes ''is_adult'' (Some ''0'')),
          sp_stream_id = provider_id, sp_chno = channel_num im attributes,
          sp_is_catchup = fst (catchup_of attributes), sp_catchup_days = snd (catchup_of attributes)\<rparr>)"

text \<open>One entry: the filters after it, its warnings, and the fields it adds under a new hash.\<close>

definition read_entry ::
  "'n import_setup \<Rightarrow> compiled_filter list \<Rightarrow> stream_info \<Rightarrow> compiled_filter list \<times> string list \<times> 'n stream_props option" where
  "read_entry im filters info =
     (if length (si_url info) > 4096 then (filters, [], None)
      else
        let name = take 512 (si_name info);
            group_title = get_attr (si_attributes info) ''group-title'' (Some ''Default Group'');
            (filters', ok, ws) = stream_passes_m3u_filters (im_search im) name (si_url info) group_title filters
        in if \<not> ok then (filters', ws, None)
           else
             (case group_title of
                None \<Rightarrow> (filters', ws, None)
              | Some g \<Rightarrow>
                  (case map_of (im_groups im) g of
                     None \<Rightarrow> (filters', ws, None)
                   | Some group_id \<Rightarrow> (filters', ws, Some (props_of im info name g group_id)))))"

text \<open>The batch: the first entry of each hash counts.\<close>

fun read_batch ::
  "'n import_setup \<Rightarrow> compiled_filter list \<Rightarrow> stream_info list \<Rightarrow> (string \<times> 'n stream_props) list
   \<Rightarrow> compiled_filter list \<times> string list \<times> (string \<times> 'n stream_props) list" where
  "read_batch im filters [] hashes = (filters, [], hashes)"
| "read_batch im filters (info # infos) hashes =
     (let (filters', ws, props) = read_entry im filters info;
          hashes' =
            (case props of
               None \<Rightarrow> hashes
             | Some p \<Rightarrow> if map_of hashes (sp_hash p) = None then hashes @ [(sp_hash p, p)] else hashes);
          (filters'', ws', hashes'') = read_batch im filters' infos hashes'
      in (filters'', ws @ ws', hashes''))"

subsection \<open>Writing the batch\<close>

record 'n stream_table_row =
  st_props :: "'n stream_props"
  st_last_seen :: int
  st_updated_at :: int
  st_is_stale :: bool

text \<open>Two JSON objects are equal whatever the order of their members.\<close>

definition same_members :: "(string \<times> string option) list \<Rightarrow> (string \<times> string option) list \<Rightarrow> bool" where
  "same_members a b \<longleftrightarrow> set a = set b"

definition props_changed :: "'n stream_props \<Rightarrow> 'n stream_props \<Rightarrow> bool" where
  "props_changed obj p \<longleftrightarrow>
     sp_name obj \<noteq> sp_name p \<or> sp_url obj \<noteq> sp_url p \<or> sp_logo_url obj \<noteq> sp_logo_url p \<or> sp_tvg_id obj \<noteq> sp_tvg_id p
     \<or> \<not> (same_members (sp_attributes obj) (sp_attributes p) \<and> sp_vlc_opts obj = sp_vlc_opts p)
     \<or> sp_is_adult obj \<noteq> sp_is_adult p \<or> sp_stream_id obj \<noteq> sp_stream_id p \<or> sp_chno obj \<noteq> sp_chno p
     \<or> sp_group obj \<noteq> sp_group p \<or> sp_is_catchup obj \<noteq> sp_is_catchup p \<or> sp_catchup_days obj \<noteq> sp_catchup_days p"

definition hash_of_row :: "'n stream_table_row \<Rightarrow> string" where "hash_of_row r = sp_hash (st_props r)"

definition existing_row :: "'n stream_table_row list \<Rightarrow> string \<Rightarrow> 'n stream_table_row option" where
  "existing_row rows h = find (\<lambda>r. hash_of_row r = h) rows"

text \<open>The row of a changed stream: every column but the hash and the account.\<close>

definition changed_row :: "int \<Rightarrow> 'n stream_table_row \<Rightarrow> 'n stream_props \<Rightarrow> 'n stream_table_row" where
  "changed_row now r p =
     r\<lparr>st_props := p\<lparr>sp_hash := hash_of_row r, sp_account := sp_account (st_props r)\<rparr>,
       st_last_seen := now, st_updated_at := now, st_is_stale := False\<rparr>"

definition touched_row :: "int \<Rightarrow> 'n stream_table_row \<Rightarrow> 'n stream_table_row" where
  "touched_row now r = r\<lparr>st_last_seen := now, st_is_stale := False\<rparr>"

definition new_row :: "int \<Rightarrow> 'n stream_props \<Rightarrow> 'n stream_table_row" where
  "new_row now p = \<lparr>st_props = p, st_last_seen = now, st_updated_at = now, st_is_stale = False\<rparr>"

record 'n batch_plan =
  bp_create :: "'n stream_table_row list"
  bp_update :: "'n stream_table_row list"
  bp_touch :: "'n stream_table_row list"

fun plan_batch :: "int \<Rightarrow> 'n stream_table_row list \<Rightarrow> (string \<times> 'n stream_props) list \<Rightarrow> 'n batch_plan" where
  "plan_batch now rows [] = \<lparr>bp_create = [], bp_update = [], bp_touch = []\<rparr>"
| "plan_batch now rows ((h, p) # hashes) =
     (let plan = plan_batch now rows hashes in
      case existing_row rows h of
        Some r \<Rightarrow>
          if props_changed (st_props r) p then plan\<lparr>bp_update := changed_row now r p # bp_update plan\<rparr>
          else plan\<lparr>bp_touch := touched_row now r # bp_touch plan\<rparr>
      | None \<Rightarrow> plan\<lparr>bp_create := new_row now p # bp_create plan\<rparr>)"

text \<open>What the columns hold: lengths, 32 bit numbers, and no NUL in a text.\<close>

definition no_nul :: "string \<Rightarrow> bool" where "no_nul s \<longleftrightarrow> CHR 0x00 \<notin> set s"

definition row_fits :: "'n stream_props \<Rightarrow> bool" where
  "row_fits p \<longleftrightarrow>
     length (sp_name p) \<le> 512 \<and> length (sp_url p) \<le> 4096 \<and> length (opt_text (sp_tvg_id p)) \<le> 255
     \<and> list_all no_nul [sp_name p, sp_url p, opt_text (sp_logo_url p), opt_text (sp_tvg_id p)]
     \<and> list_all (\<lambda>(k, v). no_nul k \<and> no_nul (opt_text v)) (sp_attributes p)
     \<and> list_all no_nul (case sp_vlc_opts p of Some l \<Rightarrow> l | None \<Rightarrow> [])
     \<and> (case sp_stream_id p of Some n \<Rightarrow> - (2 ^ 31) \<le> n \<and> n < 2 ^ 31 | None \<Rightarrow> True)
     \<and> 0 \<le> sp_catchup_days p \<and> sp_catchup_days p < 2 ^ 31"

text \<open>The columns an update of a changed and of an unchanged stream writes.\<close>

definition write_changed :: "'n stream_table_row \<Rightarrow> 'n stream_table_row \<Rightarrow> 'n stream_table_row" where
  "write_changed r obj =
     r\<lparr>st_props := (st_props obj)\<lparr>sp_hash := hash_of_row r, sp_account := sp_account (st_props r)\<rparr>,
       st_last_seen := st_last_seen obj, st_updated_at := st_updated_at obj, st_is_stale := st_is_stale obj\<rparr>"

definition write_touch :: "'n stream_table_row \<Rightarrow> 'n stream_table_row \<Rightarrow> 'n stream_table_row" where
  "write_touch r obj = r\<lparr>st_last_seen := st_last_seen obj, st_is_stale := st_is_stale obj\<rparr>"

definition write_row :: "'n batch_plan \<Rightarrow> 'n stream_table_row \<Rightarrow> 'n stream_table_row" where
  "write_row plan r =
     (case existing_row (bp_update plan) (hash_of_row r) of
        Some obj \<Rightarrow> write_changed r obj
      | None \<Rightarrow>
          (case existing_row (bp_touch plan) (hash_of_row r) of Some obj \<Rightarrow> write_touch r obj | None \<Rightarrow> r))"

text \<open>
  One transaction: a row the database refuses undoes all of it. A created row whose hash another worker
  has stored meanwhile is dropped.
\<close>

definition write_batch :: "'n stream_table_row list \<Rightarrow> 'n batch_plan \<Rightarrow> 'n stream_table_row list" where
  "write_batch rows plan =
     (if list_all (row_fits \<circ> st_props) (bp_create plan @ bp_update plan)
      then map (write_row plan) rows @ filter (\<lambda>r. existing_row rows (hash_of_row r) = None) (bp_create plan)
      else rows)"

definition batch_stream_count_message :: "nat \<Rightarrow> nat \<Rightarrow> nat \<Rightarrow> string" where
  "batch_stream_count_message created updated unchanged =
     show_nat created @ '' created, '' @ show_nat updated @ '' updated, '' @ show_nat unchanged @ '' unchanged.''"

text \<open>\<open>re.search(r"(\d+) word")\<close>: the first run of digits before the word.\<close>

function find_count :: "string \<Rightarrow> string \<Rightarrow> nat option" where
  "find_count w s =
     (case s of
        [] \<Rightarrow> None
      | c # t \<Rightarrow>
          if is_digit c then
            (if starts_with w (dropWhile is_digit s) then Some (nat_of_digits (takeWhile is_digit s))
             else find_count w (dropWhile is_digit s))
          else find_count w t)"
  by pat_completeness auto
termination
  by (relation "measure (length \<circ> snd)") (auto simp: le_imp_less_Suc length_dropWhile_le)

declare find_count.simps [simp del]

definition parse_batch_stream_counts :: "string \<Rightarrow> nat \<times> nat \<times> nat" where
  "parse_batch_stream_counts result =
     (case (find_count '' created'' result, find_count '' updated'' result, find_count '' unchanged'' result) of
        (Some c, Some u, Some n) \<Rightarrow> (c, u, n)
      | _ \<Rightarrow> (0, 0, 0))"

definition process_m3u_batch_direct ::
  "'n import_setup \<Rightarrow> int \<Rightarrow> compiled_filter list \<Rightarrow> stream_info list \<Rightarrow> 'n stream_table_row list
   \<Rightarrow> 'n stream_table_row list \<times> compiled_filter list \<times> string list \<times> string" where
  "process_m3u_batch_direct im now filters batch rows =
     (let (filters', ws, hashes) = read_batch im filters batch [];
          plan = plan_batch now rows hashes
      in (write_batch rows plan, filters', ws,
          ''M3U account: '' @ show_int (im_account im) @ '', Batch processed: ''
          @ batch_stream_count_message (length (bp_create plan)) (length (bp_update plan)) (length (bp_touch plan))))"

subsection \<open>What a refresh removes\<close>

definition mark_stale :: "int \<Rightarrow> int \<Rightarrow> 'n stream_table_row list \<Rightarrow> 'n stream_table_row list" where
  "mark_stale account refresh_start rows =
     map (\<lambda>r. if sp_account (st_props r) = account \<and> st_last_seen r < refresh_start then r\<lparr>st_is_stale := True\<rparr> else r) rows"

definition in_active_group :: "int list \<Rightarrow> 'n stream_table_row \<Rightarrow> bool" where
  "in_active_group enabled r = (case sp_group (st_props r) of Some g \<Rightarrow> g \<in> set enabled | None \<Rightarrow> False)"

definition cleanup_streams :: "int \<Rightarrow> int list \<Rightarrow> int \<Rightarrow> int \<Rightarrow> 'n stream_table_row list \<Rightarrow> 'n stream_table_row list \<times> nat" where
  "cleanup_streams account enabled stale_period scan_start rows =
     (let mine = (\<lambda>r. sp_account (st_props r) = account);
          stale_cutoff = scan_start - stale_period;
          outside = (\<lambda>r. mine r \<and> \<not> in_active_group enabled r);
          unseen = (\<lambda>r. mine r \<and> st_last_seen r < stale_cutoff)
      in (filter (\<lambda>r. \<not> outside r \<and> \<not> unseen r) rows, length (filter outside rows) + length (filter unseen rows)))"

end
