(* ===== verification/Import_Properties.thy ===== *)
theory Import_Properties
  imports M3U_Import
begin

section \<open>What an import does to the streams\<close>

text \<open>
  The first filter that matches decides and a pattern runs into its limit once; what a batch writes is
  kept by the cleanup that follows, and the same batch again only touches it.
\<close>

subsection \<open>Filters\<close>

definition matches_now ::
  "(bool \<Rightarrow> string \<Rightarrow> string \<Rightarrow> search_result) \<Rightarrow> string \<Rightarrow> string \<Rightarrow> string option \<Rightarrow> compiled_filter \<Rightarrow> bool" where
  "matches_now regex_search name url group_title cf \<longleftrightarrow>
     \<not> snd cf \<and> regex_search (ignore_case (fst cf)) (sf_pattern (fst cf)) (filter_target (fst cf) name url group_title) = Found"

definition untripped :: "compiled_filter list \<Rightarrow> nat" where
  "untripped cfs = length (filter (\<lambda>cf. \<not> snd cf) cfs)"

lemma bounded_search_hit:
  "bounded_search regex_search cf (filter_target (fst cf) name url g) = (cf', hit, ws) \<Longrightarrow>
   hit = matches_now regex_search name url g cf \<and> fst cf' = fst cf
   \<and> length ws + (if snd cf' then 0 else 1) = (if snd cf then 0 else (1 :: nat))"
  by (auto simp: bounded_search_def matches_now_def split: prod.splits if_splits search_result.splits)

lemma filters_result:
  "stream_passes_m3u_filters regex_search name url g cfs = (cfs', ok, ws) \<Longrightarrow>
   ok = (case find (matches_now regex_search name url g) cfs of None \<Rightarrow> True | Some cf \<Rightarrow> \<not> sf_exclude (fst cf))
   \<and> map fst cfs' = map fst cfs \<and> length ws + untripped cfs' = untripped cfs"
proof (induction cfs arbitrary: cfs' ok ws)
  case (Cons cf cfs)
  obtain cf' hit ws1 where b: "bounded_search regex_search cf (filter_target (fst cf) name url g) = (cf', hit, ws1)"
    by (metis prod_cases3)
  obtain cfs1 ok1 ws2 where r: "stream_passes_m3u_filters regex_search name url g cfs = (cfs1, ok1, ws2)"
    by (metis prod_cases3)
  show ?case
    using Cons.prems bounded_search_hit [OF b] Cons.IH [OF r]
    by (auto simp: b r untripped_def split: if_splits)
qed (auto simp: untripped_def)

lemma read_entry_filters:
  "read_entry im filters info = (filters', ws, p) \<Longrightarrow>
   map fst filters' = map fst filters \<and> length ws + untripped filters' = untripped filters"
  using filters_result by (auto simp: read_entry_def Let_def split: prod.splits if_splits option.splits)

lemma read_batch_filters:
  "read_batch im filters batch hashes = (filters', ws, hashes') \<Longrightarrow>
   map fst filters' = map fst filters \<and> length ws + untripped filters' = untripped filters"
proof (induction batch arbitrary: filters hashes ws)
  case (Cons info batch)
  obtain f1 w1 p where e: "read_entry im filters info = (f1, w1, p)" by (metis prod_cases3)
  show ?case
    using Cons.prems Cons.IH read_entry_filters [OF e] by (fastforce simp: e Let_def split: prod.splits)
qed simp

subsection \<open>Hashes\<close>

definition keyed :: "(string \<times> 'n stream_props) list \<Rightarrow> bool" where
  "keyed hashes \<longleftrightarrow> distinct (map fst hashes) \<and> (\<forall>(h, p) \<in> set hashes. sp_hash p = h)"

definition in_groups :: "'n import_setup \<Rightarrow> (string \<times> 'n stream_props) list \<Rightarrow> bool" where
  "in_groups im hashes \<longleftrightarrow> (\<forall>(h, p) \<in> set hashes. sp_account p = im_account im \<and> (\<exists>i \<in> snd ` set (im_groups im). sp_group p = Some i))"

lemma read_entry_props:
  "read_entry im filters info = (filters', ws, Some p) \<Longrightarrow>
   sp_account p = im_account im \<and> (\<exists>i \<in> snd ` set (im_groups im). sp_group p = Some i)"
  by (auto simp: read_entry_def Let_def props_of_def split: prod.splits if_splits option.splits dest!: map_of_SomeD)
    (metis image_eqI snd_conv)+

lemma read_batch_keyed:
  "read_batch im filters batch hashes = (filters', ws, hashes') \<Longrightarrow> keyed hashes \<Longrightarrow> in_groups im hashes \<Longrightarrow>
   keyed hashes' \<and> in_groups im hashes'"
proof (induction batch arbitrary: filters hashes ws)
  case (Cons info batch)
  obtain f1 w1 p where e: "read_entry im filters info = (f1, w1, p)" by (metis prod_cases3)
  let ?h = "case p of None \<Rightarrow> hashes | Some p \<Rightarrow> if map_of hashes (sp_hash p) = None then hashes @ [(sp_hash p, p)] else hashes"
  have "keyed ?h" using Cons.prems(2) by (auto simp: keyed_def map_of_eq_None_iff split: option.splits)
  moreover have "in_groups im ?h"
    using Cons.prems(3) read_entry_props [of im filters info f1 w1] e by (auto simp: in_groups_def split: option.splits)
  ultimately show ?case
    using Cons.prems(1) Cons.IH by (auto simp: e Let_def split: prod.splits)
qed simp

subsection \<open>Plan and writing\<close>

definition unique_hashes :: "'n stream_table_row list \<Rightarrow> bool" where
  "unique_hashes rows \<longleftrightarrow> distinct (map hash_of_row rows)"

lemma existing_row_simps [simp]:
  "existing_row [] h = None"
  "existing_row (r # rows) h = (if hash_of_row r = h then Some r else existing_row rows h)"
  by (simp_all add: existing_row_def)

lemma existing_row_Some: "existing_row rows h = Some r \<Longrightarrow> r \<in> set rows \<and> hash_of_row r = h"
  by (induction rows) (auto split: if_splits)

lemma existing_row_None: "existing_row rows h = None \<longleftrightarrow> h \<notin> hash_of_row ` set rows"
  by (induction rows) auto

lemma existing_row_mem: "unique_hashes rows \<Longrightarrow> r \<in> set rows \<Longrightarrow> existing_row rows (hash_of_row r) = Some r"
  by (induction rows) (auto simp: unique_hashes_def rev_image_eqI)

lemma existing_row_append:
  "existing_row (a @ b) h = (case existing_row a h of Some r \<Rightarrow> Some r | None \<Rightarrow> existing_row b h)"
  by (induction a) auto

lemma existing_row_map:
  "(\<And>r. r \<in> set rows \<Longrightarrow> hash_of_row (f r) = hash_of_row r) \<Longrightarrow> existing_row (map f rows) h = map_option f (existing_row rows h)"
  by (induction rows) auto

lemma hash_of_rows [simp]:
  "hash_of_row (changed_row now r p) = hash_of_row r" "hash_of_row (touched_row now r) = hash_of_row r"
  "hash_of_row (new_row now p) = sp_hash p" "hash_of_row (write_changed r obj) = hash_of_row r"
  "hash_of_row (write_touch r obj) = hash_of_row r"
  by (simp_all add: changed_row_def touched_row_def new_row_def write_changed_def write_touch_def hash_of_row_def)

lemma hash_write_row [simp]: "hash_of_row (write_row plan r) = hash_of_row r"
  by (simp add: write_row_def split: option.splits)

text \<open>The plan, hash by hash.\<close>

lemma plan_create:
  "keyed hashes \<Longrightarrow> existing_row (bp_create (plan_batch now rows hashes)) h =
   (if existing_row rows h = None then map_option (new_row now) (map_of hashes h) else None)"
  by (induction hashes) (auto simp: keyed_def Let_def split: option.splits if_splits)

lemma plan_existing:
  "keyed hashes \<Longrightarrow>
   existing_row (bp_update (plan_batch now rows hashes)) h =
     (case (existing_row rows h, map_of hashes h) of
        (Some r, Some p) \<Rightarrow> if props_changed (st_props r) p then Some (changed_row now r p) else None
      | _ \<Rightarrow> None)
   \<and> existing_row (bp_touch (plan_batch now rows hashes)) h =
     (case (existing_row rows h, map_of hashes h) of
        (Some r, Some p) \<Rightarrow> if props_changed (st_props r) p then None else Some (touched_row now r)
      | _ \<Rightarrow> None)"
proof (induction hashes)
  case (Cons hp hashes)
  obtain k p where hp: "hp = (k, p)" by (cases hp)
  have keyed: "keyed hashes" and k: "map_of hashes k = None" using Cons.prems by (auto simp: hp keyed_def map_of_eq_None_iff)
  note ih = Cons.IH [OF keyed]
  show ?case
    using ih k existing_row_Some [of rows k]
    by (cases "h = k"; cases "existing_row rows k")
      (auto simp: hp Let_def split: option.splits simp del: map_of_eq_Some_iff)
qed (simp split: option.split)

lemmas plan_update = plan_existing [THEN conjunct1] and plan_touch = plan_existing [THEN conjunct2]

text \<open>Every planned row, and how many there are.\<close>

lemma plan_create_rows:
  "keyed hashes \<Longrightarrow> bp_create (plan_batch now rows hashes) = map (new_row now \<circ> snd) (filter (\<lambda>(h, p). existing_row rows h = None) hashes)"
  by (induction hashes) (auto simp: Let_def keyed_def split: option.splits)

lemma fits_changed_row [simp]: "row_fits (st_props (changed_row now r p)) = row_fits p"
  by (simp add: row_fits_def changed_row_def)

lemma plan_update_fits:
  "\<forall>(h, p) \<in> set hashes. row_fits p \<Longrightarrow> r \<in> set (bp_update (plan_batch now rows hashes)) \<Longrightarrow> row_fits (st_props r)"
  by (induction hashes) (auto simp: Let_def split: option.splits if_splits)

lemma plan_length:
  "length (bp_create (plan_batch now rows hashes)) + length (bp_update (plan_batch now rows hashes))
   + length (bp_touch (plan_batch now rows hashes)) = length hashes"
  by (induction hashes) (auto simp: Let_def split: option.splits)

lemma plan_fits:
  assumes "keyed hashes" and "\<forall>(h, p) \<in> set hashes. row_fits p"
  shows "list_all (row_fits \<circ> st_props) (bp_create (plan_batch now rows hashes) @ bp_update (plan_batch now rows hashes))"
  using assms plan_update_fits [OF assms(2)] by (auto simp: list_all_iff plan_create_rows new_row_def)

text \<open>The rows after the batch, hash by hash.\<close>

definition imported_row :: "int \<Rightarrow> 'n stream_table_row option \<Rightarrow> 'n stream_props option \<Rightarrow> 'n stream_table_row option" where
  "imported_row now old new =
     (case (old, new) of
        (None, None) \<Rightarrow> None
      | (Some r, None) \<Rightarrow> Some r
      | (None, Some p) \<Rightarrow> Some (new_row now p)
      | (Some r, Some p) \<Rightarrow> Some (if props_changed (st_props r) p then changed_row now r p else touched_row now r))"

lemma write_changed_row: "write_changed r (changed_row now r p) = changed_row now r p"
  by (simp add: write_changed_def changed_row_def hash_of_row_def)

lemma write_touched_row: "write_touch r (touched_row now r) = touched_row now r"
  by (simp add: write_touch_def touched_row_def)

lemma batch_rows:
  assumes "keyed hashes" and "\<forall>(h, p) \<in> set hashes. row_fits p"
  shows "existing_row (write_batch rows (plan_batch now rows hashes)) h = imported_row now (existing_row rows h) (map_of hashes h)"
proof -
  let ?plan = "plan_batch now rows hashes"
  have create: "filter (\<lambda>r. existing_row rows (hash_of_row r) = None) (bp_create ?plan) = bp_create ?plan"
    using assms(1) by (auto simp: plan_create_rows keyed_def filter_id_conv)
  have "existing_row (write_batch rows ?plan) h =
      existing_row (map (write_row ?plan) rows @ bp_create ?plan) h"
    using plan_fits [OF assms] create by (simp add: write_batch_def)
  also have "\<dots> = (case map_option (write_row ?plan) (existing_row rows h) of Some r \<Rightarrow> Some r | None \<Rightarrow> existing_row (bp_create ?plan) h)"
    by (simp only: existing_row_append existing_row_map hash_write_row)
  also have "\<dots> = imported_row now (existing_row rows h) (map_of hashes h)"
  proof (cases "existing_row rows h")
    case None
    then show ?thesis
      using plan_create [OF assms(1)] by (simp add: imported_row_def split: option.splits)
  next
    case (Some r)
    then have "hash_of_row r = h" using existing_row_Some by blast
    then show ?thesis
      using Some plan_update [OF assms(1), of now rows h] plan_touch [OF assms(1), of now rows h]
      by (cases "map_of hashes h") (auto simp: imported_row_def write_row_def
          write_changed_row write_touched_row simp del: map_of_eq_Some_iff)
  qed
  finally show ?thesis .
qed

lemma write_batch_unique:
  assumes "unique_hashes rows" and "unique_hashes (bp_create plan)"
  shows "unique_hashes (write_batch rows plan)"
proof -
  let ?new = "filter (\<lambda>r. existing_row rows (hash_of_row r) = None) (bp_create plan)"
  have "distinct (map hash_of_row ?new)" using assms(2) by (simp add: unique_hashes_def distinct_map_filter)
  moreover have "map hash_of_row (map (write_row plan) rows) = map hash_of_row rows" by simp
  moreover have "set (map hash_of_row rows) \<inter> set (map hash_of_row ?new) = {}"
    by (auto simp: existing_row_None) (metis image_eqI)
  ultimately have "unique_hashes (map (write_row plan) rows @ ?new)"
    using assms(1) unfolding unique_hashes_def map_append distinct_append by (simp only: simp_thms)
  with assms(1) show ?thesis by (simp add: write_batch_def)
qed

lemma plan_create_unique: "keyed hashes \<Longrightarrow> unique_hashes (bp_create (plan_batch now rows hashes))"
proof -
  assume k: "keyed hashes"
  then have "map hash_of_row (bp_create (plan_batch now rows hashes)) = map fst (filter (\<lambda>(h, p). existing_row rows h = None) hashes)"
    by (auto simp: plan_create_rows keyed_def)
  with k show ?thesis by (simp add: unique_hashes_def keyed_def distinct_map_filter)
qed

subsection \<open>The counts in the message\<close>

lemma find_count_skip: "list_all (\<lambda>c. \<not> is_digit c) p \<Longrightarrow> find_count w (p @ s) = find_count w s"
  by (induction p) (simp_all add: find_count.simps [of w "_ # _"])

lemma find_count_run:
  assumes "ds \<noteq> []" "list_all is_digit ds" and "r \<noteq> []" "\<not> is_digit (hd r)"
  shows "find_count w (ds @ r) = (if starts_with w r then Some (nat_of_digits ds) else find_count w r)"
proof -
  obtain d ds' where ds: "ds = d # ds'" using assms(1) by (cases ds) auto
  have "dropWhile is_digit (ds @ r) = r" "takeWhile is_digit (ds @ r) = ds"
    using assms by (cases r; auto simp: dropWhile_append list_all_iff takeWhile_append2)+
  then show ?thesis using assms(2) by (subst find_count.simps) (simp add: ds)
qed

lemma find_count_nat:
  "r \<noteq> [] \<Longrightarrow> \<not> is_digit (hd r) \<Longrightarrow>
   find_count w (show_nat n @ r) = (if starts_with w r then Some n else find_count w r)"
  using find_count_run [of "show_nat n" r w] digits_show_nat [of n] by simp

lemma find_count_int:
  "r \<noteq> [] \<Longrightarrow> \<not> is_digit (hd r) \<Longrightarrow> \<not> starts_with w r \<Longrightarrow> find_count w (show_int i @ r) = find_count w r"
  using find_count_nat [of r w] find_count_skip [of "''-''" w] by (auto simp: show_int_def is_digit_def)

lemma find_count_char: "\<not> is_digit c \<Longrightarrow> find_count w (c # s) = find_count w s"
  using find_count_skip [of "[c]" w s] by simp

lemma find_count_digit:
  "is_digit c \<Longrightarrow> s \<noteq> [] \<Longrightarrow> \<not> is_digit (hd s) \<Longrightarrow> \<not> starts_with w s \<Longrightarrow> find_count w (c # s) = find_count w s"
  using find_count_run [of "[c]" s w] by simp

lemma counts_round_trip:
  "parse_batch_stream_counts (''M3U account: '' @ show_int account @ '', Batch processed: '' @ batch_stream_count_message c u n) = (c, u, n)"
  by (simp add: parse_batch_stream_counts_def batch_stream_count_message_def find_count_char find_count_digit find_count_int
      find_count_nat starts_with_def is_digit_def)

subsection \<open>The properties\<close>

lemma not_changed_rows [simp]:
  "\<not> props_changed (st_props (new_row now p)) p" "\<not> props_changed (st_props (changed_row now r p)) p"
  "props_changed (st_props (touched_row now r)) p = props_changed (st_props r) p"
  by (simp_all add: props_changed_def new_row_def changed_row_def touched_row_def same_members_def)

lemma imported_row_new:
  "imported_row now old (Some p) = Some r \<Longrightarrow>
   \<not> props_changed (st_props r) p \<and> st_last_seen r = now \<and> \<not> st_is_stale r
   \<and> sp_group (st_props r) = sp_group p"
  by (auto simp: imported_row_def split: option.splits if_splits)
    (auto simp: new_row_def changed_row_def touched_row_def props_changed_def)

text \<open>C20. A stream the provider lists is kept. Whatever was stored before, after a batch is imported every
  entry of it that is let in has a row under its hash with the entry's name, URL, logo, guide id, group and other fields,
  seen now and not stale, and neither the marking of stale streams nor the cleanup that follows takes
  it. This holds as long as the database accepts every row of the batch (a row that is too long, out of range
  or with a NUL undoes the whole batch), the groups of the import are among the enabled ones at the cleanup, the clock
  has not gone back since the refresh began, and the days a stream may be missing are not negative. Let
  in means: not refused by the filters or for its URL's length, in an enabled group, and the first of its
  hash in the batch. The account is not among the fields: a row of another account with the same hash stays with it.
  Nothing else writes streams between the three steps.\<close>

theorem imported_streams_survive_the_refresh:
  assumes "read_batch im filters batch [] = (filters', ws, hashes)"
    and "\<forall>(h, p) \<in> set hashes. row_fits p" and "snd ` set (im_groups im) \<subseteq> set enabled"
    and "refresh_start \<le> now" and "0 \<le> stale_period"
  shows "\<forall>(h, p) \<in> set hashes. \<exists>r \<in> set (fst (cleanup_streams (im_account im) enabled stale_period refresh_start
      (mark_stale (im_account im) refresh_start (fst (process_m3u_batch_direct im now filters batch rows))))).
      hash_of_row r = h \<and> st_last_seen r = now \<and> \<not> st_is_stale r \<and> \<not> props_changed (st_props r) p"
proof safe
  fix h p assume hp: "(h, p) \<in> set hashes"
  have k: "keyed hashes" and g: "in_groups im hashes"
    using read_batch_keyed [OF assms(1)] by (auto simp: keyed_def in_groups_def)
  let ?rows = "fst (process_m3u_batch_direct im now filters batch rows)"
  have "?rows = write_batch rows (plan_batch now rows hashes)"
    by (simp add: process_m3u_batch_direct_def assms(1) Let_def)
  moreover have "map_of hashes h = Some p" using hp k by (simp add: keyed_def)
  ultimately have "existing_row ?rows h = imported_row now (existing_row rows h) (Some p)"
    using batch_rows [OF k assms(2)] by simp
  then obtain r where r: "existing_row ?rows h = Some r" "imported_row now (existing_row rows h) (Some p) = Some r"
    by (auto simp: imported_row_def split: option.splits)
  note new = imported_row_new [OF r(2)]
  have mem: "r \<in> set ?rows" "hash_of_row r = h" using existing_row_Some [OF r(1)] by auto
  then have "r \<in> set (mark_stale (im_account im) refresh_start ?rows)"
    using new assms(4) by (force simp: mark_stale_def)
  moreover have "in_active_group enabled r"
    using g hp new assms(3) by (fastforce simp: in_groups_def in_active_group_def)
  ultimately have "r \<in> set (fst (cleanup_streams (im_account im) enabled stale_period refresh_start
      (mark_stale (im_account im) refresh_start ?rows)))"
    using new assms(4,5) by (simp add: cleanup_streams_def Let_def)
  with new mem show "\<exists>r \<in> set (fst (cleanup_streams (im_account im) enabled stale_period refresh_start
      (mark_stale (im_account im) refresh_start ?rows))).
      hash_of_row r = h \<and> st_last_seen r = now \<and> \<not> st_is_stale r \<and> \<not> props_changed (st_props r) p" by blast
qed

text \<open>The same batch imported again changes nothing but the time each of its streams was last seen and
  its stale flag: no row is created or updated, and the counts the refresh reads back from the message of the
  batch say so.\<close>

theorem same_batch_only_touches:
  assumes "read_batch im filters batch [] = (filters', ws, hashes)" and "\<forall>(h, p) \<in> set hashes. row_fits p"
    and "process_m3u_batch_direct im now filters batch rows = (rows1, filters1, ws1, message1)"
    and "process_m3u_batch_direct im later filters batch rows1 = (rows2, filters2, ws2, message2)"
  shows "rows2 = map (\<lambda>r. if hash_of_row r \<in> fst ` set hashes then touched_row later r else r) rows1
    \<and> parse_batch_stream_counts message2 = (0, 0, length hashes)"
proof -
  have k: "keyed hashes" using read_batch_keyed [OF assms(1)] by (auto simp: keyed_def in_groups_def)
  let ?plan = "plan_batch later rows1 hashes"
  have rows1: "rows1 = write_batch rows (plan_batch now rows hashes)"
    and rows2: "rows2 = write_batch rows1 ?plan"
    and message2: "message2 = ''M3U account: '' @ show_int (im_account im) @ '', Batch processed: ''
          @ batch_stream_count_message (length (bp_create ?plan)) (length (bp_update ?plan)) (length (bp_touch ?plan))"
    using assms(3,4) by (auto simp: process_m3u_batch_direct_def assms(1) Let_def)
  have old: "\<exists>r. existing_row rows1 h = Some r \<and> (\<forall>p. map_of hashes h = Some p \<longrightarrow> \<not> props_changed (st_props r) p)"
    if h: "h \<in> fst ` set hashes" for h
  proof -
    obtain p where p: "map_of hashes h = Some p" using h map_of_eq_None_iff [of hashes h] by (cases "map_of hashes h") simp_all
    have "imported_row now (existing_row rows h) (Some p) \<noteq> None" by (simp add: imported_row_def split: option.split)
    then obtain r where r: "imported_row now (existing_row rows h) (Some p) = Some r" by blast
    with p imported_row_new [OF r] show ?thesis using batch_rows [OF k assms(2)] by (simp add: rows1)
  qed
  have create: "bp_create ?plan = []"
  proof -
    have "existing_row rows1 (fst hp) \<noteq> None" if "hp \<in> set hashes" for hp
      using old [of "fst hp"] that by auto
    then have "filter (\<lambda>(h, p). existing_row rows1 h = None) hashes = []" by (auto simp: filter_empty_conv)
    then show ?thesis by (simp add: plan_create_rows [OF k])
  qed
  have "existing_row (bp_update ?plan) h = None" for h
  proof (cases "map_of hashes h")
    case (Some p)
    then have "h \<in> fst ` set hashes" using map_of_eq_None_iff [of hashes h] by auto
    then show ?thesis using plan_update [OF k, of later rows1 h] old [of h] Some by (auto simp del: map_of_eq_Some_iff)
  qed (use plan_update [OF k, of later rows1 h] in \<open>simp split: option.splits\<close>)
  then have update: "bp_update ?plan = []" by (metis existing_row_simps(2) neq_Nil_conv option.distinct(1))
  have touch: "existing_row (bp_touch ?plan) h =
      (if h \<in> fst ` set hashes then map_option (touched_row later) (existing_row rows1 h) else None)" for h
    using plan_touch [OF k, of later rows1 h] old [of h] map_of_eq_None_iff [of hashes h]
    by (cases "map_of hashes h") (auto split: option.splits)
  have "write_row ?plan r = (if hash_of_row r \<in> fst ` set hashes then touched_row later r else r)" for r
  proof (cases "hash_of_row r \<in> fst ` set hashes")
    case True
    then obtain ra where "existing_row rows1 (hash_of_row r) = Some ra" using old by blast
    moreover have "write_touch r (touched_row later ra) = touched_row later r" for ra
      by (simp add: write_touch_def touched_row_def)
    ultimately show ?thesis using True by (simp only: write_row_def update touch existing_row_simps option.case option.map if_True)
  next
    case False
    then show ?thesis by (simp only: write_row_def update touch existing_row_simps option.case if_False)
  qed
  then have "rows2 = map (\<lambda>r. if hash_of_row r \<in> fst ` set hashes then touched_row later r else r) rows1"
    by (simp add: rows2 write_batch_def create update)
  moreover have "length (bp_touch ?plan) = length hashes" using plan_length [of later rows1 hashes] create update by simp
  ultimately show ?thesis using counts_round_trip by (simp add: message2 create update)
qed

text \<open>Of an account's filters the first that matches decides, and without a match the stream is let in. A
  pattern runs into its time limit at most once for the whole list of entries a worker goes through.\<close>

theorem first_filter_decides_and_trips_once:
  "(stream_passes_m3u_filters regex_search name url g filters = (filters1, ok, ws) \<longrightarrow>
      ok = (case find (matches_now regex_search name url g) filters of None \<Rightarrow> True | Some cf \<Rightarrow> \<not> sf_exclude (fst cf)))
   \<and> (read_batch im filters batch hashes = (filters', warnings, hashes') \<longrightarrow>
      map fst filters' = map fst filters \<and> length warnings + untripped filters' = untripped filters
      \<and> length warnings \<le> length filters)"
proof -
  have "untripped filters \<le> length filters" by (simp add: untripped_def)
  then show ?thesis
    using filters_result [of regex_search name url g filters filters1 ok ws]
      read_batch_filters [of im filters batch hashes filters' warnings hashes'] by linarith
qed

text \<open>One row the database refuses keeps the whole batch out, although its message counts them all.\<close>

lemma refused_row_undoes_the_batch:
  "\<not> row_fits (st_props r) \<Longrightarrow> r \<in> set (bp_create plan @ bp_update plan) \<Longrightarrow> write_batch rows plan = rows"
  by (auto simp: write_batch_def list_all_iff)

lemma refused_batch_counts_its_rows:
  "parse_batch_stream_counts (snd (snd (snd (process_m3u_batch_direct im now filters batch rows))))
   = (let plan = plan_batch now rows (snd (snd (read_batch im filters batch [])))
      in (length (bp_create plan), length (bp_update plan), length (bp_touch plan)))"
  using counts_round_trip by (simp add: process_m3u_batch_direct_def Let_def split: prod.splits)

text \<open>A stream outside the groups that is also unseen is deleted once and counted twice.\<close>

lemma cleanup_counts_twice:
  "snd (cleanup_streams account [] 0 1 [r]) = 2" if "sp_account (st_props r) = account" "st_last_seen r = 0"
  using that by (simp add: cleanup_streams_def in_active_group_def Let_def split: option.splits)

text \<open>One entry imported over a stale row of the same hash, which the cleanup would have taken.\<close>

definition demo_import :: "int import_setup" where
  "demo_import = \<lparr>im_account = 7, im_account_type = STD, im_groups = [(''News'', 3)], im_hash_keys = [''name''],
     im_digest = (\<lambda>s. s), im_float = (\<lambda>_. None), im_search = (\<lambda>_ _ _. Not_Found)\<rparr>"

definition demo_entry :: stream_info where
  "demo_entry = \<lparr>si_name = ''One'', si_url = ''http://h/1'', si_attributes = [(''group-title'', Some ''News'')], si_vlc_opts = None\<rparr>"

definition demo_props :: "int stream_props" where
  "demo_props = \<lparr>sp_hash = ''{'' @ [CHR 0x22] @ ''name'' @ [CHR 0x22] @ '': '' @ [CHR 0x22] @ ''One'' @ [CHR 0x22] @ ''}'',
     sp_name = ''One'', sp_url = ''http://h/1'', sp_logo_url = Some [], sp_tvg_id = Some [], sp_account = 7, sp_group = Some 3,
     sp_attributes = [(''group-title'', Some ''News'')], sp_vlc_opts = None, sp_is_adult = False, sp_stream_id = None,
     sp_chno = None, sp_is_catchup = False, sp_catchup_days = 0\<rparr>"

definition demo_stored :: "int stream_table_row" where
  "demo_stored = \<lparr>st_props = demo_props\<lparr>sp_url := ''http://old/1''\<rparr>, st_last_seen = 0, st_updated_at = 0, st_is_stale = True\<rparr>"

lemma demo_batch_read: "read_batch demo_import [] [demo_entry] [] = ([], [], [(sp_hash demo_props, demo_props)])"
  by code_simp

lemma survive_witness:
  "\<exists>r \<in> set (fst (cleanup_streams 7 [3] 10 90
      (mark_stale 7 90 (fst (process_m3u_batch_direct demo_import 100 [] [demo_entry] [demo_stored]))))).
      st_last_seen r = 100 \<and> \<not> st_is_stale r \<and> sp_url (st_props r) = ''http://h/1''"
proof -
  have fits: "\<forall>(h, p) \<in> set [(sp_hash demo_props, demo_props)]. row_fits p"
    by (simp add: row_fits_def demo_props_def no_nul_def opt_text_def)
  have groups: "snd ` set (im_groups demo_import) \<subseteq> set [3]" and account: "im_account demo_import = 7"
    by (simp_all add: demo_import_def)
  show ?thesis
    using imported_streams_survive_the_refresh [OF demo_batch_read fits groups, of 90 100 10 "[demo_stored]"]
    unfolding account by (auto simp: props_changed_def demo_props_def)
qed

end
