(* ===== verification/Spec2Isabelle.thy ===== *)
theory Spec2Isabelle
  imports Pool_Properties Reconciler_Properties Channel_Properties Byte_Range Channel_Numbering Source_Properties Authorize_Hop VOD_Properties Chunk_Properties Catchup_Properties Redaction_Properties Image_Properties Keyspace Query_Properties Playlist_Properties Rehash_Properties Import_Properties
begin

text \<open>
  Verification development of Dispatcharr's control plane, the Django side of a streaming
  server whose byte path is a separate relay process.

  \<^bold>\<open>The program.\<close> A viewer asks for a channel. nginx asks Django whether the stream may be served
  (\<open>src/apps/proxy/authorize_views.py\<close>, \<open>authorize.py\<close>), the relay asks it what to play
  (\<open>next_source.py\<close>), and Django picks a stream and a provider profile with a free slot
  (\<open>src/apps/channels/models.py\<close>, \<open>src/apps/m3u/connection_pool.py\<close>). The slots are counters in
  Redis, shared by every worker, the VOD proxy and catch-up; a reconciler
  (\<open>src/apps/proxy/slot_reconciler.py\<close>) compares them with the streams that really run and
  repairs them. Beside this core the program numbers channels, serves byte ranges, limits the
  streams of a user and locks its tasks.

  \<^bold>\<open>Shared state.\<close> \<open>Redis_Store\<close> is the keyspace: one association list of string and hash values
  with expiries, and the commands the code uses. \<open>Redis_Keys\<close> has the key builders and the facts
  that keep the families apart. \<open>Provider_Model\<close> has the rows of accounts, profiles, streams and
  channels. \<open>Prelude\<close> and \<open>Py_Text\<close> hold the dictionaries, the loop over candidates and the
  string operations of Python; text is Latin-1, as WSGI decodes header bytes.

  \<^bold>\<open>Parts.\<close>
  \<^item> \<open>Connection_Pool\<close> (\<open>connection_pool.py\<close>): the Lua script (\<open>script_reserve\<close>, \<open>script_release\<close>,
    \<open>script_switch\<close>, \<open>script_reconcile\<close>) and the Python functions that call it. The locale
    \<open>stamped_counters\<close> states what a counter with a version promises; \<open>slot_step\<close> and \<open>slot_trace\<close>
    are the interleavings of the workers' operations with other writes. \<open>Pool_Properties\<close>: a
    reserve is all or nothing, limits hold over any interleaving, versions record every change,
    the counters refine a ledger of leases, and the two ways a shared login's counter drifts.
  \<^item> \<open>Credentials\<close> and \<open>Urls\<close> (\<open>src/apps/m3u/tasks.py\<close>, \<open>utils.py\<close>, \<open>src/core/xtream_codes.py\<close>): the
    login behind a profile and its fingerprint. The \<open>regex\<close> package and SHA-256 are the argument
    \<open>libs\<close>.
  \<^item> \<open>Slot_Reconciler\<close>, \<open>Held_Records\<close>, \<open>Relay_Client\<close> (\<open>slot_reconciler.py\<close>,
    \<open>vod_proxy/held_records.py\<close>, \<open>relay_client.py\<close>): one reconciler run reads the store at four
    moments, given as the record of reads; the relay's answers are arguments.
    \<open>Reconciler_Properties\<close>: it moves a counter only toward the holders it saw, never over a change
    it did not see, and repairs a drift two runs agree on.
  \<^item> \<open>Channel_Streams\<close> (\<open>channels/models.py\<close>): which stream and profile a channel plays, kept in two
    pointers. The locale \<open>slot_source\<close> is the interface to the slots. \<open>Channel_Properties\<close>: the first
    free candidate wins, a tune and its release balance, and the cases in which shared pointers
    do not.
  \<^item> \<open>Commands\<close> (\<open>src/core/models.py\<close>) and \<open>Next_Source\<close> (\<open>next_source.py\<close>): the command line of a
    source, with \<open>shlex.split\<close>, and every answer to the relay. \<open>Source_Properties\<close>: the order of a
    failover, what a failed resolution leaves, and the agreement of the answer's fields.
  \<^item> \<open>Ip_Network\<close> (\<open>src/dispatcharr/utils.py\<close>): addresses and networks as machine words, the client's
    address behind proxies, and the access lists. \<open>Internal_Auth\<close> (\<open>internal_auth.py\<close>): the signed
    headers between the deployment's processes; the keyed digest is an argument.
  \<^item> \<open>Stream_Limits\<close> (\<open>src/apps/proxy/utils.py\<close>): a user's connections, the check of the limit and the
    stop of an old stream. \<open>Catchup_Sessions\<close> (\<open>src/apps/timeshift/sessions.py\<close>): playback sessions.
  \<^item> \<open>Authorize\<close>, \<open>Authorize_Hop\<close> (\<open>authorize.py\<close>, \<open>authorize_views.py\<close>,
    \<open>src/apps/accounts/authentication.py\<close>): the decision to serve a stream and its way to the relay.
    \<open>Authorize_Properties\<close> and the end of \<open>Authorize_Hop\<close>: a grant passed every check, and the
    relay gets back what the hop decided.
  \<^item> \<open>Json_Text\<close>, \<open>VOD_Sessions\<close>, \<open>VOD_Manager\<close> (\<open>vod_proxy/multi_worker_connection_manager.py\<close>): the
    session record of a VOD viewer with its Lua scripts, and a request from the choice of its session
    to the end of its generator. \<open>VOD_Properties\<close>: what a session stores is what is read, a viewer
    alone returns every slot, and the two ways requests unbalance the counters.
  \<^item> \<open>Catchup_Ranges\<close>, \<open>Catchup_Pool\<close> (\<open>src/apps/timeshift/views.py\<close>): the ranges and lengths of an archive
    and of the presentation of a seek in it; the pool entry of a session, the generations and stop
    keys, and the walk over a channel's archive streams. \<open>Catchup_Properties\<close>: a request charges what
    it streams, a seek hands its slot over, and a late takeover releases twice. \<open>Slot_Balance\<close> has the
    locale \<open>slot_taker\<close>, what VOD and catch-up need of a reserve and its release.
  \<^item> \<open>Chunk_Cache\<close>, \<open>Chunk_Properties\<close> (\<open>src/apps/output/streaming_chunk_cache.py\<close>): the cache of large
    responses, one step for each Redis command of any number of requests (\<open>cache_step\<close>): one leader
    and one document while no build fails, and what a failed build lets happen.
  \<^item> \<open>Redaction\<close>, \<open>Redaction_Properties\<close> (\<open>src/dispatcharr/utils.py\<close>): what logs print of a URL and of
    headers, and that it does not depend on the credentials in them.
  \<^item> \<open>Outbound_Fetch\<close>, \<open>Outbound_Properties\<close> (\<open>src/core/http_security.py\<close>) and \<open>Image_Proxy\<close>,
    \<open>Image_Properties\<close> (\<open>src/core/image_proxy.py\<close>): the check of an outbound URL and the fetch that
    repeats it on each redirect; what a strict check admits, that credentials stay with their origin,
    and what of a remote image is served and remembered.
  \<^item> \<open>Byte_Range\<close> (\<open>vod_proxy/byte_range.py\<close>), \<open>Channel_Numbering\<close> (\<open>channels/compact_numbering.py\<close> and
    the number search of \<open>m3u/tasks.py\<close>), \<open>Locks\<close> (\<open>src/core/utils.py\<close>,
    \<open>src/dispatcharr/persistent_lock.py\<close>).
  \<^item> \<open>Text_Query\<close>, \<open>Query_Properties\<close> (\<open>src/apps/epg/query_utils.py\<close>): the search expressions over the
    guide, on Latin-1 text; an expression of groups that are not nested becomes the condition it says,
    and of Latin-1 text only one with a sharp s makes the parser raise.
  \<^item> \<open>M3U_Playlist\<close>, \<open>Playlist_Properties\<close> (\<open>src/apps/m3u/tasks.py\<close>, \<open>utils.py\<close>, and \<open>generate_m3u\<close> of
    \<open>src/apps/output/views.py\<close>): the lines of a playlist, read and written; what is written is read
    back as the channels it lists.
  \<^item> \<open>Stream_Identity\<close> (\<open>src/apps/channels/models.py\<close>), \<open>Stream_Rehash\<close>, \<open>Rehash_Properties\<close>
    (\<open>src/core/tasks.py\<close>): the hash a stream is known by and the task that gives every stream its hash
    anew; what makes two streams one, what a rehash keeps of the channels' lists, and the row that is
    merged with itself.
  \<^item> \<open>M3U_Import\<close>, \<open>Import_Properties\<close> (\<open>src/apps/m3u/tasks.py\<close>, \<open>utils.py\<close>): a batch of entries from
    the filters to the rows of the streams, the stale marks and the cleanup; what is listed is kept,
    the same batch again only touches it, and the first filter that matches decides.
  \<^item> \<open>Keyspace\<close>: the operations of channels, VOD, catch-up, the heartbeat and the reconciler as one
    step relation (\<open>keyspace_step\<close>), and that every interleaving of them keeps the type of the slot
    keys.

  \<^bold>\<open>How the code corresponds.\<close> A definition has the name of its function where HOL leaves it free.
  A Python \<open>None\<close> is an option, an exception or an early error return is the left side of a sum
  or a constructor of an error type, a dictionary whose order matters is an association list.
  A row of the database is a record and a request sees one consistent read of the tables. A
  worker's Redis command is one step; a Lua script is one step, as Redis runs it.

  \<^bold>\<open>Bounds.\<close> Only the reader of JSON objects takes fuel, the length of its text, which no
  object has more members than. Every other recursion is structural or over a range that
  shrinks; \<open>next_available_number\<close>, whose loop has no end in the source when the range has none,
  is shown to return the least free number. Integers of Python are unbounded here as there;
  addresses are 32 and 128 bit words and the bytes of a stream 8 bit words.

  \<^bold>\<open>Not modelled.\<close> The relay (Go) and the frontend are other languages. The Django parts left out
  are views and tasks that are mostly database queries, downloads, files or processes: the
  downloads and the group sync of the M3U import, the EPG and VOD imports, the output of guides, the DVR, backups, plugins, the REST
  interfaces and the settings. Of the catch-up views the decision between reuse, takeover and a new
  session and the statistics are left out. Query results, the clock, the
  random numbers, the relay's answers and third-party libraries are arguments.
\<close>

end
